(* ===== verification/Prelude.thy ===== *)
theory Prelude
  imports Complex_Main "HOL-Library.AList" "HOL-Library.Multiset" "HOL-Library.Char_ord"
    "HOL-Library.List_Lexorder"
begin

text \<open>
  Shared vocabulary of the development: Go strings as byte lists with the functions of the
  \<^verbatim>\<open>strings\<close> and \<^verbatim>\<open>strconv\<close> packages that the engine calls, 64-bit signed integers as
  \<open>int\<close> with the wrap-around written out, Go maps as association lists with distinct
  keys (the order of the list is the order in which a \<^verbatim>\<open>range\<close> loop visits the map, which Go
  leaves open, so a theorem about every association list is a theorem about every visiting
  order), and the generic lemmas the components use.
\<close>

named_theorems go_defs \<open>definitions of small library helpers, to be unfolded\<close>
named_theorems go_wrap \<open>laws of the wrapped 64-bit arithmetic\<close>

section \<open>Bytes and strings\<close>

type_synonym byte = char
type_synonym gostring = string

definition NUL :: byte where
  "NUL = CHR 0x00"

definition is_digit :: "byte \<Rightarrow> bool" where
  "is_digit c \<longleftrightarrow> CHR ''0'' \<le> c \<and> c \<le> CHR ''9''"

definition digit_val :: "byte \<Rightarrow> int" where
  "digit_val c = of_char c - 48"

definition digit_char :: "int \<Rightarrow> byte" where
  "digit_char d = char_of (48 + d)"

text \<open>ASCII case mapping, the part of \<^verbatim>\<open>strings.ToUpper\<close> and \<^verbatim>\<open>strings.ToLower\<close> that
  decides a comparison with an ASCII keyword: the only letters outside ASCII that map to an
  ASCII letter are dotless i, long s, the Kelvin sign and capital dotted I, and none of their
  images occurs in a position of the keywords they are compared with.\<close>

definition to_upper :: "byte \<Rightarrow> byte" where
  "to_upper c = (if CHR ''a'' \<le> c \<and> c \<le> CHR ''z'' then char_of ((of_char c :: nat) - 32) else c)"

definition to_lower :: "byte \<Rightarrow> byte" where
  "to_lower c = (if CHR ''A'' \<le> c \<and> c \<le> CHR ''Z'' then char_of ((of_char c :: nat) + 32) else c)"

definition str_upper :: "gostring \<Rightarrow> gostring" where
  "str_upper s = map to_upper s"

definition str_lower :: "gostring \<Rightarrow> gostring" where
  "str_lower s = map to_lower s"

text \<open>\<^verbatim>\<open>string(b)\<close> of a byte \<^verbatim>\<open>b\<close> is the UTF-8 encoding of the code point \<^verbatim>\<open>b\<close>.\<close>

definition string_of_byte :: "byte \<Rightarrow> gostring" where
  "string_of_byte c =
     (let n = (of_char c :: nat)
      in if n < 128 then [c] else [char_of (192 + n div 64), char_of (128 + n mod 64)])"

text \<open>\<^verbatim>\<open>strings.HasPrefix\<close>, \<^verbatim>\<open>HasSuffix\<close>, \<^verbatim>\<open>Contains\<close> and \<^verbatim>\<open>SplitN(s, sep, 2)\<close>.\<close>

fun has_prefix :: "gostring \<Rightarrow> gostring \<Rightarrow> bool" where
  "has_prefix s [] = True"
| "has_prefix [] (p # ps) = False"
| "has_prefix (c # s) (p # ps) = (c = p \<and> has_prefix s ps)"

definition has_suffix :: "gostring \<Rightarrow> gostring \<Rightarrow> bool" where
  "has_suffix s p = has_prefix (rev s) (rev p)"

fun str_cut :: "gostring \<Rightarrow> gostring \<Rightarrow> (gostring \<times> gostring) option" where
  "str_cut sep [] = (if sep = [] then Some ([], []) else None)"
| "str_cut sep (c # s) =
     (if has_prefix (c # s) sep then Some ([], drop (length sep) (c # s))
      else map_option (\<lambda>(a, b). (c # a, b)) (str_cut sep s))"

definition str_contains :: "gostring \<Rightarrow> gostring \<Rightarrow> bool" where
  "str_contains s sub = (str_cut sub s \<noteq> None)"

text \<open>\<^verbatim>\<open>strings.Split\<close> with a one-byte separator.\<close>

fun split_on :: "byte \<Rightarrow> gostring \<Rightarrow> gostring list" where
  "split_on sep [] = [[]]"
| "split_on sep (c # s) =
     (if c = sep then [] # split_on sep s
      else (case split_on sep s of [] \<Rightarrow> [[c]] | w # ws \<Rightarrow> (c # w) # ws))"

text \<open>\<^verbatim>\<open>strings.TrimSpace\<close> removes Unicode white space, given here by its UTF-8 encodings.\<close>

definition go_spaces :: "gostring list" where
  "go_spaces =
     [[CHR 0x20], [CHR 0x09], [CHR 0x0A], [CHR 0x0B], [CHR 0x0C], [CHR 0x0D],
      [CHR 0xC2, CHR 0x85], [CHR 0xC2, CHR 0xA0], [CHR 0xE1, CHR 0x9A, CHR 0x80],
      [CHR 0xE2, CHR 0x80, CHR 0x80], [CHR 0xE2, CHR 0x80, CHR 0x81],
      [CHR 0xE2, CHR 0x80, CHR 0x82], [CHR 0xE2, CHR 0x80, CHR 0x83],
      [CHR 0xE2, CHR 0x80, CHR 0x84], [CHR 0xE2, CHR 0x80, CHR 0x85],
      [CHR 0xE2, CHR 0x80, CHR 0x86], [CHR 0xE2, CHR 0x80, CHR 0x87],
      [CHR 0xE2, CHR 0x80, CHR 0x88], [CHR 0xE2, CHR 0x80, CHR 0x89],
      [CHR 0xE2, CHR 0x80, CHR 0x8A], [CHR 0xE2, CHR 0x80, CHR 0xA8],
      [CHR 0xE2, CHR 0x80, CHR 0xA9], [CHR 0xE2, CHR 0x80, CHR 0xAF],
      [CHR 0xE2, CHR 0x81, CHR 0x9F], [CHR 0xE3, CHR 0x80, CHR 0x80]]"

function trim_prefixes :: "gostring list \<Rightarrow> gostring \<Rightarrow> gostring" where
  "trim_prefixes ps s =
     (case find (\<lambda>p. p \<noteq> [] \<and> has_prefix s p) ps of
        None \<Rightarrow> s
      | Some p \<Rightarrow> if s = [] then s else trim_prefixes ps (drop (length p) s))"
  by pat_completeness auto
termination
  by (relation "measure (\<lambda>(ps, s). length s)") (auto simp: find_Some_iff)

declare trim_prefixes.simps [simp del]

definition trim_space :: "gostring \<Rightarrow> gostring" where
  "trim_space s =
     rev (trim_prefixes (map rev go_spaces) (rev (trim_prefixes go_spaces s)))"

section \<open>Decimal integers\<close>

text \<open>The decimal digits of a number that is not negative, and Go's rendering of an integer.\<close>

function show_dec :: "int \<Rightarrow> gostring" where
  "show_dec n = (if n < 10 then [digit_char n] else show_dec (n div 10) @ [digit_char (n mod 10)])"
  by pat_completeness auto
termination
  by (relation "measure nat") auto

declare show_dec.simps [simp del]

definition show_int :: "int \<Rightarrow> gostring" where
  "show_int i = (if i < 0 then CHR ''-'' # show_dec (- i) else show_dec i)"

definition digits_val :: "gostring \<Rightarrow> int" where
  "digits_val s = foldl (\<lambda>n c. 10 * n + digit_val c) 0 s"

text \<open>The signed 64-bit range, and the wrap-around of \<^verbatim>\<open>int64\<close> and \<^verbatim>\<open>int\<close> arithmetic on a
  64-bit platform.\<close>

definition int64_min :: int where "int64_min = - (2 ^ 63)"
definition int64_max :: int where "int64_max = 2 ^ 63 - 1"

definition in_int64 :: "int \<Rightarrow> bool" where
  "in_int64 i \<longleftrightarrow> int64_min \<le> i \<and> i \<le> int64_max"

definition wrap64 :: "int \<Rightarrow> int" where
  "wrap64 i = (i + 2 ^ 63) mod 2 ^ 64 - 2 ^ 63"

text \<open>Go's integer division and remainder truncate towards zero.\<close>

definition go_div :: "int \<Rightarrow> int \<Rightarrow> int" where
  "go_div a b = sgn a * sgn b * (\<bar>a\<bar> div \<bar>b\<bar>)"

definition go_mod :: "int \<Rightarrow> int \<Rightarrow> int" where
  "go_mod a b = a - b * go_div a b"

text \<open>\<^verbatim>\<open>strconv.ParseInt(s, 10, 64)\<close> and \<^verbatim>\<open>strconv.Atoi\<close>: an optional sign, one or more
  decimal digits, and a value in range.\<close>

definition parse_int :: "gostring \<Rightarrow> int option" where
  "parse_int s =
     (let (neg, ds) = (case s of
            [] \<Rightarrow> (False, [])
          | c # cs \<Rightarrow> if c = CHR ''-'' then (True, cs)
                      else if c = CHR ''+'' then (False, cs) else (False, c # cs))
      in if ds = [] \<or> \<not> list_all is_digit ds then None
         else let v = (if neg then - digits_val ds else digits_val ds)
              in if in_int64 v then Some v else None)"

section \<open>Maps as association lists\<close>

type_synonym ('k, 'v) gomap = "('k \<times> 'v) list"

definition map_keys :: "('k, 'v) gomap \<Rightarrow> 'k list" where
  "map_keys m = map fst m"

definition map_wf :: "('k, 'v) gomap \<Rightarrow> bool" where
  "map_wf m = distinct (map fst m)"

section \<open>Lemmas\<close>

subsection \<open>Digits and decimal numbers\<close>

lemma of_char_digit_char: "0 \<le> d \<Longrightarrow> d < 10 \<Longrightarrow> of_char (digit_char d) = 48 + d"
  by (simp add: digit_char_def)

lemma is_digit_of_char: "is_digit c \<longleftrightarrow> 48 \<le> (of_char c :: int) \<and> (of_char c :: int) \<le> 57"
proof -
  have "is_digit c \<longleftrightarrow> 48 \<le> (of_char c :: nat) \<and> (of_char c :: nat) \<le> 57"
    by (simp add: is_digit_def less_eq_char_def)
  also have "\<dots> \<longleftrightarrow> 48 \<le> int (of_char c) \<and> int (of_char c) \<le> 57"
    by linarith
  finally show ?thesis by (simp only: of_nat_of_char)
qed

lemma digit_char_is_digit [simp]: "0 \<le> d \<Longrightarrow> d < 10 \<Longrightarrow> is_digit (digit_char d)"
  by (simp add: is_digit_of_char of_char_digit_char)

lemma digit_val_digit_char [simp]: "0 \<le> d \<Longrightarrow> d < 10 \<Longrightarrow> digit_val (digit_char d) = d"
  by (simp add: digit_val_def of_char_digit_char)

lemma digit_val_nonneg: "is_digit c \<Longrightarrow> 0 \<le> digit_val c"
  by (simp add: is_digit_of_char digit_val_def)

lemma show_dec_nonempty [simp]: "show_dec n \<noteq> []"
  by (subst show_dec.simps) simp

lemma show_dec_digits: "0 \<le> n \<Longrightarrow> list_all is_digit (show_dec n)"
proof (induction n rule: show_dec.induct)
  case (1 n)
  then show ?case by (cases "n < 10") (simp_all add: show_dec.simps [of n])
qed

lemma digits_val_snoc [simp]: "digits_val (s @ [c]) = 10 * digits_val s + digit_val c"
  by (simp add: digits_val_def)

lemma digits_val_single [simp]: "digits_val [c] = digit_val c"
  by (simp add: digits_val_def)

lemma digits_val_show_dec: "0 \<le> n \<Longrightarrow> digits_val (show_dec n) = n"
proof (induction n rule: show_dec.induct)
  case (1 n)
  then show ?case by (cases "n < 10") (simp_all add: show_dec.simps [of n])
qed

lemma show_dec_Cons_digit: "0 \<le> n \<Longrightarrow> \<exists>c cs. show_dec n = c # cs \<and> is_digit c \<and> list_all is_digit cs"
  using show_dec_digits [of n] by (cases "show_dec n") simp_all

lemma digit_not_sign: "is_digit c \<Longrightarrow> c \<noteq> CHR ''-'' \<and> c \<noteq> CHR ''+''"
  by (auto simp: is_digit_of_char)

lemma parse_int_show_int:
  assumes "in_int64 i"
  shows "parse_int (show_int i) = Some i"
proof (cases "i < 0")
  case True
  then show ?thesis
    using assms by (simp add: parse_int_def show_int_def show_dec_digits digits_val_show_dec)
next
  case False
  then obtain c cs where c: "show_dec i = c # cs" "is_digit c" "list_all is_digit cs"
    using show_dec_Cons_digit [of i] by auto
  with False assms digits_val_show_dec [of i] digit_not_sign [of c]
  show ?thesis by (simp add: parse_int_def show_int_def)
qed

subsection \<open>Wrapped arithmetic\<close>

lemma wrap64_id [go_wrap]: "in_int64 i \<Longrightarrow> wrap64 i = i"
  by (simp add: wrap64_def in_int64_def int64_min_def int64_max_def)

lemma wrap64_range [simp]: "in_int64 (wrap64 i)"
proof -
  have "0 \<le> (i + 2 ^ 63) mod 2 ^ 64" "(i + 2 ^ 63) mod 2 ^ 64 < (2 ^ 64 :: int)"
    by simp_all
  then show ?thesis
    by (simp add: wrap64_def in_int64_def int64_min_def int64_max_def)
qed

lemma wrap64_cong: "wrap64 a = wrap64 b \<longleftrightarrow> a mod 2 ^ 64 = b mod (2 ^ 64 :: int)"
proof -
  have "wrap64 a = wrap64 b \<longleftrightarrow> (a + 2 ^ 63) mod 2 ^ 64 = (b + 2 ^ 63) mod (2 ^ 64 :: int)"
    by (simp add: wrap64_def)
  also have "\<dots> \<longleftrightarrow> a mod 2 ^ 64 = b mod (2 ^ 64 :: int)"
    by (simp add: mod_eq_dvd_iff)
  finally show ?thesis .
qed

lemma wrap64_mod [simp]: "wrap64 a mod 2 ^ 64 = a mod 2 ^ 64"
proof -
  have "wrap64 (wrap64 a) = wrap64 a"
    by (rule wrap64_id) simp
  then show ?thesis by (simp only: wrap64_cong)
qed

lemma wrap64_add_left [go_wrap]: "wrap64 (wrap64 a + b) = wrap64 (a + b)"
  unfolding wrap64_cong by (metis mod_add_left_eq wrap64_mod)

lemma wrap64_add_right [go_wrap]: "wrap64 (a + wrap64 b) = wrap64 (a + b)"
  using wrap64_add_left [of b a] by (simp add: add.commute)

lemma in_int64_zero [simp]: "in_int64 0"
  by (simp add: in_int64_def int64_min_def int64_max_def)

lemma wrap64_zero [simp]: "wrap64 0 = 0"
  by (simp add: wrap64_def)

text \<open>A loop that adds with wrap-around computes the wrapped sum, in whatever order.\<close>

lemma foldl_wrap64:
  "wrap64 (foldl (\<lambda>acc x. wrap64 (acc + f x)) a xs) = wrap64 (a + sum_list (map f xs))"
  by (induction xs arbitrary: a) (simp_all add: go_wrap add.assoc)

lemma foldl_wrap64_zero:
  "foldl (\<lambda>acc x. wrap64 (acc + f x)) 0 xs = wrap64 (sum_list (map f xs))"
proof -
  have "in_int64 (foldl (\<lambda>acc x. wrap64 (acc + f x)) 0 xs)"
    by (induction xs rule: rev_induct) simp_all
  then have "foldl (\<lambda>acc x. wrap64 (acc + f x)) 0 xs
      = wrap64 (foldl (\<lambda>acc x. wrap64 (acc + f x)) 0 xs)"
    by (simp add: wrap64_id)
  then show ?thesis by (simp add: foldl_wrap64)
qed

lemma go_div_nonneg [simp]: "0 \<le> a \<Longrightarrow> 0 < b \<Longrightarrow> go_div a b = a div b"
  by (cases "a = 0") (simp_all add: go_div_def)

lemma go_mod_nonneg [simp]: "0 \<le> a \<Longrightarrow> 0 < b \<Longrightarrow> go_mod a b = a mod b"
  by (simp add: go_mod_def minus_mult_div_eq_mod)

lemma go_div_mod: "go_div a b * b + go_mod a b = a"
  by (simp add: go_mod_def)

subsection \<open>Strings\<close>

lemma has_prefix_iff: "has_prefix s p \<longleftrightarrow> (\<exists>r. s = p @ r)"
  by (induction s p rule: has_prefix.induct) auto

lemma str_cut_Some: "str_cut sep s = Some (a, b) \<Longrightarrow> s = a @ sep @ b"
proof (induction s arbitrary: a)
  case Nil
  then show ?case by (simp split: if_splits)
next
  case (Cons c s)
  show ?case
  proof (cases "has_prefix (c # s) sep")
    case True
    with Cons.prems have ab: "a = []" "b = drop (length sep) (c # s)" by simp_all
    from True obtain r where "c # s = sep @ r" by (auto simp: has_prefix_iff)
    with ab show ?thesis by simp
  next
    case False
    with Cons.prems obtain a' where "a = c # a'" "str_cut sep s = Some (a', b)"
      by (auto split: prod.splits)
    with Cons.IH show ?thesis by simp
  qed
qed

lemma str_cut_first: "c \<notin> set a \<Longrightarrow> str_cut (c # sep) (a @ (c # sep) @ b) = Some (a, b)"
proof (induction a)
  case Nil
  have "has_prefix (sep @ b) sep" by (simp add: has_prefix_iff)
  then show ?case by simp
next
  case (Cons x a)
  then show ?case by auto
qed

lemma str_contains_iff: "str_contains s sub \<longleftrightarrow> (\<exists>a b. s = a @ sub @ b)"
proof
  assume "str_contains s sub"
  then show "\<exists>a b. s = a @ sub @ b"
    using str_cut_Some [of sub s] by (force simp: str_contains_def)
next
  assume "\<exists>a b. s = a @ sub @ b"
  then obtain a b where s: "s = a @ sub @ b" by blast
  have "str_cut sub (a @ sub @ b) \<noteq> None"
  proof (induction a)
    case Nil
    have "has_prefix (sub @ b) sub" by (auto simp: has_prefix_iff)
    then show ?case by (cases "sub @ b") auto
  next
    case (Cons c a)
    then show ?case by auto
  qed
  with s show "str_contains s sub" by (simp add: str_contains_def)
qed

lemma split_on_nonempty [simp]: "split_on sep s \<noteq> []"
  by (cases s) (auto split: list.splits)

lemma split_on_no_sep: "w \<in> set (split_on sep s) \<Longrightarrow> sep \<notin> set w"
proof (induction s arbitrary: w)
  case Nil
  then show ?case by simp
next
  case (Cons c s)
  then show ?case
    by (cases "split_on sep s") (auto split: if_splits)
qed

text \<open>Joining with the separator undoes \<^const>\<open>split_on\<close>.\<close>

fun join_with :: "gostring \<Rightarrow> gostring list \<Rightarrow> gostring" where
  "join_with sep [] = []"
| "join_with sep [w] = w"
| "join_with sep (w # v # ws) = w @ sep @ join_with sep (v # ws)"

lemma join_split_on: "join_with [sep] (split_on sep s) = s"
proof (induction s)
  case Nil
  then show ?case by simp
next
  case (Cons c s)
  obtain w ws where w: "split_on sep s = w # ws"
    by (cases "split_on sep s") auto
  with Cons show ?case by (cases ws) auto
qed

lemma split_on_single: "sep \<notin> set s \<Longrightarrow> split_on sep s = [s]"
  by (induction s) auto

lemma split_on_append: "sep \<notin> set w \<Longrightarrow> split_on sep (w @ sep # s) = w # split_on sep s"
  by (induction w) auto

lemma split_on_join:
  "ws \<noteq> [] \<Longrightarrow> \<forall>w \<in> set ws. sep \<notin> set w \<Longrightarrow> split_on sep (join_with [sep] ws) = ws"
proof (induction ws rule: induct_list012)
  case (3 w v ws)
  then show ?case by (simp add: split_on_append)
qed (simp_all add: split_on_single)

lemma split_on_length: "(1 < length (split_on sep s)) = (sep \<in> set s)"
proof (induction s)
  case Nil
  then show ?case by simp
next
  case (Cons c s)
  then show ?case
    by (cases "split_on sep s") (auto split: list.splits)
qed

subsection \<open>Maps\<close>

lemma map_wf_update [simp]: "map_wf m \<Longrightarrow> map_wf (AList.update k v m)"
  by (simp add: map_wf_def distinct_update)

lemma map_wf_delete [simp]: "map_wf m \<Longrightarrow> map_wf (AList.delete k m)"
  by (simp add: map_wf_def distinct_delete)

lemma map_wf_Nil [simp]: "map_wf []"
  by (simp add: map_wf_def)

lemma map_of_filter_keys:
  "map_wf m \<Longrightarrow> map_of (filter P m) k = (case map_of m k of
     None \<Rightarrow> None | Some v \<Rightarrow> if P (k, v) then Some v else None)"
  by (induction m) (auto simp: map_wf_def split: option.splits dest: map_of_SomeD
      intro: rev_image_eqI)

lemma map_of_Some_iff_in_set: "map_wf m \<Longrightarrow> map_of m k = Some v \<longleftrightarrow> (k, v) \<in> set m"
  by (simp add: map_wf_def)

lemma map_of_None_keys: "map_of m k = None \<longleftrightarrow> k \<notin> fst ` set m"
  by (rule map_of_eq_None_iff)

text \<open>Sorting by a key that identifies the elements forgets the order of the input.\<close>

lemma sort_key_order_irrelevant:
  assumes "distinct (map f xs)" "mset xs = mset ys"
  shows "sort_key f xs = sort_key f ys"
proof (rule map_sorted_distinct_set_unique)
  have s: "set ys = set xs" using assms(2) by (metis set_mset_mset)
  have d: "distinct (map f ys)"
    using assms mset_eq_imp_distinct_iff [of "map f xs" "map f ys"] by simp
  show "inj_on f (set (sort_key f xs) \<union> set (sort_key f ys))"
    using assms(1) s by (simp add: distinct_map)
  show "distinct (map f (sort_key f xs))" "distinct (map f (sort_key f ys))"
    using assms(1) d mset_eq_imp_distinct_iff [of "map f (sort_key f xs)" "map f xs"]
      mset_eq_imp_distinct_iff [of "map f (sort_key f ys)" "map f ys"] by simp_all
  show "set (sort_key f xs) = set (sort_key f ys)" using s by simp
qed simp_all

end
