(* ===== verification/Expr_Lexer.thy ===== *)
theory Expr_Lexer
  imports Prelude
begin

text \<open>
  The tokenizer of condition expressions (\<^verbatim>\<open>internal/expression/token.go\<close> and \<^verbatim>\<open>lexer.go\<close>): a
  byte cursor with the positions and the current byte as its state, one definition per method.
  The second half relates the cursor to the unread input: a lexer that was made by
  \<^verbatim>\<open>NewLexer\<close> and has only been read from is \<^verbatim>\<open>lexer_at\<close> some position, and \<^verbatim>\<open>NextToken\<close>
  computes \<^verbatim>\<open>scan_token\<close> of the unread input.
\<close>

named_theorems lexer_simps \<open>evaluation of the cursor in terms of the unread input\<close>

section \<open>Tokens\<close>

datatype token_type =
  TokenEOF | TokenIllegal
| TokenIdent | TokenInt | TokenFloat | TokenString | TokenBool
| TokenVarRef
| TokenEQ | TokenNE | TokenLT | TokenGT | TokenLE | TokenGE
| TokenAND | TokenOR | TokenNOT
| TokenLParen | TokenRParen

fun token_type_String :: "token_type \<Rightarrow> gostring" where
  "token_type_String TokenEOF = ''EOF''"
| "token_type_String TokenIllegal = ''ILLEGAL''"
| "token_type_String TokenIdent = ''IDENT''"
| "token_type_String TokenInt = ''INT''"
| "token_type_String TokenFloat = ''FLOAT''"
| "token_type_String TokenString = ''STRING''"
| "token_type_String TokenBool = ''BOOL''"
| "token_type_String TokenVarRef = ''VARREF''"
| "token_type_String TokenEQ = ''==''"
| "token_type_String TokenNE = ''!=''"
| "token_type_String TokenLT = ''<''"
| "token_type_String TokenGT = ''>''"
| "token_type_String TokenLE = ''<=''"
| "token_type_String TokenGE = ''>=''"
| "token_type_String TokenAND = ''AND''"
| "token_type_String TokenOR = ''OR''"
| "token_type_String TokenNOT = ''NOT''"
| "token_type_String TokenLParen = ''(''"
| "token_type_String TokenRParen = '')''"

record token =
  tok_type :: token_type
  tok_literal :: gostring
  tok_pos :: nat

section \<open>The lexer\<close>

record lexer =
  lx_input :: gostring
  lx_pos :: nat
  lx_readPos :: nat
  lx_ch :: byte

definition readChar :: "lexer \<Rightarrow> lexer" where
  "readChar l =
     l\<lparr>lx_ch := (if length (lx_input l) \<le> lx_readPos l then NUL else lx_input l ! lx_readPos l),
       lx_pos := lx_readPos l,
       lx_readPos := lx_readPos l + 1\<rparr>"

definition NewLexer :: "gostring \<Rightarrow> lexer" where
  "NewLexer input = readChar \<lparr>lx_input = input, lx_pos = 0, lx_readPos = 0, lx_ch = NUL\<rparr>"

definition peekChar :: "lexer \<Rightarrow> byte" where
  "peekChar l =
     (if length (lx_input l) \<le> lx_readPos l then NUL else lx_input l ! lx_readPos l)"

text \<open>\<^verbatim>\<open>unicode.IsLetter(rune(ch))\<close> of a byte: the letters of ASCII and of Latin-1.\<close>

definition isLetter :: "byte \<Rightarrow> bool" where
  "isLetter c =
     (let n = (of_char c :: nat)
      in 65 \<le> n \<and> n \<le> 90 \<or> 97 \<le> n \<and> n \<le> 122 \<or> n = 170 \<or> n = 181 \<or> n = 186 \<or>
         192 \<le> n \<and> n \<le> 214 \<or> 216 \<le> n \<and> n \<le> 246 \<or> 248 \<le> n \<or> c = CHR ''_'')"

definition isDigit :: "byte \<Rightarrow> bool" where
  "isDigit c = is_digit c"

definition lookupIdent :: "gostring \<Rightarrow> token_type" where
  "lookupIdent ident =
     (let upper = str_upper ident
      in if upper = ''AND'' then TokenAND
         else if upper = ''OR'' then TokenOR
         else if upper = ''NOT'' then TokenNOT
         else if upper = ''TRUE'' \<or> upper = ''FALSE'' then TokenBool
         else TokenIdent)"

text \<open>The loops of the lexer advance while the current byte satisfies a condition that the
  end-of-input byte does not satisfy. They end because the current byte becomes \<^const>\<open>NUL\<close> at
  the end of the input.\<close>

definition unread :: "lexer \<Rightarrow> nat" where
  "unread l = (if lx_ch l = NUL then 0 else Suc (length (lx_input l) - lx_readPos l))"

lemma unread_readChar: "lx_ch l \<noteq> NUL \<Longrightarrow> unread (readChar l) < unread l"
  by (auto simp: unread_def readChar_def)

function readWhile :: "(byte \<Rightarrow> bool) \<Rightarrow> lexer \<Rightarrow> lexer" where
  "readWhile P l = (if P (lx_ch l) \<and> lx_ch l \<noteq> NUL then readWhile P (readChar l) else l)"
  by pat_completeness auto
termination
  by (relation "measure (\<lambda>(P, l). unread l)") (auto simp: unread_readChar)

declare readWhile.simps [simp del]

definition is_space :: "byte \<Rightarrow> bool" where
  "is_space c \<longleftrightarrow> c = CHR '' '' \<or> c = CHR 0x09 \<or> c = CHR 0x0A \<or> c = CHR 0x0D"

definition skipWhitespace :: "lexer \<Rightarrow> lexer" where
  "skipWhitespace l = readWhile is_space l"

text \<open>\<^verbatim>\<open>l.input[i:j]\<close>\<close>

definition slice :: "gostring \<Rightarrow> nat \<Rightarrow> nat \<Rightarrow> gostring" where
  "slice s i j = take (j - i) (drop i s)"

definition readIdentifier :: "lexer \<Rightarrow> token \<times> lexer" where
  "readIdentifier l =
     (let pos = lx_pos l;
          l1 = readWhile (\<lambda>c. isLetter c \<or> isDigit c \<or> c = CHR ''_'') l;
          literal = slice (lx_input l1) pos (lx_pos l1)
      in (\<lparr>tok_type = lookupIdent literal, tok_literal = literal, tok_pos = pos\<rparr>, l1))"

definition readNumber :: "lexer \<Rightarrow> token \<times> lexer" where
  "readNumber l =
     (let pos = lx_pos l;
          l1 = (if lx_ch l = CHR ''-'' then readChar l else l);
          l2 = readWhile isDigit l1;
          isFloat = (lx_ch l2 = CHR ''.'' \<and> isDigit (peekChar l2));
          l3 = (if isFloat then readWhile isDigit (readChar l2) else l2);
          literal = slice (lx_input l3) pos (lx_pos l3)
      in (\<lparr>tok_type = (if isFloat then TokenFloat else TokenInt), tok_literal = literal,
           tok_pos = pos\<rparr>, l3))"

definition readString :: "lexer \<Rightarrow> token \<times> lexer" where
  "readString l =
     (let pos = lx_pos l;
          quote = lx_ch l;
          l1 = readChar l;
          start = lx_pos l1;
          l2 = readWhile (\<lambda>c. c \<noteq> quote) l1;
          literal = slice (lx_input l2) start (lx_pos l2);
          l3 = (if lx_ch l2 = quote then readChar l2 else l2)
      in (\<lparr>tok_type = TokenString, tok_literal = literal, tok_pos = pos\<rparr>, l3))"

definition brace_depth :: "byte \<Rightarrow> nat \<Rightarrow> nat" where
  "brace_depth c d = (if c = CHR 0x7B then d + 1 else if c = CHR 0x7D then d - 1 else d)"

function varRefLoop :: "nat \<Rightarrow> lexer \<Rightarrow> lexer" where
  "varRefLoop depth l =
     (if 0 < depth \<and> lx_ch l \<noteq> NUL then
        (let depth' = brace_depth (lx_ch l) depth
         in if 0 < depth' then varRefLoop depth' (readChar l) else l)
      else l)"
  by pat_completeness auto
termination
  by (relation "measure (\<lambda>(d, l). unread l)") (auto simp: unread_readChar)

declare varRefLoop.simps [simp del]

definition readVarRef :: "lexer \<Rightarrow> token \<times> lexer" where
  "readVarRef l =
     (let pos = lx_pos l;
          l1 = readChar (readChar l);
          start = lx_pos l1;
          l2 = varRefLoop 1 l1;
          literal = slice (lx_input l2) start (lx_pos l2);
          l3 = (if lx_ch l2 = CHR 0x7D then readChar l2 else l2)
      in (\<lparr>tok_type = TokenVarRef, tok_literal = literal, tok_pos = pos\<rparr>, l3))"

definition mk_token :: "token_type \<Rightarrow> gostring \<Rightarrow> nat \<Rightarrow> token" where
  "mk_token ty lit pos = \<lparr>tok_type = ty, tok_literal = lit, tok_pos = pos\<rparr>"

definition NextToken :: "lexer \<Rightarrow> token \<times> lexer" where
  "NextToken l0 =
     (let l = skipWhitespace l0; pos = lx_pos l; ch = lx_ch l
      in if ch = CHR ''='' then
           (if peekChar l = CHR ''='' then
              (let l1 = readChar l; l2 = (if peekChar l1 = CHR ''='' then readChar l1 else l1)
               in (mk_token TokenEQ ''=='' pos, readChar l2))
            else (mk_token TokenIllegal (string_of_byte ch) pos, readChar l))
         else if ch = CHR ''!'' then
           (if peekChar l = CHR ''='' then
              (let l1 = readChar l; l2 = (if peekChar l1 = CHR ''='' then readChar l1 else l1)
               in (mk_token TokenNE ''!='' pos, readChar l2))
            else (mk_token TokenIllegal (string_of_byte ch) pos, readChar l))
         else if ch = CHR ''<'' then
           (if peekChar l = CHR ''='' then (mk_token TokenLE ''<='' pos, readChar (readChar l))
            else (mk_token TokenLT ''<'' pos, readChar l))
         else if ch = CHR ''>'' then
           (if peekChar l = CHR ''='' then (mk_token TokenGE ''>='' pos, readChar (readChar l))
            else (mk_token TokenGT ''>'' pos, readChar l))
         else if ch = CHR ''('' then (mk_token TokenLParen ''('' pos, readChar l)
         else if ch = CHR '')'' then (mk_token TokenRParen '')'' pos, readChar l)
         else if ch = CHR ''$'' then
           (if peekChar l = CHR 0x7B then readVarRef l
            else (mk_token TokenIllegal (string_of_byte ch) pos, readChar l))
         else if ch = CHR 0x22 \<or> ch = CHR 0x27 then readString l
         else if ch = NUL then (mk_token TokenEOF [] pos, readChar l)
         else if isDigit ch \<or> ch = CHR ''-'' \<and> isDigit (peekChar l) then readNumber l
         else if isLetter ch then readIdentifier l
         else (mk_token TokenIllegal (string_of_byte ch) pos, readChar l))"

section \<open>The tokenizer as a function of the unread input\<close>

definition hd0 :: "gostring \<Rightarrow> byte" where
  "hd0 s = (case s of [] \<Rightarrow> NUL | c # _ \<Rightarrow> c)"

definition lexer_at :: "gostring \<Rightarrow> nat \<Rightarrow> lexer" where
  "lexer_at input p =
     \<lparr>lx_input = input, lx_pos = p, lx_readPos = Suc p, lx_ch = hd0 (drop p input)\<rparr>"

definition lspan :: "(byte \<Rightarrow> bool) \<Rightarrow> gostring \<Rightarrow> gostring" where
  "lspan P s = takeWhile (\<lambda>c. P c \<and> c \<noteq> NUL) s"

fun var_body :: "nat \<Rightarrow> gostring \<Rightarrow> gostring" where
  "var_body d [] = []"
| "var_body d (c # cs) =
     (if 0 < d \<and> c \<noteq> NUL \<and> 0 < brace_depth c d then c # var_body (brace_depth c d) cs else [])"

definition scan_ident :: "gostring \<Rightarrow> token_type \<times> gostring \<times> nat" where
  "scan_ident s = (let w = lspan (\<lambda>c. isLetter c \<or> isDigit c \<or> c = CHR ''_'') s
                   in (lookupIdent w, w, length w))"

definition scan_number :: "gostring \<Rightarrow> token_type \<times> gostring \<times> nat" where
  "scan_number s =
     (let a = (if hd0 s = CHR ''-'' then 1 else 0);
          b = a + length (lspan isDigit (drop a s));
          frac = (hd0 (drop b s) = CHR ''.'' \<and> isDigit (hd0 (drop (Suc b) s)));
          c = (if frac then Suc b + length (lspan isDigit (drop (Suc b) s)) else b)
      in (if frac then TokenFloat else TokenInt, take c s, c))"

definition scan_string :: "gostring \<Rightarrow> token_type \<times> gostring \<times> nat" where
  "scan_string s =
     (let q = hd0 s; w = lspan (\<lambda>c. c \<noteq> q) (drop 1 s); n = Suc (length w)
      in (TokenString, w, if hd0 (drop n s) = q then Suc n else n))"

definition scan_var :: "gostring \<Rightarrow> token_type \<times> gostring \<times> nat" where
  "scan_var s =
     (let w = var_body 1 (drop 2 s); n = 2 + length w
      in (TokenVarRef, w, if hd0 (drop n s) = CHR 0x7D then Suc n else n))"

text \<open>The token at the start of the input (blanks already skipped): its type, its literal and
  the number of bytes it takes.\<close>

definition scan_token :: "gostring \<Rightarrow> token_type \<times> gostring \<times> nat" where
  "scan_token s =
     (let c = hd0 s; c1 = hd0 (drop 1 s); c2 = hd0 (drop 2 s)
      in if c = CHR ''='' then
           (if c1 = CHR ''='' then (TokenEQ, ''=='', if c2 = CHR ''='' then 3 else 2)
            else (TokenIllegal, string_of_byte c, 1))
         else if c = CHR ''!'' then
           (if c1 = CHR ''='' then (TokenNE, ''!='', if c2 = CHR ''='' then 3 else 2)
            else (TokenIllegal, string_of_byte c, 1))
         else if c = CHR ''<'' then
           (if c1 = CHR ''='' then (TokenLE, ''<='', 2) else (TokenLT, ''<'', 1))
         else if c = CHR ''>'' then
           (if c1 = CHR ''='' then (TokenGE, ''>='', 2) else (TokenGT, ''>'', 1))
         else if c = CHR ''('' then (TokenLParen, ''('', 1)
         else if c = CHR '')'' then (TokenRParen, '')'', 1)
         else if c = CHR ''$'' then
           (if c1 = CHR 0x7B then scan_var s else (TokenIllegal, string_of_byte c, 1))
         else if c = CHR 0x22 \<or> c = CHR 0x27 then scan_string s
         else if c = NUL then (TokenEOF, [], 1)
         else if isDigit c \<or> c = CHR ''-'' \<and> isDigit c1 then scan_number s
         else if isLetter c then scan_ident s
         else (TokenIllegal, string_of_byte c, 1))"

subsection \<open>Cursor lemmas\<close>

lemma lexer_at_sel [simp]:
  "lx_input (lexer_at s p) = s" "lx_pos (lexer_at s p) = p"
  "lx_readPos (lexer_at s p) = Suc p" "lx_ch (lexer_at s p) = hd0 (drop p s)"
  by (simp_all add: lexer_at_def)

lemma hd0_drop: "hd0 (drop p s) = (if length s \<le> p then NUL else s ! p)"
  by (cases "p < length s") (simp_all add: hd0_def Cons_nth_drop_Suc [symmetric])

lemma hd0_Nil [simp]: "hd0 [] = NUL"
  by (simp add: hd0_def)

lemma hd0_Cons [simp]: "hd0 (c # cs) = c"
  by (simp add: hd0_def)

lemma readChar_at [lexer_simps]: "readChar (lexer_at s p) = lexer_at s (Suc p)"
  by (simp add: readChar_def lexer_at_def hd0_drop)

lemma NewLexer_at [lexer_simps]: "NewLexer s = lexer_at s 0"
  using hd0_drop [of 0 s] by (simp add: NewLexer_def readChar_def lexer_at_def)

lemma peekChar_at [lexer_simps]: "peekChar (lexer_at s p) = hd0 (drop (Suc p) s)"
  by (simp add: peekChar_def hd0_drop)

lemma lspan_Nil [simp]: "lspan P [] = []"
  by (simp add: lspan_def)

lemma lspan_Cons: "lspan P (c # cs) = (if P c \<and> c \<noteq> NUL then c # lspan P cs else [])"
  by (simp add: lspan_def)

lemma readWhile_at [lexer_simps]:
  "readWhile P (lexer_at s p) = lexer_at s (p + length (lspan P (drop p s)))"
proof (induction "length s - p" arbitrary: p)
  case 0
  then show ?case by (subst readWhile.simps) simp
next
  case (Suc n)
  then have p: "p < length s" by simp
  then have d: "drop p s = s ! p # drop (Suc p) s" by (simp add: Cons_nth_drop_Suc)
  from Suc.hyps(2) have IH:
    "readWhile P (lexer_at s (Suc p)) = lexer_at s (Suc p + length (lspan P (drop (Suc p) s)))"
    by (intro Suc.hyps(1)) simp
  show ?case
    by (subst readWhile.simps) (simp add: d lspan_Cons readChar_at IH)
qed

lemma varRefLoop_at [lexer_simps]:
  "varRefLoop d (lexer_at s p) = lexer_at s (p + length (var_body d (drop p s)))"
proof (induction "length s - p" arbitrary: p d)
  case 0
  then show ?case by (subst varRefLoop.simps) simp
next
  case (Suc n)
  then have "p < length s" by simp
  then have d: "drop p s = s ! p # drop (Suc p) s" by (simp add: Cons_nth_drop_Suc)
  from Suc.hyps(2) have IH: "varRefLoop e (lexer_at s (Suc p)) =
      lexer_at s (Suc p + length (var_body e (drop (Suc p) s)))" for e
    by (intro Suc.hyps(1)) simp
  show ?case
    by (subst varRefLoop.simps) (simp add: d readChar_at IH Let_def)
qed

lemma slice_take: "slice s p (p + n) = take n (drop p s)"
  by (simp add: slice_def)

lemma take_lspan: "take (length (lspan P s)) s = lspan P s"
  by (simp add: lspan_def takeWhile_eq_take [symmetric])

lemma var_body_prefix: "take (length (var_body d s)) s = var_body d s"
  by (induction d s rule: var_body.induct) simp_all

text \<open>Reading one token: the cursor moves over the blanks and the bytes of the token.\<close>

theorem NextToken_scan:
  "NextToken (lexer_at s p) =
     (let k = length (lspan is_space (drop p s)); (ty, lit, n) = scan_token (drop (p + k) s)
      in (\<lparr>tok_type = ty, tok_literal = lit, tok_pos = p + k\<rparr>, lexer_at s (p + k + n)))"
proof -
  define q where "q = p + length (lspan is_space (drop p s))"
  have skip: "skipWhitespace (lexer_at s p) = lexer_at s q"
    by (simp add: skipWhitespace_def lexer_simps q_def)
  have ident: "readIdentifier (lexer_at s q) =
      (case scan_ident (drop q s) of (ty, lit, n) \<Rightarrow>
        (\<lparr>tok_type = ty, tok_literal = lit, tok_pos = q\<rparr>, lexer_at s (q + n)))"
    by (simp add: readIdentifier_def scan_ident_def Let_def lexer_simps slice_take take_lspan)
  have number: "readNumber (lexer_at s q) =
      (case scan_number (drop q s) of (ty, lit, n) \<Rightarrow>
        (\<lparr>tok_type = ty, tok_literal = lit, tok_pos = q\<rparr>, lexer_at s (q + n)))"
    by (simp add: readNumber_def scan_number_def Let_def lexer_simps slice_def ac_simps)
  have string: "readString (lexer_at s q) =
      (case scan_string (drop q s) of (ty, lit, n) \<Rightarrow>
        (\<lparr>tok_type = ty, tok_literal = lit, tok_pos = q\<rparr>, lexer_at s (q + n)))"
    by (simp add: readString_def scan_string_def Let_def lexer_simps slice_def take_lspan
        add.commute)
  have var: "readVarRef (lexer_at s q) =
      (case scan_var (drop q s) of (ty, lit, n) \<Rightarrow>
        (\<lparr>tok_type = ty, tok_literal = lit, tok_pos = q\<rparr>, lexer_at s (q + n)))"
    by (simp add: readVarRef_def scan_var_def Let_def lexer_simps slice_def var_body_prefix
        add.commute)
  show ?thesis
    unfolding NextToken_def skip
    by (simp add: Let_def scan_token_def mk_token_def lexer_simps ident number string var
        q_def [symmetric] add.commute numeral_eq_Suc split: prod.splits)
qed

text \<open>Every token but the end of input takes at least one byte and none beyond the input, so
  the slices taken by the lexer are within bounds and repeated reading reaches the end.\<close>

lemma length_lspan_le: "length (lspan P s) \<le> length s"
  by (simp add: lspan_def length_takeWhile_le)

lemma var_body_length: "length (var_body d s) \<le> length s"
  by (induction d s rule: var_body.induct) simp_all

lemma lspan_pos: "P (hd0 s) \<Longrightarrow> hd0 s \<noteq> NUL \<Longrightarrow> 0 < length (lspan P s)"
  by (cases s) (simp_all add: lspan_Cons)

lemma isDigit_not_NUL: "isDigit c \<Longrightarrow> c \<noteq> NUL"
  by (auto simp: isDigit_def NUL_def is_digit_of_char)

lemma isLetter_not_NUL: "isLetter c \<Longrightarrow> c \<noteq> NUL"
  by (auto simp: isLetter_def NUL_def)

lemma hd0_in_range: "hd0 (drop n s) \<noteq> NUL \<Longrightarrow> n < length s"
  by (simp add: hd0_drop split: if_splits)

lemma scan_number_bounds:
  assumes "isDigit (hd0 s) \<or> hd0 s = CHR ''-'' \<and> isDigit (hd0 (drop 1 s))"
    and "scan_number s = (ty, lit, n)"
  shows "0 < n \<and> n \<le> length s \<and> ty \<noteq> TokenEOF"
proof -
  define a where "a = (if hd0 s = CHR ''-'' then 1 else 0 :: nat)"
  define b where "b = a + length (lspan isDigit (drop a s))"
  have digit: "isDigit (hd0 (drop a s))"
    using assms(1) by (auto simp: a_def isDigit_def is_digit_of_char)
  then have a: "a < length s" using hd0_in_range isDigit_not_NUL by blast
  have b: "0 < b" "b \<le> length s"
    using lspan_pos [of isDigit "drop a s"] digit isDigit_not_NUL
      length_lspan_le [of isDigit "drop a s"] a by (auto simp: b_def)
  have c: "Suc b + length (lspan isDigit (drop (Suc b) s)) \<le> length s"
    if "isDigit (hd0 (drop (Suc b) s))"
    using hd0_in_range [of "Suc b" s] isDigit_not_NUL [OF that]
      length_lspan_le [of isDigit "drop (Suc b) s"] by simp
  from assms(2) b c show ?thesis
    by (auto simp: scan_number_def Let_def a_def [symmetric] b_def [symmetric] split: if_splits)
qed

lemma scan_string_bounds:
  assumes "hd0 s \<noteq> NUL" and "scan_string s = (ty, lit, n)"
  shows "0 < n \<and> n \<le> length s \<and> ty \<noteq> TokenEOF"
proof -
  let ?w = "lspan (\<lambda>c. c \<noteq> hd0 s) (drop 1 s)"
  from assms(1) have "s \<noteq> []" by auto
  then have "Suc (length ?w) \<le> length s"
    using length_lspan_le [of "\<lambda>c. c \<noteq> hd0 s" "drop 1 s"] by (cases s) auto
  moreover have "Suc (length ?w) < length s" if "hd0 (drop (Suc (length ?w)) s) = hd0 s"
    using that assms(1) by (intro hd0_in_range) simp
  ultimately show ?thesis
    using assms(2) by (auto simp: scan_string_def Let_def)
qed

lemma scan_var_bounds:
  assumes "hd0 s \<noteq> NUL" "hd0 (drop 1 s) \<noteq> NUL" and "scan_var s = (ty, lit, n)"
  shows "0 < n \<and> n \<le> length s \<and> ty \<noteq> TokenEOF"
proof -
  let ?w = "var_body 1 (drop 2 s)"
  have "2 + length ?w \<le> length s"
    using hd0_in_range [OF assms(2)] var_body_length [of 1 "drop 2 s"] by simp
  moreover have "2 + length ?w < length s" if "hd0 (drop (2 + length ?w) s) = CHR 0x7D"
    using that by (intro hd0_in_range) (simp add: NUL_def)
  ultimately show ?thesis
    using assms(3) by (auto simp: scan_var_def Let_def)
qed

lemma lookupIdent_not_EOF: "lookupIdent w \<noteq> TokenEOF"
  by (simp add: lookupIdent_def Let_def)

lemma scan_ident_bounds:
  assumes "isLetter (hd0 s)" and "scan_ident s = (ty, lit, n)"
  shows "0 < n \<and> n \<le> length s \<and> ty \<noteq> TokenEOF"
  using assms lspan_pos [of "\<lambda>c. isLetter c \<or> isDigit c \<or> c = CHR ''_''" s]
    length_lspan_le [of "\<lambda>c. isLetter c \<or> isDigit c \<or> c = CHR ''_''" s] isLetter_not_NUL
  by (auto simp: scan_ident_def Let_def lookupIdent_not_EOF)

theorem scan_token_bounds:
  assumes "scan_token s = (ty, lit, n)"
  shows "0 < n \<and> (ty \<noteq> TokenEOF \<longleftrightarrow> hd0 s \<noteq> NUL) \<and> (ty \<noteq> TokenEOF \<longrightarrow> n \<le> length s)"
proof (cases "hd0 s = NUL")
  case True
  with assms show ?thesis by (auto simp: scan_token_def NUL_def Let_def)
next
  case False
  then have s: "s \<noteq> []" by auto
  have one: "1 \<le> length s" using s by (cases s) auto
  have two: "2 \<le> length s" if "hd0 (drop 1 s) = CHR ''=''"
    using hd0_in_range [of 1 s] that by (simp add: NUL_def)
  have three: "3 \<le> length s" if "hd0 (drop 2 s) = CHR ''=''"
    using hd0_in_range [of 2 s] that by (simp add: NUL_def)
  have var: "hd0 (drop 1 s) \<noteq> NUL" if "hd0 (drop 1 s) = CHR 0x7B"
    using that by (simp add: NUL_def)
  show ?thesis
    using assms False one two three
      scan_number_bounds [of s ty lit n] scan_string_bounds [of s ty lit n]
      scan_var_bounds [of s ty lit n] scan_ident_bounds [of s ty lit n] var
    by (auto simp: scan_token_def Let_def split: if_splits)
qed

end
