(* ===== verification/Go_Float.thy ===== *)
theory Go_Float
  imports Prelude "HOL-Library.Log_Nat"
begin

text \<open>
  Go's \<^verbatim>\<open>float64\<close> and \<^verbatim>\<open>float32\<close>: IEEE 754 binary numbers with round-to-nearest-even, as a
  signed magnitude that is an exact rational. The rounding function is executable and generic
  in the precision, so the same definitions give \<^verbatim>\<open>float32\<close>. On top of it stand the arithmetic
  and the comparisons the engine uses, \<^verbatim>\<open>strconv.ParseFloat\<close> and the \<^verbatim>\<open>%v\<close> formatting of
  package \<^verbatim>\<open>fmt\<close>. The lemmas show that rounding is monotone, exact on representable numbers,
  and hence that integers up to \<^verbatim>\<open>2^53\<close> survive the conversion.
\<close>

section \<open>Rounding\<close>

definition rne :: "rat \<Rightarrow> int" where
  "rne x =
     (let f = \<lfloor>x\<rfloor>; d = x - of_int f
      in if d < 1 / 2 then f else if 1 / 2 < d then f + 1 else if even f then f else f + 1)"

definition ilog2 :: "rat \<Rightarrow> int" where
  "ilog2 x =
     (let (n, d) = quotient_of x; k = bitlen n - bitlen d
      in if 2 powi k \<le> x then k else k - 1)"

definition quantum :: "int \<Rightarrow> int \<Rightarrow> rat \<Rightarrow> int" where
  "quantum p emin x = max (ilog2 x - (p - 1)) emin"

definition round_pos :: "int \<Rightarrow> int \<Rightarrow> rat \<Rightarrow> rat" where
  "round_pos p emin x =
     (if x = 0 then 0
      else let q = quantum p emin x in of_int (rne (x / 2 powi q)) * 2 powi q)"

section \<open>The type float64\<close>

datatype float64 = F_NaN | F_Inf (f_neg: bool) | F_Fin (f_neg: bool) (f_mag: rat)

definition f64_round :: "bool \<Rightarrow> rat \<Rightarrow> float64" where
  "f64_round neg x =
     (let m = round_pos 53 (-1074) x
      in if m \<noteq> 0 \<and> 1024 \<le> ilog2 m then F_Inf neg else F_Fin neg m)"

definition f64_of_int :: "int \<Rightarrow> float64" where
  "f64_of_int i = f64_round (i < 0) (of_int \<bar>i\<bar>)"

fun f64_val :: "float64 \<Rightarrow> rat" where
  "f64_val (F_Fin s m) = (if s then - m else m)"
| "f64_val _ = 0"

fun f64_add :: "float64 \<Rightarrow> float64 \<Rightarrow> float64" where
  "f64_add F_NaN _ = F_NaN"
| "f64_add _ F_NaN = F_NaN"
| "f64_add (F_Inf s) (F_Inf t) = (if s = t then F_Inf s else F_NaN)"
| "f64_add (F_Inf s) (F_Fin _ _) = F_Inf s"
| "f64_add (F_Fin _ _) (F_Inf t) = F_Inf t"
| "f64_add (F_Fin s a) (F_Fin t b) =
     (let v = f64_val (F_Fin s a) + f64_val (F_Fin t b)
      in if v = 0 then F_Fin (s \<and> t) 0 else f64_round (v < 0) \<bar>v\<bar>)"

fun f64_minus :: "float64 \<Rightarrow> float64" where
  "f64_minus F_NaN = F_NaN"
| "f64_minus (F_Inf s) = F_Inf (\<not> s)"
| "f64_minus (F_Fin s a) = F_Fin (\<not> s) a"

definition f64_sub :: "float64 \<Rightarrow> float64 \<Rightarrow> float64" where
  "f64_sub a b = f64_add a (f64_minus b)"

fun f64_mul :: "float64 \<Rightarrow> float64 \<Rightarrow> float64" where
  "f64_mul F_NaN _ = F_NaN"
| "f64_mul _ F_NaN = F_NaN"
| "f64_mul (F_Inf s) (F_Inf t) = F_Inf (s \<noteq> t)"
| "f64_mul (F_Inf s) (F_Fin t b) = (if b = 0 then F_NaN else F_Inf (s \<noteq> t))"
| "f64_mul (F_Fin s a) (F_Inf t) = (if a = 0 then F_NaN else F_Inf (s \<noteq> t))"
| "f64_mul (F_Fin s a) (F_Fin t b) = f64_round (s \<noteq> t) (a * b)"

fun f64_div :: "float64 \<Rightarrow> float64 \<Rightarrow> float64" where
  "f64_div F_NaN _ = F_NaN"
| "f64_div _ F_NaN = F_NaN"
| "f64_div (F_Inf s) (F_Inf t) = F_NaN"
| "f64_div (F_Inf s) (F_Fin t b) = F_Inf (s \<noteq> t)"
| "f64_div (F_Fin s a) (F_Inf t) = F_Fin (s \<noteq> t) 0"
| "f64_div (F_Fin s a) (F_Fin t b) =
     (if b = 0 then (if a = 0 then F_NaN else F_Inf (s \<noteq> t)) else f64_round (s \<noteq> t) (a / b))"

fun f64_lt :: "float64 \<Rightarrow> float64 \<Rightarrow> bool" where
  "f64_lt F_NaN _ = False"
| "f64_lt _ F_NaN = False"
| "f64_lt (F_Inf s) (F_Inf t) = (s \<and> \<not> t)"
| "f64_lt (F_Inf s) (F_Fin _ _) = s"
| "f64_lt (F_Fin _ _) (F_Inf t) = (\<not> t)"
| "f64_lt (F_Fin s a) (F_Fin t b) = (f64_val (F_Fin s a) < f64_val (F_Fin t b))"

fun f64_eq :: "float64 \<Rightarrow> float64 \<Rightarrow> bool" where
  "f64_eq (F_Inf s) (F_Inf t) = (s = t)"
| "f64_eq (F_Fin s a) (F_Fin t b) = (f64_val (F_Fin s a) = f64_val (F_Fin t b))"
| "f64_eq _ _ = False"

definition f64_le :: "float64 \<Rightarrow> float64 \<Rightarrow> bool" where
  "f64_le a b = (f64_lt a b \<or> f64_eq a b)"

text \<open>Go's conversion of a float to an integer truncates; on the platforms in use it gives the smallest
  integer when the value does not fit.\<close>

definition f64_to_int :: "float64 \<Rightarrow> int" where
  "f64_to_int f =
     (case f of
        F_Fin s m \<Rightarrow> (let i = (if s then - \<lfloor>m\<rfloor> else \<lfloor>m\<rfloor>) in if in_int64 i then i else int64_min)
      | _ \<Rightarrow> int64_min)"

section \<open>strconv.ParseFloat\<close>

definition hex_val :: "byte \<Rightarrow> int option" where
  "hex_val c =
     (let l = to_lower c
      in if is_digit c then Some (digit_val c)
         else if CHR ''a'' \<le> l \<and> l \<le> CHR ''f'' then Some (of_char l - 87) else None)"

record mant_scan =
  ms_dot :: bool
  ms_digits :: bool
  ms_mant :: int
  ms_frac :: nat
  ms_under :: bool

text \<open>The digit loop of \<^verbatim>\<open>readFloat\<close>: it stops at the first byte that is not a digit, a
  first dot or an underscore, and returns the rest of the input.\<close>

fun scan_mant :: "bool \<Rightarrow> mant_scan \<Rightarrow> gostring \<Rightarrow> mant_scan \<times> gostring" where
  "scan_mant hex st [] = (st, [])"
| "scan_mant hex st (c # cs) =
     (if c = CHR ''_'' then scan_mant hex (st\<lparr>ms_under := True\<rparr>) cs
      else if c = CHR ''.'' then
        (if ms_dot st then (st, c # cs) else scan_mant hex (st\<lparr>ms_dot := True\<rparr>) cs)
      else case (if hex then hex_val c else if is_digit c then Some (digit_val c) else None) of
          None \<Rightarrow> (st, c # cs)
        | Some d \<Rightarrow> scan_mant hex (st\<lparr>ms_digits := True,
              ms_mant := (if hex then 16 else 10) * ms_mant st + d,
              ms_frac := ms_frac st + (if ms_dot st then 1 else 0)\<rparr>) cs)"

fun scan_exp :: "int \<Rightarrow> bool \<Rightarrow> gostring \<Rightarrow> int \<times> bool \<times> gostring" where
  "scan_exp e u [] = (e, u, [])"
| "scan_exp e u (c # cs) =
     (if c = CHR ''_'' then scan_exp e True cs
      else if is_digit c then scan_exp (if e < 10000 then e * 10 + digit_val c else e) u cs
      else (e, u, c # cs))"

text \<open>\<^verbatim>\<open>underscoreOK\<close>: underscores only between digits or after a base prefix. The tag is
  the class of the last byte seen: \<open>''0''\<close> digit or prefix, \<open>''_''\<close> underscore, other none.\<close>

fun underscore_loop :: "bool \<Rightarrow> byte \<Rightarrow> gostring \<Rightarrow> bool" where
  "underscore_loop hex saw [] = (saw \<noteq> CHR ''_'')"
| "underscore_loop hex saw (c # cs) =
     (if is_digit c \<or> hex \<and> hex_val c \<noteq> None then underscore_loop hex (CHR ''0'') cs
      else if c = CHR ''_'' then saw = CHR ''0'' \<and> underscore_loop hex (CHR ''_'') cs
      else saw \<noteq> CHR ''_'' \<and> underscore_loop hex (CHR ''!'') cs)"

definition drop_sign :: "gostring \<Rightarrow> bool \<times> gostring" where
  "drop_sign s = (case s of
      [] \<Rightarrow> (False, [])
    | c # cs \<Rightarrow> if c = CHR ''+'' then (False, cs)
                else if c = CHR ''-'' then (True, cs) else (False, c # cs))"

definition underscore_ok :: "gostring \<Rightarrow> bool" where
  "underscore_ok s =
     (let r = snd (drop_sign s)
      in case r of
           a # b # cs \<Rightarrow>
             (if a = CHR ''0'' \<and> to_lower b \<in> {CHR ''b'', CHR ''o'', CHR ''x''}
              then underscore_loop (to_lower b = CHR ''x'') (CHR ''0'') cs
              else underscore_loop False (CHR 0x5E) r)
         | _ \<Rightarrow> underscore_loop False (CHR 0x5E) r)"

definition parse_special :: "gostring \<Rightarrow> float64 option" where
  "parse_special s =
     (let (neg, r) = drop_sign s
      in if str_lower r \<in> {''inf'', ''infinity''} then Some (F_Inf neg)
         else if str_lower s = ''nan'' then Some F_NaN else None)"

text \<open>The exponent part: \<open>None\<close> is a syntax error, otherwise the signed exponent, whether an
  underscore was seen, and the rest of the input.\<close>

definition read_exponent :: "bool \<Rightarrow> gostring \<Rightarrow> (int \<times> bool \<times> gostring) option" where
  "read_exponent hex r =
     (case r of
        [] \<Rightarrow> if hex then None else Some (0, False, [])
      | c # cs \<Rightarrow>
          if to_lower c \<noteq> (if hex then CHR ''p'' else CHR ''e'')
          then if hex then None else Some (0, False, c # cs)
          else let (eneg, ds) = drop_sign cs
               in if ds = [] \<or> \<not> is_digit (hd ds) then None
                  else let (e, u, rest) = scan_exp 0 False ds
                       in Some (if eneg then - e else e, u, rest))"

text \<open>Both a syntax error and a value out of range make \<^verbatim>\<open>ParseFloat\<close> return a non-nil error,
  here \<open>None\<close>.\<close>

definition parse_float :: "gostring \<Rightarrow> float64 option" where
  "parse_float s =
     (case parse_special s of
        Some f \<Rightarrow> Some f
      | None \<Rightarrow>
          (let (neg, r) = drop_sign s;
               hex = (length r > 2 \<and> r ! 0 = CHR ''0'' \<and> to_lower (r ! 1) = CHR ''x'');
               (st, r1) = scan_mant hex \<lparr>ms_dot = False, ms_digits = False, ms_mant = 0,
                   ms_frac = 0, ms_under = False\<rparr> (if hex then drop 2 r else r)
           in if \<not> ms_digits st then None
              else case read_exponent hex r1 of
                  None \<Rightarrow> None
                | Some (e, u, rest) \<Rightarrow>
                    if rest \<noteq> [] \<or> (ms_under st \<or> u) \<and> \<not> underscore_ok s then None
                    else let v = (if hex then of_int (ms_mant st) * 2 powi (e - 4 * int (ms_frac st))
                                  else of_int (ms_mant st) * 10 powi (e - int (ms_frac st)))
                         in case f64_round neg v of F_Inf _ \<Rightarrow> None | f \<Rightarrow> Some f))"

section \<open>Formatting with %v\<close>

text \<open>The shortest decimal that reads back as the same number: the least number of digits
  for which the decimal below or above rounds back, the closer one when both do.\<close>

text \<open>The position of the decimal point: the \<open>k\<close> with \<open>10^(k-1) \<le> x < 10^k\<close>, found from an
  estimate by the binary exponent that is at most one too small.\<close>

definition dec_exp :: "rat \<Rightarrow> int" where
  "dec_exp x =
     (let k = (ilog2 x * 30103) div 100000
      in if x < 10 powi k then k else if x < 10 powi (k + 1) then k + 1 else k + 2)"

definition shortest_with :: "int \<Rightarrow> int \<Rightarrow> rat \<Rightarrow> int \<Rightarrow> nat \<Rightarrow> int option" where
  "shortest_with p emin x dp n =
     (let y = x * 10 powi (int n - dp); lo = \<lfloor>y\<rfloor>; hi = lo + 1;
          back = (\<lambda>c. round_pos p emin (of_int c * 10 powi (dp - int n)) = x)
      in if back lo \<and> (\<not> back hi \<or> y - of_int lo \<le> of_int hi - y) then Some lo
         else if back hi then Some hi else None)"

fun shortest_from :: "int \<Rightarrow> int \<Rightarrow> rat \<Rightarrow> int \<Rightarrow> nat \<Rightarrow> nat \<Rightarrow> int \<times> nat" where
  "shortest_from p emin x dp n 0 = (\<lfloor>x * 10 powi (int n - dp)\<rfloor>, n)"
| "shortest_from p emin x dp n (Suc k) =
     (case shortest_with p emin x dp n of
        Some d \<Rightarrow> (d, n) | None \<Rightarrow> shortest_from p emin x dp (Suc n) k)"

definition trim_zeros :: "gostring \<Rightarrow> gostring" where
  "trim_zeros s = rev (dropWhile (\<lambda>c. c = CHR ''0'') (rev s))"

definition format_digits :: "gostring \<Rightarrow> int \<Rightarrow> gostring" where
  "format_digits ds dp =
     (let ex = dp - 1
      in if ex < -4 \<or> 6 \<le> ex then
           (let e = show_dec \<bar>ex\<bar>
            in [hd ds] @ (if length ds > 1 then CHR ''.'' # tl ds else []) @ [CHR ''e''] @
               [if ex < 0 then CHR ''-'' else CHR ''+''] @ (if length e < 2 then CHR ''0'' # e else e))
         else if dp \<le> 0 then ''0.'' @ replicate (nat (- dp)) (CHR ''0'') @ ds
         else if int (length ds) \<le> dp then ds @ replicate (nat dp - length ds) (CHR ''0'')
         else take (nat dp) ds @ CHR ''.'' # drop (nat dp) ds)"

definition format_mag :: "int \<Rightarrow> int \<Rightarrow> rat \<Rightarrow> gostring" where
  "format_mag p emin x =
     (if x = 0 then ''0''
      else let dp = dec_exp x; (d, n) = shortest_from p emin x dp 1 17; s = show_dec d
           in format_digits (trim_zeros s) (dp + (int (length s) - int n)))"

fun format_float :: "int \<Rightarrow> int \<Rightarrow> float64 \<Rightarrow> gostring" where
  "format_float p emin F_NaN = ''NaN''"
| "format_float p emin (F_Inf s) = (if s then ''-Inf'' else ''+Inf'')"
| "format_float p emin (F_Fin s m) = (if s then [CHR ''-''] else []) @ format_mag p emin m"

definition format_f64 :: "float64 \<Rightarrow> gostring" where
  "format_f64 = format_float 53 (-1074)"

definition format_f32 :: "float64 \<Rightarrow> gostring" where
  "format_f32 = format_float 24 (-149)"

section \<open>Laws of rounding\<close>

lemma rne_of_int [simp]: "rne (of_int k) = k"
  by (simp add: rne_def)

lemma rne_bounds: "\<lfloor>x\<rfloor> \<le> rne x" "rne x \<le> \<lfloor>x\<rfloor> + 1"
  by (simp_all add: rne_def Let_def)

lemma rne_mono:
  assumes "x \<le> y"
  shows "rne x \<le> rne y"
proof (cases "\<lfloor>x\<rfloor> = \<lfloor>y\<rfloor>")
  case True
  with assms show ?thesis by (auto simp: rne_def Let_def)
next
  case False
  with assms have "\<lfloor>x\<rfloor> + 1 \<le> \<lfloor>y\<rfloor>"
    using floor_mono [OF assms] by linarith
  then show ?thesis
    using rne_bounds(2) [of x] rne_bounds(1) [of y] by linarith
qed

lemma rne_le_int: "x \<le> of_int k \<Longrightarrow> rne x \<le> k"
  using rne_mono [of x "of_int k"] by simp

lemma int_le_rne: "of_int k \<le> x \<Longrightarrow> k \<le> rne x"
  using rne_mono [of "of_int k" x] by simp

lemma powi2_pos [simp]: "0 < (2::rat) powi k"
  by (rule zero_less_power_int) simp

lemma powi2_add: "(2::rat) powi (a + b) = 2 powi a * 2 powi b"
  by (rule power_int_add) simp

lemma powi2_le_iff [simp]: "(2::rat) powi a \<le> 2 powi b \<longleftrightarrow> a \<le> b"
  by (meson leD leI one_less_numeral_iff power_int_increasing power_int_strict_increasing
      semiring_norm(76) one_le_numeral)

lemma powi2_split: "a \<le> b \<Longrightarrow> (2::rat) powi b = of_int (2 ^ nat (b - a)) * 2 powi a"
proof -
  assume "a \<le> b"
  then have "(2::rat) powi b = 2 powi (int (nat (b - a)) + a)" by simp
  also have "\<dots> = 2 ^ nat (b - a) * 2 powi a"
    by (simp only: powi2_add power_int_of_nat)
  finally show ?thesis by simp
qed

text \<open>\<^const>\<open>ilog2\<close> is the binary exponent.\<close>

lemma bitlen_powi:
  assumes "0 < n"
  shows "(2::rat) powi (bitlen n - 1) \<le> of_int n" "of_int n < (2::rat) powi bitlen n"
proof -
  from assms have pos: "1 \<le> bitlen n"
    using bitlen_nonneg [of n] bitlen_eq_zero_iff [of n] by linarith
  have eq: "(2::rat) powi k = of_int (2 ^ nat k)" if "0 \<le> k" for k :: int
    using that by (simp add: power_int_def)
  from bitlen_bounds [OF assms]
  have "2 ^ nat (bitlen n - 1) \<le> n" "n < 2 ^ nat (bitlen n)" by auto
  with pos show "(2::rat) powi (bitlen n - 1) \<le> of_int n" "of_int n < (2::rat) powi bitlen n"
    using eq by (simp_all only: of_int_le_iff of_int_less_iff bitlen_nonneg diff_ge_0_iff_ge)
qed

lemma ilog2_bounds:
  assumes "0 < x"
  shows "2 powi ilog2 x \<le> x" "x < 2 powi (ilog2 x + 1)"
proof -
  obtain n d where q: "quotient_of x = (n, d)" by fastforce
  then have d: "0 < d" and x: "x = of_int n / of_int d"
    using quotient_of_denom_pos quotient_of_div by auto
  with assms have n: "0 < n" by (simp add: zero_less_divide_iff)
  define k where "k = bitlen n - bitlen d"
  have up: "x < 2 powi (k + 1)"
  proof -
    have "of_int n < (2::rat) powi (k + 1) * 2 powi (bitlen d - 1)"
      using bitlen_powi(2) [OF n] by (simp add: k_def flip: powi2_add)
    also have "\<dots> \<le> 2 powi (k + 1) * of_int d"
      using bitlen_powi(1) [OF d] by (intro mult_left_mono) simp_all
    finally show ?thesis using d by (simp add: x field_simps)
  qed
  have low: "2 powi (k - 1) \<le> x"
  proof -
    have "2 powi (k - 1) * of_int d \<le> (2::rat) powi (k - 1) * 2 powi bitlen d"
      using bitlen_powi(2) [OF d] by (intro mult_left_mono) simp_all
    also have "\<dots> = 2 powi (bitlen n - 1)"
      by (simp add: k_def flip: powi2_add)
    also have "\<dots> \<le> of_int n" by (rule bitlen_powi(1) [OF n])
    finally show ?thesis using d by (simp add: x field_simps)
  qed
  show "2 powi ilog2 x \<le> x" "x < 2 powi (ilog2 x + 1)"
    using up low by (auto simp: ilog2_def q k_def [symmetric])
qed

lemma ilog2_mono:
  assumes "0 < x" "x \<le> y"
  shows "ilog2 x \<le> ilog2 y"
proof (rule ccontr)
  assume "\<not> ilog2 x \<le> ilog2 y"
  then have "(2::rat) powi (ilog2 y + 1) \<le> 2 powi ilog2 x" by simp
  also have "\<dots> \<le> x" using assms ilog2_bounds by blast
  also have "\<dots> \<le> y" by (rule assms(2))
  also have "\<dots> < 2 powi (ilog2 y + 1)" using assms ilog2_bounds by (meson less_le_trans)
  finally show False by simp
qed

lemma ilog2_le: "0 < x \<Longrightarrow> x < 2 powi k \<Longrightarrow> ilog2 x < k"
  using ilog2_bounds(1) [of x] by (meson le_less_trans not_le powi2_le_iff)

lemma round_pos_0 [simp]: "round_pos p emin 0 = 0"
  by (simp add: round_pos_def)

lemma round_pos_nonneg: "0 \<le> x \<Longrightarrow> 0 \<le> round_pos p emin x"
  using int_le_rne [of 0] by (simp add: round_pos_def Let_def)

text \<open>Rounding never crosses a power of two above the quantum.\<close>

lemma round_pos_le_powi:
  assumes "0 < x" "x \<le> 2 powi k" "quantum p emin x \<le> k"
  shows "round_pos p emin x \<le> 2 powi k"
proof -
  let ?q = "quantum p emin x"
  have k: "(2::rat) powi k = of_int (2 ^ nat (k - ?q)) * 2 powi ?q"
    by (rule powi2_split [OF assms(3)])
  have "x / 2 powi ?q \<le> of_int (2 ^ nat (k - ?q))"
    using assms(2) k by (simp add: pos_divide_le_eq)
  then have "rne (x / 2 powi ?q) \<le> 2 ^ nat (k - ?q)"
    by (rule rne_le_int)
  then have "of_int (rne (x / 2 powi ?q)) \<le> (of_int (2 ^ nat (k - ?q)) :: rat)"
    by (simp only: of_int_le_iff)
  with assms(1) show ?thesis
    by (simp only: k round_pos_def Let_def mult_right_mono powi2_pos less_imp_le) simp
qed

lemma powi_le_round_pos:
  assumes "0 < x" "2 powi k \<le> x" "quantum p emin x \<le> k"
  shows "2 powi k \<le> round_pos p emin x"
proof -
  let ?q = "quantum p emin x"
  have k: "(2::rat) powi k = of_int (2 ^ nat (k - ?q)) * 2 powi ?q"
    by (rule powi2_split [OF assms(3)])
  have "of_int (2 ^ nat (k - ?q)) \<le> x / 2 powi ?q"
    using assms(2) k by (simp add: pos_le_divide_eq)
  then have "2 ^ nat (k - ?q) \<le> rne (x / 2 powi ?q)"
    by (rule int_le_rne)
  then have "(of_int (2 ^ nat (k - ?q)) :: rat) \<le> of_int (rne (x / 2 powi ?q))"
    by (simp only: of_int_le_iff)
  with assms(1) show ?thesis
    by (simp only: k round_pos_def Let_def mult_right_mono powi2_pos less_imp_le) simp
qed

lemma round_pos_mono:
  assumes "0 \<le> x" "x \<le> y" "1 \<le> p"
  shows "round_pos p emin x \<le> round_pos p emin y"
proof (cases "x = 0")
  case True
  with assms round_pos_nonneg show ?thesis by simp
next
  case False
  with assms have x: "0 < x" and y: "0 < y" by simp_all
  let ?qx = "quantum p emin x" and ?qy = "quantum p emin y"
  have le: "?qx \<le> ?qy"
    using ilog2_mono [OF x assms(2)] by (simp add: quantum_def)
  show ?thesis
  proof (cases "?qx = ?qy")
    case True
    have "x / 2 powi ?qy \<le> y / 2 powi ?qy"
      using assms(2) by (simp add: divide_right_mono less_imp_le)
    then have "of_int (rne (x / 2 powi ?qy)) \<le> (of_int (rne (y / 2 powi ?qy)) :: rat)"
      by (simp add: rne_mono)
    with True x y show ?thesis
      by (simp add: round_pos_def Let_def mult_right_mono less_imp_le)
  next
    case False
    with le have lt: "?qx < ?qy" by simp
    then have e: "ilog2 x < ilog2 y" and qy: "?qy = ilog2 y - (p - 1)"
      by (auto simp: quantum_def max_def split: if_splits)
    have "round_pos p emin x \<le> 2 powi ilog2 y"
    proof (rule round_pos_le_powi [OF x])
      have "x < 2 powi (ilog2 x + 1)" by (rule ilog2_bounds(2) [OF x])
      also have "\<dots> \<le> 2 powi ilog2 y" using e by simp
      finally show "x \<le> 2 powi ilog2 y" by simp
      show "?qx \<le> ilog2 y" using lt qy assms(3) by linarith
    qed
    also have "\<dots> \<le> round_pos p emin y"
      using assms(3) qy ilog2_bounds(1) [OF y] by (intro powi_le_round_pos [OF y]) simp_all
    finally show ?thesis .
  qed
qed

text \<open>A multiple of the quantum is not changed.\<close>

lemma round_pos_exact:
  assumes "x / 2 powi quantum p emin x = of_int k"
  shows "round_pos p emin x = x"
proof (cases "x = 0")
  case False
  have "x = of_int k * 2 powi quantum p emin x"
    using assms by (simp add: field_simps)
  with False assms show ?thesis
    by (simp add: round_pos_def Let_def)
qed simp

lemma divide_by_unit: "(1::rat) = n * w \<Longrightarrow> x / w = x * n"
  by (cases "w = 0") (simp_all add: field_simps)

lemma round_pos_int_exact:
  assumes "0 \<le> i" "i \<le> 2 ^ 53"
  shows "round_pos 53 (-1074) (of_int i) = of_int i"
proof (cases "i = 0 \<or> i = 2 ^ 53")
  case True
  have big: "ilog2 9007199254740992 = 53" by (simp add: ilog2_def) code_simp
  from True show ?thesis
  proof
    assume i: "i = 2 ^ 53"
    have "(of_int i :: rat) / 2 powi quantum 53 (-1074) (of_int i) = of_int (2 ^ 52)"
      using big by (simp add: i quantum_def)
    then show ?thesis by (rule round_pos_exact)
  qed simp
next
  case False
  with assms have i: "0 < i" "i < 2 ^ 53" by auto
  let ?q = "quantum 53 (-1074) (of_int i)"
  have "(of_int i :: rat) < 2 powi 53" using i(2) by simp
  then have "ilog2 (of_int i) < 53" using i(1) by (intro ilog2_le) simp_all
  moreover have "0 \<le> ilog2 (of_int i)"
  proof (rule ccontr)
    assume "\<not> 0 \<le> ilog2 (of_int i)"
    then have "(2::rat) powi (ilog2 (of_int i) + 1) \<le> 2 powi 0"
      by (simp only: powi2_le_iff)
    moreover have "(of_int i :: rat) < 2 powi (ilog2 (of_int i) + 1)"
      using i(1) by (intro ilog2_bounds(2)) simp
    moreover have "(1 :: rat) \<le> of_int i" using i(1) by simp
    ultimately show False by simp
  qed
  ultimately have q: "?q \<le> 0" by (simp add: quantum_def)
  have "(1::rat) = of_int (2 ^ nat (0 - ?q)) * 2 powi ?q"
    using powi2_split [OF q] by (simp only: power_int_0_right)
  then have "(of_int i :: rat) / 2 powi ?q = of_int i * of_int (2 ^ nat (0 - ?q))"
    by (rule divide_by_unit)
  also have "\<dots> = of_int (i * 2 ^ nat (0 - ?q))" by (simp only: of_int_mult)
  finally show ?thesis by (rule round_pos_exact)
qed

section \<open>Integers as floats\<close>

text \<open>What the engine relies on when it compares integers through \<^verbatim>\<open>float64\<close>: the conversion
  of a 64-bit integer is finite and monotone, and exact up to \<^verbatim>\<open>2^53\<close> in magnitude.\<close>

lemma ilog2_round_int:
  assumes "0 \<le> i" "i \<le> 2 ^ 63"
  shows "round_pos 53 (-1074) (of_int i) \<noteq> 0 \<longrightarrow> ilog2 (round_pos 53 (-1074) (of_int i)) < 1024"
proof
  let ?r = "round_pos 53 (-1074) (of_int i)"
  assume nz: "?r \<noteq> 0"
  then have i: "0 < (of_int i :: rat)" using assms(1) by (cases "i = 0") simp_all
  have "ilog2 (of_int i) < 64"
    using assms(2) i by (intro ilog2_le) simp_all
  then have "?r \<le> 2 powi 64"
    using assms(2) i by (intro round_pos_le_powi) (simp_all add: quantum_def)
  also have "\<dots> < 2 powi 1024" by simp
  finally show "ilog2 ?r < 1024"
    using nz round_pos_nonneg [of "of_int i" 53 "-1074"] i by (intro ilog2_le) simp_all
qed

lemma f64_of_int_fin:
  assumes "in_int64 i"
  shows "f64_of_int i = F_Fin (i < 0) (round_pos 53 (-1074) (of_int \<bar>i\<bar>))"
proof -
  have "\<bar>i\<bar> \<le> 2 ^ 63"
    using assms by (auto simp: in_int64_def int64_min_def int64_max_def)
  with ilog2_round_int [of "\<bar>i\<bar>"] show ?thesis
    by (auto simp: f64_of_int_def f64_round_def Let_def)
qed

lemma f64_of_int_exact:
  assumes "\<bar>i\<bar> \<le> 2 ^ 53"
  shows "f64_of_int i = F_Fin (i < 0) (of_int \<bar>i\<bar>)"
proof -
  have "in_int64 i"
    using assms by (auto simp: in_int64_def int64_min_def int64_max_def)
  then show ?thesis
    using round_pos_int_exact [of "\<bar>i\<bar>"] assms by (simp only: f64_of_int_fin abs_ge_zero)
qed

lemma f64_val_of_int_mono:
  assumes "in_int64 i" "in_int64 j" "i \<le> j"
  shows "f64_val (f64_of_int i) \<le> f64_val (f64_of_int j)"
proof -
  let ?r = "\<lambda>k::int. round_pos 53 (-1074) (of_int k)"
  have mono: "?r a \<le> ?r b" if "0 \<le> a" "a \<le> b" for a b
    using that by (intro round_pos_mono) simp_all
  have nn: "0 \<le> ?r a" if "0 \<le> a" for a
    using that by (intro round_pos_nonneg) simp
  show ?thesis
    using assms mono [of "\<bar>i\<bar>" "\<bar>j\<bar>"] mono [of "\<bar>j\<bar>" "\<bar>i\<bar>"] nn [of "\<bar>i\<bar>"] nn [of "\<bar>j\<bar>"]
    by (cases "i < 0"; cases "j < 0") (simp_all add: f64_of_int_fin)
qed

lemma f64_lt_of_int_sound:
  assumes "in_int64 i" "in_int64 j" "f64_lt (f64_of_int i) (f64_of_int j)"
  shows "i < j"
proof (rule ccontr)
  assume "\<not> i < j"
  with f64_val_of_int_mono [OF assms(2,1)] assms show False
    by (simp add: f64_of_int_fin)
qed

lemma f64_of_int_order_exact:
  assumes "\<bar>i\<bar> \<le> 2 ^ 53" "\<bar>j\<bar> \<le> 2 ^ 53"
  shows "f64_lt (f64_of_int i) (f64_of_int j) \<longleftrightarrow> i < j"
    and "f64_eq (f64_of_int i) (f64_of_int j) \<longleftrightarrow> i = j"
    and "f64_le (f64_of_int i) (f64_of_int j) \<longleftrightarrow> i \<le> j"
proof -
  have v: "f64_val (F_Fin (k < 0) (of_int \<bar>k\<bar>)) = of_int k" for k :: int
    by simp
  have e: "f64_of_int i = F_Fin (i < 0) (of_int \<bar>i\<bar>)" "f64_of_int j = F_Fin (j < 0) (of_int \<bar>j\<bar>)"
    using assms by (simp_all only: f64_of_int_exact)
  show lt: "f64_lt (f64_of_int i) (f64_of_int j) \<longleftrightarrow> i < j"
    by (simp only: e f64_lt.simps v of_int_less_iff)
  show eq: "f64_eq (f64_of_int i) (f64_of_int j) \<longleftrightarrow> i = j"
    by (simp only: e f64_eq.simps v of_int_eq_iff)
  show "f64_le (f64_of_int i) (f64_of_int j) \<longleftrightarrow> i \<le> j"
    using lt eq by (auto simp: f64_le_def)
qed

text \<open>Comparisons of floats that are not NaN form a linear order.\<close>

lemma f64_trichotomy:
  "a \<noteq> F_NaN \<Longrightarrow> b \<noteq> F_NaN \<Longrightarrow> f64_lt a b \<or> f64_eq a b \<or> f64_lt b a"
  by (cases a; cases b) auto

lemma f64_lt_irrefl: "\<not> f64_lt a a"
  by (cases a) auto

lemma f64_lt_asym: "f64_lt a b \<Longrightarrow> \<not> f64_lt b a"
  by (cases a; cases b) auto

lemma f64_eq_sym: "f64_eq a b \<longleftrightarrow> f64_eq b a"
  by (cases a; cases b) auto

lemma f64_lt_not_eq: "f64_lt a b \<Longrightarrow> \<not> f64_eq a b"
  by (cases a; cases b) auto

lemma f64_lt_trans: "f64_lt a b \<Longrightarrow> f64_lt b c \<Longrightarrow> f64_lt a c"
  by (cases a; cases b; cases c) auto

lemma f64_le_trans: "f64_le a b \<Longrightarrow> f64_le b c \<Longrightarrow> f64_le a c"
  by (cases a; cases b; cases c) (auto simp: f64_le_def)

lemma f64_le_refl: "a \<noteq> F_NaN \<Longrightarrow> f64_le a a"
  by (cases a) (auto simp: f64_le_def)

lemma f64_not_lt: "a \<noteq> F_NaN \<Longrightarrow> b \<noteq> F_NaN \<Longrightarrow> \<not> f64_lt a b \<longleftrightarrow> f64_le b a"
  using f64_trichotomy f64_lt_asym f64_lt_not_eq f64_eq_sym by (metis f64_le_def)

lemma f64_round_not_NaN [simp]: "f64_round s x \<noteq> F_NaN"
  by (simp add: f64_round_def Let_def)

lemma f64_of_int_not_NaN [simp]: "f64_of_int i \<noteq> F_NaN"
  by (simp add: f64_of_int_def)

section \<open>Error bounds\<close>

lemma rne_error: "\<bar>of_int (rne x) - x\<bar> \<le> 1 / 2"
  using of_int_floor_le [of x] floor_correct [of x] by (simp add: rne_def Let_def abs_le_iff)

lemma round_pos_error:
  assumes "0 < x" "emin \<le> ilog2 x - (p - 1)"
  shows "\<bar>round_pos p emin x - x\<bar> \<le> x * 2 powi (- p)"
proof -
  let ?q = "ilog2 x - (p - 1)" and ?y = "x / 2 powi (ilog2 x - (p - 1))"
  have "round_pos p emin x - x = (of_int (rne ?y) - ?y) * 2 powi ?q"
    using assms by (simp add: round_pos_def quantum_def max_def Let_def left_diff_distrib)
  then have "\<bar>round_pos p emin x - x\<bar> = \<bar>of_int (rne ?y) - ?y\<bar> * 2 powi ?q"
    by (simp add: abs_mult)
  also have "\<dots> \<le> 1 / 2 * 2 powi ?q"
    using rne_error [of ?y] by (intro mult_right_mono) simp_all
  also have "\<dots> = 2 powi ilog2 x * 2 powi (- p)"
    using powi2_add [of "ilog2 x" "- p"] powi2_add [of "ilog2 x - p" 1] by (simp add: algebra_simps)
  also have "\<dots> \<le> x * 2 powi (- p)"
    using ilog2_bounds(1) [OF assms(1)] by (intro mult_right_mono) simp_all
  finally show ?thesis .
qed

lemma round_pos_le_one:
  assumes "0 \<le> x" "x \<le> 1"
  shows "round_pos 53 (-1074) x \<le> 1"
proof (cases "x = 0")
  case False
  then have "round_pos 53 (-1074) x \<le> round_pos 53 (-1074) (of_int 1)"
    using assms by (intro round_pos_mono) simp_all
  then show ?thesis using round_pos_int_exact [of 1] by simp
qed simp

lemma f64_round_unit:
  assumes "0 \<le> x" "x \<le> 1"
  shows "f64_round neg x = F_Fin neg (round_pos 53 (-1074) x)"
proof -
  have "\<not> 1024 \<le> ilog2 m" if "m \<noteq> 0" "0 \<le> m" "m \<le> 1" for m :: rat
    using ilog2_le [of m 1] that by simp
  then show ?thesis
    using round_pos_le_one [OF assms] round_pos_nonneg [OF assms(1)] by (auto simp: f64_round_def Let_def)
qed

text \<open>A part of an integer: an integer times a quotient that is at most one.\<close>

lemma round_pos_positive: "0 < i \<Longrightarrow> 1 \<le> round_pos 53 (-1074) (of_int i)"
  using round_pos_mono [of "of_int 1" "of_int i" 53 "-1074"] round_pos_int_exact [of 1] by simp

lemma f64_quotient_unit:
  assumes "0 \<le> a" "a \<le> b" "0 < b" "in_int64 b"
  shows "\<exists>q. f64_div (f64_of_int a) (f64_of_int b) = F_Fin False q \<and> 0 \<le> q \<and> q \<le> 1"
proof -
  let ?r = "\<lambda>i. round_pos 53 (-1074) (of_int i :: rat)"
  have ints: "f64_of_int a = F_Fin False (?r a)" "f64_of_int b = F_Fin False (?r b)"
    using f64_of_int_fin [of a] f64_of_int_fin [of b] assms by (auto simp: in_int64_def int64_min_def)
  have b: "0 < ?r b" using round_pos_positive [OF assms(3)] by linarith
  have a: "0 \<le> ?r a" using assms(1) by (intro round_pos_nonneg) simp
  have "?r a \<le> ?r b" using assms by (cases "a = 0") (simp_all add: round_pos_nonneg round_pos_mono)
  then have q: "0 \<le> ?r a / ?r b" "?r a / ?r b \<le> 1" using a b by simp_all
  have "f64_div (f64_of_int a) (f64_of_int b) = F_Fin False (round_pos 53 (-1074) (?r a / ?r b))"
    using b f64_round_unit [OF q] by (simp add: ints)
  then show ?thesis using round_pos_nonneg [OF q(1)] round_pos_le_one [OF q] by blast
qed

lemma f64_part:
  assumes "0 \<le> d" "d \<le> 2 ^ 53" "0 \<le> q" "q \<le> 1"
  shows "\<exists>m. f64_round s (of_int d * q) = F_Fin s m \<and> 0 \<le> m \<and> m \<le> of_int d"
proof -
  let ?m = "round_pos 53 (-1074) (of_int d * q)"
  have dq: "0 \<le> of_int d * q" "of_int d * q \<le> of_int d" using assms by (simp_all add: mult_left_le)
  have "?m \<le> round_pos 53 (-1074) (of_int d)" using dq by (intro round_pos_mono) simp_all
  then have le: "?m \<le> of_int d" using round_pos_int_exact [OF assms(1,2)] by simp
  have nonneg: "0 \<le> ?m" by (rule round_pos_nonneg [OF dq(1)])
  have "ilog2 ?m < 1024" if "?m \<noteq> 0"
  proof (rule ilog2_le)
    show "0 < ?m" using nonneg that by simp
    have "(of_int d :: rat) \<le> of_int (2 ^ 53)" using assms(2) by (simp only: of_int_le_iff)
    then have "?m \<le> 2 powi 53" using le by simp
    also have "(2 powi 53 :: rat) < 2 powi 1024" by simp
    finally show "?m < 2 powi 1024" .
  qed
  then show ?thesis using le nonneg by (auto simp: f64_round_def Let_def)
qed

lemma f64_to_int_part:
  assumes "0 \<le> m" "m \<le> of_int d" "d \<le> 2 ^ 53"
  shows "0 \<le> f64_to_int (F_Fin False m)" "f64_to_int (F_Fin False m) \<le> d" "f64_to_int (F_Fin True m) = - f64_to_int (F_Fin False m)"
proof -
  have "0 \<le> \<lfloor>m\<rfloor>" "\<lfloor>m\<rfloor> \<le> d" using assms by (simp, linarith)
  moreover have "in_int64 k" if "- (2 ^ 53) \<le> k" "k \<le> 2 ^ 53" for k
    using that by (simp add: in_int64_def int64_min_def int64_max_def)
  ultimately have "in_int64 \<lfloor>m\<rfloor>" "in_int64 (- \<lfloor>m\<rfloor>)" using assms(3) by (meson dual_order.trans le_minus_iff neg_le_0_iff_le neg_le_iff_le order_refl zero_le_numeral zero_le_power)+
  then show "0 \<le> f64_to_int (F_Fin False m)" "f64_to_int (F_Fin False m) \<le> d" "f64_to_int (F_Fin True m) = - f64_to_int (F_Fin False m)"
    using \<open>0 \<le> \<lfloor>m\<rfloor>\<close> \<open>\<lfloor>m\<rfloor> \<le> d\<close> by (simp_all add: f64_to_int_def Let_def)
qed

end
