(* ===== verification/Go_Value.thy ===== *)
theory Go_Value
  imports Go_Float
begin

text \<open>
  The dynamic values the engine passes around as \<^verbatim>\<open>any\<close>: what JSON, YAML and the executors
  put into variables and step results. A struct value is modelled by its type name and its
  exported fields in declaration order. \<^verbatim>\<open>sprint_v\<close> is package \<^verbatim>\<open>fmt\<close>'s \<^verbatim>\<open>%v\<close> and \<^verbatim>\<open>type_name\<close>
  its \<^verbatim>\<open>%T\<close>.
\<close>

datatype ikind =
  K_int | K_int8 | K_int16 | K_int32 | K_int64
| K_uint | K_uint8 | K_uint16 | K_uint32 | K_uint64

datatype goval =
  VNil
| VBool bool
| VInt ikind int
| VFloat32 float64
| VFloat64 float64
| VString gostring
| VMap "(gostring \<times> goval) list"
| VSlice "goval list"
| VStruct gostring "(gostring \<times> goval) list"

fun kind_min :: "ikind \<Rightarrow> int" where
  "kind_min K_int = - (2 ^ 63)"
| "kind_min K_int8 = - (2 ^ 7)"
| "kind_min K_int16 = - (2 ^ 15)"
| "kind_min K_int32 = - (2 ^ 31)"
| "kind_min K_int64 = - (2 ^ 63)"
| "kind_min _ = 0"

fun kind_max :: "ikind \<Rightarrow> int" where
  "kind_max K_int = 2 ^ 63 - 1"
| "kind_max K_int8 = 2 ^ 7 - 1"
| "kind_max K_int16 = 2 ^ 15 - 1"
| "kind_max K_int32 = 2 ^ 31 - 1"
| "kind_max K_int64 = 2 ^ 63 - 1"
| "kind_max K_uint = 2 ^ 64 - 1"
| "kind_max K_uint8 = 2 ^ 8 - 1"
| "kind_max K_uint16 = 2 ^ 16 - 1"
| "kind_max K_uint32 = 2 ^ 32 - 1"
| "kind_max K_uint64 = 2 ^ 64 - 1"

definition in_kind :: "ikind \<Rightarrow> int \<Rightarrow> bool" where
  "in_kind k i \<longleftrightarrow> kind_min k \<le> i \<and> i \<le> kind_max k"

fun kind_name :: "ikind \<Rightarrow> gostring" where
  "kind_name K_int = ''int''"
| "kind_name K_int8 = ''int8''"
| "kind_name K_int16 = ''int16''"
| "kind_name K_int32 = ''int32''"
| "kind_name K_int64 = ''int64''"
| "kind_name K_uint = ''uint''"
| "kind_name K_uint8 = ''uint8''"
| "kind_name K_uint16 = ''uint16''"
| "kind_name K_uint32 = ''uint32''"
| "kind_name K_uint64 = ''uint64''"

fun type_name :: "goval \<Rightarrow> gostring" where
  "type_name VNil = ''<nil>''"
| "type_name (VBool _) = ''bool''"
| "type_name (VInt k _) = kind_name k"
| "type_name (VFloat32 _) = ''float32''"
| "type_name (VFloat64 _) = ''float64''"
| "type_name (VString _) = ''string''"
| "type_name (VMap _) = ''map[string]interface {}''"
| "type_name (VSlice _) = ''[]interface {}''"
| "type_name (VStruct n _) = n"

fun sprint_v :: "goval \<Rightarrow> gostring" where
  "sprint_v VNil = ''<nil>''"
| "sprint_v (VBool b) = (if b then ''true'' else ''false'')"
| "sprint_v (VInt k i) = show_int i"
| "sprint_v (VFloat32 f) = format_f32 f"
| "sprint_v (VFloat64 f) = format_f64 f"
| "sprint_v (VString s) = s"
| "sprint_v (VMap m) =
     ''map['' @ join_with '' '' (map (\<lambda>kv. fst kv @ '':'' @ snd kv)
        (sort_key fst (map (\<lambda>kv. (fst kv, sprint_v (snd kv))) m))) @ '']''"
| "sprint_v (VSlice xs) = ''['' @ join_with '' '' (map sprint_v xs) @ '']''"
| "sprint_v (VStruct n fs) =
     CHR 0x7B # join_with '' '' (map (\<lambda>kv. sprint_v (snd kv)) fs) @ [CHR 0x7D]"

text \<open>Nested maps have distinct keys and integers are in the range of their type.\<close>

fun goval_wf :: "goval \<Rightarrow> bool" where
  "goval_wf (VInt k i) = in_kind k i"
| "goval_wf (VMap m) = (distinct (map fst m) \<and> list_all (\<lambda>kv. goval_wf (snd kv)) m)"
| "goval_wf (VSlice xs) = list_all goval_wf xs"
| "goval_wf (VStruct n fs) = (distinct (map fst fs) \<and> list_all (\<lambda>kv. goval_wf (snd kv)) fs)"
| "goval_wf _ = True"

text \<open>The text of an integer does not depend on its width, and an integer's text reads back.\<close>

lemma sprint_v_int_parse: "in_int64 i \<Longrightarrow> parse_int (sprint_v (VInt k i)) = Some i"
  by (simp add: parse_int_show_int)

text \<open>The text of a map does not depend on the order in which the runtime stores it.\<close>

lemma sprint_v_map_order:
  assumes "distinct (map fst m)" "mset m = mset m'"
  shows "sprint_v (VMap m) = sprint_v (VMap m')"
proof -
  let ?f = "\<lambda>kv. (fst kv, sprint_v (snd kv))"
  have "sort_key fst (map ?f m) = sort_key fst (map ?f m')"
    using assms by (intro sort_key_order_irrelevant) (simp_all add: comp_def)
  then show ?thesis by simp
qed

end
