(* ===== verification/Expr_Parser.thy ===== *)
theory Expr_Parser
  imports Expr_Lexer Go_Value
begin

text \<open>
  The recursive-descent parser of condition expressions (\<^verbatim>\<open>internal/expression/ast.go\<close>,
  \<^verbatim>\<open>errors.go\<close> and \<^verbatim>\<open>parser.go\<close>). The methods call each other on a parser state of two tokens
  and the lexer; the recursion is on the tokens that are left, which is not structural, so
  every method takes fuel and \<^verbatim>\<open>ParseExpression\<close> starts with enough of it for its input. The
  lemmas at the end show that this fuel is never used up, so the model is total, and that more
  fuel does not change a result.
\<close>

section \<open>Abstract syntax\<close>

datatype node =
  LiteralNode goval
| VariableNode gostring
| ComparisonNode node gostring node
| LogicalNode node gostring node
| NotNode node

datatype node_type =
  NodeTypeLiteral | NodeTypeVariable | NodeTypeComparison | NodeTypeLogical | NodeTypeNot

fun nodeType :: "node \<Rightarrow> node_type" where
  "nodeType (LiteralNode _) = NodeTypeLiteral"
| "nodeType (VariableNode _) = NodeTypeVariable"
| "nodeType (ComparisonNode _ _ _) = NodeTypeComparison"
| "nodeType (LogicalNode _ _ _) = NodeTypeLogical"
| "nodeType (NotNode _) = NodeTypeNot"

fun node_type_String :: "node_type \<Rightarrow> gostring" where
  "node_type_String NodeTypeLiteral = ''Literal''"
| "node_type_String NodeTypeVariable = ''Variable''"
| "node_type_String NodeTypeComparison = ''Comparison''"
| "node_type_String NodeTypeLogical = ''Logical''"
| "node_type_String NodeTypeNot = ''Not''"

section \<open>Errors\<close>

text \<open>One constructor per error the package creates, with the values its message is made of;
  a wrapped \<^verbatim>\<open>Cause\<close> is kept where the code looks at it.\<close>

datatype field_error =
  FieldOfNil gostring
| FieldNotInMap gostring
| FieldNotInStruct gostring
| FieldOfType gostring gostring

datatype expr_error =
  ParseError nat gostring gostring
| ExpressionError nat gostring
| EvalNilAST
| EvalCannotResolve gostring field_error
| EvalNilCompare gostring
| EvalUnknownComparison gostring
| EvalUnknownLogical gostring
| TypeMismatchError gostring gostring goval
| VariableNotFoundError gostring

section \<open>The parser\<close>

record parser =
  p_lexer :: lexer
  p_cur :: token
  p_peek :: token

abbreviation cur_type :: "parser \<Rightarrow> token_type" where
  "cur_type p \<equiv> tok_type (p_cur p)"

abbreviation cur_literal :: "parser \<Rightarrow> gostring" where
  "cur_literal p \<equiv> tok_literal (p_cur p)"

abbreviation cur_pos :: "parser \<Rightarrow> nat" where
  "cur_pos p \<equiv> tok_pos (p_cur p)"

definition nextToken :: "parser \<Rightarrow> parser" where
  "nextToken p =
     (let (t, l) = NextToken (p_lexer p)
      in p\<lparr>p_cur := p_peek p, p_peek := t, p_lexer := l\<rparr>)"

definition zero_token :: token where
  "zero_token = \<lparr>tok_type = TokenEOF, tok_literal = [], tok_pos = 0\<rparr>"

definition NewParser :: "gostring \<Rightarrow> parser" where
  "NewParser input =
     nextToken (nextToken \<lparr>p_lexer = NewLexer input, p_cur = zero_token, p_peek = zero_token\<rparr>)"

fun isComparisonOperator :: "token_type \<Rightarrow> bool" where
  "isComparisonOperator TokenEQ = True"
| "isComparisonOperator TokenNE = True"
| "isComparisonOperator TokenLT = True"
| "isComparisonOperator TokenGT = True"
| "isComparisonOperator TokenLE = True"
| "isComparisonOperator TokenGE = True"
| "isComparisonOperator _ = False"

datatype presult = OutOfFuel | Failed expr_error | Parsed node parser

fun parseExpression :: "nat \<Rightarrow> parser \<Rightarrow> presult"
  and parseOr :: "nat \<Rightarrow> parser \<Rightarrow> presult"
  and orLoop :: "nat \<Rightarrow> node \<Rightarrow> parser \<Rightarrow> presult"
  and parseAnd :: "nat \<Rightarrow> parser \<Rightarrow> presult"
  and andLoop :: "nat \<Rightarrow> node \<Rightarrow> parser \<Rightarrow> presult"
  and parseNot :: "nat \<Rightarrow> parser \<Rightarrow> presult"
  and parseComparison :: "nat \<Rightarrow> parser \<Rightarrow> presult"
  and parsePrimary :: "nat \<Rightarrow> parser \<Rightarrow> presult"
where
  "parseExpression 0 p = OutOfFuel"
| "parseExpression (Suc n) p = parseOr n p"
| "parseOr 0 p = OutOfFuel"
| "parseOr (Suc n) p =
     (case parseAnd n p of Parsed left p1 \<Rightarrow> orLoop n left p1 | r \<Rightarrow> r)"
| "orLoop 0 left p = OutOfFuel"
| "orLoop (Suc n) left p =
     (if cur_type p = TokenOR then
        (case parseAnd n (nextToken p) of
           Parsed right p1 \<Rightarrow> orLoop n (LogicalNode left (str_upper (cur_literal p)) right) p1
         | r \<Rightarrow> r)
      else Parsed left p)"
| "parseAnd 0 p = OutOfFuel"
| "parseAnd (Suc n) p =
     (case parseNot n p of Parsed left p1 \<Rightarrow> andLoop n left p1 | r \<Rightarrow> r)"
| "andLoop 0 left p = OutOfFuel"
| "andLoop (Suc n) left p =
     (if cur_type p = TokenAND then
        (case parseNot n (nextToken p) of
           Parsed right p1 \<Rightarrow> andLoop n (LogicalNode left (str_upper (cur_literal p)) right) p1
         | r \<Rightarrow> r)
      else Parsed left p)"
| "parseNot 0 p = OutOfFuel"
| "parseNot (Suc n) p =
     (if cur_type p = TokenNOT then
        (case parseNot n (nextToken p) of
           Parsed operand p1 \<Rightarrow> Parsed (NotNode operand) p1 | r \<Rightarrow> r)
      else parseComparison n p)"
| "parseComparison 0 p = OutOfFuel"
| "parseComparison (Suc n) p =
     (case parsePrimary n p of
        Parsed left p1 \<Rightarrow>
          (if isComparisonOperator (cur_type p1) then
             (case parsePrimary n (nextToken p1) of
                Parsed right p2 \<Rightarrow> Parsed (ComparisonNode left (cur_literal p1) right) p2
              | r \<Rightarrow> r)
           else Parsed left p1)
      | r \<Rightarrow> r)"
| "parsePrimary 0 p = OutOfFuel"
| "parsePrimary (Suc n) p =
     (case cur_type p of
        TokenLParen \<Rightarrow>
          (case parseExpression n (nextToken p) of
             Parsed e p1 \<Rightarrow>
               (if cur_type p1 \<noteq> TokenRParen
                then Failed (ParseError (cur_pos p1) '')'' (cur_literal p1))
                else Parsed e (nextToken p1))
           | r \<Rightarrow> r)
      | TokenVarRef \<Rightarrow> Parsed (VariableNode (cur_literal p)) (nextToken p)
      | TokenInt \<Rightarrow>
          (case parse_int (cur_literal p) of
             None \<Rightarrow> Failed (ExpressionError (cur_pos p) (''invalid integer: '' @ cur_literal p))
           | Some v \<Rightarrow> Parsed (LiteralNode (VInt K_int64 v)) (nextToken p))
      | TokenFloat \<Rightarrow>
          (case parse_float (cur_literal p) of
             None \<Rightarrow> Failed (ExpressionError (cur_pos p) (''invalid float: '' @ cur_literal p))
           | Some v \<Rightarrow> Parsed (LiteralNode (VFloat64 v)) (nextToken p))
      | TokenString \<Rightarrow> Parsed (LiteralNode (VString (cur_literal p))) (nextToken p)
      | TokenBool \<Rightarrow>
          Parsed (LiteralNode (VBool (str_lower (cur_literal p) = ''true''))) (nextToken p)
      | TokenIdent \<Rightarrow> Parsed (VariableNode (cur_literal p)) (nextToken p)
      | TokenEOF \<Rightarrow> Failed (ParseError (cur_pos p) ''expression'' ''end of input'')
      | _ \<Rightarrow> Failed (ParseError (cur_pos p) ''expression'' (cur_literal p)))"

definition Parse :: "nat \<Rightarrow> parser \<Rightarrow> presult" where
  "Parse fuel p =
     (case parseExpression fuel p of
        Parsed e p1 \<Rightarrow>
          (if cur_type p1 \<noteq> TokenEOF
           then Failed (ParseError (cur_pos p1) ''end of expression'' (cur_literal p1))
           else Parsed e p1)
      | r \<Rightarrow> r)"

definition parse_fuel :: "gostring \<Rightarrow> nat" where
  "parse_fuel input = 7 * length input + 20"

text \<open>\<^verbatim>\<open>ParseExpression\<close>: an error or the root of the tree. The outer \<open>None\<close> is the model's
  fuel running out, which never happens.\<close>

definition ParseExpression :: "gostring \<Rightarrow> (expr_error + node) option" where
  "ParseExpression input =
     (case Parse (parse_fuel input) (NewParser input) of
        OutOfFuel \<Rightarrow> None | Failed e \<Rightarrow> Some (Inl e) | Parsed e p \<Rightarrow> Some (Inr e))"

section \<open>Termination: the fuel is enough\<close>

text \<open>How much a parser state has left to read; \<^const>\<open>nextToken\<close> reduces it until the current
  token is the end of input.\<close>

definition p_ok :: "parser \<Rightarrow> bool" where
  "p_ok p \<longleftrightarrow> (\<exists>s q. p_lexer p = lexer_at s q)"

definition psize :: "parser \<Rightarrow> nat" where
  "psize p =
     (if cur_type p = TokenEOF then 0
      else if tok_type (p_peek p) = TokenEOF then 1
      else 2 + (length (lx_input (p_lexer p)) - lx_pos (p_lexer p)))"

lemma p_ok_nextToken [simp]: "p_ok p \<Longrightarrow> p_ok (nextToken p)"
  by (fastforce simp: p_ok_def nextToken_def NextToken_scan Let_def split: prod.splits)

lemma psize_nextToken:
  assumes "p_ok p" "cur_type p \<noteq> TokenEOF"
  shows "psize (nextToken p) < psize p"
proof -
  obtain s q where l: "p_lexer p = lexer_at s q" using assms(1) by (auto simp: p_ok_def)
  define k where "k = length (lspan is_space (drop q s))"
  obtain ty lit n where t: "scan_token (drop (q + k) s) = (ty, lit, n)"
    by (cases "scan_token (drop (q + k) s)") auto
  note b = scan_token_bounds [OF t]
  have "hd0 (drop (q + k) s) \<noteq> NUL \<Longrightarrow> q + k < length s" by (rule hd0_in_range)
  with b assms(2) show ?thesis
    by (auto simp: psize_def nextToken_def l NextToken_scan k_def [symmetric] t)
qed

lemma psize_NewParser: "psize (NewParser s) \<le> length s + 2"
  by (auto simp: psize_def NewParser_def nextToken_def NewLexer_at NextToken_scan Let_def
      split: prod.splits)

lemma p_ok_NewParser [simp]: "p_ok (NewParser s)"
  unfolding NewParser_def by (intro p_ok_nextToken) (simp add: p_ok_def NewLexer_at, blast)

text \<open>A method that returns a tree has consumed something.\<close>

definition consumes :: "(parser \<Rightarrow> presult) \<Rightarrow> bool" where
  "consumes f \<longleftrightarrow> (\<forall>p e p'. p_ok p \<longrightarrow> f p = Parsed e p' \<longrightarrow> p_ok p' \<and> psize p' < psize p)"

definition shrinks :: "(parser \<Rightarrow> presult) \<Rightarrow> bool" where
  "shrinks f \<longleftrightarrow> (\<forall>p e p'. p_ok p \<longrightarrow> f p = Parsed e p' \<longrightarrow> p_ok p' \<and> psize p' \<le> psize p)"

lemma consumesI:
  "(\<And>p e p'. p_ok p \<Longrightarrow> f p = Parsed e p' \<Longrightarrow> p_ok p' \<and> psize p' < psize p) \<Longrightarrow> consumes f"
  by (simp add: consumes_def)

lemma consumesD: "consumes f \<Longrightarrow> f p = Parsed e p' \<Longrightarrow> p_ok p \<Longrightarrow> p_ok p' \<and> psize p' < psize p"
  by (simp add: consumes_def)

lemma shrinksI:
  "(\<And>p e p'. p_ok p \<Longrightarrow> f p = Parsed e p' \<Longrightarrow> p_ok p' \<and> psize p' \<le> psize p) \<Longrightarrow> shrinks f"
  by (simp add: shrinks_def)

lemma shrinksD: "shrinks f \<Longrightarrow> f p = Parsed e p' \<Longrightarrow> p_ok p \<Longrightarrow> p_ok p' \<and> psize p' \<le> psize p"
  by (simp add: shrinks_def)

lemma presult_case_Parsed [simp]:
  "(case r of OutOfFuel \<Rightarrow> OutOfFuel | Failed x \<Rightarrow> Failed x | Parsed e p \<Rightarrow> g e p) = Parsed e' p' \<longleftrightarrow>
   (\<exists>e p. r = Parsed e p \<and> g e p = Parsed e' p')"
  by (cases r) auto

lemma consumes_then_shrinks:
  assumes "consumes f" "\<And>e. shrinks (g e)"
  shows "consumes (\<lambda>p. case f p of OutOfFuel \<Rightarrow> OutOfFuel | Failed x \<Rightarrow> Failed x | Parsed e p1 \<Rightarrow> g e p1)"
proof (rule consumesI)
  fix p e p'
  assume ok: "p_ok p"
    and "(case f p of OutOfFuel \<Rightarrow> OutOfFuel | Failed x \<Rightarrow> Failed x | Parsed e p1 \<Rightarrow> g e p1) = Parsed e p'"
  then obtain l p1 where "f p = Parsed l p1" "g l p1 = Parsed e p'" by auto
  then show "p_ok p' \<and> psize p' < psize p"
    using consumesD [OF assms(1) _ ok] shrinksD [OF assms(2)] by fastforce
qed

lemma loop_shrinks:
  assumes f: "consumes f" and g: "\<And>e. shrinks (g e)" and tk: "tk \<noteq> TokenEOF"
  shows "shrinks (\<lambda>p. if cur_type p = tk then
      (case f (nextToken p) of OutOfFuel \<Rightarrow> OutOfFuel | Failed x \<Rightarrow> Failed x
        | Parsed e p1 \<Rightarrow> g (h p e) p1) else Parsed l p)"
proof (rule shrinksI)
  fix p e p'
  assume ok: "p_ok p" and r: "(if cur_type p = tk then
      (case f (nextToken p) of OutOfFuel \<Rightarrow> OutOfFuel | Failed x \<Rightarrow> Failed x
        | Parsed e p1 \<Rightarrow> g (h p e) p1) else Parsed l p) = Parsed e p'"
  show "p_ok p' \<and> psize p' \<le> psize p"
  proof (cases "cur_type p = tk")
    case True
    with r obtain e1 p1 where 1: "f (nextToken p) = Parsed e1 p1" "g (h p e1) p1 = Parsed e p'"
      by auto
    have "psize (nextToken p) < psize p" using ok True tk by (simp add: psize_nextToken)
    moreover have p1: "p_ok p1" "psize p1 < psize (nextToken p)"
      using consumesD [OF f 1(1)] ok by simp_all
    ultimately show ?thesis using shrinksD [OF g 1(2) p1(1)] by simp
  next
    case False
    with r ok show ?thesis by simp
  qed
qed

lemma parse_consumes:
  "consumes (parseExpression n) \<and> consumes (parseOr n) \<and> (\<forall>l. shrinks (orLoop n l)) \<and>
   consumes (parseAnd n) \<and> (\<forall>l. shrinks (andLoop n l)) \<and> consumes (parseNot n) \<and>
   consumes (parseComparison n) \<and> consumes (parsePrimary n)"
proof (induction n)
  case 0
  show ?case by (simp add: consumes_def shrinks_def)
next
  case (Suc n)
  then have E: "consumes (parseExpression n)" and Or: "consumes (parseOr n)"
    and OL: "\<And>l. shrinks (orLoop n l)" and A: "consumes (parseAnd n)"
    and AL: "\<And>l. shrinks (andLoop n l)" and N: "consumes (parseNot n)"
    and C: "consumes (parseComparison n)" and P: "consumes (parsePrimary n)"
    by auto
  have nt: "p_ok (nextToken p) \<and> psize (nextToken p) < psize p"
    if "p_ok p" "cur_type p \<noteq> TokenEOF" for p
    using that psize_nextToken by simp
  have "consumes (parseExpression (Suc n))"
    using Or by (simp add: consumes_def)
  moreover have "consumes (parseOr (Suc n))"
    using consumes_then_shrinks [of "parseAnd n" "orLoop n", OF A OL]
    by (simp only: consumes_def parseOr.simps)
  moreover have "shrinks (orLoop (Suc n) l)" for l
    using loop_shrinks [of "parseAnd n" "orLoop n" TokenOR
        "\<lambda>p right. LogicalNode l (str_upper (cur_literal p)) right" l, OF A OL]
    by (simp only: shrinks_def orLoop.simps) simp
  moreover have "consumes (parseAnd (Suc n))"
    using consumes_then_shrinks [of "parseNot n" "andLoop n", OF N AL]
    by (simp only: consumes_def parseAnd.simps)
  moreover have "shrinks (andLoop (Suc n) l)" for l
    using loop_shrinks [of "parseNot n" "andLoop n" TokenAND
        "\<lambda>p right. LogicalNode l (str_upper (cur_literal p)) right" l, OF N AL]
    by (simp only: shrinks_def andLoop.simps) simp
  moreover have "consumes (parseNot (Suc n))"
  proof (rule consumesI)
    fix p e p' assume ok: "p_ok p" and r: "parseNot (Suc n) p = Parsed e p'"
    show "p_ok p' \<and> psize p' < psize p"
      using ok r nt [OF ok] consumesD [OF N, of "nextToken p"] consumesD [OF C, of p]
      by (fastforce split: if_splits)
  qed
  moreover have "consumes (parseComparison (Suc n))"
  proof (rule consumesI)
    fix p e p' assume ok: "p_ok p" and r: "parseComparison (Suc n) p = Parsed e p'"
    then obtain l p1 where 1: "parsePrimary n p = Parsed l p1" by auto
    note p1 = consumesD [OF P 1 ok]
    show "p_ok p' \<and> psize p' < psize p"
    proof (cases "isComparisonOperator (cur_type p1)")
      case True
      then have "cur_type p1 \<noteq> TokenEOF" by auto
      with p1 nt have p1': "p_ok (nextToken p1)" "psize (nextToken p1) < psize p" by fastforce+
      from r 1 True obtain r' where "parsePrimary n (nextToken p1) = Parsed r' p'" by auto
      with p1' show ?thesis using consumesD [OF P] by fastforce
    next
      case False
      with r 1 p1 show ?thesis by simp
    qed
  qed
  moreover have "consumes (parsePrimary (Suc n))"
  proof (rule consumesI)
    fix p e p' assume ok: "p_ok p" and r: "parsePrimary (Suc n) p = Parsed e p'"
    show "p_ok p' \<and> psize p' < psize p"
    proof (cases "cur_type p = TokenLParen")
      case True
      with r obtain p1 where 1: "parseExpression n (nextToken p) = Parsed e p1"
        "cur_type p1 = TokenRParen" "p' = nextToken p1" by (auto split: if_splits)
      have p1: "p_ok p1" "psize p1 < psize p"
        using consumesD [OF E 1(1)] nt [OF ok] True by auto
      with nt [of p1] 1 show ?thesis by fastforce
    next
      case False
      with r have "p' = nextToken p" "cur_type p \<noteq> TokenEOF"
        by (auto split: token_type.splits option.splits)
      with nt [OF ok] show ?thesis by simp
    qed
  qed
  ultimately show ?case by blast
qed

lemmas parse_consumes_rules =
  parse_consumes [THEN conjunct1]
  parse_consumes [THEN conjunct2, THEN conjunct2, THEN conjunct2, THEN conjunct1]
  parse_consumes [THEN conjunct2, THEN conjunct2, THEN conjunct2, THEN conjunct2, THEN conjunct2,
    THEN conjunct1]
  parse_consumes [THEN conjunct2, THEN conjunct2, THEN conjunct2, THEN conjunct2, THEN conjunct2,
    THEN conjunct2, THEN conjunct2]

lemma presult_case_OutOfFuel:
  "(case r of OutOfFuel \<Rightarrow> OutOfFuel | Failed x \<Rightarrow> Failed x | Parsed e p \<Rightarrow> g e p) \<noteq> OutOfFuel \<longleftrightarrow>
   r \<noteq> OutOfFuel \<and> (\<forall>e p. r = Parsed e p \<longrightarrow> g e p \<noteq> OutOfFuel)"
  by (cases r) auto

definition fuelled :: "nat \<Rightarrow> nat \<Rightarrow> (parser \<Rightarrow> presult) \<Rightarrow> bool" where
  "fuelled k n f \<longleftrightarrow> (\<forall>p. p_ok p \<longrightarrow> 7 * psize p + k \<le> n \<longrightarrow> f p \<noteq> OutOfFuel)"

lemma fuelledD: "fuelled k n f \<Longrightarrow> p_ok p \<Longrightarrow> 7 * psize p + k \<le> n \<Longrightarrow> f p \<noteq> OutOfFuel"
  by (simp add: fuelled_def)

lemma loop_fuelled:
  assumes f: "fuelled 4 n f" and c: "consumes f" and g: "\<And>e. fuelled 1 n (g e)"
    and tk: "tk \<noteq> TokenEOF"
  shows "fuelled 1 (Suc n) (\<lambda>p. if cur_type p = tk then
      (case f (nextToken p) of OutOfFuel \<Rightarrow> OutOfFuel | Failed x \<Rightarrow> Failed x
        | Parsed e p1 \<Rightarrow> g (h p e) p1) else Parsed l p)"
proof -
  have "(case f (nextToken p) of OutOfFuel \<Rightarrow> OutOfFuel | Failed x \<Rightarrow> Failed x
        | Parsed e p1 \<Rightarrow> g (h p e) p1) \<noteq> OutOfFuel"
    if p: "p_ok p" "7 * psize p + 1 \<le> Suc n" "cur_type p = tk" for p
  proof -
    have nx: "p_ok (nextToken p)" "psize (nextToken p) < psize p"
      using p tk by (simp_all add: psize_nextToken)
    have "f (nextToken p) \<noteq> OutOfFuel" using fuelledD [OF f] nx p(2) by simp
    moreover have "g (h p e) p1 \<noteq> OutOfFuel" if "f (nextToken p) = Parsed e p1" for e p1
      using fuelledD [OF g] consumesD [OF c that nx(1)] nx(2) p(2) by simp
    ultimately show ?thesis by (simp add: presult_case_OutOfFuel)
  qed
  then show ?thesis by (simp add: fuelled_def)
qed

lemma then_fuelled:
  assumes "fuelled k n f" "consumes f" "\<And>e. fuelled 1 n (g e)" "1 \<le> k"
  shows "fuelled (Suc k) (Suc n)
    (\<lambda>p. case f p of OutOfFuel \<Rightarrow> OutOfFuel | Failed x \<Rightarrow> Failed x | Parsed e p1 \<Rightarrow> g e p1)"
proof -
  have "g e p1 \<noteq> OutOfFuel" if "p_ok p" "7 * psize p + k \<le> n" "f p = Parsed e p1" for p e p1
    using fuelledD [OF assms(3)] consumesD [OF assms(2) that(3,1)] that(2) assms(4) by simp
  with assms(1) show ?thesis by (simp add: fuelled_def presult_case_OutOfFuel)
qed

lemma parse_fuelled:
  "fuelled 6 n (parseExpression n) \<and> fuelled 5 n (parseOr n) \<and> (\<forall>l. fuelled 1 n (orLoop n l)) \<and>
   fuelled 4 n (parseAnd n) \<and> (\<forall>l. fuelled 1 n (andLoop n l)) \<and> fuelled 3 n (parseNot n) \<and>
   fuelled 2 n (parseComparison n) \<and> fuelled 1 n (parsePrimary n)"
proof (induction n)
  case 0
  show ?case by (simp add: fuelled_def)
next
  case (Suc n)
  then have E: "fuelled 6 n (parseExpression n)" and Or: "fuelled 5 n (parseOr n)"
    and OL: "\<And>l. fuelled 1 n (orLoop n l)" and A: "fuelled 4 n (parseAnd n)"
    and AL: "\<And>l. fuelled 1 n (andLoop n l)" and N: "fuelled 3 n (parseNot n)"
    and C: "fuelled 2 n (parseComparison n)" and P: "fuelled 1 n (parsePrimary n)"
    by auto
  note cons = parse_consumes_rules [of n]
  have N4: "fuelled 4 n (parseNot n)" using N by (simp add: fuelled_def)
  have nt: "p_ok (nextToken p) \<and> psize (nextToken p) < psize p"
    if "p_ok p" "cur_type p \<noteq> TokenEOF" for p
    using that psize_nextToken by simp
  have "fuelled 6 (Suc n) (parseExpression (Suc n))"
    using Or by (simp add: fuelled_def)
  moreover have "fuelled 5 (Suc n) (parseOr (Suc n))"
    using then_fuelled [of 4 n "parseAnd n" "orLoop n", OF A cons(2) OL]
    by (simp add: fuelled_def)
  moreover have "fuelled 1 (Suc n) (orLoop (Suc n) l)" for l
    using loop_fuelled [of n "parseAnd n" "orLoop n" TokenOR
        "\<lambda>p right. LogicalNode l (str_upper (cur_literal p)) right" l, OF A cons(2) OL]
    by (simp only: fuelled_def orLoop.simps) simp
  moreover have "fuelled 4 (Suc n) (parseAnd (Suc n))"
    using then_fuelled [of 3 n "parseNot n" "andLoop n", OF N cons(3) AL]
    by (simp add: fuelled_def)
  moreover have "fuelled 1 (Suc n) (andLoop (Suc n) l)" for l
    using loop_fuelled [of n "parseNot n" "andLoop n" TokenAND
        "\<lambda>p right. LogicalNode l (str_upper (cur_literal p)) right" l, OF N4 cons(3) AL]
    by (simp only: fuelled_def andLoop.simps) simp
  moreover have "fuelled 3 (Suc n) (parseNot (Suc n))"
    unfolding fuelled_def
  proof (intro allI impI)
    fix p assume "p_ok p" "7 * psize p + 3 \<le> Suc n"
    with nt [of p] fuelledD [OF N, of "nextToken p"] fuelledD [OF C, of p]
    show "parseNot (Suc n) p \<noteq> OutOfFuel" by (auto simp: presult_case_OutOfFuel)
  qed
  moreover have "fuelled 2 (Suc n) (parseComparison (Suc n))"
    unfolding fuelled_def
  proof (intro allI impI)
    fix p assume p: "p_ok p" "7 * psize p + 2 \<le> Suc n"
    have "parsePrimary n (nextToken p1) \<noteq> OutOfFuel"
      if "parsePrimary n p = Parsed e p1" "isComparisonOperator (cur_type p1)" for e p1
      using consumesD [OF cons(4) that(1) p(1)] nt [of p1] fuelledD [OF P, of "nextToken p1"] that p(2)
      by force
    with fuelledD [OF P, of p] p show "parseComparison (Suc n) p \<noteq> OutOfFuel"
      by (auto simp: presult_case_OutOfFuel)
  qed
  moreover have "fuelled 1 (Suc n) (parsePrimary (Suc n))"
    unfolding fuelled_def
  proof (intro allI impI)
    fix p assume p: "p_ok p" "7 * psize p + 1 \<le> Suc n"
    show "parsePrimary (Suc n) p \<noteq> OutOfFuel"
    proof (cases "cur_type p = TokenLParen")
      case True
      with p nt [of p] have "parseExpression n (nextToken p) \<noteq> OutOfFuel"
        by (intro fuelledD [OF E]) auto
      with True show ?thesis by (auto simp: presult_case_OutOfFuel)
    next
      case False
      then show ?thesis by (auto split: token_type.splits option.splits)
    qed
  qed
  ultimately show ?case by blast
qed

lemma Parse_total: "Parse (parse_fuel s) (NewParser s) \<noteq> OutOfFuel"
proof -
  have "7 * psize (NewParser s) + 6 \<le> parse_fuel s"
    using psize_NewParser [of s] by (simp add: parse_fuel_def)
  then have "parseExpression (parse_fuel s) (NewParser s) \<noteq> OutOfFuel"
    using parse_fuelled fuelledD p_ok_NewParser by blast
  then show ?thesis by (auto simp: Parse_def presult_case_OutOfFuel)
qed

section \<open>The trees the parser builds\<close>

definition comparison_ops :: "gostring list" where
  "comparison_ops = [''=='', ''!='', ''<'', ''>'', ''<='', ''>='']"

definition logical_ops :: "gostring list" where
  "logical_ops = [''AND'', ''OR'']"

text \<open>Every operator of a tree is one the evaluator knows, and integer literals are in range.\<close>

primrec node_wf :: "node \<Rightarrow> bool" where
  "node_wf (LiteralNode v) = goval_wf v"
| "node_wf (VariableNode name) = True"
| "node_wf (ComparisonNode l op r) = (node_wf l \<and> op \<in> set comparison_ops \<and> node_wf r)"
| "node_wf (LogicalNode l op r) = (node_wf l \<and> op \<in> set logical_ops \<and> node_wf r)"
| "node_wf (NotNode x) = node_wf x"

definition token_ok :: "token \<Rightarrow> bool" where
  "token_ok t \<longleftrightarrow>
     (isComparisonOperator (tok_type t) \<longrightarrow> tok_literal t \<in> set comparison_ops) \<and>
     (tok_type t = TokenAND \<longrightarrow> str_upper (tok_literal t) = ''AND'') \<and>
     (tok_type t = TokenOR \<longrightarrow> str_upper (tok_literal t) = ''OR'')"

lemma scan_token_ok:
  "scan_token s = (ty, lit, n) \<Longrightarrow> token_ok \<lparr>tok_type = ty, tok_literal = lit, tok_pos = q\<rparr>"
  by (auto simp: scan_token_def scan_number_def scan_string_def scan_var_def scan_ident_def
      lookupIdent_def Let_def token_ok_def comparison_ops_def split: if_splits)

definition parser_ok :: "parser \<Rightarrow> bool" where
  "parser_ok p \<longleftrightarrow> p_ok p \<and> token_ok (p_cur p) \<and> token_ok (p_peek p)"

lemma parser_ok_nextToken [simp]: "parser_ok p \<Longrightarrow> parser_ok (nextToken p)"
proof -
  assume ok: "parser_ok p"
  then obtain s q where l: "p_lexer p = lexer_at s q" by (auto simp: parser_ok_def p_ok_def)
  obtain ty lit n where t: "scan_token (drop (q + length (lspan is_space (drop q s))) s) = (ty, lit, n)"
    by (cases "scan_token (drop (q + length (lspan is_space (drop q s))) s)") auto
  from ok p_ok_nextToken [of p] scan_token_ok [OF t] show ?thesis
    by (simp add: parser_ok_def nextToken_def l NextToken_scan t Let_def)
qed

lemma parser_ok_NewParser [simp]: "parser_ok (NewParser s)"
proof -
  have "parser_ok \<lparr>p_lexer = NewLexer s, p_cur = zero_token, p_peek = zero_token\<rparr>"
    by (auto simp: parser_ok_def p_ok_def NewLexer_at token_ok_def zero_token_def)
  then show ?thesis by (simp add: NewParser_def)
qed

definition builds_wf :: "(parser \<Rightarrow> presult) \<Rightarrow> bool" where
  "builds_wf f \<longleftrightarrow> (\<forall>p e p'. parser_ok p \<longrightarrow> f p = Parsed e p' \<longrightarrow> node_wf e \<and> parser_ok p')"

lemma builds_wfD: "builds_wf f \<Longrightarrow> f p = Parsed e p' \<Longrightarrow> parser_ok p \<Longrightarrow> node_wf e \<and> parser_ok p'"
  by (simp add: builds_wf_def)

lemma builds_wfI:
  "(\<And>p e p'. parser_ok p \<Longrightarrow> f p = Parsed e p' \<Longrightarrow> node_wf e \<and> parser_ok p') \<Longrightarrow> builds_wf f"
  by (simp add: builds_wf_def)

lemma then_builds_wf:
  assumes "builds_wf f" "\<forall>e. node_wf e \<longrightarrow> builds_wf (g e)"
  shows "builds_wf (\<lambda>p. case f p of OutOfFuel \<Rightarrow> OutOfFuel | Failed x \<Rightarrow> Failed x | Parsed e p1 \<Rightarrow> g e p1)"
  by (rule builds_wfI) (auto dest: builds_wfD [OF assms(1)] builds_wfD [OF assms(2) [rule_format]])

lemma loop_builds_wf:
  assumes "builds_wf f" "\<forall>e. node_wf e \<longrightarrow> builds_wf (g e)" "node_wf l"
    and "\<forall>p e. parser_ok p \<longrightarrow> cur_type p = tk \<longrightarrow> node_wf e \<longrightarrow> node_wf (h p e)"
  shows "builds_wf (\<lambda>p. if cur_type p = tk then
      (case f (nextToken p) of OutOfFuel \<Rightarrow> OutOfFuel | Failed x \<Rightarrow> Failed x
        | Parsed e p1 \<Rightarrow> g (h p e) p1) else Parsed l p)"
proof (rule builds_wfI)
  fix p e p'
  assume ok: "parser_ok p" and r: "(if cur_type p = tk then
      (case f (nextToken p) of OutOfFuel \<Rightarrow> OutOfFuel | Failed x \<Rightarrow> Failed x
        | Parsed e p1 \<Rightarrow> g (h p e) p1) else Parsed l p) = Parsed e p'"
  show "node_wf e \<and> parser_ok p'"
  proof (cases "cur_type p = tk")
    case True
    with r obtain e1 p1 where 1: "f (nextToken p) = Parsed e1 p1" "g (h p e1) p1 = Parsed e p'"
      by auto
    have "node_wf e1" "parser_ok p1" using builds_wfD [OF assms(1) 1(1)] ok by simp_all
    with builds_wfD [OF assms(2) [rule_format] 1(2)] assms(4) [rule_format, OF ok True] show ?thesis by blast
  next
    case False
    with r ok assms(3) show ?thesis by simp
  qed
qed

lemma parse_int_in_int64: "parse_int s = Some v \<Longrightarrow> in_int64 v"
  by (auto simp: parse_int_def Let_def split: list.splits if_splits)

lemma parse_builds_wf:
  "builds_wf (parseExpression n) \<and> builds_wf (parseOr n) \<and> (\<forall>l. node_wf l \<longrightarrow> builds_wf (orLoop n l)) \<and>
   builds_wf (parseAnd n) \<and> (\<forall>l. node_wf l \<longrightarrow> builds_wf (andLoop n l)) \<and> builds_wf (parseNot n) \<and>
   builds_wf (parseComparison n) \<and> builds_wf (parsePrimary n)"
proof (induction n)
  case 0
  show ?case by (simp add: builds_wf_def)
next
  case (Suc n)
  then have E: "builds_wf (parseExpression n)" and Or: "builds_wf (parseOr n)"
    and OL: "\<forall>l. node_wf l \<longrightarrow> builds_wf (orLoop n l)" and A: "builds_wf (parseAnd n)"
    and AL: "\<forall>l. node_wf l \<longrightarrow> builds_wf (andLoop n l)" and N: "builds_wf (parseNot n)"
    and C: "builds_wf (parseComparison n)" and P: "builds_wf (parsePrimary n)"
    by auto
  have "builds_wf (parseExpression (Suc n))"
    using Or by (simp add: builds_wf_def)
  moreover have "builds_wf (parseOr (Suc n))"
    using then_builds_wf [of "parseAnd n" "orLoop n", OF A OL]
    by (simp only: builds_wf_def parseOr.simps)
  moreover have "builds_wf (orLoop (Suc n) l)" if l: "node_wf l" for l
  proof -
    have h: "\<forall>p e. parser_ok p \<longrightarrow> cur_type p = TokenOR \<longrightarrow> node_wf e \<longrightarrow>
        node_wf (LogicalNode l (str_upper (cur_literal p)) e)"
      using l by (simp add: parser_ok_def token_ok_def logical_ops_def)
    show ?thesis
      using loop_builds_wf [OF A OL l h] by (simp only: builds_wf_def orLoop.simps)
  qed
  moreover have "builds_wf (parseAnd (Suc n))"
    using then_builds_wf [of "parseNot n" "andLoop n", OF N AL]
    by (simp only: builds_wf_def parseAnd.simps)
  moreover have "builds_wf (andLoop (Suc n) l)" if l: "node_wf l" for l
  proof -
    have h: "\<forall>p e. parser_ok p \<longrightarrow> cur_type p = TokenAND \<longrightarrow> node_wf e \<longrightarrow>
        node_wf (LogicalNode l (str_upper (cur_literal p)) e)"
      using l by (simp add: parser_ok_def token_ok_def logical_ops_def)
    show ?thesis
      using loop_builds_wf [OF N AL l h] by (simp only: builds_wf_def andLoop.simps)
  qed
  moreover have "builds_wf (parseNot (Suc n))"
    by (rule builds_wfI) (auto dest: builds_wfD [OF N] builds_wfD [OF C] split: if_splits)
  moreover have "builds_wf (parseComparison (Suc n))"
  proof (rule builds_wfI)
    fix p e p' assume ok: "parser_ok p" and r: "parseComparison (Suc n) p = Parsed e p'"
    then obtain l p1 where 1: "parsePrimary n p = Parsed l p1" by auto
    note p1 = builds_wfD [OF P 1 ok]
    show "node_wf e \<and> parser_ok p'"
    proof (cases "isComparisonOperator (cur_type p1)")
      case True
      with r 1 obtain r' where 2: "parsePrimary n (nextToken p1) = Parsed r' p'"
        and e: "e = ComparisonNode l (cur_literal p1) r'" by auto
      have "cur_literal p1 \<in> set comparison_ops"
        using p1 True by (simp add: parser_ok_def token_ok_def)
      with builds_wfD [OF P 2] p1 e show ?thesis by simp
    next
      case False
      with r 1 p1 show ?thesis by simp
    qed
  qed
  moreover have "builds_wf (parsePrimary (Suc n))"
  proof (rule builds_wfI)
    fix p e p' assume ok: "parser_ok p" and r: "parsePrimary (Suc n) p = Parsed e p'"
    show "node_wf e \<and> parser_ok p'"
    proof (cases "cur_type p = TokenLParen")
      case True
      with r obtain p1 where 1: "parseExpression n (nextToken p) = Parsed e p1"
        "p' = nextToken p1" by (auto split: if_splits)
      with builds_wfD [OF E 1(1)] ok show ?thesis by simp
    next
      case False
      with r ok show ?thesis
        by (auto dest!: parse_int_in_int64
            simp: in_kind_def in_int64_def int64_min_def int64_max_def
            split: token_type.splits option.splits)
    qed
  qed
  ultimately show ?case by blast
qed

lemma ParseExpression_node_wf: "ParseExpression s = Some (Inr e) \<Longrightarrow> node_wf e"
proof -
  assume "ParseExpression s = Some (Inr e)"
  then obtain p where "parseExpression (parse_fuel s) (NewParser s) = Parsed e p"
    by (auto simp: ParseExpression_def Parse_def split: presult.splits if_splits)
  then show ?thesis
    using parse_builds_wf [of "parse_fuel s"] builds_wfD parser_ok_NewParser by blast
qed

text \<open>(C40) Parsing ends for every text: with an error, or with a well-formed expression, in which every operator node has its operands
  and an operator of its kind.\<close>

theorem parse_total_wf: "\<exists>r. ParseExpression s = Some r \<and> (\<forall>e. r = Inr e \<longrightarrow> node_wf e)"
proof -
  obtain r where "ParseExpression s = Some r"
    using Parse_total [of s] by (cases "Parse (parse_fuel s) (NewParser s)") (auto simp: ParseExpression_def)
  then show ?thesis using ParseExpression_node_wf by blast
qed

theorem parse_total_wf_witness: "\<exists>r. ParseExpression ''a == 1 AND NOT (b < 2)'' = Some r"
  using parse_total_wf [of "''a == 1 AND NOT (b < 2)''"] by blast

end
