(* ===== verification/Expr_Evaluator.thy ===== *)
theory Expr_Evaluator
  imports Expr_Parser
begin

text \<open>
  The evaluator of condition expressions (\<^verbatim>\<open>internal/expression/evaluator.go\<close>): variable
  lookup in the evaluation context, comparison with its numeric and textual cases, truth values
  and the parse cache of \<^verbatim>\<open>DefaultEvaluator\<close>, which is threaded through as a value. A nil context
  or a nil tree is \<open>None\<close>.
\<close>

section \<open>The evaluation context\<close>

record eval_ctx =
  Variables :: "(gostring, goval) gomap"
  Results :: "(gostring, goval) gomap"

definition NewEvaluationContext :: eval_ctx where
  "NewEvaluationContext = \<lparr>Variables = [], Results = []\<rparr>"

definition WithVariables :: "eval_ctx \<Rightarrow> (gostring, goval) gomap \<Rightarrow> eval_ctx" where
  "WithVariables c vars = c\<lparr>Variables := vars\<rparr>"

definition WithResults :: "eval_ctx \<Rightarrow> (gostring, goval) gomap \<Rightarrow> eval_ctx" where
  "WithResults c results = c\<lparr>Results := results\<rparr>"

definition ctx_Set :: "eval_ctx \<Rightarrow> gostring \<Rightarrow> goval \<Rightarrow> eval_ctx" where
  "ctx_Set c name v = c\<lparr>Variables := AList.update name v (Variables c)\<rparr>"

definition ctx_SetResult :: "eval_ctx \<Rightarrow> gostring \<Rightarrow> goval \<Rightarrow> eval_ctx" where
  "ctx_SetResult c stepID r = c\<lparr>Results := AList.update stepID r (Results c)\<rparr>"

section \<open>Conversions\<close>

fun toFloat64 :: "goval \<Rightarrow> float64 option" where
  "toFloat64 (VInt k i) = Some (f64_of_int i)"
| "toFloat64 (VFloat32 f) = Some f"
| "toFloat64 (VFloat64 f) = Some f"
| "toFloat64 (VString s) = parse_float s"
| "toFloat64 _ = None"

definition f64_nonzero :: "float64 \<Rightarrow> bool" where
  "f64_nonzero f = (\<not> f64_eq f (F_Fin False 0))"

fun toBool :: "goval \<Rightarrow> expr_error + bool" where
  "toBool (VBool b) = Inr b"
| "toBool (VInt k i) = Inr (i \<noteq> 0)"
| "toBool (VFloat32 f) = Inr (f64_nonzero f)"
| "toBool (VFloat64 f) = Inr (f64_nonzero f)"
| "toBool (VString s) =
     (let lower = str_lower s
      in if lower = ''true'' \<or> lower = ''1'' then Inr True
         else if lower = ''false'' \<or> lower = ''0'' \<or> lower = [] then Inr False
         else Inl (TypeMismatchError ''bool'' ''string'' (VString s)))"
| "toBool VNil = Inr False"
| "toBool v = Inl (TypeMismatchError ''bool'' (type_name v) v)"

section \<open>Comparison\<close>

definition compareNumbers :: "float64 \<Rightarrow> float64 \<Rightarrow> gostring \<Rightarrow> expr_error + bool" where
  "compareNumbers left right op =
     (if op = ''=='' then Inr (f64_eq left right)
      else if op = ''!='' then Inr (\<not> f64_eq left right)
      else if op = ''<'' then Inr (f64_lt left right)
      else if op = ''>'' then Inr (f64_lt right left)
      else if op = ''<='' then Inr (f64_le left right)
      else if op = ''>='' then Inr (f64_le right left)
      else Inl (EvalUnknownComparison op))"

definition as_text :: "goval \<Rightarrow> gostring" where
  "as_text v = (case v of VString s \<Rightarrow> s | _ \<Rightarrow> sprint_v v)"

definition compareStrings :: "gostring \<Rightarrow> gostring \<Rightarrow> gostring \<Rightarrow> expr_error + bool" where
  "compareStrings left right op =
     (if op = ''=='' then Inr (left = right)
      else if op = ''!='' then Inr (left \<noteq> right)
      else if op = ''<'' then Inr (left < right)
      else if op = ''>'' then Inr (right < left)
      else if op = ''<='' then Inr (left \<le> right)
      else if op = ''>='' then Inr (right \<le> left)
      else Inl (EvalUnknownComparison op))"

definition compare :: "goval \<Rightarrow> goval \<Rightarrow> gostring \<Rightarrow> expr_error + bool" where
  "compare left right op =
     (if left = VNil \<or> right = VNil then
        (if op = ''=='' then Inr (left = right)
         else if op = ''!='' then Inr (left \<noteq> right)
         else Inl (EvalNilCompare op))
      else case (toFloat64 left, toFloat64 right) of
          (Some l, Some r) \<Rightarrow> compareNumbers l r op
        | _ \<Rightarrow> compareStrings (as_text left) (as_text right) op)"

section \<open>Variables\<close>

text \<open>\<^verbatim>\<open>strings.EqualFold\<close> against an ASCII field name: besides the ASCII letters only the
  Kelvin sign folds to \<^verbatim>\<open>k\<close> and the long s to \<^verbatim>\<open>s\<close>.\<close>

fun fold_norm :: "gostring \<Rightarrow> gostring" where
  "fold_norm (a # b # c # s) =
     (if a = CHR 0xE2 \<and> b = CHR 0x84 \<and> c = CHR 0xAA then CHR ''k'' # fold_norm s
      else if a = CHR 0xC5 \<and> b = CHR 0xBF then CHR ''s'' # fold_norm (c # s)
      else to_lower a # fold_norm (b # c # s))"
| "fold_norm [a, b] =
     (if a = CHR 0xC5 \<and> b = CHR 0xBF then ''s'' else [to_lower a, to_lower b])"
| "fold_norm [a] = [to_lower a]"
| "fold_norm [] = []"

definition equal_fold :: "gostring \<Rightarrow> gostring \<Rightarrow> bool" where
  "equal_fold a b = (fold_norm a = fold_norm b)"

definition getField :: "goval \<Rightarrow> gostring \<Rightarrow> field_error + goval" where
  "getField v field =
     (case v of
        VNil \<Rightarrow> Inl (FieldOfNil field)
      | VMap m \<Rightarrow>
          (case map_of m field of Some x \<Rightarrow> Inr x | None \<Rightarrow> Inl (FieldNotInMap field))
      | VStruct n fs \<Rightarrow>
          (case map_of fs field of
             Some x \<Rightarrow> Inr x
           | None \<Rightarrow>
               (case find (\<lambda>kv. equal_fold (fst kv) field) fs of
                  Some kv \<Rightarrow> Inr (snd kv)
                | None \<Rightarrow> Inl (FieldNotInStruct field)))
      | _ \<Rightarrow> Inl (FieldOfType (type_name v) field))"

fun navigate :: "gostring \<Rightarrow> goval \<Rightarrow> gostring list \<Rightarrow> expr_error + goval" where
  "navigate path current [] = Inr current"
| "navigate path current (part # parts) =
     (case getField current part of
        Inl e \<Rightarrow> Inl (EvalCannotResolve path e)
      | Inr v \<Rightarrow> navigate path v parts)"

definition resolvePathVariable :: "gostring \<Rightarrow> eval_ctx \<Rightarrow> expr_error + goval" where
  "resolvePathVariable path ctx =
     (let parts = split_on (CHR ''.'') path
      in if length parts < 2 then Inl (VariableNotFoundError path)
         else let rt = hd parts
              in case map_of (Results ctx) rt of
                   Some v \<Rightarrow> navigate path v (tl parts)
                 | None \<Rightarrow>
                     (case map_of (Variables ctx) rt of
                        Some v \<Rightarrow> navigate path v (tl parts)
                      | None \<Rightarrow> Inl (VariableNotFoundError path)))"

definition resolveVariable :: "gostring \<Rightarrow> eval_ctx option \<Rightarrow> expr_error + goval" where
  "resolveVariable name ctx =
     (case ctx of
        None \<Rightarrow> Inl (VariableNotFoundError name)
      | Some c \<Rightarrow>
          if str_contains name ''.'' then resolvePathVariable name c
          else case map_of (Variables c) name of
              Some v \<Rightarrow> Inr v
            | None \<Rightarrow>
                (case map_of (Results c) name of
                   Some v \<Rightarrow> Inr v
                 | None \<Rightarrow> Inl (VariableNotFoundError name)))"

section \<open>Evaluation\<close>

definition bool_value :: "expr_error + bool \<Rightarrow> expr_error + goval" where
  "bool_value r = (case r of Inl e \<Rightarrow> Inl e | Inr b \<Rightarrow> Inr (VBool b))"

text \<open>The three methods for compound nodes, on what the evaluation of the operands returned.
  A right operand that the code does not evaluate is not looked at here.\<close>

definition evaluateComparison ::
  "expr_error + goval \<Rightarrow> gostring \<Rightarrow> expr_error + goval \<Rightarrow> expr_error + bool" where
  "evaluateComparison l op r =
     (case l of
        Inl e \<Rightarrow> Inl e
      | Inr left \<Rightarrow>
          (case r of Inl e \<Rightarrow> Inl e | Inr right \<Rightarrow> compare left right op))"

definition evaluateLogical ::
  "expr_error + goval \<Rightarrow> gostring \<Rightarrow> expr_error + goval \<Rightarrow> expr_error + bool" where
  "evaluateLogical l op r =
     (case l of
        Inl e \<Rightarrow> Inl e
      | Inr leftVal \<Rightarrow>
          (case toBool leftVal of
             Inl e \<Rightarrow> Inl e
           | Inr leftBool \<Rightarrow>
               if op = ''AND'' \<and> \<not> leftBool then Inr False
               else if op = ''OR'' \<and> leftBool then Inr True
               else case r of
                   Inl e \<Rightarrow> Inl e
                 | Inr rightVal \<Rightarrow>
                     (case toBool rightVal of
                        Inl e \<Rightarrow> Inl e
                      | Inr rightBool \<Rightarrow>
                          if op = ''AND'' then Inr (leftBool \<and> rightBool)
                          else if op = ''OR'' then Inr (leftBool \<or> rightBool)
                          else Inl (EvalUnknownLogical op))))"

definition evaluateNot :: "expr_error + goval \<Rightarrow> expr_error + bool" where
  "evaluateNot x =
     (case x of
        Inl e \<Rightarrow> Inl e
      | Inr v \<Rightarrow> (case toBool v of Inl e \<Rightarrow> Inl e | Inr b \<Rightarrow> Inr (\<not> b)))"

primrec evaluateNode :: "node \<Rightarrow> eval_ctx option \<Rightarrow> expr_error + goval" where
  "evaluateNode (LiteralNode v) ctx = Inr v"
| "evaluateNode (VariableNode name) ctx = resolveVariable name ctx"
| "evaluateNode (ComparisonNode l op r) ctx =
     bool_value (evaluateComparison (evaluateNode l ctx) op (evaluateNode r ctx))"
| "evaluateNode (LogicalNode l op r) ctx =
     bool_value (evaluateLogical (evaluateNode l ctx) op (evaluateNode r ctx))"
| "evaluateNode (NotNode x) ctx = bool_value (evaluateNot (evaluateNode x ctx))"

definition Evaluate :: "node option \<Rightarrow> eval_ctx option \<Rightarrow> expr_error + bool" where
  "Evaluate ast ctx =
     (case ast of
        None \<Rightarrow> Inl EvalNilAST
      | Some rt \<Rightarrow>
          (case evaluateNode rt ctx of Inl e \<Rightarrow> Inl e | Inr v \<Rightarrow> toBool v))"

section \<open>The evaluator with its parse cache\<close>

type_synonym ast_cache = "(gostring, node) gomap"

definition NewEvaluator :: ast_cache where
  "NewEvaluator = []"

definition EvaluateString ::
  "ast_cache \<Rightarrow> gostring \<Rightarrow> eval_ctx option \<Rightarrow> ((expr_error + bool) \<times> ast_cache) option" where
  "EvaluateString cache expr ctx =
     (case map_of cache expr of
        Some ast \<Rightarrow> Some (Evaluate (Some ast) ctx, cache)
      | None \<Rightarrow>
          (case ParseExpression expr of
             None \<Rightarrow> None
           | Some (Inl e) \<Rightarrow> Some (Inl e, cache)
           | Some (Inr ast) \<Rightarrow>
               Some (Evaluate (Some ast) ctx, AList.update expr ast cache)))"

definition Evaluate_expr :: "gostring \<Rightarrow> eval_ctx option \<Rightarrow> (expr_error + bool) option" where
  "Evaluate_expr expr ctx = map_option fst (EvaluateString NewEvaluator expr ctx)"

section \<open>Properties\<close>

subsection \<open>Totality and safety\<close>

lemma ParseExpression_total: "ParseExpression s \<noteq> None"
  using Parse_total [of s] by (simp add: ParseExpression_def split: presult.splits)

text \<open>The errors that only a malformed tree can cause.\<close>

fun tree_error :: "expr_error \<Rightarrow> bool" where
  "tree_error EvalNilAST = True"
| "tree_error (EvalUnknownComparison _) = True"
| "tree_error (EvalUnknownLogical _) = True"
| "tree_error (ParseError _ _ _) = True"
| "tree_error (ExpressionError _ _) = True"
| "tree_error _ = False"

lemma toBool_error: "toBool v = Inl e \<Longrightarrow> \<not> tree_error e"
  by (cases v rule: toBool.cases) (auto simp: Let_def split: if_splits)

lemma compare_error: "op \<in> set comparison_ops \<Longrightarrow> compare l r op = Inl e \<Longrightarrow> \<not> tree_error e"
  by (auto simp: compare_def compareNumbers_def compareStrings_def comparison_ops_def
      split: if_splits option.splits)

lemma navigate_error: "navigate path v parts = Inl e \<Longrightarrow> \<not> tree_error e"
  by (induction path v parts rule: navigate.induct) (auto split: sum.splits)

lemma resolveVariable_error: "resolveVariable name ctx = Inl e \<Longrightarrow> \<not> tree_error e"
  by (auto simp: resolveVariable_def resolvePathVariable_def Let_def
      dest: navigate_error split: option.splits if_splits)

lemma evaluateNode_error: "node_wf n \<Longrightarrow> evaluateNode n ctx = Inl e \<Longrightarrow> \<not> tree_error e"
proof (induction n arbitrary: e)
  case (LiteralNode v)
  then show ?case by simp
next
  case (VariableNode name)
  then show ?case by (simp add: resolveVariable_error)
next
  case (ComparisonNode l op r)
  then show ?case
    by (auto simp: bool_value_def evaluateComparison_def dest: compare_error split: sum.splits)
next
  case (LogicalNode l op r)
  then show ?case
    by (auto simp: bool_value_def evaluateLogical_def logical_ops_def dest: toBool_error
        split: sum.splits if_splits)
next
  case (NotNode x)
  then show ?case
    by (auto simp: bool_value_def evaluateNot_def dest: toBool_error split: sum.splits)
qed

text \<open>(C11) Evaluating an expression the parser accepted never fails with an unknown operator,
  a missing tree or a parse error: what can go wrong is a missing variable, a path that does not
  resolve, an ordering of nil, or a value that is not a truth value.\<close>

theorem parsed_expression_safe:
  assumes "ParseExpression s = Some (Inr n)" and "Evaluate (Some n) ctx = Inl e"
  shows "\<not> tree_error e"
  using assms evaluateNode_error [OF ParseExpression_node_wf [OF assms(1)]]
  by (auto simp: Evaluate_def dest: toBool_error split: sum.splits)

theorem parsed_expression_safe_witness:
  "ParseExpression ''NOT x'' = Some (Inr (NotNode (VariableNode ''x''))) \<and>
   Evaluate (Some (NotNode (VariableNode ''x''))) None = Inl (VariableNotFoundError ''x'') \<and>
   \<not> tree_error (VariableNotFoundError ''x'')"
proof -
  have p: "ParseExpression ''NOT x'' = Some (Inr (NotNode (VariableNode ''x'')))" by code_simp
  have e: "Evaluate (Some (NotNode (VariableNode ''x''))) None = Inl (VariableNotFoundError ''x'')"
    by code_simp
  show ?thesis using p e parsed_expression_safe [OF p e] by blast
qed

subsection \<open>The parse cache\<close>

definition cache_ok :: "ast_cache \<Rightarrow> bool" where
  "cache_ok c \<longleftrightarrow> (\<forall>e ast. map_of c e = Some ast \<longrightarrow> ParseExpression e = Some (Inr ast))"

lemma cache_ok_New: "cache_ok NewEvaluator"
  by (simp add: cache_ok_def NewEvaluator_def)

text \<open>(C39) The cache is invisible: with any cache that was filled by the evaluator itself,
  evaluating a string always returns, returns what a fresh evaluator returns, and leaves a cache
  of the same kind.\<close>

theorem EvaluateString_cache_transparent:
  assumes "cache_ok c"
  shows "\<exists>r c'. EvaluateString c expr ctx = Some (r, c') \<and> Evaluate_expr expr ctx = Some r \<and>
    cache_ok c'"
proof (cases "map_of c expr")
  case (Some ast)
  with assms have "ParseExpression expr = Some (Inr ast)" by (simp add: cache_ok_def)
  with Some assms show ?thesis
    by (simp add: EvaluateString_def Evaluate_expr_def NewEvaluator_def)
next
  case None
  with assms ParseExpression_total [of expr] show ?thesis
    by (auto simp: EvaluateString_def Evaluate_expr_def NewEvaluator_def cache_ok_def update_conv'
        split: sum.splits)
qed

theorem EvaluateString_cache_transparent_witness:
  "cache_ok [(''1'', LiteralNode (VInt K_int64 1))] \<and>
   (\<exists>r c'. EvaluateString [(''1'', LiteralNode (VInt K_int64 1))] ''1'' None = Some (r, c') \<and>
     Evaluate_expr ''1'' None = Some r \<and> cache_ok c')"
proof -
  have "ParseExpression ''1'' = Some (Inr (LiteralNode (VInt K_int64 1)))" by code_simp
  then have h: "cache_ok [(''1'', LiteralNode (VInt K_int64 1))]"
    by (simp add: cache_ok_def)
  show ?thesis using h EvaluateString_cache_transparent [OF h, of "''1''" None] by blast
qed

subsection \<open>Logical operators\<close>

text \<open>De Morgan's laws hold for evaluation with its short circuits and its errors: the two
  sides return the same value or the same error in every context.\<close>

theorem evaluate_de_morgan:
  "evaluateNode (NotNode (LogicalNode a ''AND'' b)) ctx =
     evaluateNode (LogicalNode (NotNode a) ''OR'' (NotNode b)) ctx \<and>
   evaluateNode (NotNode (LogicalNode a ''OR'' b)) ctx =
     evaluateNode (LogicalNode (NotNode a) ''AND'' (NotNode b)) ctx"
  by (auto simp: bool_value_def evaluateLogical_def evaluateNot_def split: sum.splits)

text \<open>Short circuit: when the left operand decides the result, the right operand is not
  evaluated, so that an error in it does not surface.\<close>

theorem evaluate_short_circuit:
  "(Evaluate (Some a) ctx = Inr False \<longrightarrow> Evaluate (Some (LogicalNode a ''AND'' b)) ctx = Inr False) \<and>
   (Evaluate (Some a) ctx = Inr True \<longrightarrow> Evaluate (Some (LogicalNode a ''OR'' b)) ctx = Inr True)"
  by (auto simp: Evaluate_def bool_value_def evaluateLogical_def split: sum.splits)

theorem evaluate_short_circuit_witness:
  "Evaluate (Some (LiteralNode (VBool False))) None = Inr False \<and>
   Evaluate (Some (LogicalNode (LiteralNode (VBool False)) ''AND'' (VariableNode ''x''))) None = Inr False \<and>
   Evaluate (Some (LiteralNode (VBool True))) None = Inr True \<and>
   Evaluate (Some (LogicalNode (LiteralNode (VBool True)) ''OR'' (VariableNode ''x''))) None = Inr True"
proof -
  have f: "Evaluate (Some (LiteralNode (VBool False))) None = Inr False"
    and t: "Evaluate (Some (LiteralNode (VBool True))) None = Inr True"
    by (simp_all add: Evaluate_def)
  show ?thesis
    using f t evaluate_short_circuit by blast
qed

subsection \<open>Comparison\<close>

text \<open>What an operator means on a linear order.\<close>

definition op_rel :: "gostring \<Rightarrow> 'a::linorder \<Rightarrow> 'a \<Rightarrow> bool" where
  "op_rel op x y =
     (if op = ''=='' then x = y else if op = ''!='' then x \<noteq> y else if op = ''<'' then x < y
      else if op = ''>'' then y < x else if op = ''<='' then x \<le> y else y \<le> x)"

text \<open>Integers of any width up to \<^verbatim>\<open>2^53\<close> in magnitude are compared as integers, although
  the code converts them to \<^verbatim>\<open>float64\<close> first.\<close>

theorem compare_int_exact:
  assumes "\<bar>i\<bar> \<le> 2 ^ 53" "\<bar>j\<bar> \<le> 2 ^ 53" "op \<in> set comparison_ops"
  shows "compare (VInt k i) (VInt k' j) op = Inr (op_rel op i j)"
  using f64_of_int_order_exact [OF assms(1,2)] f64_of_int_order_exact [OF assms(2,1)] assms(3)
  by (auto simp: compare_def compareNumbers_def comparison_ops_def op_rel_def)

theorem compare_int_exact_witness:
  "\<bar>-5 :: int\<bar> \<le> 2 ^ 53 \<and> \<bar>7 :: int\<bar> \<le> 2 ^ 53 \<and> ''<='' \<in> set comparison_ops \<and>
   compare (VInt K_int8 (-5)) (VInt K_uint64 7) ''<='' = Inr (op_rel ''<='' (-5 :: int) 7)"
proof -
  have h: "\<bar>-5 :: int\<bar> \<le> 2 ^ 53" "\<bar>7 :: int\<bar> \<le> 2 ^ 53" "''<='' \<in> set comparison_ops"
    by (simp_all add: comparison_ops_def)
  show ?thesis using h compare_int_exact [OF h] by blast
qed

text \<open>On all 64-bit integers the strict comparison is sound: when it answers yes, the
  integers are in that order.\<close>

theorem compare_int64_less_sound:
  assumes "in_int64 i" "in_int64 j" "compare (VInt k i) (VInt k' j) ''<'' = Inr True"
  shows "i < j"
  using assms f64_lt_of_int_sound by (simp add: compare_def compareNumbers_def)

theorem compare_int64_less_sound_witness:
  "in_int64 3 \<and> in_int64 4 \<and> compare (VInt K_int64 3) (VInt K_int64 4) ''<'' = Inr True \<and> (3::int) < 4"
proof -
  have h: "in_int64 3" "in_int64 4" "compare (VInt K_int64 3) (VInt K_int64 4) ''<'' = Inr True"
    by (simp_all add: in_int64_def int64_min_def int64_max_def) code_simp
  show ?thesis using h compare_int64_less_sound [OF h] by blast
qed

text \<open>Beyond \<^verbatim>\<open>2^53\<close> the conversion loses integers: two different 64-bit integers compare
  as equal.\<close>

theorem compare_int64_collapses:
  "compare (VInt K_int64 9007199254740993) (VInt K_int64 9007199254740992) ''=='' = Inr True \<and>
   compare (VInt K_int64 9007199254740993) (VInt K_int64 9007199254740992) ''>'' = Inr False"
  by code_simp

lemma unique_answer:
  assumes "f x = Inr p" "f y = Inr q" "f z = Inr r" "p \<or> q \<or> r" "\<not> (p \<and> q)" "\<not> (p \<and> r)" "\<not> (q \<and> r)"
  shows "\<exists>!k. k \<in> {x, y, z} \<and> f k = Inr True"
proof -
  consider "p" "\<not> q" "\<not> r" | "q" "\<not> p" "\<not> r" | "r" "\<not> p" "\<not> q" using assms(4-7) by blast
  then show ?thesis using assms(1-3) by cases (rule ex1I [of _ x] ex1I [of _ y] ex1I [of _ z]; force)+
qed

lemma compareNumbers_trichotomy:
  assumes "a \<noteq> F_NaN" "b \<noteq> F_NaN"
  shows "\<exists>!op. op \<in> {''<'', ''=='', ''>''} \<and> compareNumbers a b op = Inr True"
proof (rule unique_answer)
  show "compareNumbers a b ''<'' = Inr (f64_lt a b)" "compareNumbers a b ''=='' = Inr (f64_eq a b)"
    "compareNumbers a b ''>'' = Inr (f64_lt b a)"
    by (simp_all add: compareNumbers_def)
qed (use f64_trichotomy [OF assms] f64_lt_asym [of a b] f64_lt_not_eq [of a b] f64_lt_not_eq [of b a]
    f64_eq_sym [of a b] in blast)+

lemma compareStrings_trichotomy:
  "\<exists>!op. op \<in> {''<'', ''=='', ''>''} \<and> compareStrings a b op = Inr True"
proof (rule unique_answer)
  show "compareStrings a b ''<'' = Inr (a < b)" "compareStrings a b ''=='' = Inr (a = b)"
    "compareStrings a b ''>'' = Inr (b < a)"
    by (simp_all add: compareStrings_def)
qed (use less_linear [of a b] in auto)

text \<open>For operands that are neither nil nor a float NaN exactly one of less, equal and
  greater holds, numerically when both operands are numbers or numeric strings and on their
  text otherwise.\<close>

theorem compare_trichotomy:
  assumes "l \<noteq> VNil" "r \<noteq> VNil" "toFloat64 l \<noteq> Some F_NaN" "toFloat64 r \<noteq> Some F_NaN"
  shows "\<exists>!op. op \<in> {''<'', ''=='', ''>''} \<and> compare l r op = Inr True"
proof (cases "toFloat64 l \<noteq> None \<and> toFloat64 r \<noteq> None")
  case True
  then obtain a b where ab: "toFloat64 l = Some a" "toFloat64 r = Some b" by auto
  have "a \<noteq> F_NaN" "b \<noteq> F_NaN" using assms ab by auto
  from compareNumbers_trichotomy [OF this] show ?thesis
    using assms(1,2) ab by (simp add: compare_def)
next
  case False
  then have "compare l r op = compareStrings (as_text l) (as_text r) op" for op
    using assms(1,2) by (auto simp: compare_def split: option.splits)
  then show ?thesis using compareStrings_trichotomy [of "as_text l" "as_text r"] by presburger
qed

theorem compare_trichotomy_witness:
  "VInt K_int 3 \<noteq> VNil \<and> VString ''abc'' \<noteq> VNil \<and> toFloat64 (VInt K_int 3) \<noteq> Some F_NaN \<and>
   toFloat64 (VString ''abc'') \<noteq> Some F_NaN \<and>
   (\<exists>!op. op \<in> {''<'', ''=='', ''>''} \<and> compare (VInt K_int 3) (VString ''abc'') op = Inr True)"
proof -
  have n: "toFloat64 (VString ''abc'') = None" by code_simp
  have s: "toFloat64 (VString ''abc'') \<noteq> Some F_NaN" unfolding n by simp
  have h: "VInt K_int 3 \<noteq> VNil" "VString ''abc'' \<noteq> VNil" "toFloat64 (VInt K_int 3) \<noteq> Some F_NaN"
    by simp_all
  note h = h s
  show ?thesis using h compare_trichotomy [OF h] by blast
qed

subsection \<open>Variables\<close>

lemma str_contains_dot: "str_contains name ''.'' \<longleftrightarrow> CHR ''.'' \<in> set name"
  by (auto simp: str_contains_iff in_set_conv_decomp)

text \<open>A variable that was set is what a reference without a dot resolves to, and no other
  plain reference is affected.\<close>

theorem resolve_after_Set:
  assumes "CHR ''.'' \<notin> set name"
  shows "resolveVariable name (Some (ctx_Set c name v)) = Inr v \<and>
    (\<forall>other. CHR ''.'' \<notin> set other \<longrightarrow> other \<noteq> name \<longrightarrow>
       resolveVariable other (Some (ctx_Set c name v)) = resolveVariable other (Some c))"
  using assms
  by (simp add: resolveVariable_def str_contains_dot ctx_Set_def update_conv' split: option.splits)

theorem resolve_after_Set_witness:
  "CHR ''.'' \<notin> set ''user'' \<and>
   resolveVariable ''user'' (Some (ctx_Set NewEvaluationContext ''user'' VNil)) = Inr VNil"
proof -
  have h: "CHR ''.'' \<notin> set ''user''" by simp
  show ?thesis using h resolve_after_Set [OF h] by blast
qed

text \<open>A value below nested maps.\<close>

primrec nest :: "gostring list \<Rightarrow> goval \<Rightarrow> goval" where
  "nest [] v = v"
| "nest (f # fs) v = VMap [(f, nest fs v)]"

lemma navigate_nest: "navigate path (nest fs v) fs = Inr v"
  by (induction fs) (simp_all add: getField_def)

text \<open>A dotted reference finds a value nested in the result of a step, whatever variables
  exist.\<close>

theorem resolve_nested_result:
  assumes "\<forall>w \<in> set (step # f # fs). CHR ''.'' \<notin> set w"
    and "map_of (Results c) step = Some (nest (f # fs) v)"
  shows "resolveVariable (join_with ''.'' (step # f # fs)) (Some c) = Inr v"
proof -
  let ?path = "join_with ''.'' (step # f # fs)"
  have parts: "split_on (CHR ''.'') ?path = step # f # fs"
    using assms(1) by (intro split_on_join) simp_all
  have "str_contains ?path ''.''" by (simp add: str_contains_dot)
  with parts assms(2) navigate_nest [of ?path "f # fs" v] show ?thesis
    by (simp add: resolveVariable_def resolvePathVariable_def Let_def del: join_with.simps nest.simps)
qed

theorem resolve_nested_result_witness:
  "map_of (Results \<lparr>Variables = [], Results = [(''login'', nest [''status''] (VBool True))]\<rparr>) ''login''
     = Some (nest [''status''] (VBool True)) \<and>
   resolveVariable (join_with ''.'' [''login'', ''status''])
     (Some \<lparr>Variables = [], Results = [(''login'', nest [''status''] (VBool True))]\<rparr>) = Inr (VBool True)"
proof -
  have h: "\<forall>w \<in> set [''login'', ''status'']. CHR ''.'' \<notin> set w"
    "map_of (Results \<lparr>Variables = [], Results = [(''login'', nest [''status''] (VBool True))]\<rparr>) ''login''
     = Some (nest [''status''] (VBool True))" by simp_all
  show ?thesis using h(2) resolve_nested_result [OF h] by blast
qed

end
