(* ===== verification/Go_Order.thy ===== *)
theory Go_Order
  imports Go_Float
begin

text \<open>
  Two places where Go leaves an order open: the iteration order of a map, and the order in which
  \<^verbatim>\<open>sort.Slice\<close> leaves elements that its \<^verbatim>\<open>less\<close> does not separate.  Both are an explicit
  argument here, a function that permutes the list it is given; a fact about the program holds
  for each such function.  \<^verbatim>\<open>sort.Slice\<close> is a stable insertion sort of a permuted input: every
  sorted permutation is the result for some permutation of the input.
\<close>

definition reorders :: "('a list \<Rightarrow> 'a list) \<Rightarrow> bool" where
  "reorders ord \<longleftrightarrow> (\<forall>xs. mset (ord xs) = mset xs)"

fun insort_less :: "('a \<Rightarrow> 'a \<Rightarrow> bool) \<Rightarrow> 'a \<Rightarrow> 'a list \<Rightarrow> 'a list" where
  "insort_less lt x [] = [x]"
| "insort_less lt x (y # ys) = (if lt x y then x # y # ys else y # insort_less lt x ys)"

definition insertion_sort :: "('a \<Rightarrow> 'a \<Rightarrow> bool) \<Rightarrow> 'a list \<Rightarrow> 'a list" where
  "insertion_sort lt xs = foldl (\<lambda>acc x. insort_less lt x acc) [] xs"

definition sort_slice :: "('a list \<Rightarrow> 'a list) \<Rightarrow> ('a \<Rightarrow> 'a \<Rightarrow> bool) \<Rightarrow> 'a list \<Rightarrow> 'a list" where
  "sort_slice tie lt xs = insertion_sort lt (tie xs)"

lemma reorders_id [simp]: "reorders (\<lambda>xs. xs)"
  by (simp add: reorders_def)

lemma reorders_rev [simp]: "reorders rev"
  by (simp add: reorders_def)

lemma reorders_mset: "reorders ord \<Longrightarrow> mset (ord xs) = mset xs"
  by (simp add: reorders_def)

lemma reorders_set: "reorders ord \<Longrightarrow> set (ord xs) = set xs"
  by (metis reorders_mset set_mset_mset)

lemma reorders_length: "reorders ord \<Longrightarrow> length (ord xs) = length xs"
  by (metis reorders_mset size_mset)

lemma reorders_length_filter:
  assumes "reorders ord"
  shows "length (filter P (ord xs)) = length (filter P xs)"
proof -
  have "mset (filter P (ord xs)) = mset (filter P xs)" by (simp add: reorders_mset [OF assms])
  then show ?thesis by (rule mset_eq_length)
qed

lemma reorders_distinct_map: "reorders ord \<Longrightarrow> distinct (map f (ord xs)) = distinct (map f xs)"
  by (rule mset_eq_imp_distinct_iff) (simp add: reorders_mset)

lemma mset_insort_less [simp]: "mset (insort_less lt x xs) = add_mset x (mset xs)"
  by (induction xs) auto

lemma mset_insertion_sort_acc: "mset (foldl (\<lambda>acc x. insort_less lt x acc) acc xs) = mset acc + mset xs"
  by (induction xs arbitrary: acc) auto

lemma mset_sort_slice: "reorders tie \<Longrightarrow> mset (sort_slice tie lt xs) = mset xs"
  by (simp add: sort_slice_def insertion_sort_def mset_insertion_sort_acc reorders_mset)

lemma set_sort_slice: "reorders tie \<Longrightarrow> set (sort_slice tie lt xs) = set xs"
  by (metis mset_sort_slice set_mset_mset)

lemma length_sort_slice: "reorders tie \<Longrightarrow> length (sort_slice tie lt xs) = length xs"
  by (metis mset_sort_slice size_mset)

text \<open>What \<^verbatim>\<open>sort.Slice\<close> asks of its \<^verbatim>\<open>less\<close>: a strict weak order on the elements.\<close>

locale weak_order =
  fixes S :: "'a set" and lt :: "'a \<Rightarrow> 'a \<Rightarrow> bool"
  assumes less_asym: "x \<in> S \<Longrightarrow> y \<in> S \<Longrightarrow> lt x y \<Longrightarrow> \<not> lt y x"
    and not_less_trans: "x \<in> S \<Longrightarrow> y \<in> S \<Longrightarrow> z \<in> S \<Longrightarrow> \<not> lt y x \<Longrightarrow> \<not> lt z y \<Longrightarrow> \<not> lt z x"
begin

abbreviation ordered :: "'a list \<Rightarrow> bool" where
  "ordered \<equiv> sorted_wrt (\<lambda>x y. \<not> lt y x)"

lemma insort_less_ordered:
  "insert x (set ys) \<subseteq> S \<Longrightarrow> ordered ys \<Longrightarrow> ordered (insort_less lt x ys)"
proof (induction ys)
  case (Cons y ys)
  have set: "set (insort_less lt x ys) = insert x (set ys)"
    by (metis mset_insort_less set_mset_add_mset_insert set_mset_mset)
  show ?case
  proof (cases "lt x y")
    case True
    then have "\<not> lt z x" if "z \<in> insert y (set ys)" for z
    proof -
      have S: "x \<in> S" "y \<in> S" "z \<in> S" using Cons.prems that by auto
      have xy: "\<not> lt y x" using less_asym S True by blast
      have "z = y \<or> \<not> lt z y" using Cons.prems that by auto
      then show ?thesis using xy not_less_trans [OF S] by blast
    qed
    then show ?thesis using True Cons.prems by simp
  next
    case False
    then show ?thesis using Cons set by simp
  qed
qed simp

lemma foldl_insort_ordered:
  "set acc \<union> set xs \<subseteq> S \<Longrightarrow> ordered acc \<Longrightarrow> ordered (foldl (\<lambda>acc x. insort_less lt x acc) acc xs)"
proof (induction xs arbitrary: acc)
  case (Cons x xs)
  have "set (insort_less lt x acc) = insert x (set acc)"
    by (metis mset_insort_less set_mset_add_mset_insert set_mset_mset)
  with Cons show ?case by (simp add: insort_less_ordered)
qed simp

lemma sort_slice_ordered:
  assumes "reorders tie" "set xs \<subseteq> S"
  shows "ordered (sort_slice tie lt xs)"
  using assms by (simp add: sort_slice_def insertion_sort_def foldl_insort_ordered reorders_set)

lemma taken_not_greater:
  assumes "reorders tie" "set xs \<subseteq> S" "x \<in> set (take n (sort_slice tie lt xs))"
    and "y \<in> set (drop n (sort_slice tie lt xs))"
  shows "\<not> lt y x"
  using sort_slice_ordered [OF assms(1,2)] assms(3,4)
  by (metis append_take_drop_id sorted_wrt_append)

end

text \<open>Ordering elements by a \<^verbatim>\<open>float64\<close> key is a strict weak order as long as no key is NaN.\<close>

lemma f64_le_or: "a \<noteq> F_NaN \<Longrightarrow> b \<noteq> F_NaN \<Longrightarrow> \<not> f64_lt b a \<longleftrightarrow> f64_le a b"
  by (metis f64_not_lt)

interpretation by_key: weak_order "{x. key x \<noteq> F_NaN}" "\<lambda>x y. f64_lt (key x) (key y)"
  for key :: "'a \<Rightarrow> float64"
proof unfold_locales
  fix x y :: 'a
  show "\<not> f64_lt (key y) (key x)" if "f64_lt (key x) (key y)"
    using that by (rule f64_lt_asym)
next
  fix x y z :: 'a
  assume "x \<in> {x. key x \<noteq> F_NaN}" "y \<in> {x. key x \<noteq> F_NaN}" "z \<in> {x. key x \<noteq> F_NaN}"
    "\<not> f64_lt (key y) (key x)" "\<not> f64_lt (key z) (key y)"
  then show "\<not> f64_lt (key z) (key x)"
    using f64_le_trans [of "key x" "key y" "key z"] by (simp add: f64_le_or)
qed

end
