(* ===== verification/Registry_Interface.thy ===== *)
theory Registry_Interface
  imports Go_Order
begin

text \<open>
  The data of slave nodes (\<^verbatim>\<open>pkg/types/slave.go\<close>) and the interface \<^verbatim>\<open>SlaveRegistry\<close> of
  \<^verbatim>\<open>internal/master/interfaces.go\<close>.  An interface value is a record of its methods; the locale
  \<^verbatim>\<open>slave_registry\<close> states what its clients, the scheduler and the health check of the master,
  rely on.  Strings that Go uses as enumerations stay strings, because a heartbeat may carry any
  string as a state.  Times are nanoseconds since a fixed instant.
\<close>

subsection \<open>Slaves\<close>

type_synonym slave_state = gostring
type_synonym slave_type = gostring
type_synonym selection_mode = gostring
type_synonym slave_event_type = gostring

definition SlaveStateOnline :: slave_state where "SlaveStateOnline = ''online''"
definition SlaveStateOffline :: slave_state where "SlaveStateOffline = ''offline''"
definition SlaveStateBusy :: slave_state where "SlaveStateBusy = ''busy''"
definition SlaveStateDraining :: slave_state where "SlaveStateDraining = ''draining''"
definition SlaveStateMaintenance :: slave_state where "SlaveStateMaintenance = ''maintenance''"

lemmas slave_state_defs =
  SlaveStateOnline_def SlaveStateOffline_def SlaveStateBusy_def SlaveStateDraining_def SlaveStateMaintenance_def

lemma slave_states_distinct [simp]:
  "SlaveStateOnline \<noteq> SlaveStateOffline" "SlaveStateOffline \<noteq> SlaveStateOnline"
  "SlaveStateOnline \<noteq> SlaveStateDraining" "SlaveStateDraining \<noteq> SlaveStateOnline"
  "SlaveStateOffline \<noteq> SlaveStateDraining" "SlaveStateDraining \<noteq> SlaveStateOffline"
  by (simp_all add: slave_state_defs)

definition SlaveTypeWorker :: slave_type where "SlaveTypeWorker = ''worker''"
definition SlaveTypeGateway :: slave_type where "SlaveTypeGateway = ''gateway''"
definition SlaveTypeAggregator :: slave_type where "SlaveTypeAggregator = ''aggregator''"

definition SlaveEventRegistered :: slave_event_type where "SlaveEventRegistered = ''registered''"
definition SlaveEventUnregistered :: slave_event_type where "SlaveEventUnregistered = ''unregistered''"
definition SlaveEventOnline :: slave_event_type where "SlaveEventOnline = ''online''"
definition SlaveEventOffline :: slave_event_type where "SlaveEventOffline = ''offline''"
definition SlaveEventUpdated :: slave_event_type where "SlaveEventUpdated = ''updated''"

record resource_info =
  CPUCores :: int
  MemoryMB :: int
  MaxVUs :: int
  CurrentLoad :: float64

record slave_info =
  s_ID :: gostring
  s_Type :: slave_type
  s_Address :: gostring
  s_Capabilities :: "gostring list"
  s_Labels :: "(gostring, gostring) gomap option"
  s_Resources :: "resource_info option"

record slave_metrics =
  CPUUsage :: float64
  MemoryUsage :: float64
  sm_ActiveVUs :: int
  Throughput :: float64

record slave_status =
  st_State :: slave_state
  st_Load :: float64
  st_ActiveTasks :: int
  st_LastSeen :: int
  st_Metrics :: "slave_metrics option"

record slave_event =
  ev_Type :: slave_event_type
  ev_SlaveID :: gostring
  ev_Slave :: "slave_info option"

record slave_filter =
  f_Types :: "slave_type list"
  f_Labels :: "(gostring, gostring) gomap"
  f_Capabilities :: "gostring list"
  f_States :: "slave_state list"

record slave_selector =
  sel_Mode :: selection_mode
  sel_SlaveIDs :: "gostring list"
  sel_Labels :: "(gostring, gostring) gomap"
  sel_Capabilities :: "gostring list"
  sel_MinSlaves :: int
  sel_MaxSlaves :: int

record execution_segment =
  seg_Start :: float64
  seg_End :: float64

definition SelectionModeManual :: selection_mode where "SelectionModeManual = ''manual''"
definition SelectionModeLabel :: selection_mode where "SelectionModeLabel = ''label''"
definition SelectionModeCapability :: selection_mode where "SelectionModeCapability = ''capability''"
definition SelectionModeAuto :: selection_mode where "SelectionModeAuto = ''auto''"
definition SelectionModeLocal :: selection_mode where "SelectionModeLocal = ''local''"

lemmas selection_mode_defs =
  SelectionModeManual_def SelectionModeLabel_def SelectionModeCapability_def SelectionModeAuto_def
  SelectionModeLocal_def

text \<open>Errors of the registry; \<^verbatim>\<open>NilDereference\<close> and \<^verbatim>\<open>SendOnClosed\<close> are run-time panics.\<close>

datatype reg_error =
    SlaveIsNil
  | SlaveIDEmpty
  | AlreadyRegistered gostring
  | SlaveNotFound gostring
  | NilDereference
  | SendOnClosed

fun is_panic :: "reg_error + 'a \<Rightarrow> bool" where
  "is_panic (Inl e) = (e = NilDereference \<or> e = SendOnClosed)"
| "is_panic (Inr _) = False"

subsection \<open>The interface\<close>

type_synonym slave_order = "(gostring \<times> slave_info) list \<Rightarrow> (gostring \<times> slave_info) list"

record 's registry_ops =
  op_Register :: "int \<Rightarrow> slave_info option \<Rightarrow> 's \<Rightarrow> (reg_error + unit) \<times> 's"
  op_Unregister :: "gostring \<Rightarrow> 's \<Rightarrow> (reg_error + unit) \<times> 's"
  op_UpdateStatus :: "gostring \<Rightarrow> slave_status option \<Rightarrow> 's \<Rightarrow> (reg_error + unit) \<times> 's"
  op_GetSlave :: "'s \<Rightarrow> gostring \<Rightarrow> reg_error + slave_info"
  op_GetSlaveStatus :: "'s \<Rightarrow> gostring \<Rightarrow> reg_error + slave_status option"
  op_ListSlaves :: "slave_order \<Rightarrow> 's \<Rightarrow> slave_filter option \<Rightarrow> reg_error + slave_info list"
  op_GetOnlineSlaves :: "slave_order \<Rightarrow> 's \<Rightarrow> reg_error + slave_info list"

text \<open>What a filter means, as a set-based description: every criterion that is given holds.\<close>

definition filter_spec :: "slave_filter \<Rightarrow> slave_info \<Rightarrow> slave_status \<Rightarrow> bool" where
  "filter_spec f slave st \<longleftrightarrow>
     (f_Types f \<noteq> [] \<longrightarrow> s_Type slave \<in> set (f_Types f)) \<and>
     (f_States f \<noteq> [] \<longrightarrow> st_State st \<in> set (f_States f)) \<and>
     (\<forall>(k, v) \<in> set (f_Labels f). \<exists>m. s_Labels slave = Some m \<and> map_of m k = Some v) \<and>
     set (f_Capabilities f) \<subseteq> set (s_Capabilities slave)"

definition accepts :: "slave_filter option \<Rightarrow> slave_info \<Rightarrow> slave_status \<Rightarrow> bool" where
  "accepts f slave st \<longleftrightarrow> (case f of None \<Rightarrow> True | Some g \<Rightarrow> filter_spec g slave st)"

definition no_filter :: slave_filter where
  "no_filter = \<lparr>f_Types = [], f_Labels = [], f_Capabilities = [], f_States = []\<rparr>"

definition online_filter :: slave_filter where
  "online_filter = no_filter\<lparr>f_States := [SlaveStateOnline]\<rparr>"

locale slave_registry =
  fixes ops :: "'s registry_ops"
    and inv :: "'s \<Rightarrow> bool"
    and info :: "'s \<Rightarrow> gostring \<Rightarrow> slave_info option"
    and stat :: "'s \<Rightarrow> gostring \<Rightarrow> slave_status option"
  assumes same_dom: "inv s \<Longrightarrow> info s i = None \<longleftrightarrow> stat s i = None"
    and info_id: "inv s \<Longrightarrow> info s i = Some x \<Longrightarrow> s_ID x = i"
    and get_slave: "inv s \<Longrightarrow> op_GetSlave ops s i =
          (case info s i of None \<Rightarrow> Inl (SlaveNotFound i) | Some x \<Rightarrow> Inr x)"
    and get_status: "inv s \<Longrightarrow> op_GetSlaveStatus ops s i =
          (case stat s i of None \<Rightarrow> Inl (SlaveNotFound i) | Some st \<Rightarrow> Inr (Some st))"
    and list_slaves: "inv s \<Longrightarrow> reorders ord \<Longrightarrow> \<exists>xs. op_ListSlaves ops ord s f = Inr xs \<and>
          distinct (map s_ID xs) \<and>
          set xs = {x. \<exists>i st. info s i = Some x \<and> stat s i = Some st \<and> accepts f x st}"
    and online_slaves: "inv s \<Longrightarrow> reorders ord \<Longrightarrow>
          op_GetOnlineSlaves ops ord s = op_ListSlaves ops ord s (Some online_filter)"
    and update_missing: "inv s \<Longrightarrow> info s i = None \<Longrightarrow> op_UpdateStatus ops i new s = (Inl (SlaveNotFound i), s)"
    and update_ok: "inv s \<Longrightarrow> info s i \<noteq> None \<Longrightarrow> fst (op_UpdateStatus ops i (Some st) s) = Inr ()"
    and update_inv: "inv s \<Longrightarrow> inv (snd (op_UpdateStatus ops i (Some st) s))"
    and update_info: "inv s \<Longrightarrow> info (snd (op_UpdateStatus ops i (Some st) s)) = info s"
    and update_stat: "inv s \<Longrightarrow> info s i \<noteq> None \<Longrightarrow>
          stat (snd (op_UpdateStatus ops i (Some st) s)) = (stat s)(i \<mapsto> st)"
begin

lemma list_slaves_id:
  assumes "inv s" "reorders ord" "op_ListSlaves ops ord s f = Inr xs"
  shows "x \<in> set xs \<longleftrightarrow>
    (\<exists>st. info s (s_ID x) = Some x \<and> stat s (s_ID x) = Some st \<and> accepts f x st)"
proof -
  have "set xs = {x. \<exists>i st. info s i = Some x \<and> stat s i = Some st \<and> accepts f x st}"
    using list_slaves [OF assms(1,2), of f] assms(3) by auto
  then show ?thesis using info_id [OF assms(1)] by blast
qed

lemma listed_distinct:
  assumes "inv s" "reorders ord" "op_ListSlaves ops ord s f = Inr xs"
  shows "distinct (map s_ID xs)"
  using list_slaves [OF assms(1,2), of f] assms(3) by auto

lemma lists_all:
  assumes "inv s" "reorders ord"
  obtains xs where "op_ListSlaves ops ord s f = Inr xs"
  using list_slaves [OF assms, of f] by blast

end

end
