(* ===== verification/Workflow_Types.thy ===== *)
theory Workflow_Types
  imports Go_Value Registry_Interface
begin

text \<open>
  The data the engine passes around (\<^verbatim>\<open>pkg/types/workflow.go\<close>, \<^verbatim>\<open>execution.go\<close>, \<^verbatim>\<open>task.go\<close>,
  \<^verbatim>\<open>metrics.go\<close>): workflows with their recursive steps, execution options, metrics, tasks and
  execution plans.  The callback of a workflow, an interface value, is left out.  Durations are
  nanoseconds, 64-bit integers that are kept in range where they are computed.
\<close>

subsection \<open>Steps\<close>

record hook =
  hk_Type :: gostring
  hk_Config :: "(gostring, goval) gomap"

record processor =
  pr_ID :: gostring
  pr_Type :: gostring
  pr_Enabled :: bool
  pr_Name :: gostring
  pr_Config :: "(gostring, goval) gomap"

type_synonym error_strategy = gostring
type_synonym branch_kind = gostring

datatype step =
  Step (sp_ID: gostring) (sp_Name: gostring) (sp_Type: gostring) (sp_Disabled: bool)
    (sp_Config: "(gostring, goval) gomap") (sp_PreHook: "hook option") (sp_PostHook: "hook option")
    (sp_PreProcessors: "processor list") (sp_PostProcessors: "processor list") (sp_Loop: "loop option")
    (sp_Children: "step list") (sp_Branches: "branch list") (sp_OnError: error_strategy) (sp_Timeout: int)
and loop =
  Loop (lp_Mode: gostring) (lp_Count: int) (lp_Items: goval) (lp_ItemVar: gostring) (lp_Condition: gostring)
    (lp_MaxIterations: int) (lp_BreakCondition: gostring) (lp_ContinueCondition: gostring) (lp_Steps: "step list")
and branch =
  Branch (br_ID: gostring) (br_Name: gostring) (br_Kind: branch_kind) (br_Expression: gostring) (br_Steps: "step list")

definition ConditionTypeIf :: branch_kind where "ConditionTypeIf = ''if''"
definition ConditionTypeElseIf :: branch_kind where "ConditionTypeElseIf = ''else_if''"
definition ConditionTypeElse :: branch_kind where "ConditionTypeElse = ''else''"

lemmas condition_type_defs = ConditionTypeIf_def ConditionTypeElseIf_def ConditionTypeElse_def

subsection \<open>Execution options\<close>

record stage =
  sg_Duration :: int
  sg_Target :: int
  sg_Name :: gostring

record ramp_config =
  rc_Stages :: "stage list"
  rc_StartVUs :: int
  rc_GracefulStop :: int
  rc_GracefulRamp :: int

record threshold =
  th_Metric :: gostring
  th_Condition :: gostring

record threshold_result =
  tr_Metric :: gostring
  tr_Condition :: gostring
  tr_Passed :: bool
  tr_Value :: float64

record output_config =
  oc_Type :: gostring
  oc_URL :: gostring
  oc_Options :: "(gostring, gostring) gomap"

record execution_options =
  opt_VUs :: int
  opt_Duration :: int
  opt_Iterations :: int
  opt_RampUp :: "ramp_config option"
  opt_Thresholds :: "threshold list"
  opt_SlaveType :: gostring
  opt_TargetSlaves :: "slave_selector option"
  opt_ExecutionMode :: gostring
  opt_Stages :: "stage list"
  opt_HTTPEngine :: gostring
  opt_SamplingMode :: gostring
  opt_Outputs :: "output_config list"
  opt_Tags :: "(gostring, gostring) gomap"

record workflow =
  wf_ID :: gostring
  wf_Name :: gostring
  wf_Description :: gostring
  wf_Variables :: "(gostring, goval) gomap"
  wf_PreHook :: "hook option"
  wf_PostHook :: "hook option"
  wf_Steps :: "step list"
  wf_Options :: execution_options
  wf_ParamValues :: "(gostring, goval) gomap"
  wf_FinalVariables :: "(gostring, goval) gomap"
  wf_EnvVariables :: "(gostring, goval) gomap"

definition ModeRampingVUs :: gostring where "ModeRampingVUs = ''ramping-vus''"

definition default_options :: execution_options where
  "default_options =
     \<lparr>opt_VUs = 0, opt_Duration = 0, opt_Iterations = 0, opt_RampUp = None, opt_Thresholds = [], opt_SlaveType = [],
      opt_TargetSlaves = None, opt_ExecutionMode = [], opt_Stages = [], opt_HTTPEngine = [], opt_SamplingMode = [],
      opt_Outputs = [], opt_Tags = []\<rparr>"

definition empty_workflow :: "gostring \<Rightarrow> workflow" where
  "empty_workflow i =
     \<lparr>wf_ID = i, wf_Name = [], wf_Description = [], wf_Variables = [], wf_PreHook = None, wf_PostHook = None,
      wf_Steps = [], wf_Options = default_options, wf_ParamValues = [], wf_FinalVariables = [], wf_EnvVariables = []\<rparr>"

subsection \<open>Metrics\<close>

record duration_metrics =
  dm_Min :: int
  dm_Max :: int
  dm_Avg :: int
  dm_P50 :: int
  dm_P90 :: int
  dm_P95 :: int
  dm_P99 :: int

record step_metrics =
  m_StepID :: gostring
  m_Count :: int
  m_SuccessCount :: int
  m_FailureCount :: int
  m_Duration :: "duration_metrics option"
  m_CustomMetrics :: "(gostring, float64) gomap"

record system_metrics =
  sy_CPUUsage :: float64
  sy_MemoryUsage :: float64
  sy_GoroutineCount :: int

record metrics =
  mt_Timestamp :: int
  mt_StepMetrics :: "(gostring, step_metrics) gomap"
  mt_SystemMetrics :: "system_metrics option"

record aggregated_metrics =
  ag_ExecutionID :: gostring
  ag_TotalVUs :: int
  ag_TotalIterations :: int
  ag_Duration :: int
  ag_StepMetrics :: "(gostring, step_metrics) gomap"
  ag_Thresholds :: "threshold_result list"

subsection \<open>Tasks and plans\<close>

record slave_assignment =
  as_SlaveID :: gostring
  as_Segment :: execution_segment
  as_Workflow :: workflow

record execution_plan =
  pl_ExecutionID :: gostring
  pl_Assignments :: "slave_assignment list"

record task =
  tk_ID :: gostring
  tk_ExecutionID :: gostring
  tk_Workflow :: workflow
  tk_Segment :: execution_segment

end
