(* ===== verification/Go_Time.thy ===== *)
theory Go_Time
  imports Prelude
begin

text \<open>
  What the engine uses of Go's package \<^verbatim>\<open>time\<close>: durations are 64-bit numbers of nanoseconds;
  differences of instants saturate at that range; \<^verbatim>\<open>Duration.Milliseconds\<close> truncates, and
  \<^verbatim>\<open>Duration.String\<close> prints a duration with its units.
\<close>

definition duration_between :: "int \<Rightarrow> int \<Rightarrow> int" where
  "duration_between earlier later = max int64_min (min int64_max (later - earlier))"

lemma duration_between_exact: "in_int64 (later - earlier) \<Longrightarrow> duration_between earlier later = later - earlier"
  by (simp add: duration_between_def in_int64_def)

definition Milliseconds :: "int \<Rightarrow> int" where
  "Milliseconds d = go_div d 1000000"

definition Second :: int where "Second = 1000000000"

text \<open>\<^verbatim>\<open>fmtFrac\<close>: the digits after the point without trailing zeros, and no point when there are none.\<close>

definition pad_zeros :: "nat \<Rightarrow> gostring \<Rightarrow> gostring" where
  "pad_zeros n s = replicate (n - length s) (CHR ''0'') @ s"

definition frac_text :: "int \<Rightarrow> nat \<Rightarrow> gostring" where
  "frac_text u prec =
     (let ds = rev (dropWhile (\<lambda>c. c = CHR ''0'') (rev (pad_zeros prec (show_dec (u mod 10 ^ prec)))))
      in show_dec (u div 10 ^ prec) @ (if ds = [] then [] else CHR ''.'' # ds))"

definition seconds_text :: "int \<Rightarrow> gostring" where
  "seconds_text u =
     (let minutes = u div (60 * Second); rest = u mod (60 * Second)
      in (if minutes div 60 > 0 then show_dec (minutes div 60) @ ''h'' else []) @
         (if minutes > 0 then show_dec (minutes mod 60) @ ''m'' else []) @
         frac_text rest 9 @ ''s'')"

definition duration_String :: "int \<Rightarrow> gostring" where
  "duration_String d =
     (let u = \<bar>d\<bar>;
          body = (if u = 0 then ''0s''
                  else if u < 1000 then show_dec u @ ''ns''
                  else if u < 1000000 then frac_text u 3 @ [CHR 0xC2, CHR 0xB5, CHR ''s'']
                  else if u < Second then frac_text u 6 @ ''ms''
                  else seconds_text u)
      in if d < 0 then CHR ''-'' # body else body)"

lemma duration_String_examples:
  "duration_String 0 = ''0s''" "duration_String 1500000 = ''1.5ms''" "duration_String 5445000000000 = ''1h30m45s''"
  "duration_String (-61000000000) = ''-1m1s''" "duration_String 3600000000000 = ''1h0m0s''"
  by code_simp+

end
