(* ===== verification/Slave_Registry.thy ===== *)
theory Slave_Registry
  imports Registry_Interface Go_Time
begin

text \<open>
  The in-memory registry of \<^verbatim>\<open>internal/master/registry.go\<close>: the two maps, the subscribers with
  their buffered channels, and one function per method.  A method holds the registry's lock from
  its first to its last access, so that it is one step; the goroutine that \<^verbatim>\<open>WatchSlaves\<close> starts
  is two more steps (remove the subscriber, close the channel), and a reader of the channel is
  another.  The value of the clock is an argument of the methods that read it.  A status is a
  value here: every caller of \<^verbatim>\<open>UpdateStatus\<close> passes a struct it has just built.
\<close>

subsection \<open>State\<close>

text \<open>Where the goroutine of a \<^verbatim>\<open>WatchSlaves\<close> call is.\<close>

datatype watch_pc = W_Waiting | W_Removed | W_Done

record watch_chan =
  ch_buf :: "slave_event list"
  ch_closed :: bool
  ch_pc :: watch_pc

record registry =
  r_slaves :: "(gostring, slave_info) gomap"
  r_status :: "(gostring, slave_status option) gomap"
  r_subscribers :: "nat list"
  r_chans :: "nat \<Rightarrow> watch_chan option"
  r_next :: nat

definition NewInMemorySlaveRegistry :: registry where
  "NewInMemorySlaveRegistry =
     \<lparr>r_slaves = [], r_status = [], r_subscribers = [], r_chans = Map.empty, r_next = 0\<rparr>"

definition chan_capacity :: nat where
  "chan_capacity = 100"

subsection \<open>Events\<close>

text \<open>The loop of \<^verbatim>\<open>notifyEvent\<close>: a full channel is skipped, a closed one panics.\<close>

fun notify_loop :: "slave_event \<Rightarrow> nat list \<Rightarrow> (nat \<Rightarrow> watch_chan option) \<Rightarrow>
    (reg_error + unit) \<times> (nat \<Rightarrow> watch_chan option)" where
  "notify_loop ev [] chans = (Inr (), chans)"
| "notify_loop ev (c # cs) chans =
     (case chans c of
        None \<Rightarrow> notify_loop ev cs chans
      | Some ch \<Rightarrow>
          if ch_closed ch then (Inl SendOnClosed, chans)
          else if length (ch_buf ch) < chan_capacity
          then notify_loop ev cs (chans(c \<mapsto> ch\<lparr>ch_buf := ch_buf ch @ [ev]\<rparr>))
          else notify_loop ev cs chans)"

definition notifyEvent :: "slave_event \<Rightarrow> registry \<Rightarrow> (reg_error + unit) \<times> registry" where
  "notifyEvent ev r =
     (let (res, chans) = notify_loop ev (r_subscribers r) (r_chans r) in (res, r\<lparr>r_chans := chans\<rparr>))"

definition mk_event :: "slave_event_type \<Rightarrow> gostring \<Rightarrow> registry \<Rightarrow> slave_event" where
  "mk_event ty i r = \<lparr>ev_Type = ty, ev_SlaveID = i, ev_Slave = map_of (r_slaves r) i\<rparr>"

definition WatchSlaves :: "registry \<Rightarrow> nat \<times> registry" where
  "WatchSlaves r =
     (r_next r,
      r\<lparr>r_subscribers := r_subscribers r @ [r_next r],
        r_chans := (r_chans r)(r_next r \<mapsto> \<lparr>ch_buf = [], ch_closed = False, ch_pc = W_Waiting\<rparr>),
        r_next := Suc (r_next r)\<rparr>)"

definition removeSubscriber :: "nat \<Rightarrow> registry \<Rightarrow> registry" where
  "removeSubscriber c r = r\<lparr>r_subscribers := remove1 c (r_subscribers r)\<rparr>"

subsection \<open>Methods\<close>

definition fresh_status :: "int \<Rightarrow> slave_status" where
  "fresh_status now =
     \<lparr>st_State = SlaveStateOnline, st_Load = F_Fin False 0, st_ActiveTasks = 0, st_LastSeen = now,
      st_Metrics = None\<rparr>"

definition Register :: "int \<Rightarrow> slave_info option \<Rightarrow> registry \<Rightarrow> (reg_error + unit) \<times> registry" where
  "Register now slave r =
     (case slave of
        None \<Rightarrow> (Inl SlaveIsNil, r)
      | Some s \<Rightarrow>
          if s_ID s = [] then (Inl SlaveIDEmpty, r)
          else if map_of (r_slaves r) (s_ID s) \<noteq> None then (Inl (AlreadyRegistered (s_ID s)), r)
          else notifyEvent \<lparr>ev_Type = SlaveEventRegistered, ev_SlaveID = s_ID s, ev_Slave = Some s\<rparr>
                 (r\<lparr>r_slaves := AList.update (s_ID s) s (r_slaves r),
                    r_status := AList.update (s_ID s) (Some (fresh_status now)) (r_status r)\<rparr>))"

definition Unregister :: "gostring \<Rightarrow> registry \<Rightarrow> (reg_error + unit) \<times> registry" where
  "Unregister i r =
     (case map_of (r_slaves r) i of
        None \<Rightarrow> (Inl (SlaveNotFound i), r)
      | Some s \<Rightarrow>
          notifyEvent \<lparr>ev_Type = SlaveEventUnregistered, ev_SlaveID = i, ev_Slave = Some s\<rparr>
            (r\<lparr>r_slaves := AList.delete i (r_slaves r), r_status := AList.delete i (r_status r)\<rparr>))"

definition status_event_type :: "slave_state \<Rightarrow> slave_event_type" where
  "status_event_type s =
     (if s = SlaveStateOnline then SlaveEventOnline
      else if s = SlaveStateOffline then SlaveEventOffline
      else SlaveEventUpdated)"

text \<open>The status is stored before it is read, so that a nil status stays behind after the panic.\<close>

definition UpdateStatus :: "gostring \<Rightarrow> slave_status option \<Rightarrow> registry \<Rightarrow> (reg_error + unit) \<times> registry" where
  "UpdateStatus i new r =
     (if map_of (r_slaves r) i = None then (Inl (SlaveNotFound i), r)
      else
        let r' = r\<lparr>r_status := AList.update i new (r_status r)\<rparr> in
        case (map_of (r_status r) i, new) of
          (Some (Some old), None) \<Rightarrow> (Inl NilDereference, r')
        | (Some (Some old), Some st) \<Rightarrow>
            if st_State old \<noteq> st_State st
            then notifyEvent (mk_event (status_event_type (st_State st)) i r') r'
            else (Inr (), r')
        | _ \<Rightarrow> (Inr (), r'))"

definition GetSlave :: "registry \<Rightarrow> gostring \<Rightarrow> reg_error + slave_info" where
  "GetSlave r i = (case map_of (r_slaves r) i of None \<Rightarrow> Inl (SlaveNotFound i) | Some s \<Rightarrow> Inr s)"

definition GetSlaveStatus :: "registry \<Rightarrow> gostring \<Rightarrow> reg_error + slave_status option" where
  "GetSlaveStatus r i = (case map_of (r_status r) i of None \<Rightarrow> Inl (SlaveNotFound i) | Some st \<Rightarrow> Inr st)"

definition matchesFilter :: "registry \<Rightarrow> gostring \<Rightarrow> slave_info \<Rightarrow> slave_filter \<Rightarrow> bool" where
  "matchesFilter r i slave f =
     (if f_Types f \<noteq> [] \<and> \<not> list_ex (\<lambda>t. s_Type slave = t) (f_Types f) then False
      else if f_States f \<noteq> [] \<and>
              (case map_of (r_status r) i of
                 Some (Some st) \<Rightarrow> \<not> list_ex (\<lambda>s. st_State st = s) (f_States f)
               | _ \<Rightarrow> True)
      then False
      else if list_ex (\<lambda>(k, v). case s_Labels slave of
                                  None \<Rightarrow> True
                                | Some m \<Rightarrow> map_of m k \<noteq> Some v) (f_Labels f) then False
      else list_all (\<lambda>req. list_ex (\<lambda>c. c = req) (s_Capabilities slave)) (f_Capabilities f))"

definition ListSlaves :: "slave_order \<Rightarrow> registry \<Rightarrow> slave_filter option \<Rightarrow> reg_error + slave_info list" where
  "ListSlaves ord r f =
     Inr (map snd (filter (\<lambda>(i, s). case f of None \<Rightarrow> True | Some g \<Rightarrow> matchesFilter r i s g)
                     (ord (r_slaves r))))"

definition GetOnlineSlaves :: "slave_order \<Rightarrow> registry \<Rightarrow> reg_error + slave_info list" where
  "GetOnlineSlaves ord r =
     ListSlaves ord r (Some \<lparr>f_Types = [], f_Labels = [], f_Capabilities = [], f_States = [SlaveStateOnline]\<rparr>)"

definition Count :: "registry \<Rightarrow> nat" where
  "Count r = length (r_slaves r)"

text \<open>Counting dereferences the status: None is the panic on a nil status.\<close>

fun count_online :: "registry \<Rightarrow> gostring list \<Rightarrow> nat \<Rightarrow> reg_error + nat" where
  "count_online r [] n = Inr n"
| "count_online r (i # is) n =
     (case map_of (r_status r) i of
        None \<Rightarrow> count_online r is n
      | Some None \<Rightarrow> Inl NilDereference
      | Some (Some st) \<Rightarrow> count_online r is (if st_State st = SlaveStateOnline then Suc n else n))"

definition CountOnline :: "slave_order \<Rightarrow> registry \<Rightarrow> reg_error + nat" where
  "CountOnline ord r = count_online r (map fst (ord (r_slaves r))) 0"

definition UpdateHeartbeat ::
  "int \<Rightarrow> gostring \<Rightarrow> slave_metrics option \<Rightarrow> registry \<Rightarrow> (reg_error + unit) \<times> registry" where
  "UpdateHeartbeat now i metrics r =
     (case map_of (r_status r) i of
        None \<Rightarrow> (Inl (SlaveNotFound i), r)
      | Some None \<Rightarrow> (Inl NilDereference, r)
      | Some (Some st) \<Rightarrow>
          let st1 = st\<lparr>st_LastSeen := now\<rparr>;
              st2 = (case metrics of
                       None \<Rightarrow> st1
                     | Some m \<Rightarrow> st1\<lparr>st_Metrics := Some m, st_Load := CPUUsage m\<rparr>) in
          if st_State st2 = SlaveStateOffline
          then let r' = r\<lparr>r_status := AList.update i (Some (st2\<lparr>st_State := SlaveStateOnline\<rparr>)) (r_status r)\<rparr>
               in notifyEvent (mk_event SlaveEventOnline i r') r'
          else (Inr (), r\<lparr>r_status := AList.update i (Some st2) (r_status r)\<rparr>))"

definition MarkOffline :: "gostring \<Rightarrow> registry \<Rightarrow> (reg_error + unit) \<times> registry" where
  "MarkOffline i r =
     (case map_of (r_status r) i of
        None \<Rightarrow> (Inl (SlaveNotFound i), r)
      | Some None \<Rightarrow> (Inl NilDereference, r)
      | Some (Some st) \<Rightarrow>
          if st_State st \<noteq> SlaveStateOffline
          then let r' = r\<lparr>r_status := AList.update i (Some (st\<lparr>st_State := SlaveStateOffline\<rparr>)) (r_status r)\<rparr>
               in notifyEvent (mk_event SlaveEventOffline i r') r'
          else (Inr (), r))"

definition DrainSlave :: "gostring \<Rightarrow> registry \<Rightarrow> (reg_error + unit) \<times> registry" where
  "DrainSlave i r =
     (case map_of (r_status r) i of
        None \<Rightarrow> (Inl (SlaveNotFound i), r)
      | Some None \<Rightarrow> (Inl NilDereference, r)
      | Some (Some st) \<Rightarrow>
          let r' = r\<lparr>r_status := AList.update i (Some (st\<lparr>st_State := SlaveStateDraining\<rparr>)) (r_status r)\<rparr>
          in notifyEvent (mk_event SlaveEventUpdated i r') r')"

definition IsSlaveHealthy :: "int \<Rightarrow> registry \<Rightarrow> gostring \<Rightarrow> int \<Rightarrow> reg_error + bool" where
  "IsSlaveHealthy now r i timeout =
     (case map_of (r_status r) i of
        None \<Rightarrow> Inr False
      | Some None \<Rightarrow> Inl NilDereference
      | Some (Some st) \<Rightarrow>
          if st_State st = SlaveStateOffline then Inr False
          else Inr (duration_between (st_LastSeen st) now < timeout))"

text \<open>The registry as a value of the interface.\<close>

definition mem_ops :: "registry registry_ops" where
  "mem_ops =
     \<lparr>op_Register = Register, op_Unregister = Unregister, op_UpdateStatus = UpdateStatus,
      op_GetSlave = GetSlave, op_GetSlaveStatus = GetSlaveStatus,
      op_ListSlaves = ListSlaves, op_GetOnlineSlaves = GetOnlineSlaves\<rparr>"

subsection \<open>Steps\<close>

text \<open>The two steps of the goroutine of \<^verbatim>\<open>WatchSlaves\<close> after its context is done, and a receive by
  the reader of the channel.\<close>

definition watch_remove :: "nat \<Rightarrow> watch_chan \<Rightarrow> registry \<Rightarrow> registry" where
  "watch_remove c ch r = (removeSubscriber c r)\<lparr>r_chans := (r_chans r)(c \<mapsto> ch\<lparr>ch_pc := W_Removed\<rparr>)\<rparr>"

definition watch_close :: "nat \<Rightarrow> watch_chan \<Rightarrow> registry \<Rightarrow> registry" where
  "watch_close c ch r = r\<lparr>r_chans := (r_chans r)(c \<mapsto> ch\<lparr>ch_closed := True, ch_pc := W_Done\<rparr>)\<rparr>"

definition watch_receive :: "nat \<Rightarrow> watch_chan \<Rightarrow> registry \<Rightarrow> registry" where
  "watch_receive c ch r = r\<lparr>r_chans := (r_chans r)(c \<mapsto> ch\<lparr>ch_buf := tl (ch_buf ch)\<rparr>)\<rparr>"

inductive reg_step :: "registry \<Rightarrow> registry \<Rightarrow> bool" where
  step_register: "reg_step r (snd (Register now slave r))"
| step_unregister: "reg_step r (snd (Unregister i r))"
| step_update: "reg_step r (snd (UpdateStatus i (Some st) r))"
| step_heartbeat: "reg_step r (snd (UpdateHeartbeat now i metrics r))"
| step_offline: "reg_step r (snd (MarkOffline i r))"
| step_drain: "reg_step r (snd (DrainSlave i r))"
| step_watch: "reg_step r (snd (WatchSlaves r))"
| step_remove: "r_chans r c = Some ch \<Longrightarrow> ch_pc ch = W_Waiting \<Longrightarrow> reg_step r (watch_remove c ch r)"
| step_close: "r_chans r c = Some ch \<Longrightarrow> ch_pc ch = W_Removed \<Longrightarrow> reg_step r (watch_close c ch r)"
| step_receive: "r_chans r c = Some ch \<Longrightarrow> ch_buf ch \<noteq> [] \<Longrightarrow> reg_step r (watch_receive c ch r)"

inductive_cases reg_stepE: "reg_step r r'"

inductive reg_reachable :: "registry \<Rightarrow> bool" where
  reach_new: "reg_reachable NewInMemorySlaveRegistry"
| reach_step: "reg_reachable r \<Longrightarrow> reg_step r r' \<Longrightarrow> reg_reachable r'"

subsection \<open>Invariant\<close>

definition store_inv :: "registry \<Rightarrow> bool" where
  "store_inv r \<longleftrightarrow> map_wf (r_slaves r) \<and> map_wf (r_status r) \<and>
     dom (map_of (r_slaves r)) = dom (map_of (r_status r)) \<and>
     (\<forall>i s. map_of (r_slaves r) i = Some s \<longrightarrow> s_ID s = i \<and> i \<noteq> []) \<and>
     (\<forall>i. map_of (r_status r) i \<noteq> Some None)"

definition watch_inv :: "registry \<Rightarrow> bool" where
  "watch_inv r \<longleftrightarrow> distinct (r_subscribers r) \<and>
     (\<forall>c. c \<in> set (r_subscribers r) \<longleftrightarrow> (\<exists>ch. r_chans r c = Some ch \<and> ch_pc ch = W_Waiting)) \<and>
     (\<forall>c ch. r_chans r c = Some ch \<longrightarrow>
        c < r_next r \<and> length (ch_buf ch) \<le> chan_capacity \<and> (ch_closed ch \<longleftrightarrow> ch_pc ch = W_Done))"

definition push_event :: "slave_event \<Rightarrow> watch_chan \<Rightarrow> watch_chan" where
  "push_event ev ch =
     (if length (ch_buf ch) < chan_capacity then ch\<lparr>ch_buf := ch_buf ch @ [ev]\<rparr> else ch)"

lemma push_event_fields [simp]:
  "ch_closed (push_event ev ch) = ch_closed ch" "ch_pc (push_event ev ch) = ch_pc ch"
  "length (ch_buf ch) \<le> chan_capacity \<Longrightarrow> length (ch_buf (push_event ev ch)) \<le> chan_capacity"
  by (simp_all add: push_event_def)

lemma ch_buf_push: "ch_buf ch = take chan_capacity evs \<Longrightarrow> ch_buf (push_event ev ch) = take chan_capacity (evs @ [ev])"
  by (auto simp: push_event_def)

lemma notify_loop_open:
  assumes "distinct cs" "\<forall>c \<in> set cs. \<exists>ch. chans c = Some ch \<and> \<not> ch_closed ch"
  shows "notify_loop ev cs chans =
    (Inr (), \<lambda>c. if c \<in> set cs then map_option (push_event ev) (chans c) else chans c)"
  using assms
proof (induction cs arbitrary: chans)
  case (Cons c cs)
  then obtain ch where ch: "chans c = Some ch" "\<not> ch_closed ch" by auto
  have "notify_loop ev (c # cs) chans = notify_loop ev cs (chans(c \<mapsto> push_event ev ch))"
    using ch by (simp add: push_event_def fun_upd_idem)
  also have "\<dots> = (Inr (), \<lambda>d. if d \<in> set cs then map_option (push_event ev) ((chans(c \<mapsto> push_event ev ch)) d)
                             else (chans(c \<mapsto> push_event ev ch)) d)"
    using Cons by simp
  finally show ?case using Cons.prems(1) ch by (auto simp: fun_eq_iff)
qed simp

lemma watch_inv_open:
  "watch_inv r \<Longrightarrow> c \<in> set (r_subscribers r) \<Longrightarrow> \<exists>ch. r_chans r c = Some ch \<and> \<not> ch_closed ch"
  unfolding watch_inv_def by (metis watch_pc.distinct(3))

definition notified :: "slave_event \<Rightarrow> registry \<Rightarrow> registry" where
  "notified ev r = r\<lparr>r_chans := \<lambda>c. if c \<in> set (r_subscribers r) then map_option (push_event ev) (r_chans r c)
                                 else r_chans r c\<rparr>"

lemma notifyEvent_ok: "watch_inv r \<Longrightarrow> notifyEvent ev r = (Inr (), notified ev r)"
  using notify_loop_open [of "r_subscribers r" "r_chans r" ev] watch_inv_open
  by (auto simp: notifyEvent_def notified_def watch_inv_def)

lemma notified_fields [simp]:
  "r_slaves (notified ev r) = r_slaves r" "r_status (notified ev r) = r_status r"
  "r_subscribers (notified ev r) = r_subscribers r" "r_next (notified ev r) = r_next r"
  by (simp_all add: notified_def)

lemma watch_inv_notified: "watch_inv r \<Longrightarrow> watch_inv (notified ev r)"
  unfolding watch_inv_def notified_def by (auto simp: split: if_splits)

lemma watch_inv_store [simp]:
  "watch_inv (r\<lparr>r_slaves := a\<rparr>) = watch_inv r" "watch_inv (r\<lparr>r_status := b\<rparr>) = watch_inv r"
  by (simp_all add: watch_inv_def)

lemma store_inv_notified [simp]: "store_inv (notified ev r) = store_inv r"
  by (simp add: store_inv_def)

lemma store_inv_set_status:
  assumes "store_inv r" "map_of (r_status r) i \<noteq> None"
  shows "store_inv (r\<lparr>r_status := AList.update i (Some st) (r_status r)\<rparr>)"
  using assms by (auto simp: store_inv_def update_conv' map_wf_update)

lemma store_inv_add:
  assumes "store_inv r" "s_ID s \<noteq> []"
  shows "store_inv (r\<lparr>r_slaves := AList.update (s_ID s) s (r_slaves r),
    r_status := AList.update (s_ID s) (Some st) (r_status r)\<rparr>)"
  using assms by (auto simp: store_inv_def update_conv' split: if_splits)

lemma store_inv_remove:
  assumes "store_inv r"
  shows "store_inv (r\<lparr>r_slaves := AList.delete i (r_slaves r), r_status := AList.delete i (r_status r)\<rparr>)"
  using assms by (auto simp: store_inv_def delete_conv' split: if_splits)

lemma store_inv_watch_fields [simp]:
  "store_inv (r\<lparr>r_chans := x\<rparr>) = store_inv r" "store_inv (r\<lparr>r_subscribers := y\<rparr>) = store_inv r"
  "store_inv (r\<lparr>r_next := z\<rparr>) = store_inv r"
  by (simp_all add: store_inv_def)

definition reg_inv :: "registry \<Rightarrow> bool" where
  "reg_inv r \<longleftrightarrow> store_inv r \<and> watch_inv r"

named_theorems registry_op \<open>definitions of the methods that change the registry\<close>
declare Register_def [registry_op] Unregister_def [registry_op] UpdateStatus_def [registry_op]
  UpdateHeartbeat_def [registry_op] MarkOffline_def [registry_op] DrainSlave_def [registry_op]

lemma status_present: "store_inv r \<Longrightarrow> map_of (r_slaves r) i = Some s \<Longrightarrow> \<exists>st. map_of (r_status r) i = Some (Some st)"
  unfolding store_inv_def by (metis domI domD option.exhaust)

lemma status_not_nil: "store_inv r \<Longrightarrow> map_of (r_status r) i \<noteq> Some None"
  by (simp add: store_inv_def)

lemma slave_of_status: "store_inv r \<Longrightarrow> map_of (r_status r) i = Some st \<Longrightarrow> \<exists>s. map_of (r_slaves r) i = Some s"
  unfolding store_inv_def by (metis domI domD)

lemma Register_inv: "reg_inv r \<Longrightarrow> reg_inv (snd (Register now slave r))"
  by (auto simp: registry_op reg_inv_def notifyEvent_ok watch_inv_notified store_inv_add split: option.splits)

lemma Unregister_inv: "reg_inv r \<Longrightarrow> reg_inv (snd (Unregister i r))"
  by (auto simp: registry_op reg_inv_def notifyEvent_ok watch_inv_notified store_inv_remove split: option.splits)

lemma UpdateStatus_inv: "reg_inv r \<Longrightarrow> reg_inv (snd (UpdateStatus i (Some st) r))"
  by (auto simp: registry_op reg_inv_def Let_def notifyEvent_ok watch_inv_notified store_inv_set_status
      dest: status_present split: option.splits)

lemma UpdateHeartbeat_inv: "reg_inv r \<Longrightarrow> reg_inv (snd (UpdateHeartbeat now i m r))"
  by (auto simp: registry_op reg_inv_def Let_def notifyEvent_ok watch_inv_notified store_inv_set_status
      split: option.splits)

lemma MarkOffline_inv: "reg_inv r \<Longrightarrow> reg_inv (snd (MarkOffline i r))"
  by (auto simp: registry_op reg_inv_def Let_def notifyEvent_ok watch_inv_notified store_inv_set_status
      split: option.splits)

lemma DrainSlave_inv: "reg_inv r \<Longrightarrow> reg_inv (snd (DrainSlave i r))"
  by (auto simp: registry_op reg_inv_def Let_def notifyEvent_ok watch_inv_notified store_inv_set_status
      split: option.splits)

lemma WatchSlaves_inv: "reg_inv r \<Longrightarrow> reg_inv (snd (WatchSlaves r))"
proof -
  assume inv: "reg_inv r"
  then have "r_chans r (r_next r) = None"
    unfolding reg_inv_def watch_inv_def by (metis less_irrefl option.exhaust)
  with inv show ?thesis
    by (auto simp: WatchSlaves_def reg_inv_def watch_inv_def less_Suc_eq)
qed

lemma watch_remove_inv:
  assumes "reg_inv r" "r_chans r c = Some ch" "ch_pc ch = W_Waiting"
  shows "reg_inv (watch_remove c ch r)"
  using assms by (auto simp: watch_remove_def removeSubscriber_def reg_inv_def watch_inv_def)

lemma watch_close_inv:
  assumes "reg_inv r" "r_chans r c = Some ch" "ch_pc ch = W_Removed"
  shows "reg_inv (watch_close c ch r)"
  using assms by (auto simp: watch_close_def reg_inv_def watch_inv_def)

lemma watch_receive_inv:
  assumes "reg_inv r" "r_chans r c = Some ch"
  shows "reg_inv (watch_receive c ch r)"
  using assms by (auto simp: watch_receive_def reg_inv_def watch_inv_def intro: le_trans [OF diff_le_self])

lemmas registry_inv_intros =
  Register_inv Unregister_inv UpdateStatus_inv UpdateHeartbeat_inv MarkOffline_inv DrainSlave_inv
  WatchSlaves_inv watch_remove_inv watch_close_inv watch_receive_inv

lemma reg_inv_new: "reg_inv NewInMemorySlaveRegistry"
  by (simp add: reg_inv_def store_inv_def watch_inv_def NewInMemorySlaveRegistry_def)

lemma reg_step_inv: "reg_step r r' \<Longrightarrow> reg_inv r \<Longrightarrow> reg_inv r'"
  by (auto elim!: reg_stepE intro: registry_inv_intros)

lemma reachable_inv: "reg_reachable r \<Longrightarrow> reg_inv r"
  by (induction rule: reg_reachable.induct) (auto intro: reg_inv_new reg_step_inv)

subsection \<open>The registry implements its interface\<close>

definition mem_stat :: "registry \<Rightarrow> gostring \<Rightarrow> slave_status option" where
  "mem_stat r i = (case map_of (r_status r) i of Some (Some st) \<Rightarrow> Some st | _ \<Rightarrow> None)"

lemma mem_stat_Some: "mem_stat r i = Some st \<longleftrightarrow> map_of (r_status r) i = Some (Some st)"
  by (simp add: mem_stat_def split: option.splits)

lemma mem_stat_None: "store_inv r \<Longrightarrow> mem_stat r i = None \<longleftrightarrow> map_of (r_status r) i = None"
  by (simp add: mem_stat_def store_inv_def split: option.splits)

lemma matchesFilter_spec:
  assumes "map_of (r_status r) i = Some (Some st)"
  shows "matchesFilter r i slave f \<longleftrightarrow> filter_spec f slave st"
proof -
  have types: "list_ex (\<lambda>t. s_Type slave = t) (f_Types f) \<longleftrightarrow> s_Type slave \<in> set (f_Types f)"
    and states: "list_ex (\<lambda>s. st_State st = s) (f_States f) \<longleftrightarrow> st_State st \<in> set (f_States f)"
    and caps: "list_all (\<lambda>req. list_ex (\<lambda>c. c = req) (s_Capabilities slave)) (f_Capabilities f) \<longleftrightarrow>
      set (f_Capabilities f) \<subseteq> set (s_Capabilities slave)"
    by (auto simp: list_ex_iff list_all_iff)
  have labels: "list_ex (\<lambda>(k, v). case s_Labels slave of None \<Rightarrow> True | Some m \<Rightarrow> map_of m k \<noteq> Some v) (f_Labels f) \<longleftrightarrow>
      \<not> (\<forall>(k, v) \<in> set (f_Labels f). \<exists>m. s_Labels slave = Some m \<and> map_of m k = Some v)"
    by (cases "s_Labels slave") (auto simp: list_ex_iff split: prod.splits)
  show ?thesis
    unfolding matchesFilter_def filter_spec_def types states caps labels
    using assms by (auto simp: states)
qed

lemma listed_iff:
  assumes "store_inv r" "reorders ord" "ListSlaves ord r f = Inr xs"
  shows "x \<in> set xs \<longleftrightarrow> (\<exists>i st. map_of (r_slaves r) i = Some x \<and> mem_stat r i = Some st \<and> accepts f x st)"
proof -
  have "x \<in> set xs \<longleftrightarrow> (\<exists>i. (i, x) \<in> set (r_slaves r) \<and> (case f of None \<Rightarrow> True | Some g \<Rightarrow> matchesFilter r i x g))"
    using assms(2,3) by (auto simp: ListSlaves_def reorders_set image_iff)
  also have "\<dots> \<longleftrightarrow> (\<exists>i. map_of (r_slaves r) i = Some x \<and> (case f of None \<Rightarrow> True | Some g \<Rightarrow> matchesFilter r i x g))"
    using assms(1) by (auto simp: store_inv_def map_wf_def)
  also have "\<dots> \<longleftrightarrow> (\<exists>i st. map_of (r_slaves r) i = Some x \<and> mem_stat r i = Some st \<and> accepts f x st)"
  proof -
    have "(case f of None \<Rightarrow> True | Some g \<Rightarrow> matchesFilter r i x g) \<longleftrightarrow>
        (\<exists>st. mem_stat r i = Some st \<and> accepts f x st)" if reg: "map_of (r_slaves r) i = Some x" for i
    proof -
      obtain st where st: "map_of (r_status r) i = Some (Some st)" using status_present [OF assms(1) reg] by blast
      show ?thesis by (simp add: mem_stat_Some st accepts_def matchesFilter_spec [OF st] split: option.splits)
    qed
    then show ?thesis by blast
  qed
  finally show ?thesis .
qed

lemma store_ids: "store_inv r \<Longrightarrow> (i, s) \<in> set (r_slaves r) \<Longrightarrow> s_ID s = i"
  by (auto simp: store_inv_def map_wf_def)

lemma listed_ids_distinct:
  assumes "store_inv r" "reorders ord" "ListSlaves ord r f = Inr xs"
  shows "distinct (map s_ID xs)"
proof -
  have "map (s_ID \<circ> snd) (ord (r_slaves r)) = map fst (ord (r_slaves r))"
    using store_ids [OF assms(1)] by (auto simp: reorders_set [OF assms(2)])
  moreover have "distinct (map fst (ord (r_slaves r)))"
    using assms(1) by (simp add: reorders_distinct_map [OF assms(2)] store_inv_def map_wf_def)
  ultimately have "distinct (map (s_ID \<circ> snd) (filter P (ord (r_slaves r))))" for P
    by (metis distinct_map_filter)
  then show ?thesis using assms(3) by (auto simp: ListSlaves_def)
qed

lemma UpdateStatus_store:
  assumes "reg_inv r" "map_of (r_slaves r) i \<noteq> None"
  shows "fst (UpdateStatus i (Some st) r) = Inr ()"
    and "r_slaves (snd (UpdateStatus i (Some st) r)) = r_slaves r"
    and "r_status (snd (UpdateStatus i (Some st) r)) = AList.update i (Some st) (r_status r)"
  using assms
  by (auto simp: registry_op Let_def reg_inv_def notifyEvent_ok split: option.splits)

interpretation mem: slave_registry mem_ops reg_inv "\<lambda>r. map_of (r_slaves r)" mem_stat
proof unfold_locales
  fix s i x st new ord f
  assume inv: "reg_inv s"
  then have st: "store_inv s" by (simp add: reg_inv_def)
  show "map_of (r_slaves s) i = None \<longleftrightarrow> mem_stat s i = None"
    using st by (auto simp: mem_stat_None) (auto simp: store_inv_def)
  show "s_ID x = i" if "map_of (r_slaves s) i = Some x"
    using that st by (simp add: store_inv_def)
  show "op_GetSlave mem_ops s i = (case map_of (r_slaves s) i of None \<Rightarrow> Inl (SlaveNotFound i) | Some x \<Rightarrow> Inr x)"
    by (simp add: mem_ops_def GetSlave_def)
  show "op_GetSlaveStatus mem_ops s i = (case mem_stat s i of None \<Rightarrow> Inl (SlaveNotFound i) | Some st \<Rightarrow> Inr (Some st))"
    using status_not_nil [OF st, of i] by (auto simp: mem_ops_def GetSlaveStatus_def mem_stat_def split: option.splits)
  show "op_UpdateStatus mem_ops i new s = (Inl (SlaveNotFound i), s)" if "map_of (r_slaves s) i = None"
    using that by (simp add: mem_ops_def UpdateStatus_def)
  show "\<exists>xs. op_ListSlaves mem_ops ord s f = Inr xs \<and> distinct (map s_ID xs) \<and>
      set xs = {x. \<exists>i st. map_of (r_slaves s) i = Some x \<and> mem_stat s i = Some st \<and> accepts f x st}"
    if "reorders ord"
  proof -
    obtain xs where xs: "ListSlaves ord s f = Inr xs" by (simp add: ListSlaves_def)
    have "set xs = {x. \<exists>i st. map_of (r_slaves s) i = Some x \<and> mem_stat s i = Some st \<and> accepts f x st}"
      using listed_iff [OF st that xs] by blast
    with xs show ?thesis
      using listed_ids_distinct [OF st that xs] by (simp add: mem_ops_def)
  qed
  show "op_GetOnlineSlaves mem_ops ord s = op_ListSlaves mem_ops ord s (Some online_filter)"
    by (simp add: mem_ops_def GetOnlineSlaves_def online_filter_def no_filter_def)
  show "reg_inv (snd (op_UpdateStatus mem_ops i (Some st) s))"
    using UpdateStatus_inv [OF inv] by (simp add: mem_ops_def)
  show "map_of (r_slaves (snd (op_UpdateStatus mem_ops i (Some st) s))) = map_of (r_slaves s)"
    using UpdateStatus_store(2) [OF inv, of i st]
    by (cases "map_of (r_slaves s) i = None") (simp_all add: mem_ops_def UpdateStatus_def)
  show "fst (op_UpdateStatus mem_ops i (Some st) s) = Inr ()" if "map_of (r_slaves s) i \<noteq> None"
    using UpdateStatus_store(1) [OF inv that] by (simp add: mem_ops_def)
  show "mem_stat (snd (op_UpdateStatus mem_ops i (Some st) s)) = (mem_stat s)(i \<mapsto> st)"
    if "map_of (r_slaves s) i \<noteq> None"
    using UpdateStatus_store(3) [OF inv that] by (auto simp: mem_ops_def mem_stat_def update_conv' fun_eq_iff)
qed

subsection \<open>Calls and the events they cause\<close>

datatype reg_call =
    C_Register int "slave_info option"
  | C_Unregister gostring
  | C_UpdateStatus gostring slave_status
  | C_UpdateHeartbeat int gostring "slave_metrics option"
  | C_MarkOffline gostring
  | C_DrainSlave gostring

fun reg_exec :: "reg_call \<Rightarrow> registry \<Rightarrow> (reg_error + unit) \<times> registry" where
  "reg_exec (C_Register now slave) r = Register now slave r"
| "reg_exec (C_Unregister i) r = Unregister i r"
| "reg_exec (C_UpdateStatus i st) r = UpdateStatus i (Some st) r"
| "reg_exec (C_UpdateHeartbeat now i m) r = UpdateHeartbeat now i m r"
| "reg_exec (C_MarkOffline i) r = MarkOffline i r"
| "reg_exec (C_DrainSlave i) r = DrainSlave i r"

text \<open>The event a call causes, told from the lookups before the call.\<close>

fun call_event :: "reg_call \<Rightarrow> registry \<Rightarrow> slave_event option" where
  "call_event (C_Register now slave) r =
     (case slave of
        Some s \<Rightarrow> if s_ID s \<noteq> [] \<and> map_of (r_slaves r) (s_ID s) = None
                  then Some \<lparr>ev_Type = SlaveEventRegistered, ev_SlaveID = s_ID s, ev_Slave = Some s\<rparr> else None
      | None \<Rightarrow> None)"
| "call_event (C_Unregister i) r =
     map_option (\<lambda>s. \<lparr>ev_Type = SlaveEventUnregistered, ev_SlaveID = i, ev_Slave = Some s\<rparr>) (map_of (r_slaves r) i)"
| "call_event (C_UpdateStatus i st) r =
     (case mem_stat r i of
        Some old \<Rightarrow> if st_State old \<noteq> st_State st
                    then Some (mk_event (status_event_type (st_State st)) i r) else None
      | None \<Rightarrow> None)"
| "call_event (C_UpdateHeartbeat now i m) r =
     (case mem_stat r i of
        Some old \<Rightarrow> if st_State old = SlaveStateOffline then Some (mk_event SlaveEventOnline i r) else None
      | None \<Rightarrow> None)"
| "call_event (C_MarkOffline i) r =
     (case mem_stat r i of
        Some old \<Rightarrow> if st_State old \<noteq> SlaveStateOffline then Some (mk_event SlaveEventOffline i r) else None
      | None \<Rightarrow> None)"
| "call_event (C_DrainSlave i) r = map_option (\<lambda>_. mk_event SlaveEventUpdated i r) (mem_stat r i)"

primrec run_calls :: "reg_call list \<Rightarrow> registry \<Rightarrow> registry" where
  "run_calls [] r = r"
| "run_calls (c # cs) r = run_calls cs (snd (reg_exec c r))"

primrec call_events :: "reg_call list \<Rightarrow> registry \<Rightarrow> slave_event list" where
  "call_events [] r = []"
| "call_events (c # cs) r =
     (case call_event c r of None \<Rightarrow> [] | Some e \<Rightarrow> [e]) @ call_events cs (snd (reg_exec c r))"

lemma reg_exec_inv: "reg_inv r \<Longrightarrow> reg_inv (snd (reg_exec c r))"
  by (cases c) (simp_all add: registry_inv_intros)

lemma mk_event_status [simp]: "mk_event ty i (r\<lparr>r_status := x\<rparr>) = mk_event ty i r"
  by (simp add: mk_event_def)

definition chans_after :: "slave_event option \<Rightarrow> registry \<Rightarrow> nat \<Rightarrow> watch_chan option" where
  "chans_after ev r = (case ev of None \<Rightarrow> r_chans r | Some e \<Rightarrow> r_chans (notified e r))"

lemma notified_chans_store [simp]:
  "r_chans (notified ev (r\<lparr>r_slaves := a\<rparr>)) = r_chans (notified ev r)"
  "r_chans (notified ev (r\<lparr>r_status := b\<rparr>)) = r_chans (notified ev r)"
  by (simp_all add: notified_def cong: if_cong)

lemma reg_exec_chans:
  assumes "reg_inv r"
  shows "r_subscribers (snd (reg_exec c r)) = r_subscribers r \<and>
    r_chans (snd (reg_exec c r)) = chans_after (call_event c r) r \<and> \<not> is_panic (fst (reg_exec c r))"
proof -
  have st: "store_inv r" "watch_inv r" using assms by (simp_all add: reg_inv_def)
  show ?thesis
  proof (cases c)
    case (C_UpdateStatus i new)
    then show ?thesis
      using st status_present [OF st(1), of i] slave_of_status [OF st(1), of i]
      by (cases "map_of (r_slaves r) i")
        (auto simp: registry_op chans_after_def notifyEvent_ok mem_stat_def Let_def split: option.splits)
  qed (use st status_not_nil [OF st(1)] in
      \<open>auto simp: registry_op chans_after_def notifyEvent_ok mem_stat_def Let_def split: option.splits\<close>)
qed

lemma watched_step:
  assumes "c \<in> set (r_subscribers r)" "r_chans r c = Some ch" "ch_buf ch = take chan_capacity evs"
  shows "\<exists>ch'. chans_after ev r c = Some ch' \<and>
    ch_buf ch' = take chan_capacity (evs @ (case ev of None \<Rightarrow> [] | Some e \<Rightarrow> [e]))"
  using assms ch_buf_push [OF assms(3)] by (auto simp: chans_after_def notified_def split: option.splits)

lemma watched_run:
  assumes "reg_inv r" "c \<in> set (r_subscribers r)" "r_chans r c = Some ch" "ch_buf ch = take chan_capacity evs"
  shows "\<exists>ch'. r_chans (run_calls cs r) c = Some ch' \<and> ch_buf ch' = take chan_capacity (evs @ call_events cs r)"
  using assms
proof (induction cs arbitrary: r ch evs)
  case (Cons call cs)
  note step = reg_exec_chans [OF Cons.prems(1), of call] reg_exec_inv [OF Cons.prems(1), of call]
  obtain ch' where "r_chans (snd (reg_exec call r)) c = Some ch'"
    "ch_buf ch' = take chan_capacity (evs @ (case call_event call r of None \<Rightarrow> [] | Some e \<Rightarrow> [e]))"
    using watched_step [OF Cons.prems(2-4), of "call_event call r"] step(1) by auto
  with Cons.IH [of "snd (reg_exec call r)"] step Cons.prems(2) show ?case by fastforce
qed simp

subsection \<open>Properties\<close>

text \<open>A registry in which a worker is registered, watched and offline, for the witnesses.\<close>

definition sample_slave :: "gostring \<Rightarrow> slave_info" where
  "sample_slave i = \<lparr>s_ID = i, s_Type = SlaveTypeWorker, s_Address = ''host:9090'',
     s_Capabilities = [''http_executor''], s_Labels = Some [(''zone'', ''a'')], s_Resources = None\<rparr>"

definition sample_registry :: registry where
  "sample_registry =
     snd (MarkOffline ''s1'' (snd (Register 5 (Some (sample_slave ''s2''))
       (snd (WatchSlaves (snd (Register 3 (Some (sample_slave ''s1'')) NewInMemorySlaveRegistry)))))))"

lemma sample_reachable: "reg_reachable sample_registry"
  unfolding sample_registry_def
  by (intro reach_step [OF _ step_offline] reach_step [OF _ step_register] reach_step [OF _ step_watch] reach_new)

text \<open>In every state the registry can reach, through any interleaving of its methods with the
  goroutines of its watchers and the readers of their channels, a slave has a status exactly when
  it is registered, the status is not nil, the slave is stored under its own non-empty ID, no
  channel of a watcher holds more than 100 events, and a subscribed channel is open.\<close>

theorem registry_invariant:
  assumes "reg_reachable r"
  shows "dom (map_of (r_slaves r)) = dom (map_of (r_status r)) \<and>
    (\<forall>i s. map_of (r_slaves r) i = Some s \<longrightarrow> s_ID s = i \<and> i \<noteq> [] \<and> (\<exists>st. GetSlaveStatus r i = Inr (Some st))) \<and>
    (\<forall>c ch. r_chans r c = Some ch \<longrightarrow> length (ch_buf ch) \<le> 100) \<and>
    (\<forall>c \<in> set (r_subscribers r). \<exists>ch. r_chans r c = Some ch \<and> \<not> ch_closed ch)"
proof -
  have inv: "store_inv r" "watch_inv r" using reachable_inv [OF assms] by (simp_all add: reg_inv_def)
  have "\<exists>st. GetSlaveStatus r i = Inr (Some st)" if "map_of (r_slaves r) i = Some s" for i s
    using status_present [OF inv(1) that] by (auto simp: GetSlaveStatus_def)
  then show ?thesis
    using inv watch_inv_open [OF inv(2)] by (auto simp: store_inv_def watch_inv_def chan_capacity_def)
qed

theorem registry_invariant_witness:
  "reg_reachable sample_registry \<and> dom (map_of (r_slaves sample_registry)) = dom (map_of (r_status sample_registry))"
  using sample_reachable registry_invariant [OF sample_reachable] by blast



text \<open>(C35) A watcher that does not read sees exactly the first hundred events that the calls after
  its subscription cause, in their order: one when a slave is registered or unregistered, one when
  its state changes, one for each drain, and none otherwise.\<close>

theorem watcher_sees_events:
  assumes "reg_reachable r" "WatchSlaves r = (c, r0)"
  shows "\<exists>ch. r_chans (run_calls calls r0) c = Some ch \<and> ch_buf ch = take 100 (call_events calls r0)"
proof -
  have inv: "reg_inv r0" using WatchSlaves_inv [OF reachable_inv [OF assms(1)]] assms(2) by simp
  have "c \<in> set (r_subscribers r0)" "r_chans r0 c = Some \<lparr>ch_buf = [], ch_closed = False, ch_pc = W_Waiting\<rparr>"
    using assms(2) by (auto simp: WatchSlaves_def)
  from watched_run [OF inv this, of "[]" calls] show ?thesis by (simp add: chan_capacity_def)
qed

theorem watcher_sees_events_witness:
  "reg_reachable sample_registry \<and> WatchSlaves sample_registry = (1, snd (WatchSlaves sample_registry)) \<and>
   (\<exists>ch. r_chans (run_calls [C_UpdateHeartbeat 8 ''s1'' None, C_MarkOffline ''s2'', C_MarkOffline ''s2'']
            (snd (WatchSlaves sample_registry))) 1 = Some ch \<and>
      map (\<lambda>e. (ev_Type e, ev_SlaveID e)) (ch_buf ch) = [(''online'', ''s1''), (''offline'', ''s2'')])"
proof -
  have w: "WatchSlaves sample_registry = (1, snd (WatchSlaves sample_registry))"
    by (simp add: prod_eq_iff) code_simp
  have e: "map (\<lambda>e. (ev_Type e, ev_SlaveID e)) (take 100
      (call_events [C_UpdateHeartbeat 8 ''s1'' None, C_MarkOffline ''s2'', C_MarkOffline ''s2'']
        (snd (WatchSlaves sample_registry)))) = [(''online'', ''s1''), (''offline'', ''s2'')]"
    by code_simp
  show ?thesis using sample_reachable w e watcher_sees_events [OF sample_reachable w] by metis
qed

text \<open>Listing returns each registered slave that satisfies the filter exactly once and nothing
  else, in whatever order the map is iterated.\<close>

theorem ListSlaves_exact:
  assumes "reg_reachable r" "reorders ord"
  shows "\<exists>xs. ListSlaves ord r f = Inr xs \<and> distinct (map s_ID xs) \<and>
    (\<forall>s. s \<in> set xs \<longleftrightarrow> (\<exists>st. GetSlave r (s_ID s) = Inr s \<and> GetSlaveStatus r (s_ID s) = Inr (Some st) \<and> accepts f s st))"
proof -
  note inv = reachable_inv [OF assms(1)]
  obtain xs where xs: "op_ListSlaves mem_ops ord r f = Inr xs" by (rule mem.lists_all [OF inv assms(2)])
  have get: "GetSlave r i = op_GetSlave mem_ops r i" "GetSlaveStatus r i = op_GetSlaveStatus mem_ops r i" for i
    by (simp_all add: mem_ops_def)
  have "s \<in> set xs \<longleftrightarrow>
      (\<exists>st. GetSlave r (s_ID s) = Inr s \<and> GetSlaveStatus r (s_ID s) = Inr (Some st) \<and> accepts f s st)" for s
    unfolding mem.list_slaves_id [OF inv assms(2) xs] get mem.get_slave [OF inv] mem.get_status [OF inv]
    by (auto split: option.splits)
  with xs mem.listed_distinct [OF inv assms(2) xs] show ?thesis by (auto simp: mem_ops_def)
qed

theorem ListSlaves_exact_witness:
  "reg_reachable sample_registry \<and> reorders (rev :: slave_order) \<and>
   (\<exists>xs. ListSlaves rev sample_registry (Some online_filter) = Inr xs \<and> distinct (map s_ID xs))"
proof -
  have h: "reg_reachable sample_registry" "reorders (rev :: slave_order)" by (simp_all add: sample_reachable)
  show ?thesis using h ListSlaves_exact [OF h] by blast
qed

lemma count_online_length:
  assumes "\<And>i. map_of (r_status r) i \<noteq> Some None"
  shows "count_online r is n =
    Inr (n + length (filter (\<lambda>i. \<exists>st. map_of (r_status r) i = Some (Some st) \<and> st_State st = SlaveStateOnline) is))"
  using assms by (induction r "is" n rule: count_online.induct) (auto split: option.splits)

text \<open>The number of online slaves is the length of the list of online slaves.\<close>

theorem CountOnline_lists:
  assumes "reg_reachable r" "reorders ord" "reorders ord'"
  shows "\<exists>xs. GetOnlineSlaves ord r = Inr xs \<and> CountOnline ord' r = Inr (length xs) \<and> length xs \<le> Count r"
proof -
  let ?on = "\<lambda>i. \<exists>st. map_of (r_status r) i = Some (Some st) \<and> st_State st = SlaveStateOnline"
  have st: "store_inv r" using reachable_inv [OF assms(1)] by (simp add: reg_inv_def)
  have m: "matchesFilter r i s \<lparr>f_Types = [], f_Labels = [], f_Capabilities = [], f_States = [SlaveStateOnline]\<rparr> \<longleftrightarrow> ?on i"
    for i s by (auto simp: matchesFilter_def split: option.splits)
  have "CountOnline ord' r = Inr (length (filter (\<lambda>p. ?on (fst p)) (ord' (r_slaves r))))"
    unfolding CountOnline_def using status_not_nil [OF st]
    by (simp add: count_online_length filter_map o_def)
  then show ?thesis
    by (simp add: GetOnlineSlaves_def ListSlaves_def Count_def m reorders_length_filter assms(2,3) case_prod_unfold)
qed

theorem CountOnline_lists_witness:
  "reg_reachable sample_registry \<and> reorders (rev :: slave_order) \<and> reorders ((\<lambda>xs. xs) :: slave_order) \<and>
   (\<exists>xs. GetOnlineSlaves rev sample_registry = Inr xs \<and> CountOnline (\<lambda>xs. xs) sample_registry = Inr (length xs) \<and>
      length xs \<le> Count sample_registry)"
proof -
  have h: "reg_reachable sample_registry" "reorders (rev :: slave_order)" "reorders ((\<lambda>xs. xs) :: slave_order)"
    by (simp_all add: sample_reachable)
  show ?thesis using h CountOnline_lists [OF h] by blast
qed

text \<open>Registering a slave that is not known succeeds, makes it online with a fresh heartbeat
  and leaves every other slave alone; a second registration is refused without effect; and
  unregistering it restores every lookup.\<close>

theorem register_unregister:
  assumes "reg_reachable r" "s_ID s \<noteq> []" "GetSlave r (s_ID s) = Inl (SlaveNotFound (s_ID s))"
  shows "fst (Register now (Some s) r) = Inr () \<and>
    (let r1 = snd (Register now (Some s) r); r2 = snd (Unregister (s_ID s) r1) in
       GetSlave r1 (s_ID s) = Inr s \<and> GetSlaveStatus r1 (s_ID s) = Inr (Some (fresh_status now)) \<and>
       (\<forall>i. i \<noteq> s_ID s \<longrightarrow> GetSlave r1 i = GetSlave r i \<and> GetSlaveStatus r1 i = GetSlaveStatus r i) \<and>
       Register later (Some s) r1 = (Inl (AlreadyRegistered (s_ID s)), r1) \<and>
       fst (Unregister (s_ID s) r1) = Inr () \<and>
       (\<forall>i. GetSlave r2 i = GetSlave r i \<and> GetSlaveStatus r2 i = GetSlaveStatus r i))"
proof -
  define r1 where "r1 = snd (Register now (Some s) r)"
  have inv: "reg_inv r" "reg_inv r1" using reachable_inv [OF assms(1)] by (simp_all add: r1_def Register_inv)
  have new: "map_of (r_slaves r) (s_ID s) = None" using assms(3) by (simp add: GetSlave_def split: option.splits)
  then have old: "map_of (r_status r) (s_ID s) = None"
    using inv(1) by (auto simp: reg_inv_def store_inv_def)
  have reg: "fst (Register now (Some s) r) = Inr ()" "r_slaves r1 = AList.update (s_ID s) s (r_slaves r)"
    "r_status r1 = AList.update (s_ID s) (Some (fresh_status now)) (r_status r)"
    using assms(2) new inv(1) by (simp_all add: r1_def Register_def notifyEvent_ok reg_inv_def)
  have unreg: "fst (Unregister (s_ID s) r1) = Inr ()"
    "r_slaves (snd (Unregister (s_ID s) r1)) = AList.delete (s_ID s) (r_slaves r1)"
    "r_status (snd (Unregister (s_ID s) r1)) = AList.delete (s_ID s) (r_status r1)"
    using inv(2) by (simp_all add: Unregister_def reg update_conv' notifyEvent_ok reg_inv_def)
  have again: "Register later (Some s) r1 = (Inl (AlreadyRegistered (s_ID s)), r1)"
    using assms(2) by (simp add: Register_def reg update_conv')
  show ?thesis
    unfolding Let_def r1_def [symmetric] GetSlave_def GetSlaveStatus_def
    using assms(2) new old
    by (simp add: reg unreg again update_conv' delete_conv')
qed

theorem register_unregister_witness:
  "reg_reachable sample_registry \<and> s_ID (sample_slave ''s3'') \<noteq> [] \<and>
   GetSlave sample_registry (s_ID (sample_slave ''s3'')) = Inl (SlaveNotFound (s_ID (sample_slave ''s3''))) \<and>
   fst (Register 7 (Some (sample_slave ''s3'')) sample_registry) = Inr ()"
proof -
  have h: "s_ID (sample_slave ''s3'') \<noteq> []"
    "GetSlave sample_registry (s_ID (sample_slave ''s3'')) = Inl (SlaveNotFound (s_ID (sample_slave ''s3'')))"
    by code_simp+
  show ?thesis using sample_reachable h register_unregister [OF sample_reachable h] by blast
qed

text \<open>A slave marked offline is unhealthy whatever the timeout; the next heartbeat brings it
  back online, and from then on it is healthy exactly while the heartbeat is younger than the
  timeout.\<close>

theorem offline_until_heartbeat:
  assumes "reg_reachable r" "GetSlave r i = Inr s" "in_int64 (now - beat)"
  shows "let r1 = snd (MarkOffline i r); r2 = snd (UpdateHeartbeat beat i m r1) in
    IsSlaveHealthy any r1 i timeout = Inr False \<and>
    (\<exists>st. GetSlaveStatus r2 i = Inr (Some st) \<and> st_State st = SlaveStateOnline) \<and>
    IsSlaveHealthy now r2 i timeout = Inr (now - beat < timeout)"
proof -
  have inv: "store_inv r" "watch_inv r" using reachable_inv [OF assms(1)] by (simp_all add: reg_inv_def)
  obtain st where st: "map_of (r_status r) i = Some (Some st)"
    using status_present [OF inv(1)] assms(2) by (auto simp: GetSlave_def split: option.splits)
  define r1 where "r1 = snd (MarkOffline i r)"
  have off: "\<exists>st. map_of (r_status r1) i = Some (Some st) \<and> st_State st = SlaveStateOffline"
    using st inv by (auto simp: r1_def MarkOffline_def notifyEvent_ok Let_def update_conv')
  have w1: "watch_inv r1" using MarkOffline_inv [OF reachable_inv [OF assms(1)]] by (simp add: r1_def reg_inv_def)
  have d: "duration_between beat now = now - beat"
    by (rule duration_between_exact [OF assms(3)])
  show ?thesis
    unfolding Let_def r1_def [symmetric]
    using off w1 d
    by (auto simp: IsSlaveHealthy_def UpdateHeartbeat_def GetSlaveStatus_def notifyEvent_ok Let_def update_conv'
        split: option.splits)
qed

theorem offline_until_heartbeat_witness:
  "reg_reachable sample_registry \<and> GetSlave sample_registry ''s2'' = Inr (sample_slave ''s2'') \<and> in_int64 (40 - 12) \<and>
   IsSlaveHealthy 40 (snd (UpdateHeartbeat 12 ''s2'' None (snd (MarkOffline ''s2'' sample_registry)))) ''s2'' 30 = Inr (40 - 12 < (30::int))"
proof -
  have h: "GetSlave sample_registry ''s2'' = Inr (sample_slave ''s2'')" "in_int64 (40 - 12)" by code_simp+
  show ?thesis
    using sample_reachable h offline_until_heartbeat [OF sample_reachable h, of None 0 30] by (simp only: Let_def simp_thms)
qed

end
