(* ===== verification/Scheduler.thy ===== *)
theory Scheduler
  imports Workflow_Types Slave_Registry
begin

text \<open>
  The scheduler of \<^verbatim>\<open>internal/master/scheduler.go\<close>: selection of slaves through the registry
  interface, partition of an execution into segments, rescheduling after a failure, and the
  division of virtual users and iterations.  The functions that select slaves take the interface
  value and the state behind it; the facts about them are proved in the locale of the interface
  and then hold for the in-memory registry.
\<close>

datatype sched_error =
    WorkflowNil
  | NoSlavesToSchedule
  | PlanNil
  | NoRemainingSlaves
  | UnknownSelectionMode gostring
  | NoSlaveIDs
  | SelectedNotFound gostring
  | StatusFailed gostring
  | NotOnline gostring slave_state
  | NoLabels
  | NoCapabilities
  | ListFailed reg_error
  | NoMatchingLabels
  | NoMatchingCapabilities
  | NoOnlineSlaves
  | NotEnoughSlaves int int
  | SchedNilDereference

subsection \<open>Segments\<close>

definition f64_one :: float64 where
  "f64_one = F_Fin False 1"

definition segmentSize :: "nat \<Rightarrow> float64" where
  "segmentSize n = f64_div f64_one (f64_of_int (int n))"

definition segment_of :: "nat \<Rightarrow> nat \<Rightarrow> execution_segment" where
  "segment_of n i =
     \<lparr>seg_Start = f64_mul (f64_of_int (int i)) (segmentSize n),
      seg_End = (if i = n - 1 then f64_one else f64_mul (f64_of_int (int i + 1)) (segmentSize n))\<rparr>"

definition calculateSegments :: "workflow \<Rightarrow> slave_info list \<Rightarrow> slave_assignment list" where
  "calculateSegments w slaves =
     map (\<lambda>(i, slave). \<lparr>as_SlaveID = s_ID slave, as_Segment = segment_of (length slaves) i, as_Workflow = w\<rparr>)
       (zip [0..<length slaves] slaves)"

definition Schedule :: "workflow option \<Rightarrow> slave_info list \<Rightarrow> sched_error + execution_plan" where
  "Schedule workflow slaves =
     (case workflow of
        None \<Rightarrow> Inl WorkflowNil
      | Some w \<Rightarrow>
          if slaves = [] then Inl NoSlavesToSchedule
          else Inr \<lparr>pl_ExecutionID = [], pl_Assignments = calculateSegments w slaves\<rparr>)"

text \<open>The remaining assignments are extended in place, so that the plan that was passed in changes
  too: the second component is that plan after the call.  The assignments of a plan are distinct
  objects, as \<^verbatim>\<open>calculateSegments\<close> makes them.\<close>

definition extend_segment :: "float64 \<Rightarrow> nat \<Rightarrow> nat \<Rightarrow> slave_assignment \<Rightarrow> slave_assignment" where
  "extend_segment share n i a =
     a\<lparr>as_Segment := (as_Segment a)\<lparr>seg_End :=
        (if i = n - 1 then f64_one else f64_add (seg_End (as_Segment a)) share)\<rparr>\<rparr>"

fun merge_back :: "gostring \<Rightarrow> slave_assignment list \<Rightarrow> slave_assignment list \<Rightarrow> slave_assignment list" where
  "merge_back failed [] _ = []"
| "merge_back failed (a # as) rem =
     (if as_SlaveID a = failed then a # merge_back failed as rem
      else case rem of
             [] \<Rightarrow> a # merge_back failed as []
           | b # bs \<Rightarrow> b # merge_back failed as bs)"

definition Reschedule ::
  "gostring \<Rightarrow> execution_plan option \<Rightarrow> (sched_error + execution_plan) \<times> execution_plan option" where
  "Reschedule failedSlaveID plan =
     (case plan of
        None \<Rightarrow> (Inl PlanNil, None)
      | Some p \<Rightarrow>
          let failed = filter (\<lambda>a. as_SlaveID a = failedSlaveID) (pl_Assignments p);
              rem = filter (\<lambda>a. as_SlaveID a \<noteq> failedSlaveID) (pl_Assignments p) in
          if failed = [] then (Inr p, Some p)
          else if rem = [] then (Inl NoRemainingSlaves, Some p)
          else
            let seg = as_Segment (last failed);
                share = f64_div (f64_sub (seg_End seg) (seg_Start seg)) (f64_of_int (int (length rem)));
                rem' = map (\<lambda>(i, a). extend_segment share (length rem) i a) (zip [0..<length rem] rem) in
            (Inr \<lparr>pl_ExecutionID = pl_ExecutionID p, pl_Assignments = rem'\<rparr>,
             Some (p\<lparr>pl_Assignments := merge_back failedSlaveID (pl_Assignments p) rem'\<rparr>)))"

subsection \<open>Selection\<close>

fun manual_loop :: "'s registry_ops \<Rightarrow> 's \<Rightarrow> gostring list \<Rightarrow> slave_info list \<Rightarrow> sched_error + slave_info list" where
  "manual_loop ops s [] acc = Inr acc"
| "manual_loop ops s (i # is) acc =
     (case op_GetSlave ops s i of
        Inl _ \<Rightarrow> Inl (SelectedNotFound i)
      | Inr slave \<Rightarrow>
          (case op_GetSlaveStatus ops s i of
             Inl _ \<Rightarrow> Inl (StatusFailed i)
           | Inr None \<Rightarrow> Inl SchedNilDereference
           | Inr (Some st) \<Rightarrow>
               if st_State st \<noteq> SlaveStateOnline then Inl (NotOnline i (st_State st))
               else manual_loop ops s is (acc @ [slave])))"

definition selectManual :: "'s registry_ops \<Rightarrow> 's \<Rightarrow> slave_selector \<Rightarrow> sched_error + slave_info list" where
  "selectManual ops s sel =
     (if sel_SlaveIDs sel = [] then Inl NoSlaveIDs else manual_loop ops s (sel_SlaveIDs sel) [])"

definition selectByLabel ::
  "slave_order \<Rightarrow> 's registry_ops \<Rightarrow> 's \<Rightarrow> slave_selector \<Rightarrow> sched_error + slave_info list" where
  "selectByLabel ord ops s sel =
     (if sel_Labels sel = [] then Inl NoLabels
      else case op_ListSlaves ops ord s
                  (Some \<lparr>f_Types = [], f_Labels = sel_Labels sel, f_Capabilities = [],
                         f_States = [SlaveStateOnline]\<rparr>) of
             Inl e \<Rightarrow> Inl (ListFailed e)
           | Inr slaves \<Rightarrow> if slaves = [] then Inl NoMatchingLabels else Inr slaves)"

definition selectByCapability ::
  "slave_order \<Rightarrow> 's registry_ops \<Rightarrow> 's \<Rightarrow> slave_selector \<Rightarrow> sched_error + slave_info list" where
  "selectByCapability ord ops s sel =
     (if sel_Capabilities sel = [] then Inl NoCapabilities
      else case op_ListSlaves ops ord s
                  (Some \<lparr>f_Types = [], f_Labels = [], f_Capabilities = sel_Capabilities sel,
                         f_States = [SlaveStateOnline]\<rparr>) of
             Inl e \<Rightarrow> Inl (ListFailed e)
           | Inr slaves \<Rightarrow> if slaves = [] then Inl NoMatchingCapabilities else Inr slaves)"

type_synonym slaveWithLoad = "slave_info \<times> float64"
type_synonym tie_order = "slaveWithLoad list \<Rightarrow> slaveWithLoad list"

definition slave_load :: "'s registry_ops \<Rightarrow> 's \<Rightarrow> slave_info \<Rightarrow> float64" where
  "slave_load ops s slave =
     (case op_GetSlaveStatus ops s (s_ID slave) of
        Inr (Some st) \<Rightarrow> st_Load st
      | _ \<Rightarrow> F_Fin False 0)"

definition selectAuto ::
  "slave_order \<Rightarrow> tie_order \<Rightarrow> 's registry_ops \<Rightarrow> 's \<Rightarrow> slave_selector \<Rightarrow> sched_error + slave_info list" where
  "selectAuto ord tie ops s sel =
     (case op_GetOnlineSlaves ops ord s of
        Inl e \<Rightarrow> Inl (ListFailed e)
      | Inr slaves \<Rightarrow>
          if slaves = [] then Inl NoOnlineSlaves
          else
            let withLoad = map (\<lambda>slave. (slave, slave_load ops s slave)) slaves;
                sorted = sort_slice tie (\<lambda>a b. f64_lt (snd a) (snd b)) withLoad;
                len = int (length sorted);
                minSlaves = (if sel_MinSlaves sel \<le> 0 then 1 else sel_MinSlaves sel);
                maxSlaves = (if sel_MaxSlaves sel \<le> 0 \<or> sel_MaxSlaves sel > len then len
                             else sel_MaxSlaves sel) in
            if len < minSlaves then Inl (NotEnoughSlaves minSlaves len)
            else let selectedCount = (if maxSlaves > len then len else maxSlaves)
                 in Inr (map fst (take (nat selectedCount) sorted)))"

definition auto_selector :: slave_selector where
  "auto_selector = \<lparr>sel_Mode = SelectionModeAuto, sel_SlaveIDs = [], sel_Labels = [], sel_Capabilities = [],
     sel_MinSlaves = 0, sel_MaxSlaves = 0\<rparr>"

definition SelectSlaves ::
  "slave_order \<Rightarrow> tie_order \<Rightarrow> 's registry_ops \<Rightarrow> 's \<Rightarrow> slave_selector option \<Rightarrow> sched_error + slave_info list" where
  "SelectSlaves ord tie ops s selector =
     (let sel = (case selector of None \<Rightarrow> auto_selector | Some x \<Rightarrow> x) in
      if sel_Mode sel = SelectionModeManual then selectManual ops s sel
      else if sel_Mode sel = SelectionModeLabel then selectByLabel ord ops s sel
      else if sel_Mode sel = SelectionModeCapability then selectByCapability ord ops s sel
      else if sel_Mode sel = SelectionModeAuto then selectAuto ord tie ops s sel
      else Inl (UnknownSelectionMode (sel_Mode sel)))"

subsection \<open>Division of virtual users and iterations\<close>

definition CalculateVUsPerSlave :: "int \<Rightarrow> int \<Rightarrow> int list" where
  "CalculateVUsPerSlave totalVUs numSlaves =
     (if numSlaves \<le> 0 then []
      else let base = go_div totalVUs numSlaves; rest = go_mod totalVUs numSlaves
           in map (\<lambda>i. if int i < rest then base + 1 else base) [0..<nat numSlaves])"

definition CalculateIterationsPerSlave :: "int \<Rightarrow> int \<Rightarrow> int list" where
  "CalculateIterationsPerSlave totalIterations numSlaves =
     (if numSlaves \<le> 0 then []
      else let base = go_div totalIterations numSlaves; rest = go_mod totalIterations numSlaves
           in map (\<lambda>i. if int i < rest then base + 1 else base) [0..<nat numSlaves])"

subsection \<open>Segment boundaries\<close>

abbreviation ulp53 :: rat where
  "ulp53 \<equiv> 2 powi (-53)"

lemma powi_m53: "(2::rat) powi (-53) = 1 / 2 ^ 53"
  unfolding power_int_minus power_int_numeral by (rule inverse_eq_divide)

lemma ilog2_ge:
  assumes "0 < x" "2 powi k \<le> x"
  shows "k \<le> ilog2 x"
proof -
  have "\<not> (2::rat) powi (ilog2 x + 1) \<le> 2 powi k" using ilog2_bounds(2) [OF assms(1)] assms(2) by linarith
  then show ?thesis by simp
qed

lemma round_unit_error:
  assumes "2 powi (-60) \<le> x"
  shows "\<bar>round_pos 53 (-1074) x - x\<bar> \<le> x * ulp53"
proof -
  have pos: "0 < x" using assms powi2_pos [of "-60"] by linarith
  show ?thesis using ilog2_ge [OF pos assms] by (intro round_pos_error pos) simp
qed

text \<open>The rounded size of a segment.\<close>

definition seg_size :: "nat \<Rightarrow> rat" where
  "seg_size n = round_pos 53 (-1074) (1 / of_nat n)"

lemma segmentSize_fin:
  assumes "0 < n" "n \<le> 2 ^ 53"
  shows "segmentSize n = F_Fin False (seg_size n)"
  using assms f64_round_unit [of "1 / of_nat n" False] f64_of_int_exact [of "int n"]
  by (simp add: segmentSize_def f64_one_def seg_size_def)

lemma seg_size_error:
  assumes "0 < n" "n \<le> 2 ^ 53"
  shows "\<bar>seg_size n - 1 / of_nat n\<bar> \<le> 1 / of_nat n * ulp53"
proof -
  have "of_nat n \<le> (of_nat (2 ^ 53) :: rat)" using assms(2) by (simp only: of_nat_le_iff)
  then have "(2::rat) powi (-60) \<le> 1 / of_nat n"
    using assms(1) by (simp add: power_int_minus field_simps)
  then show ?thesis unfolding seg_size_def by (rule round_unit_error)
qed

lemma seg_size_bounds:
  assumes "0 < n" "n \<le> 2 ^ 53"
  shows "2 powi (-60) \<le> seg_size n" "i < n \<Longrightarrow> of_nat i * seg_size n \<le> 1"
proof -
  note e = seg_size_error [OF assms]
  have n: "of_nat n \<le> (2 ^ 53 :: rat)"
    using assms(2) by (metis of_nat_le_iff of_nat_numeral of_nat_power)
  have "1 / of_nat n * (1 / 2) \<le> 1 / of_nat n * (1 - ulp53)"
    by (intro mult_left_mono) (simp_all add: powi_m53)
  moreover have "2 powi (-60) \<le> 1 / of_nat n * (1 / 2 :: rat)"
    using n assms(1) by (simp add: power_int_minus field_simps)
  ultimately show "2 powi (-60) \<le> seg_size n" using e by (simp add: abs_le_iff algebra_simps)
  show "of_nat i * seg_size n \<le> 1" if "i < n"
  proof -
    have i: "of_nat i + 1 \<le> (of_nat n :: rat)" using that by (metis Suc_leI of_nat_Suc of_nat_le_iff add.commute)
    have "seg_size n \<le> 1 / of_nat n * (1 + ulp53)" using e by (simp add: abs_le_iff algebra_simps)
    then have "of_nat i * seg_size n \<le> of_nat i * (1 / of_nat n * (1 + ulp53))"
      by (intro mult_left_mono) simp_all
    also have "\<dots> \<le> 1"
    proof -
      have "of_nat i * (1 + ulp53) \<le> of_nat n"
        using i n by (simp add: powi_m53 field_simps)
      then show ?thesis using assms(1) by (simp add: field_simps)
    qed
    finally show ?thesis .
  qed
qed

definition boundary :: "nat \<Rightarrow> nat \<Rightarrow> rat" where
  "boundary n i = round_pos 53 (-1074) (of_nat i * seg_size n)"

lemma boundary_fin:
  assumes "i < n" "n \<le> 2 ^ 53"
  shows "f64_mul (f64_of_int (int i)) (segmentSize n) = F_Fin False (boundary n i)"
proof -
  have n: "0 < n" using assms(1) by simp
  have "0 \<le> seg_size n" using seg_size_bounds(1) [OF n assms(2)] powi2_pos [of "-60"] by linarith
  then show ?thesis
    using f64_round_unit [of "of_nat i * seg_size n" False] seg_size_bounds(2) [OF n assms(2,1)] assms
    by (simp add: segmentSize_fin n f64_of_int_exact boundary_def)
qed

lemma boundary_error:
  assumes "i < n" "n \<le> 2 ^ 53"
  shows "\<bar>boundary n i - of_nat i / of_nat n\<bar> \<le> 2 * ulp53"
proof (cases "i = 0")
  case False
  have n: "0 < n" using assms(1) by simp
  let ?x = "of_nat i * seg_size n"
  note b = seg_size_bounds(1) [OF n assms(2)] seg_size_bounds(2) [OF n assms(2,1)]
  have pos: "0 < seg_size n" using b(1) powi2_pos [of "-60"] by linarith
  have "seg_size n \<le> ?x" using False pos by (cases i) (simp_all add: algebra_simps)
  then have "\<bar>boundary n i - ?x\<bar> \<le> ?x * ulp53"
    unfolding boundary_def using b(1) by (intro round_unit_error) linarith
  also have "\<dots> \<le> 1 * ulp53" using b(2) by (intro mult_right_mono) simp_all
  finally have 1: "\<bar>boundary n i - ?x\<bar> \<le> ulp53" by simp
  have "\<bar>?x - of_nat i / of_nat n\<bar> = of_nat i * \<bar>seg_size n - 1 / of_nat n\<bar>"
    by (subst abs_of_nat [symmetric], subst abs_mult [symmetric]) (simp add: right_diff_distrib)
  also have "\<dots> \<le> of_nat i * (1 / of_nat n * ulp53)"
    using seg_size_error [OF n assms(2)] by (intro mult_left_mono) simp_all
  also have "\<dots> \<le> 1 * ulp53"
    using assms(1) by (simp only: mult.assoc [symmetric]) (intro mult_right_mono; simp add: field_simps)
  finally show ?thesis using 1 by linarith
qed (simp add: boundary_def)

lemma boundary_mono:
  assumes "i \<le> j" "j < n" "n \<le> 2 ^ 53"
  shows "boundary n i \<le> boundary n j"
proof -
  have "0 < n" using assms(2) by simp
  then have "0 \<le> seg_size n" using seg_size_bounds(1) [of n] assms(3) powi2_pos [of "-60"] by fastforce
  then show ?thesis unfolding boundary_def using assms(1)
    by (intro round_pos_mono mult_right_mono) simp_all
qed

lemma boundary_le_one:
  assumes "i < n" "n \<le> 2 ^ 53"
  shows "boundary n i \<le> 1"
proof -
  have n: "0 < n" using assms(1) by simp
  have "0 \<le> seg_size n" using seg_size_bounds(1) [OF n assms(2)] powi2_pos [of "-60"] by linarith
  then show ?thesis unfolding boundary_def
    using seg_size_bounds(2) [OF n assms(2,1)] by (intro round_pos_le_one) simp_all
qed

lemma nth_calculateSegments:
  "i < length slaves \<Longrightarrow> calculateSegments w slaves ! i =
     \<lparr>as_SlaveID = s_ID (slaves ! i), as_Segment = segment_of (length slaves) i, as_Workflow = w\<rparr>"
  by (simp add: calculateSegments_def)

lemma length_calculateSegments [simp]: "length (calculateSegments w slaves) = length slaves"
  by (simp add: calculateSegments_def)

subsection \<open>Properties of plans\<close>

lemma f64_le_fin: "f64_le (F_Fin False a) (F_Fin False b) \<longleftrightarrow> a \<le> b"
  by (auto simp: f64_le_def)

text \<open>(C10) Scheduling on any number of slaves up to \<^verbatim>\<open>2^53\<close> gives each slave one segment, in the order
  of the slaves; the segments tile the unit interval in \<^verbatim>\<open>float64\<close>: the first starts at 0, each
  ends where the next one starts, the last ends at exactly 1, none is reversed, and each boundary
  is within \<^verbatim>\<open>2^-52\<close> of its exact place.\<close>

theorem schedule_partitions:
  assumes "Schedule (Some w) slaves = Inr plan" "length slaves \<le> 2 ^ 53"
  shows "map as_SlaveID (pl_Assignments plan) = map s_ID slaves \<and>
    (let seg = (\<lambda>i. as_Segment (pl_Assignments plan ! i)); n = length slaves in
      seg_Start (seg 0) = F_Fin False 0 \<and> seg_End (seg (n - 1)) = F_Fin False 1 \<and>
      (\<forall>i. i + 1 < n \<longrightarrow> seg_End (seg i) = seg_Start (seg (i + 1))) \<and>
      (\<forall>i < n. f64_le (seg_Start (seg i)) (seg_End (seg i)) \<and>
         \<bar>f64_val (seg_Start (seg i)) - of_nat i / of_nat n\<bar> \<le> 2 powi (-52)))"
proof -
  let ?n = "length slaves"
  have ne: "0 < ?n" and plan: "pl_Assignments plan = calculateSegments w slaves"
    using assms(1) by (auto simp: Schedule_def split: if_splits)
  have seg: "as_Segment (pl_Assignments plan ! i) = segment_of ?n i" if "i < ?n" for i
    using that by (simp add: plan nth_calculateSegments)
  have start: "seg_Start (segment_of ?n i) = F_Fin False (boundary ?n i)" if "i < ?n" for i
    using that assms(2) by (simp add: segment_of_def boundary_fin)
  have next_start: "seg_End (segment_of ?n i) = F_Fin False (boundary ?n (i + 1))" if "i + 1 < ?n" for i
  proof -
    have "i \<noteq> ?n - 1" using that by simp
    then show ?thesis using that assms(2) boundary_fin [of "i + 1" ?n] by (simp add: segment_of_def algebra_simps)
  qed
  have final: "seg_End (segment_of ?n (?n - 1)) = F_Fin False 1"
    by (simp add: segment_of_def f64_one_def)
  have le: "f64_le (seg_Start (segment_of ?n i)) (seg_End (segment_of ?n i))" if "i < ?n" for i
  proof (cases "i + 1 < ?n")
    case True
    then show ?thesis using boundary_mono [of i "i + 1" ?n] assms(2) by (simp add: start next_start f64_le_fin)
  next
    case False
    then have "i = ?n - 1" using that by simp
    then show ?thesis using boundary_le_one [of i ?n] that assms(2) final start [OF that] by (simp add: f64_le_fin)
  qed
  have err: "\<bar>f64_val (seg_Start (segment_of ?n i)) - of_nat i / of_nat ?n\<bar> \<le> 2 powi (-52)" if "i < ?n" for i
  proof -
    have "(2::rat) powi (-52) = 2 * 2 powi (-53)" using powi2_add [of "-53" 1] by simp
    then show ?thesis using boundary_error [OF that assms(2)] by (simp add: start [OF that])
  qed
  have "map as_SlaveID (pl_Assignments plan) = map s_ID slaves"
    by (rule nth_equalityI) (simp_all add: plan nth_calculateSegments)
  then show ?thesis
    unfolding Let_def using ne final le err next_start start seg by (simp add: boundary_def)
qed

definition sample_plan :: execution_plan where
  "sample_plan = \<lparr>pl_ExecutionID = [], pl_Assignments =
     calculateSegments (empty_workflow ''w'') [sample_slave ''s1'', sample_slave ''s2'', sample_slave ''s3'']\<rparr>"

lemma sample_plan_scheduled:
  "Schedule (Some (empty_workflow ''w'')) [sample_slave ''s1'', sample_slave ''s2'', sample_slave ''s3''] = Inr sample_plan"
  by (simp add: Schedule_def sample_plan_def)

theorem schedule_partitions_witness:
  "Schedule (Some (empty_workflow ''w'')) [sample_slave ''s1'', sample_slave ''s2'', sample_slave ''s3''] = Inr sample_plan \<and>
   length [sample_slave ''s1'', sample_slave ''s2'', sample_slave ''s3''] \<le> 2 ^ 53 \<and>
   map as_SlaveID (pl_Assignments sample_plan) = map s_ID [sample_slave ''s1'', sample_slave ''s2'', sample_slave ''s3'']"
proof -
  have h: "length [sample_slave ''s1'', sample_slave ''s2'', sample_slave ''s3''] \<le> 2 ^ 53" by simp
  show ?thesis using sample_plan_scheduled h schedule_partitions [OF sample_plan_scheduled h] by blast
qed

lemma extended_fields:
  "as_SlaveID (extend_segment share n i a) = as_SlaveID a"
  "seg_Start (as_Segment (extend_segment share n i a)) = seg_Start (as_Segment a)"
  by (simp_all add: extend_segment_def)

lemma merge_back_filter:
  assumes "map as_SlaveID rem = map as_SlaveID (filter (\<lambda>a. as_SlaveID a \<noteq> failed) as)"
  shows "filter (\<lambda>a. as_SlaveID a \<noteq> failed) (merge_back failed as rem) = rem"
  using assms by (induction failed as rem rule: merge_back.induct) (auto split: list.splits if_splits)

lemma reschedule_some:
  assumes "\<exists>a \<in> set (pl_Assignments p). as_SlaveID a = failed" "\<exists>a \<in> set (pl_Assignments p). as_SlaveID a \<noteq> failed"
  shows "\<exists>share. Reschedule failed (Some p) =
    (let rem = filter (\<lambda>a. as_SlaveID a \<noteq> failed) (pl_Assignments p);
         rem' = map (\<lambda>(i, a). extend_segment share (length rem) i a) (zip [0..<length rem] rem) in
     (Inr \<lparr>pl_ExecutionID = pl_ExecutionID p, pl_Assignments = rem'\<rparr>,
      Some (p\<lparr>pl_Assignments := merge_back failed (pl_Assignments p) rem'\<rparr>)))"
proof -
  let ?seg = "as_Segment (last (filter (\<lambda>a. as_SlaveID a = failed) (pl_Assignments p)))"
  have "filter (\<lambda>a. as_SlaveID a = failed) (pl_Assignments p) \<noteq> []"
    "filter (\<lambda>a. as_SlaveID a \<noteq> failed) (pl_Assignments p) \<noteq> []"
    using assms by (simp_all add: filter_empty_conv)
  then show ?thesis
    by (intro exI [of _ "f64_div (f64_sub (seg_End ?seg) (seg_Start ?seg))
          (f64_of_int (int (length (filter (\<lambda>a. as_SlaveID a \<noteq> failed) (pl_Assignments p)))))"])
      (simp only: Reschedule_def Let_def option.case if_False)
qed

lemma rescheduled:
  assumes "\<exists>a \<in> set (pl_Assignments p). as_SlaveID a = failed" "\<exists>a \<in> set (pl_Assignments p). as_SlaveID a \<noteq> failed"
  shows "\<exists>p' old. Reschedule failed (Some p) = (Inr p', Some old) \<and> pl_ExecutionID p' = pl_ExecutionID p \<and>
    map (\<lambda>a. (as_SlaveID a, seg_Start (as_Segment a))) (pl_Assignments p') =
      map (\<lambda>a. (as_SlaveID a, seg_Start (as_Segment a))) (filter (\<lambda>a. as_SlaveID a \<noteq> failed) (pl_Assignments p)) \<and>
    seg_End (as_Segment (last (pl_Assignments p'))) = F_Fin False 1 \<and>
    filter (\<lambda>a. as_SlaveID a \<noteq> failed) (pl_Assignments old) = pl_Assignments p'"
proof -
  let ?rem = "filter (\<lambda>a. as_SlaveID a \<noteq> failed) (pl_Assignments p)"
  obtain share where r: "Reschedule failed (Some p) =
    (let rem' = map (\<lambda>(i, a). extend_segment share (length ?rem) i a) (zip [0..<length ?rem] ?rem) in
     (Inr \<lparr>pl_ExecutionID = pl_ExecutionID p, pl_Assignments = rem'\<rparr>,
      Some (p\<lparr>pl_Assignments := merge_back failed (pl_Assignments p) rem'\<rparr>)))"
    using reschedule_some [OF assms] unfolding Let_def by blast
  define rem' where "rem' = map (\<lambda>(i, a). extend_segment share (length ?rem) i a) (zip [0..<length ?rem] ?rem)"
  have ne: "?rem \<noteq> []" using assms(2) by (simp add: filter_empty_conv)
  have same: "map f rem' = map f ?rem" if "\<And>i a. f (extend_segment share (length ?rem) i a) = f a" for f :: "slave_assignment \<Rightarrow> 'a"
    unfolding rem'_def by (rule nth_equalityI) (simp_all add: that)
  have "last rem' = rem' ! (length ?rem - 1)" using ne by (subst last_conv_nth) (auto simp: rem'_def)
  then have "seg_End (as_Segment (last rem')) = F_Fin False 1"
    using ne by (simp add: rem'_def extend_segment_def f64_one_def)
  moreover have "filter (\<lambda>a. as_SlaveID a \<noteq> failed) (merge_back failed (pl_Assignments p) rem') = rem'"
    by (rule merge_back_filter) (simp add: same extended_fields)
  ultimately show ?thesis
    unfolding r rem'_def [symmetric] Let_def by (simp add: same extended_fields)
qed

text \<open>When some slave of a plan has failed and another one is left, rescheduling succeeds, keeps
  the execution and exactly the remaining slaves in their order, does not move the start of any
  segment, and makes the last one end at 1; the plan that was passed in has been changed too.\<close>

theorem reschedule_remaining:
  assumes "\<exists>a \<in> set (pl_Assignments p). as_SlaveID a = failed" "\<exists>a \<in> set (pl_Assignments p). as_SlaveID a \<noteq> failed"
  shows "\<exists>p' old. Reschedule failed (Some p) = (Inr p', Some old) \<and> pl_ExecutionID p' = pl_ExecutionID p \<and>
    map (\<lambda>a. (as_SlaveID a, seg_Start (as_Segment a))) (pl_Assignments p') =
      map (\<lambda>a. (as_SlaveID a, seg_Start (as_Segment a))) (filter (\<lambda>a. as_SlaveID a \<noteq> failed) (pl_Assignments p)) \<and>
    seg_End (as_Segment (last (pl_Assignments p'))) = F_Fin False 1 \<and>
    filter (\<lambda>a. as_SlaveID a \<noteq> failed) (pl_Assignments old) = pl_Assignments p'"
  by (rule rescheduled [OF assms])

theorem reschedule_remaining_witness:
  "(\<exists>a \<in> set (pl_Assignments sample_plan). as_SlaveID a = ''s2'') \<and>
   (\<exists>a \<in> set (pl_Assignments sample_plan). as_SlaveID a \<noteq> ''s2'') \<and>
   (\<exists>p' old. Reschedule ''s2'' (Some sample_plan) = (Inr p', Some old) \<and>
      seg_End (as_Segment (last (pl_Assignments p'))) = F_Fin False 1)"
proof -
  have h: "\<exists>a \<in> set (pl_Assignments sample_plan). as_SlaveID a = ''s2''"
    "\<exists>a \<in> set (pl_Assignments sample_plan). as_SlaveID a \<noteq> ''s2''"
    by (simp_all add: sample_plan_def calculateSegments_def sample_slave_def upt_rec)
  show ?thesis using h reschedule_remaining [OF h] by blast
qed

lemma boundary_pos:
  assumes "0 < i" "i < n" "n \<le> 2 ^ 53"
  shows "0 < boundary n i"
proof -
  have n: "0 < n" using assms(2) by simp
  note s = seg_size_bounds(1) [OF n assms(3)]
  have x: "seg_size n \<le> of_nat i * seg_size n"
    using assms(1) s powi2_pos [of "-60"] by (cases i) (simp_all add: algebra_simps)
  have pos: "0 < of_nat i * seg_size n" using x s powi2_pos [of "-60"] by linarith
  have "\<bar>boundary n i - of_nat i * seg_size n\<bar> \<le> of_nat i * seg_size n * 2 powi (-53)"
    unfolding boundary_def using x s by (intro round_unit_error) linarith
  moreover have "of_nat i * seg_size n * 2 powi (-53) < of_nat i * seg_size n * 1"
    using pos by (intro mult_strict_left_mono) (simp_all add: powi_m53)
  ultimately show ?thesis by linarith
qed

lemma ids_calculateSegments: "map as_SlaveID (calculateSegments w slaves) = map s_ID slaves"
  by (rule nth_equalityI) (simp_all add: nth_calculateSegments)

lemma filter_other_ids:
  assumes "distinct (map s_ID (s # ss))"
  shows "filter (\<lambda>a. as_SlaveID a \<noteq> s_ID s) (calculateSegments w (s # ss)) = tl (calculateSegments w (s # ss))"
proof -
  note ids = ids_calculateSegments [of w "s # ss"]
  obtain a as where c: "calculateSegments w (s # ss) = a # as"
    by (metis length_calculateSegments length_0_conv list.exhaust list.distinct(1))
  have "set (map as_SlaveID as) = set (map s_ID ss)" "as_SlaveID a = s_ID s"
    using ids unfolding c by (simp_all del: set_map)
  then have "as_SlaveID x \<noteq> s_ID s" if "x \<in> set as" for x
    using that assms by (metis distinct.simps(2) image_eqI list.set_map list.simps(9))
  then show ?thesis unfolding c using \<open>as_SlaveID a = s_ID s\<close> by (simp add: filter_id_conv)
qed

text \<open>Rescheduling after the first slave of a plan has failed leaves its share of the work
  undone: no remaining segment reaches down to 0, whatever the number of slaves.\<close>

theorem reschedule_loses_first:
  assumes "Schedule (Some w) slaves = Inr plan" "distinct (map s_ID slaves)" "2 \<le> length slaves" "length slaves \<le> 2 ^ 53"
  shows "\<exists>p'. fst (Reschedule (s_ID (hd slaves)) (Some plan)) = Inr p' \<and>
    length (pl_Assignments p') = length slaves - 1 \<and>
    (\<forall>a \<in> set (pl_Assignments p'). f64_lt (F_Fin False 0) (seg_Start (as_Segment a)))"
proof -
  obtain s ss where sl: "slaves = s # ss" using assms(3) by (cases slaves) auto
  have plan: "pl_Assignments plan = calculateSegments w slaves" "slaves \<noteq> []"
    using assms(1) by (auto simp: Schedule_def split: if_splits)
  let ?rem = "filter (\<lambda>a. as_SlaveID a \<noteq> s_ID s) (pl_Assignments plan)"
  have rem: "?rem = tl (calculateSegments w slaves)"
    using filter_other_ids assms(2) by (simp add: plan sl)
  have len: "length ?rem = length slaves - 1" by (simp add: rem)
  have "calculateSegments w slaves ! 0 \<in> set (pl_Assignments plan)"
    using plan by (metis length_calculateSegments length_greater_0_conv nth_mem)
  then have h1: "\<exists>a \<in> set (pl_Assignments plan). as_SlaveID a = s_ID s"
    using plan(2) by (intro bexI [of _ "calculateSegments w slaves ! 0"]) (simp_all add: nth_calculateSegments sl)
  have "?rem \<noteq> []" using len assms(3) by (metis One_nat_def diff_is_0_eq length_0_conv not_less_eq_eq numeral_2_eq_2)
  then have h2: "\<exists>a \<in> set (pl_Assignments plan). as_SlaveID a \<noteq> s_ID s" by (auto simp: filter_empty_conv)
  obtain p' where p': "fst (Reschedule (s_ID s) (Some plan)) = Inr p'"
    "map (\<lambda>a. (as_SlaveID a, seg_Start (as_Segment a))) (pl_Assignments p') =
      map (\<lambda>a. (as_SlaveID a, seg_Start (as_Segment a))) ?rem"
    using rescheduled [OF h1 h2] by auto
  have starts_eq: "map (\<lambda>a. seg_Start (as_Segment a)) (pl_Assignments p') = map (\<lambda>a. seg_Start (as_Segment a)) ?rem"
    using arg_cong [OF p'(2), of "map snd"] by (simp add: comp_def)
  have starts: "f64_lt (F_Fin False 0) x" if mem: "x \<in> set (map (\<lambda>a. seg_Start (as_Segment a)) ?rem)" for x
  proof -
    obtain i where "i < length slaves - 1" "x = seg_Start (as_Segment (calculateSegments w slaves ! (i + 1)))"
      using mem unfolding rem by (auto simp: in_set_conv_nth nth_tl)
    then show ?thesis
      using assms(4) boundary_fin [of "i + 1" "length slaves"] boundary_pos [of "i + 1" "length slaves"]
      by (simp add: nth_calculateSegments segment_of_def)
  qed
  have "f64_lt (F_Fin False 0) (seg_Start (as_Segment a))" if "a \<in> set (pl_Assignments p')" for a
    using starts [of "seg_Start (as_Segment a)"] that unfolding starts_eq [symmetric] by simp
  moreover have "length (pl_Assignments p') = length slaves - 1"
    using arg_cong [OF starts_eq, of length] len by simp
  ultimately show ?thesis using p'(1) by (simp add: sl)
qed

theorem reschedule_loses_first_witness:
  "Schedule (Some (empty_workflow ''w'')) [sample_slave ''s1'', sample_slave ''s2'', sample_slave ''s3''] = Inr sample_plan \<and>
   (\<exists>p'. fst (Reschedule (s_ID (hd [sample_slave ''s1'', sample_slave ''s2'', sample_slave ''s3''])) (Some sample_plan)) = Inr p' \<and>
      (\<forall>a \<in> set (pl_Assignments p'). f64_lt (F_Fin False 0) (seg_Start (as_Segment a))))"
proof -
  have h: "distinct (map s_ID [sample_slave ''s1'', sample_slave ''s2'', sample_slave ''s3''])"
    "2 \<le> length [sample_slave ''s1'', sample_slave ''s2'', sample_slave ''s3'']"
    "length [sample_slave ''s1'', sample_slave ''s2'', sample_slave ''s3''] \<le> 2 ^ 53"
    by (simp_all add: sample_slave_def)
  show ?thesis using sample_plan_scheduled reschedule_loses_first [OF sample_plan_scheduled h] by blast
qed

subsection \<open>Properties of the division\<close>

definition divided :: "int \<Rightarrow> int \<Rightarrow> nat \<Rightarrow> int list" where
  "divided base rest n = map (\<lambda>i. if int i < rest then base + 1 else base) [0..<n]"

lemma divided_append: "divided base rest (Suc n) = divided base rest n @ [if int n < rest then base + 1 else base]"
  by (simp add: divided_def)

lemma length_divided [simp]: "length (divided base rest n) = n"
  by (simp add: divided_def)

lemma sum_divided: "0 \<le> rest \<Longrightarrow> sum_list (divided base rest n) = base * int n + min rest (int n)"
  by (induction n) (simp_all add: divided_append algebra_simps min_def, simp add: divided_def)

lemma set_divided: "set (divided base rest n) \<subseteq> {base, base + 1}"
  by (auto simp: divided_def)

lemma divided_lossless:
  assumes "0 \<le> total_count" "0 < n"
  shows "sum_list (divided (total_count div n) (total_count mod n) (nat n)) = total_count"
proof -
  have "min (total_count mod n) n = total_count mod n" using assms by (simp add: less_imp_le)
  then show ?thesis using assms by (simp add: sum_divided)
qed



subsection \<open>Selection through the interface\<close>

definition bounded_count :: "slave_selector \<Rightarrow> nat \<Rightarrow> nat" where
  "bounded_count sel n = (if sel_MaxSlaves sel \<le> 0 then n else min n (nat (sel_MaxSlaves sel)))"

context slave_registry
begin

definition online :: "'s \<Rightarrow> slave_info \<Rightarrow> bool" where
  "online s x \<longleftrightarrow> info s (s_ID x) = Some x \<and> (\<exists>st. stat s (s_ID x) = Some st \<and> st_State st = SlaveStateOnline)"

lemma manual_loop_iff:
  assumes "inv s"
  shows "manual_loop ops s is acc = Inr xs \<longleftrightarrow>
    (\<exists>ys. xs = acc @ ys \<and> map s_ID ys = is \<and> (\<forall>y \<in> set ys. online s y))"
proof (induction "is" arbitrary: acc)
  case (Cons i "is")
  have step: "manual_loop ops s (i # is) acc = Inr xs \<longleftrightarrow>
      (\<exists>x. s_ID x = i \<and> online s x \<and> manual_loop ops s is (acc @ [x]) = Inr xs)"
  proof (cases "info s i")
    case None
    then show ?thesis by (auto simp: get_slave [OF assms] online_def)
  next
    case (Some x)
    then obtain st where st: "stat s i = Some st" using same_dom [OF assms, of i] by auto
    have "s_ID y = i \<and> online s y \<longleftrightarrow> y = x \<and> st_State st = SlaveStateOnline" for y
      using Some st info_id [OF assms Some] unfolding online_def by (metis option.inject)
    then have "(\<exists>y. s_ID y = i \<and> online s y \<and> P y) \<longleftrightarrow> st_State st = SlaveStateOnline \<and> P x" for P
      unfolding conj_assoc [symmetric] by (simp only:) blast
    then show ?thesis using Some st by (simp add: get_slave [OF assms] get_status [OF assms])
  qed
  show ?case unfolding step Cons.IH
  proof
    assume "\<exists>x. s_ID x = i \<and> online s x \<and> (\<exists>ys. xs = (acc @ [x]) @ ys \<and> map s_ID ys = is \<and> (\<forall>y \<in> set ys. online s y))"
    then obtain x ys where "s_ID x = i" "online s x" "xs = (acc @ [x]) @ ys" "map s_ID ys = is" "\<forall>y \<in> set ys. online s y"
      by blast
    then show "\<exists>ys. xs = acc @ ys \<and> map s_ID ys = i # is \<and> (\<forall>y \<in> set ys. online s y)"
      by (intro exI [of _ "x # ys"]) simp
  qed (auto simp: Cons_eq_map_conv map_eq_Cons_conv)
qed auto

lemma selectManual_iff:
  assumes "inv s"
  shows "selectManual ops s sel = Inr xs \<longleftrightarrow>
    sel_SlaveIDs sel \<noteq> [] \<and> map s_ID xs = sel_SlaveIDs sel \<and> (\<forall>x \<in> set xs. online s x)"
  using manual_loop_iff [OF assms, of "sel_SlaveIDs sel" "[]"] by (auto simp: selectManual_def)

lemma listed_online:
  assumes "inv s" "reorders ord" "op_ListSlaves ops ord s (Some f) = Inr xs" "f_States f = [SlaveStateOnline]"
  shows "x \<in> set xs \<longleftrightarrow> online s x \<and> (f_Types f = [] \<or> s_Type x \<in> set (f_Types f)) \<and>
    (\<forall>(k, v) \<in> set (f_Labels f). \<exists>m. s_Labels x = Some m \<and> map_of m k = Some v) \<and>
    set (f_Capabilities f) \<subseteq> set (s_Capabilities x)"
  unfolding list_slaves_id [OF assms(1-3)] using assms(4)
  by (auto simp: accepts_def filter_spec_def online_def)

lemma selectByLabel_iff:
  assumes "inv s" "reorders ord" "selectByLabel ord ops s sel = Inr xs"
  shows "xs \<noteq> [] \<and> distinct (map s_ID xs) \<and> (\<forall>x. x \<in> set xs \<longleftrightarrow> online s x \<and>
    (\<forall>(k, v) \<in> set (sel_Labels sel). \<exists>m. s_Labels x = Some m \<and> map_of m k = Some v))"
proof -
  let ?f = "\<lparr>f_Types = [], f_Labels = sel_Labels sel, f_Capabilities = [], f_States = [SlaveStateOnline]\<rparr>"
  have l: "op_ListSlaves ops ord s (Some ?f) = Inr xs" "xs \<noteq> []"
    using assms(3) by (auto simp: selectByLabel_def split: if_splits sum.splits)
  show ?thesis
    using l(2) listed_distinct [OF assms(1,2) l(1)] listed_online [OF assms(1,2) l(1)] by simp
qed

lemma selectByCapability_iff:
  assumes "inv s" "reorders ord" "selectByCapability ord ops s sel = Inr xs"
  shows "xs \<noteq> [] \<and> distinct (map s_ID xs) \<and>
    (\<forall>x. x \<in> set xs \<longleftrightarrow> online s x \<and> set (sel_Capabilities sel) \<subseteq> set (s_Capabilities x))"
proof -
  let ?f = "\<lparr>f_Types = [], f_Labels = [], f_Capabilities = sel_Capabilities sel, f_States = [SlaveStateOnline]\<rparr>"
  have l: "op_ListSlaves ops ord s (Some ?f) = Inr xs" "xs \<noteq> []"
    using assms(3) by (auto simp: selectByCapability_def split: if_splits sum.splits)
  show ?thesis
    using l(2) listed_distinct [OF assms(1,2) l(1)] listed_online [OF assms(1,2) l(1)] by simp
qed

lemma online_listed:
  assumes "inv s" "reorders ord"
  shows "\<exists>xs. op_GetOnlineSlaves ops ord s = Inr xs \<and> distinct (map s_ID xs) \<and> (\<forall>x. x \<in> set xs \<longleftrightarrow> online s x)"
proof -
  obtain xs where xs: "op_ListSlaves ops ord s (Some online_filter) = Inr xs" by (rule lists_all [OF assms])
  have "x \<in> set xs \<longleftrightarrow> online s x" for x
    using listed_online [OF assms xs] by (simp add: online_filter_def no_filter_def)
  then show ?thesis using xs online_slaves [OF assms] listed_distinct [OF assms xs] by auto
qed

definition load_of :: "'s \<Rightarrow> slave_info \<Rightarrow> float64" where
  "load_of s x = (case stat s (s_ID x) of Some st \<Rightarrow> st_Load st | None \<Rightarrow> F_Fin False 0)"

lemma slave_load_eq: "inv s \<Longrightarrow> slave_load ops s x = load_of s x"
  by (simp add: slave_load_def load_of_def get_status split: option.splits)

lemma selectAuto_eq:
  assumes "inv s" "op_GetOnlineSlaves ops ord s = Inr xs" "reorders tie"
  shows "selectAuto ord tie ops s sel =
    (if xs = [] then Inl NoOnlineSlaves
     else if int (length xs) < max 1 (sel_MinSlaves sel) then Inl (NotEnoughSlaves (max 1 (sel_MinSlaves sel)) (int (length xs)))
     else Inr (map fst (take (bounded_count sel (length xs))
            (sort_slice tie (\<lambda>a b. f64_lt (snd a) (snd b)) (map (\<lambda>x. (x, load_of s x)) xs)))))"
proof -
  have mx: "max 1 k = (if k \<le> 0 then 1 else k)" for k :: int by simp
  let ?n = "int (length xs)"
  have cnt: "nat (if (if sel_MaxSlaves sel \<le> 0 \<or> sel_MaxSlaves sel > ?n then ?n else sel_MaxSlaves sel) > ?n then ?n
      else if sel_MaxSlaves sel \<le> 0 \<or> sel_MaxSlaves sel > ?n then ?n else sel_MaxSlaves sel) = bounded_count sel (length xs)"
    by (auto simp: bounded_count_def min_def)
  show ?thesis
    unfolding selectAuto_def assms(2) slave_load_eq [OF assms(1)] sum.case Let_def length_sort_slice [OF assms(3)]
      length_map cnt mx ..
qed

lemma selectAuto_sound:
  assumes "inv s" "reorders ord" "reorders tie" "selectAuto ord tie ops s sel = Inr xs"
  shows "xs \<noteq> [] \<and> distinct (map s_ID xs) \<and> (\<forall>x \<in> set xs. online s x)"
proof -
  obtain all where all: "op_GetOnlineSlaves ops ord s = Inr all" "distinct (map s_ID all)" "\<And>x. x \<in> set all \<longleftrightarrow> online s x"
    using online_listed [OF assms(1,2)] by blast
  let ?l = "map (\<lambda>x. (x, load_of s x)) all"
  let ?srt = "sort_slice tie (\<lambda>a b. f64_lt (snd a) (snd b)) ?l"
  have xs: "all \<noteq> []" "xs = map fst (take (bounded_count sel (length all)) ?srt)"
    using assms(4) unfolding selectAuto_eq [OF assms(1) all(1) assms(3)] by (auto split: if_splits)
  have "mset (map (\<lambda>p. s_ID (fst p)) ?srt) = mset (map s_ID all)"
    by (simp add: mset_sort_slice [OF assms(3)] image_mset.compositionality comp_def)
  then have "distinct (map (\<lambda>p. s_ID (fst p)) ?srt)"
    using all(2) mset_eq_imp_distinct_iff by blast
  then have "distinct (map s_ID xs)"
    unfolding xs(2) by (simp add: comp_def take_map [symmetric] distinct_take)
  moreover have "set xs \<subseteq> set all"
    unfolding xs(2) using set_take_subset [of _ ?srt] set_sort_slice [OF assms(3), of _ ?l] by fastforce
  moreover have "bounded_count sel (length all) \<noteq> 0" using xs(1) by (auto simp: bounded_count_def)
  then have "0 < length xs"
    using xs(1) length_sort_slice [OF assms(3), of _ ?l] by (simp add: xs(2))
  then have "xs \<noteq> []" by blast
  ultimately show ?thesis using all(3) by auto
qed

lemma SelectSlaves_sound:
  assumes "inv s" "reorders ord" "reorders tie" "SelectSlaves ord tie ops s selector = Inr xs"
  shows "xs \<noteq> [] \<and> (\<forall>x \<in> set xs. online s x)"
proof -
  let ?sel = "case selector of None \<Rightarrow> auto_selector | Some x \<Rightarrow> x"
  consider "selectManual ops s ?sel = Inr xs" | "selectByLabel ord ops s ?sel = Inr xs"
    | "selectByCapability ord ops s ?sel = Inr xs" | "selectAuto ord tie ops s ?sel = Inr xs"
    using assms(4) by (auto simp: SelectSlaves_def Let_def split: if_splits)
  then show ?thesis
  proof cases
    case 1
    then show ?thesis using selectManual_iff [OF assms(1)] by (metis list.map_disc_iff)
  qed (use selectByLabel_iff [OF assms(1,2)] selectByCapability_iff [OF assms(1,2)] selectAuto_sound [OF assms(1-3)] in blast)+
qed

lemma selectAuto_lowest:
  assumes "inv s" "reorders ord" "reorders tie" "op_GetOnlineSlaves ops ord s = Inr all" "all \<noteq> []"
    and "max 1 (sel_MinSlaves sel) \<le> int (length all)" "\<And>x. load_of s x \<noteq> F_NaN"
  shows "\<exists>xs. selectAuto ord tie ops s sel = Inr xs \<and> length xs = bounded_count sel (length all) \<and> set xs \<subseteq> set all \<and>
    (\<forall>x \<in> set xs. \<forall>y \<in> set all - set xs. \<not> f64_lt (load_of s y) (load_of s x))"
proof -
  let ?l = "map (\<lambda>x. (x, load_of s x)) all" and ?n = "bounded_count sel (length all)"
  let ?srt = "sort_slice tie (\<lambda>a b. f64_lt (snd a) (snd b)) ?l"
  let ?xs = "map fst (take ?n ?srt)"
  have eq: "selectAuto ord tie ops s sel = Inr ?xs"
    using assms(5) assms(6) [folded not_less] by (simp only: selectAuto_eq [OF assms(1,4,3)] if_False)
  have srt: "set ?srt = set ?l" by (rule set_sort_slice [OF assms(3)])
  have pair: "snd p = load_of s (fst p)" if "p \<in> set ?srt" for p using that unfolding srt by auto
  have "\<not> f64_lt (load_of s y) (load_of s x)" if xy: "x \<in> set ?xs" "y \<in> set all" "y \<notin> set ?xs" for x y
  proof -
    obtain p where p: "p \<in> set (take ?n ?srt)" "x = fst p" using xy(1) by auto
    have "(y, load_of s y) \<in> set ?srt" unfolding srt using xy(2) by auto
    then have "(y, load_of s y) \<in> set (take ?n ?srt) \<union> set (drop ?n ?srt)"
      by (simp only: set_append [symmetric] append_take_drop_id)
    moreover have "(y, load_of s y) \<notin> set (take ?n ?srt)"
    proof
      assume "(y, load_of s y) \<in> set (take ?n ?srt)"
      then have "fst (y, load_of s y) \<in> set ?xs" by (simp only: set_map imageI)
      then show False using xy(3) by simp
    qed
    ultimately have q: "(y, load_of s y) \<in> set (drop ?n ?srt)" by blast
    have "\<not> f64_lt (snd (y, load_of s y)) (snd p)"
      by (rule by_key.taken_not_greater [where key = snd, OF assms(3) _ p(1) q]) (use assms(7) in auto)
    then show ?thesis using pair [OF in_set_takeD [OF p(1)]] p(2) by simp
  qed
  moreover have "length ?xs = ?n"
    by (simp add: length_sort_slice [OF assms(3)] bounded_count_def min_def)
  moreover have "set ?xs \<subseteq> set all"
    using srt set_take_subset [of ?n ?srt] by fastforce
  ultimately show ?thesis using eq by blast
qed

end

subsection \<open>Properties of the selection on the in-memory registry\<close>

lemma mem_online:
  "reg_inv r \<Longrightarrow> mem.online r x \<longleftrightarrow> GetSlave r (s_ID x) = Inr x \<and>
     (\<exists>st. GetSlaveStatus r (s_ID x) = Inr (Some st) \<and> st_State st = SlaveStateOnline)"
  by (auto simp: mem.online_def GetSlave_def GetSlaveStatus_def mem_stat_Some split: option.splits)

lemma mem_load: "reg_inv r \<Longrightarrow> mem.load_of r x = slave_load mem_ops r x"
  by (simp add: mem.slave_load_eq)

text \<open>Whatever the selection strategy, and in whatever order maps are iterated and ties are
  sorted, a successful selection is not empty and each slave in it is registered and online.\<close>

theorem select_only_online:
  assumes "reg_reachable r" "reorders ord" "reorders tie" "SelectSlaves ord tie mem_ops r selector = Inr xs"
  shows "xs \<noteq> [] \<and> (\<forall>x \<in> set xs. GetSlave r (s_ID x) = Inr x \<and>
    (\<exists>st. GetSlaveStatus r (s_ID x) = Inr (Some st) \<and> st_State st = SlaveStateOnline))"
proof -
  note inv = reachable_inv [OF assms(1)]
  show ?thesis using mem.SelectSlaves_sound [OF inv assms(2-4)] unfolding mem_online [OF inv] .
qed

theorem select_only_online_witness:
  "reg_reachable sample_registry \<and> reorders (rev :: slave_order) \<and> reorders (rev :: tie_order) \<and>
   SelectSlaves rev rev mem_ops sample_registry None = Inr [sample_slave ''s2''] \<and>
   GetSlave sample_registry (s_ID (sample_slave ''s2'')) = Inr (sample_slave ''s2'')"
proof -
  have h: "reorders (rev :: slave_order)" "reorders (rev :: tie_order)" by simp_all
  have s: "SelectSlaves rev rev mem_ops sample_registry None = Inr [sample_slave ''s2'']" by code_simp
  show ?thesis using sample_reachable h s select_only_online [OF sample_reachable h s] by simp
qed

text \<open>Selection by hand succeeds exactly when IDs are given and all of them are registered and
  online, and then returns the slaves in the given order.\<close>

theorem select_manual_exact:
  assumes "reg_reachable r"
  shows "selectManual mem_ops r sel = Inr xs \<longleftrightarrow>
    sel_SlaveIDs sel \<noteq> [] \<and> map s_ID xs = sel_SlaveIDs sel \<and>
    (\<forall>x \<in> set xs. GetSlave r (s_ID x) = Inr x \<and>
       (\<exists>st. GetSlaveStatus r (s_ID x) = Inr (Some st) \<and> st_State st = SlaveStateOnline))"
proof -
  note inv = reachable_inv [OF assms]
  show ?thesis using mem.selectManual_iff [OF inv] unfolding mem_online [OF inv] .
qed

theorem select_manual_exact_witness:
  "reg_reachable sample_registry \<and>
   selectManual mem_ops sample_registry (auto_selector\<lparr>sel_SlaveIDs := [''s2'']\<rparr>) = Inr [sample_slave ''s2''] \<and>
   map s_ID [sample_slave ''s2''] = sel_SlaveIDs (auto_selector\<lparr>sel_SlaveIDs := [''s2'']\<rparr>)"
proof -
  have s: "selectManual mem_ops sample_registry (auto_selector\<lparr>sel_SlaveIDs := [''s2'']\<rparr>) = Inr [sample_slave ''s2'']"
    by code_simp
  show ?thesis using sample_reachable s select_manual_exact [OF sample_reachable] by blast
qed

text \<open>Selection by labels returns every online slave that has all the labels, each once, and no
  other.\<close>

theorem select_by_label_exact:
  assumes "reg_reachable r" "reorders ord" "selectByLabel ord mem_ops r sel = Inr xs"
  shows "distinct (map s_ID xs) \<and> (\<forall>x. x \<in> set xs \<longleftrightarrow>
    (GetSlave r (s_ID x) = Inr x \<and> (\<exists>st. GetSlaveStatus r (s_ID x) = Inr (Some st) \<and> st_State st = SlaveStateOnline)) \<and>
    (\<forall>(k, v) \<in> set (sel_Labels sel). \<exists>m. s_Labels x = Some m \<and> map_of m k = Some v))"
proof -
  note inv = reachable_inv [OF assms(1)]
  show ?thesis using mem.selectByLabel_iff [OF inv assms(2,3)] unfolding mem_online [OF inv] by blast
qed

theorem select_by_label_exact_witness:
  "reg_reachable sample_registry \<and> reorders (rev :: slave_order) \<and>
   selectByLabel rev mem_ops sample_registry (auto_selector\<lparr>sel_Labels := [(''zone'', ''a'')]\<rparr>) = Inr [sample_slave ''s2''] \<and>
   distinct (map s_ID [sample_slave ''s2''])"
proof -
  have h: "reorders (rev :: slave_order)" by simp
  have s: "selectByLabel rev mem_ops sample_registry (auto_selector\<lparr>sel_Labels := [(''zone'', ''a'')]\<rparr>) = Inr [sample_slave ''s2'']"
    by code_simp
  show ?thesis using sample_reachable h s select_by_label_exact [OF sample_reachable h s] by blast
qed

text \<open>Automatic selection succeeds when enough slaves are online and no load is NaN; it returns as
  many slaves as the maximum allows, and no online slave that it leaves out has a lower load than
  one that it takes.\<close>

theorem select_auto_lowest_loads:
  assumes "reg_reachable r" "reorders ord" "reorders tie" "GetOnlineSlaves ord r = Inr all" "all \<noteq> []"
    and "max 1 (sel_MinSlaves sel) \<le> int (length all)" "\<forall>x. slave_load mem_ops r x \<noteq> F_NaN"
  shows "\<exists>xs. selectAuto ord tie mem_ops r sel = Inr xs \<and>
    length xs = (if sel_MaxSlaves sel \<le> 0 then length all else min (length all) (nat (sel_MaxSlaves sel))) \<and>
    set xs \<subseteq> set all \<and>
    (\<forall>x \<in> set xs. \<forall>y \<in> set all - set xs. \<not> f64_lt (slave_load mem_ops r y) (slave_load mem_ops r x))"
proof -
  note inv = reachable_inv [OF assms(1)]
  have on: "op_GetOnlineSlaves mem_ops ord r = Inr all" using assms(4) by (simp add: mem_ops_def)
  show ?thesis
    using mem.selectAuto_lowest [OF inv assms(2,3) on assms(5,6)] assms(7)
    unfolding mem_load [OF inv] bounded_count_def by blast
qed

definition loaded_registry :: registry where
  "loaded_registry = snd (UpdateHeartbeat 9 ''s2'' (Some \<lparr>CPUUsage = F_Fin False 70, MemoryUsage = F_Fin False 10,
     sm_ActiveVUs = 3, Throughput = F_Fin False 1\<rparr>) (snd (UpdateHeartbeat 9 ''s1'' None sample_registry)))"

lemma loaded_reachable: "reg_reachable loaded_registry"
  unfolding loaded_registry_def
  by (intro reach_step [OF _ step_heartbeat] sample_reachable)

lemma loaded_status:
  "r_status loaded_registry =
     [(''s1'', Some (fresh_status 9)),
      (''s2'', Some \<lparr>st_State = SlaveStateOnline, st_Load = F_Fin False 70, st_ActiveTasks = 0, st_LastSeen = 9,
         st_Metrics = Some \<lparr>CPUUsage = F_Fin False 70, MemoryUsage = F_Fin False 10, sm_ActiveVUs = 3,
           Throughput = F_Fin False 1\<rparr>\<rparr>)]"
  by code_simp

lemma loaded_loads: "slave_load mem_ops loaded_registry x \<noteq> F_NaN"
  by (simp add: slave_load_def mem_ops_def GetSlaveStatus_def loaded_status fresh_status_def)

theorem select_auto_lowest_loads_witness:
  "reg_reachable loaded_registry \<and> GetOnlineSlaves rev loaded_registry = Inr [sample_slave ''s2'', sample_slave ''s1''] \<and>
   (\<exists>xs. selectAuto rev rev mem_ops loaded_registry (auto_selector\<lparr>sel_MaxSlaves := 1\<rparr>) = Inr xs \<and> length xs = 1)"
proof -
  let ?all = "[sample_slave ''s2'', sample_slave ''s1'']" and ?sel = "auto_selector\<lparr>sel_MaxSlaves := 1\<rparr>"
  have on: "GetOnlineSlaves rev loaded_registry = Inr ?all" by code_simp
  have h: "?all \<noteq> []" "max 1 (sel_MinSlaves ?sel) \<le> int (length ?all)" "\<forall>x. slave_load mem_ops loaded_registry x \<noteq> F_NaN"
    by (simp_all add: loaded_loads auto_selector_def)
  show ?thesis
    using loaded_reachable on select_auto_lowest_loads [OF loaded_reachable reorders_rev reorders_rev on h] by auto
qed

end
