(* ===== verification/Aggregator.thy ===== *)
theory Aggregator
  imports Workflow_Types Go_Time
begin

text \<open>
  The metrics aggregator of \<^verbatim>\<open>internal/master/aggregator.go\<close>.  Counts and durations are 64-bit
  integers with wrap-around written out, rates and thresholds are \<^verbatim>\<open>float64\<close>.  A map is iterated in
  the order of its association list; nothing that is computed depends on it, since the loops over
  maps only add with wrap-around, collect per key or take maxima.  Step metrics in a map are not
  nil, as the collectors store them.  Sorting 64-bit integers has only one result.
\<close>

datatype agg_error =
    MetricsNil
  | StepNotFound gostring
  | InvalidMetricPath
  | InvalidDurationPath
  | UnknownMetric gostring
  | UnknownDurationMetric gostring
  | InvalidThreshold gostring
  | InvalidCondition gostring
  | UnknownOperator gostring

subsection \<open>Aggregation\<close>

definition estimatePercentile :: "int list \<Rightarrow> nat \<Rightarrow> int" where
  "estimatePercentile sorted_ds percentile =
     (if sorted_ds = [] then 0
      else let index = (percentile * length sorted_ds) div 100;
               index' = (if index \<ge> length sorted_ds then length sorted_ds - 1 else index)
           in sorted_ds ! index')"

record duration_acc =
  da_all :: "int list"
  da_total :: int
  da_count :: int
  da_min :: int
  da_max :: int
  da_first :: bool

definition duration_start :: duration_acc where
  "duration_start = \<lparr>da_all = [], da_total = 0, da_count = 0, da_min = 0, da_max = 0, da_first = True\<rparr>"

definition duration_step :: "duration_acc \<Rightarrow> step_metrics \<Rightarrow> duration_acc" where
  "duration_step a m =
     (case m_Duration m of
        None \<Rightarrow> a
      | Some d \<Rightarrow>
          \<lparr>da_all = da_all a @ [dm_P50 d, dm_P90 d, dm_P95 d, dm_P99 d],
           da_total = wrap64 (da_total a + wrap64 (dm_Avg d * m_Count m)),
           da_count = wrap64 (da_count a + m_Count m),
           da_min = (if da_first a \<or> dm_Min d < da_min a then dm_Min d else da_min a),
           da_max = (if da_first a \<or> dm_Max d > da_max a then dm_Max d else da_max a),
           da_first = False\<rparr>)"

definition aggregateDurationMetrics :: "step_metrics list \<Rightarrow> duration_metrics option" where
  "aggregateDurationMetrics ms =
     (if ms = [] then None
      else let a = foldl duration_step duration_start ms in
        if da_count a = 0 then None
        else let ds = sort (da_all a) in
          Some \<lparr>dm_Min = da_min a, dm_Max = da_max a, dm_Avg = wrap64 (go_div (da_total a) (da_count a)),
            dm_P50 = estimatePercentile ds 50, dm_P90 = estimatePercentile ds 90,
            dm_P95 = estimatePercentile ds 95, dm_P99 = estimatePercentile ds 99\<rparr>)"

definition add_custom :: "(gostring, float64) gomap \<Rightarrow> (gostring \<times> float64) \<Rightarrow> (gostring, float64) gomap" where
  "add_custom acc kv =
     AList.update (fst kv)
       (f64_add (case map_of acc (fst kv) of None \<Rightarrow> F_Fin False 0 | Some v \<Rightarrow> v) (snd kv)) acc"

definition aggregateStepMetrics :: "gostring \<Rightarrow> step_metrics list \<Rightarrow> step_metrics" where
  "aggregateStepMetrics stepID ms =
     (if ms = []
      then \<lparr>m_StepID = stepID, m_Count = 0, m_SuccessCount = 0, m_FailureCount = 0, m_Duration = None, m_CustomMetrics = []\<rparr>
      else
        \<lparr>m_StepID = stepID,
         m_Count = foldl (\<lambda>acc m. wrap64 (acc + m_Count m)) 0 ms,
         m_SuccessCount = foldl (\<lambda>acc m. wrap64 (acc + m_SuccessCount m)) 0 ms,
         m_FailureCount = foldl (\<lambda>acc m. wrap64 (acc + m_FailureCount m)) 0 ms,
         m_Duration = aggregateDurationMetrics ms,
         m_CustomMetrics = foldl (\<lambda>acc m. foldl add_custom acc (m_CustomMetrics m)) [] ms\<rparr>)"

definition collect_step ::
  "(gostring, step_metrics list) gomap \<Rightarrow> (gostring \<times> step_metrics) \<Rightarrow> (gostring, step_metrics list) gomap" where
  "collect_step acc kv =
     AList.update (fst kv) ((case map_of acc (fst kv) of None \<Rightarrow> [] | Some l \<Rightarrow> l) @ [snd kv]) acc"

definition collect_metrics ::
  "(gostring, step_metrics list) gomap \<Rightarrow> metrics option \<Rightarrow> (gostring, step_metrics list) gomap" where
  "collect_metrics acc m = (case m of None \<Rightarrow> acc | Some x \<Rightarrow> foldl collect_step acc (mt_StepMetrics x))"

definition Aggregate :: "gostring \<Rightarrow> metrics option list \<Rightarrow> aggregated_metrics" where
  "Aggregate executionID slaveMetrics =
     (let steps = (if slaveMetrics = [] then []
                   else map (\<lambda>(i, ms). (i, aggregateStepMetrics i ms)) (foldl collect_metrics [] slaveMetrics))
      in \<lparr>ag_ExecutionID = executionID, ag_TotalVUs = 0,
          ag_TotalIterations = foldl (\<lambda>acc kv. wrap64 (acc + m_Count (snd kv))) 0 steps,
          ag_Duration = 0, ag_StepMetrics = steps, ag_Thresholds = []\<rparr>)"

subsection \<open>Metric values\<close>

definition getDurationMetricValue :: "duration_metrics \<Rightarrow> gostring \<Rightarrow> agg_error + float64" where
  "getDurationMetricValue d metric =
     (if metric = ''min'' then Inr (f64_of_int (Milliseconds (dm_Min d)))
      else if metric = ''max'' then Inr (f64_of_int (Milliseconds (dm_Max d)))
      else if metric = ''avg'' then Inr (f64_of_int (Milliseconds (dm_Avg d)))
      else if metric = ''p50'' then Inr (f64_of_int (Milliseconds (dm_P50 d)))
      else if metric = ''p90'' then Inr (f64_of_int (Milliseconds (dm_P90 d)))
      else if metric = ''p95'' then Inr (f64_of_int (Milliseconds (dm_P95 d)))
      else if metric = ''p99'' then Inr (f64_of_int (Milliseconds (dm_P99 d)))
      else Inl (UnknownDurationMetric metric))"

definition getStepMetricValue :: "step_metrics \<Rightarrow> gostring list \<Rightarrow> agg_error + float64" where
  "getStepMetricValue m parts =
     (case parts of
        [] \<Rightarrow> Inl InvalidMetricPath
      | p # ps \<Rightarrow>
          if p = ''count'' then Inr (f64_of_int (m_Count m))
          else if p = ''success_count'' then Inr (f64_of_int (m_SuccessCount m))
          else if p = ''failure_count'' then Inr (f64_of_int (m_FailureCount m))
          else if p = ''success_rate'' then
            (if m_Count m = 0 then Inr (F_Fin False 0)
             else Inr (f64_div (f64_of_int (m_SuccessCount m)) (f64_of_int (m_Count m))))
          else if p = ''failure_rate'' then
            (if m_Count m = 0 then Inr (F_Fin False 0)
             else Inr (f64_div (f64_of_int (m_FailureCount m)) (f64_of_int (m_Count m))))
          else if p = ''duration'' then
            (case (ps, m_Duration m) of
               (q # _, Some d) \<Rightarrow> getDurationMetricValue d q
             | _ \<Rightarrow> Inl InvalidDurationPath)
          else case map_of (m_CustomMetrics m) p of
                 Some v \<Rightarrow> Inr v
               | None \<Rightarrow> Inl (UnknownMetric p))"

definition duration_sums :: "(gostring, step_metrics) gomap \<Rightarrow> int \<times> int" where
  "duration_sums steps =
     foldl (\<lambda>(tot, cnt) (_, m). case m_Duration m of
         None \<Rightarrow> (tot, cnt)
       | Some d \<Rightarrow> (wrap64 (tot + wrap64 (dm_Avg d * m_Count m)), wrap64 (cnt + m_Count m))) (0, 0) steps"

definition getAggregatedStepMetricValue :: "aggregated_metrics \<Rightarrow> gostring \<Rightarrow> agg_error + float64" where
  "getAggregatedStepMetricValue ag name =
     (if has_suffix name ''_duration'' then
        (let (tot, cnt) = duration_sums (ag_StepMetrics ag) in
         if cnt = 0 then Inr (F_Fin False 0)
         else Inr (f64_of_int (Milliseconds (wrap64 (go_div tot cnt)))))
      else if has_suffix name ''_failed'' then
        (let failed = foldl (\<lambda>acc kv. wrap64 (acc + m_FailureCount (snd kv))) 0 (ag_StepMetrics ag);
             cnt = foldl (\<lambda>acc kv. wrap64 (acc + m_Count (snd kv))) 0 (ag_StepMetrics ag) in
         if cnt = 0 then Inr (F_Fin False 0)
         else Inr (f64_div (f64_of_int failed) (f64_of_int cnt)))
      else Inl (UnknownMetric name))"

definition getMetricValue :: "aggregated_metrics \<Rightarrow> gostring \<Rightarrow> agg_error + float64" where
  "getMetricValue ag metricName =
     (let parts = split_on (CHR ''.'') metricName in
      if metricName = ''total_iterations'' then Inr (f64_of_int (ag_TotalIterations ag))
      else if metricName = ''total_vus'' then Inr (f64_of_int (ag_TotalVUs ag))
      else if metricName = ''duration'' then Inr (f64_of_int (Milliseconds (ag_Duration ag)))
      else if length parts \<ge> 2 then
        (case map_of (ag_StepMetrics ag) (hd parts) of
           None \<Rightarrow> Inl (StepNotFound (hd parts))
         | Some m \<Rightarrow> getStepMetricValue m (tl parts))
      else getAggregatedStepMetricValue ag metricName)"

subsection \<open>Thresholds\<close>

definition threshold_ops :: "gostring list" where
  "threshold_ops = [''<='', ''>='', ''!='', ''=='', ''<'', ''>'']"

text \<open>The loop over the operators: the first one the condition contains decides.\<close>

fun find_operator :: "gostring \<Rightarrow> gostring list \<Rightarrow> agg_error + (gostring \<times> float64) option" where
  "find_operator cond [] = Inr None"
| "find_operator cond (op # ops) =
     (case str_cut op cond of
        None \<Rightarrow> find_operator cond ops
      | Some (_, after) \<Rightarrow>
          (case parse_float (trim_space after) of
             None \<Rightarrow> Inl (InvalidThreshold (trim_space after))
           | Some t \<Rightarrow> Inr (Some (op, t))))"

definition evaluateCondition :: "float64 \<Rightarrow> gostring \<Rightarrow> agg_error + bool" where
  "evaluateCondition v condition =
     (let cond = trim_space condition in
      case find_operator cond threshold_ops of
        Inl e \<Rightarrow> Inl e
      | Inr None \<Rightarrow> Inl (InvalidCondition cond)
      | Inr (Some (op, t)) \<Rightarrow>
          if op = ''<'' then Inr (f64_lt v t)
          else if op = ''<='' then Inr (f64_le v t)
          else if op = ''>'' then Inr (f64_lt t v)
          else if op = ''>='' then Inr (f64_le t v)
          else if op = ''=='' then Inr (f64_eq v t)
          else if op = ''!='' then Inr (\<not> f64_eq v t)
          else Inl (UnknownOperator op))"

definition evaluate_threshold :: "aggregated_metrics \<Rightarrow> threshold \<Rightarrow> threshold_result" where
  "evaluate_threshold ag th =
     (let result = \<lparr>tr_Metric = th_Metric th, tr_Condition = th_Condition th, tr_Passed = False, tr_Value = F_Fin False 0\<rparr> in
      case getMetricValue ag (th_Metric th) of
        Inl _ \<Rightarrow> result
      | Inr v \<Rightarrow>
          (case evaluateCondition v (th_Condition th) of
             Inl _ \<Rightarrow> result\<lparr>tr_Value := v\<rparr>
           | Inr passed \<Rightarrow> result\<lparr>tr_Value := v, tr_Passed := passed\<rparr>))"

definition EvaluateThresholds ::
  "aggregated_metrics option \<Rightarrow> threshold list \<Rightarrow> agg_error + threshold_result list" where
  "EvaluateThresholds ag ths =
     (case ag of None \<Rightarrow> Inl MetricsNil | Some a \<Rightarrow> Inr (map (evaluate_threshold a) ths))"

subsection \<open>Summary\<close>

record execution_summary =
  su_ExecutionID :: gostring
  su_WorkflowID :: gostring
  su_Duration :: gostring
  su_TotalVUs :: int
  su_TotalIterations :: int
  su_TotalRequests :: int
  su_SuccessRate :: float64
  su_ErrorRate :: float64
  su_AvgDuration :: gostring
  su_P95Duration :: gostring
  su_P99Duration :: gostring
  su_ThresholdsPassed :: int
  su_ThresholdsFailed :: int

definition longest :: "int list \<Rightarrow> gostring" where
  "longest ds = (if ds = [] then [] else duration_String (hd (rev (sort ds))))"

definition GenerateSummary :: "aggregated_metrics option \<Rightarrow> agg_error + execution_summary" where
  "GenerateSummary ag =
     (case ag of
        None \<Rightarrow> Inl MetricsNil
      | Some a \<Rightarrow>
          let steps = map snd (ag_StepMetrics a);
              totalRequests = foldl (\<lambda>acc m. wrap64 (acc + m_Count m)) 0 steps;
              totalSuccess = foldl (\<lambda>acc m. wrap64 (acc + m_SuccessCount m)) 0 steps;
              totalFailure = foldl (\<lambda>acc m. wrap64 (acc + m_FailureCount m)) 0 steps;
              durations = List.map_filter (\<lambda>m. map_option (\<lambda>d. (d, m_Count m)) (m_Duration m)) steps;
              totalDuration = foldl (\<lambda>acc (d, n). wrap64 (acc + wrap64 (dm_Avg d * n))) 0 durations in
          Inr \<lparr>su_ExecutionID = ag_ExecutionID a, su_WorkflowID = [], su_Duration = duration_String (ag_Duration a),
               su_TotalVUs = ag_TotalVUs a, su_TotalIterations = ag_TotalIterations a, su_TotalRequests = totalRequests,
               su_SuccessRate = (if totalRequests > 0 then f64_div (f64_of_int totalSuccess) (f64_of_int totalRequests)
                                 else F_Fin False 0),
               su_ErrorRate = (if totalRequests > 0 then f64_div (f64_of_int totalFailure) (f64_of_int totalRequests)
                               else F_Fin False 0),
               su_AvgDuration = (if totalRequests > 0 then duration_String (wrap64 (go_div totalDuration totalRequests)) else []),
               su_P95Duration = longest (map (\<lambda>(d, n). dm_P95 d) durations),
               su_P99Duration = longest (map (\<lambda>(d, n). dm_P99 d) durations),
               su_ThresholdsPassed = int (length (filter tr_Passed (ag_Thresholds a))),
               su_ThresholdsFailed = int (length (filter (\<lambda>t. \<not> tr_Passed t) (ag_Thresholds a)))\<rparr>)"

subsection \<open>Collecting the metrics of a step\<close>

definition lookup_list :: "(gostring, 'a list) gomap \<Rightarrow> gostring \<Rightarrow> 'a list" where
  "lookup_list acc i = (case map_of acc i of None \<Rightarrow> [] | Some l \<Rightarrow> l)"

definition collected :: "(gostring, step_metrics list) gomap \<Rightarrow> bool" where
  "collected acc \<longleftrightarrow> map_wf acc \<and> (\<forall>i. map_of acc i \<noteq> Some [])"

lemma collected_step: "collected acc \<Longrightarrow> collected (collect_step acc kv)"
  by (auto simp: collected_def collect_step_def update_conv')

lemma lookup_collect_step:
  "lookup_list (collect_step acc kv) i = lookup_list acc i @ (if fst kv = i then [snd kv] else [])"
  by (simp add: lookup_list_def collect_step_def update_conv')

lemma collected_steps:
  "collected acc \<Longrightarrow> collected (foldl collect_step acc kvs)"
  by (induction kvs arbitrary: acc) (simp_all add: collected_step)

lemma lookup_collect_steps:
  "lookup_list (foldl collect_step acc kvs) i = lookup_list acc i @ map snd (filter (\<lambda>kv. fst kv = i) kvs)"
  by (induction kvs arbitrary: acc) (simp_all add: lookup_collect_step)

lemma filter_key_wf:
  "map_wf kvs \<Longrightarrow> map snd (filter (\<lambda>kv. fst kv = i) kvs) = (case map_of kvs i of None \<Rightarrow> [] | Some v \<Rightarrow> [v])"
proof (induction kvs)
  case (Cons kv kvs)
  moreover have "map_of kvs i = None" if "fst kv = i"
    using that Cons.prems by (auto simp: map_wf_def map_of_eq_None_iff)
  ultimately show ?case by (auto simp: map_wf_def)
qed simp

definition step_sources :: "metrics option list \<Rightarrow> gostring \<Rightarrow> step_metrics list" where
  "step_sources ms i = List.map_filter (\<lambda>m. Option.bind m (\<lambda>x. map_of (mt_StepMetrics x) i)) ms"

definition metrics_wf :: "metrics option list \<Rightarrow> bool" where
  "metrics_wf ms \<longleftrightarrow> (\<forall>m. Some m \<in> set ms \<longrightarrow> map_wf (mt_StepMetrics m))"

lemma collected_metrics: "collected acc \<Longrightarrow> collected (foldl collect_metrics acc ms)"
  by (induction ms arbitrary: acc) (simp_all add: collect_metrics_def collected_steps split: option.splits)

lemma lookup_collect_metrics:
  "metrics_wf ms \<Longrightarrow> lookup_list (foldl collect_metrics acc ms) i = lookup_list acc i @ step_sources ms i"
proof (induction ms arbitrary: acc)
  case (Cons m ms)
  have wf: "metrics_wf ms" using Cons.prems by (simp add: metrics_wf_def)
  have "lookup_list (collect_metrics acc m) i = lookup_list acc i @ step_sources [m] i"
    using Cons.prems
    by (auto simp: collect_metrics_def lookup_collect_steps step_sources_def metrics_wf_def filter_key_wf
        List.map_filter_def split: option.splits)
  then show ?case using Cons.IH [OF wf] by (simp add: step_sources_def List.map_filter_def)
qed (simp add: step_sources_def List.map_filter_def)

lemma map_of_map_key: "map_of (map (\<lambda>(i, x). (i, f i x)) m) k = map_option (f k) (map_of m k)"
  by (induction m) auto

lemma Aggregate_step:
  assumes "metrics_wf ms"
  shows "map_of (ag_StepMetrics (Aggregate e ms)) i =
    (if step_sources ms i = [] then None else Some (aggregateStepMetrics i (step_sources ms i)))"
proof (cases "ms = []")
  case False
  let ?c = "foldl collect_metrics [] ms"
  have "collected ?c" by (rule collected_metrics) (simp add: collected_def)
  then have "map_of ?c i \<noteq> Some []" by (simp add: collected_def)
  moreover have "lookup_list ?c i = step_sources ms i"
    using lookup_collect_metrics [OF assms, of "[]" i] by (simp add: lookup_list_def)
  ultimately have "map_of ?c i = (if step_sources ms i = [] then None else Some (step_sources ms i))"
    by (auto simp: lookup_list_def split: option.splits)
  then show ?thesis using False by (simp add: Aggregate_def Let_def map_of_map_key)
qed (simp add: Aggregate_def step_sources_def List.map_filter_def)

subsection \<open>Totals\<close>

definition count_sum :: "step_metrics list \<Rightarrow> int" where
  "count_sum ms = sum_list (map m_Count ms)"

definition acc_sum :: "(gostring, step_metrics list) gomap \<Rightarrow> int" where
  "acc_sum acc = sum_list (map (\<lambda>kv. count_sum (snd kv)) acc)"

lemma acc_sum_update:
  "map_wf acc \<Longrightarrow> acc_sum (AList.update k l acc) = acc_sum acc - count_sum (lookup_list acc k) + count_sum l"
proof (induction acc)
  case (Cons kv acc)
  then show ?case by (cases kv) (auto simp: acc_sum_def lookup_list_def map_wf_def)
qed (simp add: acc_sum_def lookup_list_def count_sum_def)

lemma acc_sum_collect_step: "map_wf acc \<Longrightarrow> acc_sum (collect_step acc kv) = acc_sum acc + m_Count (snd kv)"
  using acc_sum_update [of acc "fst kv"]
  by (simp add: collect_step_def lookup_list_def count_sum_def split: option.splits)

lemma acc_sum_collect_steps:
  "map_wf acc \<Longrightarrow> map_wf (foldl collect_step acc kvs) \<and>
     acc_sum (foldl collect_step acc kvs) = acc_sum acc + sum_list (map (\<lambda>kv. m_Count (snd kv)) kvs)"
proof (induction kvs arbitrary: acc)
  case (Cons kv kvs)
  have "map_wf (collect_step acc kv)" using Cons.prems by (simp add: collect_step_def)
  with Cons show ?case by (simp add: acc_sum_collect_step)
qed simp

definition all_counts :: "metrics option list \<Rightarrow> int" where
  "all_counts ms = sum_list (map (\<lambda>m. case m of None \<Rightarrow> 0 | Some x \<Rightarrow> sum_list (map (\<lambda>kv. m_Count (snd kv)) (mt_StepMetrics x))) ms)"

lemma acc_sum_collect_metrics:
  "map_wf acc \<Longrightarrow> acc_sum (foldl collect_metrics acc ms) = acc_sum acc + all_counts ms"
proof (induction ms arbitrary: acc)
  case (Cons m ms)
  have "map_wf (collect_metrics acc m) \<and> acc_sum (collect_metrics acc m) = acc_sum acc + all_counts [m]"
    using acc_sum_collect_steps [OF Cons.prems] Cons.prems
    by (simp add: collect_metrics_def all_counts_def split: option.splits)
  then show ?case using Cons.IH [of "collect_metrics acc m"] by (simp add: all_counts_def)
qed (simp add: all_counts_def)

lemma aggregated_counts:
  "m_Count (aggregateStepMetrics i ms) = wrap64 (sum_list (map m_Count ms))"
  "m_SuccessCount (aggregateStepMetrics i ms) = wrap64 (sum_list (map m_SuccessCount ms))"
  "m_FailureCount (aggregateStepMetrics i ms) = wrap64 (sum_list (map m_FailureCount ms))"
  by (simp_all add: aggregateStepMetrics_def foldl_wrap64_zero)

lemma wrap64_sum_wrapped: "wrap64 (sum_list (map (\<lambda>x. wrap64 (f x)) xs)) = wrap64 (sum_list (map f xs))"
proof (induction xs)
  case (Cons x xs)
  have "wrap64 (wrap64 (f x) + sum_list (map (\<lambda>x. wrap64 (f x)) xs)) =
      wrap64 (f x + wrap64 (sum_list (map (\<lambda>x. wrap64 (f x)) xs)))"
    by (simp only: wrap64_add_left wrap64_add_right)
  then show ?case by (simp add: Cons.IH wrap64_add_right)
qed simp

lemma Aggregate_total: "ag_TotalIterations (Aggregate e ms) = wrap64 (all_counts ms)"
proof (cases "ms = []")
  case False
  let ?c = "foldl collect_metrics [] ms"
  have "ag_TotalIterations (Aggregate e ms) = wrap64 (sum_list (map (\<lambda>kv. wrap64 (count_sum (snd kv))) ?c))"
    using False
    by (simp add: Aggregate_def Let_def foldl_wrap64_zero comp_def case_prod_beta aggregated_counts count_sum_def)
  also have "\<dots> = wrap64 (acc_sum ?c)" by (simp add: wrap64_sum_wrapped acc_sum_def)
  also have "acc_sum ?c = all_counts ms" using acc_sum_collect_metrics [of "[]" ms] by (simp add: acc_sum_def)
  finally show ?thesis .
qed (simp add: Aggregate_def all_counts_def)

text \<open>Metrics of two slaves, one of which reports nothing for the second step.\<close>

definition sample_step :: "gostring \<Rightarrow> int \<Rightarrow> int \<Rightarrow> duration_metrics option \<Rightarrow> step_metrics" where
  "sample_step i n ok d = \<lparr>m_StepID = i, m_Count = n, m_SuccessCount = ok, m_FailureCount = n - ok, m_Duration = d, m_CustomMetrics = []\<rparr>"

definition sample_duration :: "int \<Rightarrow> duration_metrics" where
  "sample_duration d = \<lparr>dm_Min = d, dm_Max = 10 * d, dm_Avg = 3 * d, dm_P50 = 2 * d, dm_P90 = 5 * d, dm_P95 = 6 * d, dm_P99 = 9 * d\<rparr>"

definition sample_metrics :: "metrics option list" where
  "sample_metrics =
     [Some \<lparr>mt_Timestamp = 0, mt_StepMetrics = [(''a'', sample_step ''a'' 10 9 (Some (sample_duration 1000000))), (''b'', sample_step ''b'' 4 4 None)],
            mt_SystemMetrics = None\<rparr>,
      None,
      Some \<lparr>mt_Timestamp = 0, mt_StepMetrics = [(''a'', sample_step ''a'' 30 30 (Some (sample_duration 2000000)))], mt_SystemMetrics = None\<rparr>]"

lemma sample_metrics_wf: "metrics_wf sample_metrics"
  by (simp add: metrics_wf_def sample_metrics_def map_wf_def)

text \<open>(C33) Aggregation adds up what the slaves report: a step appears exactly when some slave reports
  it, its counts are the sums over those slaves, and the total of iterations is the sum of all
  counts of all slaves, everything modulo the wrap-around of 64-bit integers.\<close>

theorem aggregate_adds_up:
  assumes "metrics_wf ms"
  shows "(case map_of (ag_StepMetrics (Aggregate e ms)) i of
      None \<Rightarrow> step_sources ms i = []
    | Some m \<Rightarrow> step_sources ms i \<noteq> [] \<and>
        m_Count m = wrap64 (sum_list (map m_Count (step_sources ms i))) \<and>
        m_SuccessCount m = wrap64 (sum_list (map m_SuccessCount (step_sources ms i))) \<and>
        m_FailureCount m = wrap64 (sum_list (map m_FailureCount (step_sources ms i)))) \<and>
    ag_TotalIterations (Aggregate e ms) = wrap64 (all_counts ms)"
  by (simp add: Aggregate_step [OF assms] Aggregate_total aggregated_counts)

theorem aggregate_adds_up_witness:
  "metrics_wf sample_metrics \<and> ag_TotalIterations (Aggregate ''e'' sample_metrics) = 44 \<and> all_counts sample_metrics = 44"
proof -
  have c: "all_counts sample_metrics = 44" "wrap64 44 = 44" by code_simp+
  show ?thesis using sample_metrics_wf c aggregate_adds_up [OF sample_metrics_wf, of "''e''"] by simp
qed

subsection \<open>Durations\<close>

definition durations_of :: "step_metrics list \<Rightarrow> (duration_metrics \<times> int) list" where
  "durations_of ms = List.map_filter (\<lambda>m. map_option (\<lambda>d. (d, m_Count m)) (m_Duration m)) ms"

lemma durations_of_snoc:
  "durations_of (ms @ [m]) = durations_of ms @ (case m_Duration m of None \<Rightarrow> [] | Some d \<Rightarrow> [(d, m_Count m)])"
  by (simp add: durations_of_def List.map_filter_def split: option.splits)

definition weighted_sum :: "(duration_metrics \<times> int) list \<Rightarrow> int" where
  "weighted_sum ds = sum_list (map (\<lambda>(d, n). dm_Avg d * n) ds)"

abbreviation percentiles :: "duration_metrics \<times> int \<Rightarrow> int list" where
  "percentiles p \<equiv> [dm_P50 (fst p), dm_P90 (fst p), dm_P95 (fst p), dm_P99 (fst p)]"

lemma duration_fold:
  "let a = foldl duration_step duration_start ms; ds = durations_of ms in
     da_all a = concat (map percentiles ds) \<and> da_total a = wrap64 (weighted_sum ds) \<and>
     da_count a = wrap64 (sum_list (map snd ds)) \<and> (da_first a \<longleftrightarrow> ds = []) \<and>
     (ds \<noteq> [] \<longrightarrow> da_min a = Min ((\<lambda>p. dm_Min (fst p)) ` set ds) \<and> da_max a = Max ((\<lambda>p. dm_Max (fst p)) ` set ds))"
proof (induction ms rule: rev_induct)
  case (snoc m ms)
  define a where "a = foldl duration_step duration_start ms"
  define ds where "ds = durations_of ms"
  note IH = snoc [unfolded Let_def, folded a_def ds_def]
  show ?case
  proof (cases "m_Duration m")
    case None
    then show ?thesis using IH
      by (simp add: Let_def durations_of_snoc a_def [symmetric] ds_def [symmetric]) (simp add: duration_step_def)
  next
    case (Some d)
    have step: "duration_step a m =
      \<lparr>da_all = da_all a @ [dm_P50 d, dm_P90 d, dm_P95 d, dm_P99 d],
       da_total = wrap64 (da_total a + wrap64 (dm_Avg d * m_Count m)), da_count = wrap64 (da_count a + m_Count m),
       da_min = (if da_first a \<or> dm_Min d < da_min a then dm_Min d else da_min a),
       da_max = (if da_first a \<or> dm_Max d > da_max a then dm_Max d else da_max a), da_first = False\<rparr>"
      by (simp add: duration_step_def Some)
    have "Min (insert x S) = (if x < Min S then x else Min S)" "Max (insert x S) = (if x > Max S then x else Max S)"
      if "finite S" "S \<noteq> {}" for x :: int and S
    proof -
      have "min x y = (if x < y then x else y)" "max x y = (if x > y then x else y)" for x y :: int by simp_all
      from this [of x "Min S"] this [of x "Max S"] show "Min (insert x S) = (if x < Min S then x else Min S)" "Max (insert x S) = (if x > Max S then x else Max S)"
        by (simp_all only: Min_insert [OF that] Max_insert [OF that])
    qed
    then show ?thesis using IH
      by (cases "ds = []")
        (simp_all add: Let_def durations_of_snoc Some a_def [symmetric] ds_def [symmetric] step weighted_sum_def go_wrap)
  qed
qed (simp add: durations_of_def List.map_filter_def duration_start_def weighted_sum_def)

lemma aggregateDurationMetrics_eq:
  "aggregateDurationMetrics ms =
     (let ds = durations_of ms; n = wrap64 (sum_list (map snd ds)); qs = sort (concat (map percentiles ds)) in
      if n = 0 then None
      else Some \<lparr>dm_Min = Min ((\<lambda>p. dm_Min (fst p)) ` set ds), dm_Max = Max ((\<lambda>p. dm_Max (fst p)) ` set ds),
        dm_Avg = wrap64 (go_div (wrap64 (weighted_sum ds)) n),
        dm_P50 = estimatePercentile qs 50, dm_P90 = estimatePercentile qs 90,
        dm_P95 = estimatePercentile qs 95, dm_P99 = estimatePercentile qs 99\<rparr>)"
proof -
  note f = duration_fold [of ms, unfolded Let_def]
  have "durations_of ms \<noteq> []" if "wrap64 (sum_list (map snd (durations_of ms))) \<noteq> 0"
    using that by auto
  then show ?thesis using f
    by (auto simp: aggregateDurationMetrics_def Let_def durations_of_def List.map_filter_def)
qed

lemma durations_of_perm: "mset ms = mset ms' \<Longrightarrow> mset (durations_of ms) = mset (durations_of ms')"
  unfolding durations_of_def List.map_filter_def
  by (metis (no_types, lifting) mset_filter mset_map)

text \<open>The statistics of durations do not depend on the order in which the slaves report.\<close>

theorem aggregate_durations_order:
  assumes "mset ms = mset ms'"
  shows "aggregateDurationMetrics ms = aggregateDurationMetrics ms'"
proof -
  have d: "mset (durations_of ms) = mset (durations_of ms')" by (rule durations_of_perm [OF assms])
  have s: "set (durations_of ms) = set (durations_of ms')" using d by (metis set_mset_mset)
  have sum: "sum_list (map f (durations_of ms)) = sum_list (map f (durations_of ms'))" for f :: "_ \<Rightarrow> int"
    using d by (metis mset_map sum_mset_sum_list)
  have "sum_list (map f (durations_of ms)) = sum_list (map f (durations_of ms'))" for f :: "_ \<Rightarrow> int multiset"
    using d by (metis mset_map sum_mset_sum_list)
  then have "mset (concat (map percentiles (durations_of ms))) = mset (concat (map percentiles (durations_of ms')))"
    by (simp only: mset_concat map_map)
  then have q: "sort (concat (map percentiles (durations_of ms))) = sort (concat (map percentiles (durations_of ms')))"
    by (intro properties_for_sort) simp_all
  show ?thesis
    unfolding aggregateDurationMetrics_eq weighted_sum_def Let_def q by (simp only: s sum)
qed

theorem aggregate_durations_order_witness:
  "mset [sample_step ''a'' 1 1 (Some (sample_duration 5)), sample_step ''a'' 2 2 None] =
     mset [sample_step ''a'' 2 2 None, sample_step ''a'' 1 1 (Some (sample_duration 5))] \<and>
   aggregateDurationMetrics [sample_step ''a'' 1 1 (Some (sample_duration 5)), sample_step ''a'' 2 2 None] =
     aggregateDurationMetrics [sample_step ''a'' 2 2 None, sample_step ''a'' 1 1 (Some (sample_duration 5))]"
proof -
  have h: "mset [sample_step ''a'' 1 1 (Some (sample_duration 5)), sample_step ''a'' 2 2 None] =
     mset [sample_step ''a'' 2 2 None, sample_step ''a'' 1 1 (Some (sample_duration 5))]" by simp
  show ?thesis using h aggregate_durations_order [OF h] by blast
qed

lemma estimatePercentile_mono:
  assumes "p \<le> q"
  shows "estimatePercentile (sort ds) p \<le> estimatePercentile (sort ds) q"
proof (cases "ds = []")
  case False
  let ?i = "\<lambda>k. if (k * length ds) div 100 \<ge> length ds then length ds - 1 else (k * length ds) div 100"
  have "(p * length ds) div 100 \<le> (q * length ds) div 100" using assms by (intro div_le_mono mult_le_mono1)
  then have "?i p \<le> ?i q" "?i q < length ds" using False by auto
  then have "sort ds ! ?i p \<le> sort ds ! ?i q" by (intro sorted_nth_mono) simp_all
  then show ?thesis using False by (auto simp: estimatePercentile_def Let_def)
qed (simp add: estimatePercentile_def)

lemma weighted_sum_bounds:
  assumes "\<forall>p \<in> set ds. 0 \<le> snd p \<and> lo \<le> dm_Avg (fst p) \<and> dm_Avg (fst p) \<le> hi"
  shows "lo * sum_list (map snd ds) \<le> weighted_sum ds \<and> weighted_sum ds \<le> hi * sum_list (map snd ds)"
  using assms
proof (induction ds)
  case (Cons p ds)
  have "lo * snd p \<le> dm_Avg (fst p) * snd p" "dm_Avg (fst p) * snd p \<le> hi * snd p"
    using Cons.prems by (simp_all add: mult_right_mono)
  then show ?case using Cons by (simp add: weighted_sum_def case_prod_beta algebra_simps)
qed (simp add: weighted_sum_def)

definition sane_duration :: "duration_metrics \<Rightarrow> bool" where
  "sane_duration d \<longleftrightarrow> 0 \<le> dm_Min d \<and> dm_Min d \<le> dm_Avg d \<and> dm_Avg d \<le> dm_Max d"

text \<open>When the slaves report sane statistics (minimum, average and maximum in order) and no sum
  overflows, the aggregated average lies between the aggregated minimum and maximum, and the
  estimated percentiles are in order.\<close>

theorem aggregate_durations_bounds:
  assumes "\<forall>(d, n) \<in> set (durations_of ms). sane_duration d \<and> 0 \<le> n"
    and "0 < sum_list (map snd (durations_of ms))" "in_int64 (sum_list (map snd (durations_of ms)))"
    and "in_int64 (weighted_sum (durations_of ms))"
  shows "\<exists>d. aggregateDurationMetrics ms = Some d \<and> dm_Min d \<le> dm_Avg d \<and> dm_Avg d \<le> dm_Max d \<and>
    dm_P50 d \<le> dm_P90 d \<and> dm_P90 d \<le> dm_P95 d \<and> dm_P95 d \<le> dm_P99 d"
proof -
  let ?ds = "durations_of ms"
  let ?lo = "Min ((\<lambda>p. dm_Min (fst p)) ` set ?ds)" and ?hi = "Max ((\<lambda>p. dm_Max (fst p)) ` set ?ds)"
  let ?n = "sum_list (map snd ?ds)"
  have each: "sane_duration (fst p)" "0 \<le> snd p" "?lo \<le> dm_Min (fst p)" "dm_Max (fst p) \<le> ?hi"
    if "p \<in> set ?ds" for p using assms(1) that by (auto simp: case_prod_beta)
  then have b: "?lo * ?n \<le> weighted_sum ?ds \<and> weighted_sum ?ds \<le> ?hi * ?n"
    by (intro weighted_sum_bounds) (force simp: sane_duration_def)
  have ne: "?ds \<noteq> []" using assms(2) by auto
  then have "0 \<le> ?lo" using assms(1) by (auto simp: sane_duration_def)
  then have pos: "0 \<le> weighted_sum ?ds" using b assms(2) by (smt (verit) mult_nonneg_nonneg)
  have avg: "?lo \<le> weighted_sum ?ds div ?n" "weighted_sum ?ds div ?n \<le> ?hi"
    using b assms(2) zdiv_mono1 [of "?lo * ?n" "weighted_sum ?ds" ?n] zdiv_mono1 [of "weighted_sum ?ds" "?hi * ?n" ?n]
    by simp_all
  have "0 \<le> weighted_sum ?ds div ?n" "weighted_sum ?ds div ?n \<le> weighted_sum ?ds"
    using pos assms(2) zdiv_mono2 [of "weighted_sum ?ds" 1 ?n] by (simp_all add: pos_imp_zdiv_nonneg_iff)
  then have "in_int64 (weighted_sum ?ds div ?n)"
    using assms(4) by (simp add: in_int64_def int64_min_def)
  then show ?thesis
    using avg assms(2-4) pos
    by (simp add: aggregateDurationMetrics_eq Let_def wrap64_id estimatePercentile_mono)
qed

lemma sample_durations:
  "durations_of [sample_step ''a'' 10 9 (Some (sample_duration 5)), sample_step ''b'' 2 2 (Some (sample_duration 7))] =
     [(sample_duration 5, 10), (sample_duration 7, 2)]"
  by (simp add: durations_of_def List.map_filter_def sample_step_def)

theorem aggregate_durations_bounds_witness:
  "0 < sum_list (map snd (durations_of [sample_step ''a'' 10 9 (Some (sample_duration 5)), sample_step ''b'' 2 2 (Some (sample_duration 7))])) \<and>
   (\<exists>d. aggregateDurationMetrics [sample_step ''a'' 10 9 (Some (sample_duration 5)), sample_step ''b'' 2 2 (Some (sample_duration 7))] = Some d \<and>
      dm_Min d \<le> dm_Avg d)"
proof -
  let ?ms = "[sample_step ''a'' 10 9 (Some (sample_duration 5)), sample_step ''b'' 2 2 (Some (sample_duration 7))]"
  have h: "\<forall>(d, n) \<in> set (durations_of ?ms). sane_duration d \<and> 0 \<le> n" "0 < sum_list (map snd (durations_of ?ms))"
    "in_int64 (sum_list (map snd (durations_of ?ms)))" "in_int64 (weighted_sum (durations_of ?ms))"
    unfolding sample_durations
    by (simp_all add: sane_duration_def sample_duration_def weighted_sum_def in_int64_def int64_min_def int64_max_def)
  show ?thesis using h(2) aggregate_durations_bounds [OF h] by blast
qed

text \<open>The estimated percentiles of a single slave are not its own: from its four percentiles the
  median becomes its 95th and the 90th and 95th become its 99th.\<close>

theorem single_source_percentiles:
  assumes "m_Duration m = Some d" "wrap64 (m_Count m) \<noteq> 0"
    and "dm_P50 d \<le> dm_P90 d" "dm_P90 d \<le> dm_P95 d" "dm_P95 d \<le> dm_P99 d"
  shows "\<exists>a. aggregateDurationMetrics [m] = Some a \<and>
    dm_P50 a = dm_P95 d \<and> dm_P90 a = dm_P99 d \<and> dm_P95 a = dm_P99 d \<and> dm_P99 a = dm_P99 d"
proof -
  have "durations_of [m] = [(d, m_Count m)]" using assms(1) by (simp add: durations_of_def List.map_filter_def)
  moreover have "sort [dm_P50 d, dm_P90 d, dm_P95 d, dm_P99 d] = [dm_P50 d, dm_P90 d, dm_P95 d, dm_P99 d]"
    using assms(3-5) by (intro sort_key_id_if_sorted) simp
  ultimately show ?thesis
    using assms(2) by (simp add: aggregateDurationMetrics_eq Let_def estimatePercentile_def del: sort_key_simps)
qed

theorem single_source_percentiles_witness:
  "m_Duration (sample_step ''a'' 10 9 (Some (sample_duration 5))) = Some (sample_duration 5) \<and>
   (\<exists>a. aggregateDurationMetrics [sample_step ''a'' 10 9 (Some (sample_duration 5))] = Some a \<and>
      dm_P50 a = dm_P95 (sample_duration 5))"
proof -
  have h: "m_Duration (sample_step ''a'' 10 9 (Some (sample_duration 5))) = Some (sample_duration 5)"
    "wrap64 (m_Count (sample_step ''a'' 10 9 (Some (sample_duration 5)))) \<noteq> 0"
    "dm_P50 (sample_duration 5) \<le> dm_P90 (sample_duration 5)" "dm_P90 (sample_duration 5) \<le> dm_P95 (sample_duration 5)"
    "dm_P95 (sample_duration 5) \<le> dm_P99 (sample_duration 5)"
    by (simp_all add: sample_step_def sample_duration_def wrap64_def)
  show ?thesis using h(1) single_source_percentiles [OF h] by blast
qed

subsection \<open>Rates\<close>

lemma f64_ratio_unit:
  assumes "0 \<le> a" "a \<le> b" "0 < b" "in_int64 b"
  shows "\<exists>q. f64_div (f64_of_int a) (f64_of_int b) = F_Fin False q \<and> 0 \<le> q \<and> q \<le> 1"
proof -
  let ?r = "\<lambda>i::int. round_pos 53 (-1074) (of_int i)"
  have ia: "in_int64 a" using assms by (simp add: in_int64_def int64_min_def)
  have r: "0 \<le> ?r a" "?r a \<le> ?r b" "1 \<le> ?r b"
    using assms round_pos_nonneg [of "of_int a"] round_pos_mono [of "of_int a" "of_int b" 53 "-1074"]
      round_pos_mono [of "of_int 1" "of_int b" 53 "-1074"] round_pos_int_exact [of 1] by simp_all
  then have "0 \<le> ?r a / ?r b" "?r a / ?r b \<le> 1" by simp_all
  then show ?thesis
    using f64_round_unit [of "?r a / ?r b" False] round_pos_nonneg [of "?r a / ?r b"] round_pos_le_one [of "?r a / ?r b"] r assms
    by (simp add: f64_of_int_fin ia)
qed

text \<open>The rates of a step are between 0 and 1 whenever its successes and failures are counted
  within its count, and 0 for a step that never ran.\<close>

theorem step_rates_unit:
  assumes "0 \<le> m_SuccessCount m" "m_SuccessCount m \<le> m_Count m" "0 \<le> m_FailureCount m" "m_FailureCount m \<le> m_Count m"
    and "in_int64 (m_Count m)" "p \<in> {''success_rate'', ''failure_rate''}"
  shows "\<exists>q. getStepMetricValue m [p] = Inr (F_Fin False q) \<and> 0 \<le> q \<and> q \<le> 1 \<and> (m_Count m = 0 \<longrightarrow> q = 0)"
proof (cases "m_Count m = 0")
  case True
  then show ?thesis using assms(6) by (auto simp: getStepMetricValue_def)
next
  case False
  then have pos: "0 < m_Count m" using assms(1,2) by simp
  show ?thesis
    using False f64_ratio_unit [OF assms(1,2) pos assms(5)] f64_ratio_unit [OF assms(3,4) pos assms(5)] assms(6)
    by (auto simp: getStepMetricValue_def)
qed

theorem step_rates_unit_witness:
  "0 \<le> m_SuccessCount (sample_step ''a'' 10 9 None) \<and>
   (\<exists>q. getStepMetricValue (sample_step ''a'' 10 9 None) [''failure_rate''] = Inr (F_Fin False q) \<and> q \<le> 1)"
proof -
  let ?m = "sample_step ''a'' 10 9 None"
  have h: "0 \<le> m_SuccessCount ?m" "m_SuccessCount ?m \<le> m_Count ?m" "0 \<le> m_FailureCount ?m" "m_FailureCount ?m \<le> m_Count ?m"
    "in_int64 (m_Count ?m)" "''failure_rate'' \<in> {''success_rate'', ''failure_rate''}"
    by (simp_all add: sample_step_def in_int64_def int64_min_def int64_max_def)
  show ?thesis using h(1) step_rates_unit [OF h] by blast
qed

subsection \<open>Conditions\<close>

definition threshold_rel :: "gostring \<Rightarrow> float64 \<Rightarrow> float64 \<Rightarrow> bool" where
  "threshold_rel op v t =
     (if op = ''<'' then f64_lt v t else if op = ''<='' then f64_le v t
      else if op = ''>'' then f64_lt t v else if op = ''>='' then f64_le t v
      else if op = ''=='' then f64_eq v t else \<not> f64_eq v t)"

definition op_free :: "gostring \<Rightarrow> bool" where
  "op_free s \<longleftrightarrow> CHR ''<'' \<notin> set s \<and> CHR ''>'' \<notin> set s \<and> CHR ''='' \<notin> set s \<and> CHR ''!'' \<notin> set s"

lemma str_cut_None: "x \<in> set sub \<Longrightarrow> x \<notin> set s \<Longrightarrow> str_cut sub s = None"
  using str_contains_iff [of s sub] by (auto simp: str_contains_def)

lemma find_operator_first:
  assumes "op_free a" "op_free b" "op \<in> set threshold_ops"
  shows "find_operator (a @ op @ b) threshold_ops =
    (case parse_float (trim_space b) of None \<Rightarrow> Inl (InvalidThreshold (trim_space b)) | Some t \<Rightarrow> Inr (Some (op, t)))"
proof -
  have free: "c \<notin> set a" "c \<notin> set b" if "c \<in> {CHR ''<'', CHR ''>'', CHR ''='', CHR ''!''}" for c
    using assms(1,2) that by (auto simp: op_free_def)
  have cut1: "str_cut [c] (a @ [c] @ b) = Some (a, b)"
    and cut2: "str_cut [c, d] (a @ [c, d] @ b) = Some (a, b)"
    if "c \<in> {CHR ''<'', CHR ''>'', CHR ''='', CHR ''!''}" for c d
    using free [OF that] str_cut_first [of c a "[]" b] str_cut_first [of c a "[d]" b] by simp_all
  have none: "str_cut sub s = None" if "x \<in> set sub" "x \<notin> set s" for x sub and s :: gostring
    using str_cut_None that by metis
  consider "op = ''<=''" | "op = ''>=''" | "op = ''!=''" | "op = ''==''" | "op = ''<''" | "op = ''>''"
    using assms(3) by (auto simp: threshold_ops_def)
  then show ?thesis
    by cases (simp_all add: threshold_ops_def cut1 [simplified] cut2 [simplified] free
        none [of "CHR ''<''"] none [of "CHR ''>''"] none [of "CHR ''!''"] none [of "CHR ''=''"] cong: option.case_cong)
qed

text \<open>A threshold condition means what it says: with any text before the operator and a number
  after it, neither of which contains an operator character, the condition compares the value with
  the number by that operator, two-character operators not being taken for their first character;
  when the text after the operator is not a number, the result is an error.\<close>

theorem condition_meaning:
  assumes "op_free a" "op_free b" "op \<in> set threshold_ops" "trim_space (a @ op @ b) = a @ op @ b"
  shows "evaluateCondition v (a @ op @ b) =
    (case parse_float (trim_space b) of
       None \<Rightarrow> Inl (InvalidThreshold (trim_space b))
     | Some t \<Rightarrow> Inr (threshold_rel op v t))"
  using assms(3)
  unfolding evaluateCondition_def assms(4) Let_def find_operator_first [OF assms(1-3)]
  by (auto simp: threshold_rel_def threshold_ops_def split: option.splits)

theorem condition_meaning_witness:
  "op_free ''p95 '' \<and> op_free '' 500'' \<and> ''<='' \<in> set threshold_ops \<and>
   trim_space (''p95 '' @ ''<='' @ '' 500'') = ''p95 '' @ ''<='' @ '' 500'' \<and>
   evaluateCondition (F_Fin False 500) (''p95 '' @ ''<='' @ '' 500'') = Inr True"
proof -
  have h: "op_free ''p95 ''" "op_free '' 500''" "''<='' \<in> set threshold_ops"
    "trim_space (''p95 '' @ ''<='' @ '' 500'') = ''p95 '' @ ''<='' @ '' 500''"
    by (simp_all add: op_free_def threshold_ops_def) code_simp
  have p: "parse_float (trim_space '' 500'') = Some (F_Fin False 500)" by code_simp
  show ?thesis using h condition_meaning [OF h, of "F_Fin False 500"] unfolding p
    by (simp only: option.case) (simp add: threshold_rel_def f64_le_def)
qed

subsection \<open>Thresholds and summary\<close>

text \<open>Evaluating thresholds never fails on metrics that are there: there is one result for each
  threshold, in order; it has passed exactly when the metric has a value and the condition holds of
  it, and an unknown metric or a malformed condition counts as failed.\<close>

theorem thresholds_evaluated:
  "\<exists>rs. EvaluateThresholds (Some ag) ths = Inr rs \<and> length rs = length ths \<and>
    (\<forall>i < length ths. tr_Metric (rs ! i) = th_Metric (ths ! i) \<and> tr_Condition (rs ! i) = th_Condition (ths ! i) \<and>
       (tr_Passed (rs ! i) \<longleftrightarrow> (\<exists>v. getMetricValue ag (th_Metric (ths ! i)) = Inr v \<and>
          evaluateCondition v (th_Condition (ths ! i)) = Inr True)))"
  by (auto simp: EvaluateThresholds_def evaluate_threshold_def Let_def split: sum.splits)

theorem thresholds_evaluated_witness:
  "\<exists>rs. EvaluateThresholds (Some (Aggregate ''e'' sample_metrics)) [\<lparr>th_Metric = ''a.count'', th_Condition = ''count > 1''\<rparr>] = Inr rs \<and>
    length rs = 1"
  using thresholds_evaluated [of "Aggregate ''e'' sample_metrics" "[\<lparr>th_Metric = ''a.count'', th_Condition = ''count > 1''\<rparr>]"]
  by auto

lemma sorted_last_ge: "sorted xs \<Longrightarrow> x \<in> set xs \<Longrightarrow> x \<le> last xs"
  by (induction xs rule: rev_induct) (auto simp: sorted_append)

lemma hd_rev_sort: "ds \<noteq> [] \<Longrightarrow> hd (rev (sort ds)) = Max (set ds)" for ds :: "int list"
proof -
  assume ne: "ds \<noteq> []"
  then have "sort ds \<noteq> []" by (metis length_0_conv length_sort)
  then have "last (sort ds) \<in> set ds" using last_in_set by fastforce
  moreover have "x \<le> last (sort ds)" if "x \<in> set ds" for x
    using sorted_last_ge [of "sort ds" x] that by simp
  ultimately have "last (sort ds) = Max (set ds)" by (intro Max_eqI [symmetric]) simp_all
  then show ?thesis by (simp add: hd_rev)
qed

text \<open>A summary reports the totals over all steps, the largest 95th and 99th percentile of any
  step, and threshold counts that together account for every threshold.\<close>

theorem summary_totals:
  "\<exists>su. GenerateSummary (Some ag) = Inr su \<and>
    (let steps = map snd (ag_StepMetrics ag); ds = durations_of steps in
      su_TotalRequests su = wrap64 (sum_list (map m_Count steps)) \<and>
      su_P95Duration su = (if ds = [] then [] else duration_String (Max ((\<lambda>p. dm_P95 (fst p)) ` set ds))) \<and>
      su_P99Duration su = (if ds = [] then [] else duration_String (Max ((\<lambda>p. dm_P99 (fst p)) ` set ds))) \<and>
      su_ThresholdsPassed su + su_ThresholdsFailed su = int (length (ag_Thresholds ag)))"
proof -
  have l: "longest (map f ds) = (if ds = [] then [] else duration_String (Max (f ` set ds)))" for f and ds :: "(duration_metrics \<times> int) list"
    using hd_rev_sort [of "map f ds"] by (simp add: longest_def)
  have "int (length (filter P xs)) + int (length (filter (\<lambda>x. \<not> P x) xs)) = int (length xs)" for P and xs :: "threshold_result list"
    using sum_length_filter_compl [of P xs] by simp
  then show ?thesis
    by (simp add: GenerateSummary_def Let_def foldl_wrap64_zero l durations_of_def [symmetric] case_prod_beta)
qed

end
