(* ===== verification/Execution.thy ===== *)
theory Execution
  imports Scheduler Aggregator
begin

text \<open>
  The state of an execution (\<^verbatim>\<open>pkg/types/result.go\<close>) and what the goroutine of an execution does to
  it (\<^verbatim>\<open>simulateExecution\<close>, \<^verbatim>\<open>distributeExecution\<close> and \<^verbatim>\<open>executeTaskLocally\<close> of
  \<^verbatim>\<open>internal/master/master.go\<close>).  Each critical section under the lock of the execution is one
  function.  What the task engine returns is an argument.  The metrics a slave returns are an
  object that the slave's state and the aggregated metrics share; the collection of results keeps
  these objects in a list and refers to them by position.
\<close>

subsection \<open>States\<close>

type_synonym execution_status = gostring

definition ExecutionStatusPending :: execution_status where "ExecutionStatusPending = ''pending''"
definition ExecutionStatusRunning :: execution_status where "ExecutionStatusRunning = ''running''"
definition ExecutionStatusPaused :: execution_status where "ExecutionStatusPaused = ''paused''"
definition ExecutionStatusCompleted :: execution_status where "ExecutionStatusCompleted = ''completed''"
definition ExecutionStatusFailed :: execution_status where "ExecutionStatusFailed = ''failed''"
definition ExecutionStatusAborted :: execution_status where "ExecutionStatusAborted = ''aborted''"

lemmas execution_status_defs =
  ExecutionStatusPending_def ExecutionStatusRunning_def ExecutionStatusPaused_def
  ExecutionStatusCompleted_def ExecutionStatusFailed_def ExecutionStatusAborted_def

definition terminal :: "execution_status \<Rightarrow> bool" where
  "terminal s \<longleftrightarrow> s = ExecutionStatusCompleted \<or> s = ExecutionStatusFailed \<or> s = ExecutionStatusAborted"

datatype exec_message =
    Msg_SelectFailed sched_error
  | Msg_PlanFailed sched_error
  | Msg_NoSlaves
  | Msg_NoPlan
  | Msg_Engine gostring

record execution_error =
  xe_Code :: gostring
  xe_Message :: exec_message
  xe_StepID :: gostring
  xe_Timestamp :: int

definition ErrCodeExecution :: gostring where "ErrCodeExecution = ''EXECUTION_ERROR''"

definition execution_error_at :: "int \<Rightarrow> exec_message \<Rightarrow> execution_error" where
  "execution_error_at now msg = \<lparr>xe_Code = ErrCodeExecution, xe_Message = msg, xe_StepID = [], xe_Timestamp = now\<rparr>"

record slave_execution_state =
  ss_SlaveID :: gostring
  ss_Status :: execution_status
  ss_Segment :: execution_segment
  ss_CompletedVUs :: int
  ss_CompletedIters :: int
  ss_CurrentMetrics :: "metrics option"

record execution_state =
  x_ID :: gostring
  x_WorkflowID :: gostring
  x_Status :: execution_status
  x_StartTime :: int
  x_EndTime :: "int option"
  x_Progress :: float64
  x_SlaveStates :: "(gostring, slave_execution_state) gomap"
  x_AggregatedMetrics :: "aggregated_metrics option"
  x_Errors :: "execution_error list"

text \<open>The report of a task result, which nothing here reads, is left out.\<close>

record task_result =
  tr_TaskID :: gostring
  tr_ExecutionID :: gostring
  tr_SlaveID :: gostring
  tr_Status :: execution_status
  tr_Metrics :: "metrics option"
  tr_Errors :: "execution_error list"
  tr_Iterations :: int

text \<open>What \<^verbatim>\<open>TaskEngine.Execute\<close> returns; the engine sets the status of a result to completed or
  failed before it returns it.\<close>

datatype engine_outcome = Engine_Error gostring | Engine_Result task_result

definition engine_ok :: "engine_outcome \<Rightarrow> bool" where
  "engine_ok out \<longleftrightarrow> (case out of
     Engine_Error _ \<Rightarrow> True
   | Engine_Result r \<Rightarrow> tr_Status r = ExecutionStatusCompleted \<or> tr_Status r = ExecutionStatusFailed)"

subsection \<open>The number of virtual users of an engine\<close>

fun max_target :: "int \<Rightarrow> stage list \<Rightarrow> int" where
  "max_target acc [] = acc"
| "max_target acc (s # ss) = max_target (if sg_Target s > acc then sg_Target s else acc) ss"

definition engine_vus :: "execution_options \<Rightarrow> int" where
  "engine_vus opts =
     (let maxVUs = (if opt_ExecutionMode opts = ModeRampingVUs \<and> opt_Stages opts \<noteq> []
                    then max_target (opt_VUs opts) (opt_Stages opts) else opt_VUs opts)
      in if maxVUs \<le> 0 then 1 else maxVUs)"

fun total_stage_time :: "int \<Rightarrow> stage list \<Rightarrow> int" where
  "total_stage_time acc [] = acc"
| "total_stage_time acc (s # ss) = total_stage_time (wrap64 (acc + sg_Duration s)) ss"

definition planned_duration :: "execution_options \<Rightarrow> int" where
  "planned_duration opts =
     (if opt_ExecutionMode opts = ModeRampingVUs \<and> opt_Stages opts \<noteq> []
      then total_stage_time 0 (opt_Stages opts) else opt_Duration opts)"

subsection \<open>Local execution\<close>

definition sim_start :: "execution_state \<Rightarrow> execution_state" where
  "sim_start x = x\<lparr>x_Status := ExecutionStatusRunning\<rparr>"

definition cap_one :: "float64 \<Rightarrow> float64" where
  "cap_one p = (if f64_lt f64_one p then f64_one else p)"

definition sim_progress :: "execution_options \<Rightarrow> int \<Rightarrow> int \<Rightarrow> execution_state \<Rightarrow> float64" where
  "sim_progress opts elapsed iterations x =
     (if planned_duration opts > 0 then cap_one (f64_div (f64_of_int elapsed) (f64_of_int (planned_duration opts)))
      else if opt_Iterations opts > 0 then cap_one (f64_div (f64_of_int iterations) (f64_of_int (opt_Iterations opts)))
      else x_Progress x)"

definition sim_tick ::
  "execution_options \<Rightarrow> int \<Rightarrow> int \<Rightarrow> int \<Rightarrow> (gostring, step_metrics) gomap \<Rightarrow> execution_state \<Rightarrow> execution_state" where
  "sim_tick opts elapsed iterations activeVUs steps x =
     x\<lparr>x_Progress := sim_progress opts elapsed iterations x,
       x_AggregatedMetrics := Some \<lparr>ag_ExecutionID = x_ID x, ag_TotalVUs = activeVUs, ag_TotalIterations = iterations,
         ag_Duration = elapsed, ag_StepMetrics = steps, ag_Thresholds = []\<rparr>\<rparr>"

definition sim_abort :: "int \<Rightarrow> execution_state \<Rightarrow> execution_state" where
  "sim_abort now x = x\<lparr>x_Status := ExecutionStatusAborted, x_EndTime := Some now\<rparr>"

definition sim_result :: "execution_options \<Rightarrow> int \<Rightarrow> task_result \<Rightarrow> execution_state \<Rightarrow> execution_state" where
  "sim_result opts now r x =
     (let x1 = (if tr_Status r = ExecutionStatusCompleted
                then x\<lparr>x_Status := ExecutionStatusCompleted, x_Progress := f64_one\<rparr>
                else x\<lparr>x_Status := tr_Status r\<rparr>);
          x2 = (if tr_Errors r \<noteq> [] then x1\<lparr>x_Errors := x_Errors x1 @ tr_Errors r\<rparr> else x1);
          x3 = (case tr_Metrics r of
                  None \<Rightarrow> x2
                | Some m \<Rightarrow>
                    x2\<lparr>x_AggregatedMetrics := Some
                      \<lparr>ag_ExecutionID = x_ID x2, ag_TotalVUs = opt_VUs opts,
                       ag_TotalIterations = (if tr_Iterations r = 0 then opt_Iterations opts else tr_Iterations r),
                       ag_Duration = 0, ag_StepMetrics = mt_StepMetrics m, ag_Thresholds = []\<rparr>\<rparr>)
      in x3\<lparr>x_EndTime := Some now\<rparr>)"

definition sim_error :: "int \<Rightarrow> gostring \<Rightarrow> execution_state \<Rightarrow> execution_state" where
  "sim_error now err x =
     x\<lparr>x_Status := ExecutionStatusFailed, x_Errors := x_Errors x @ [execution_error_at now (Msg_Engine err)],
       x_EndTime := Some now\<rparr>"

subsection \<open>Distributed execution\<close>

definition dist_start :: "execution_state \<Rightarrow> execution_state" where
  "dist_start x = x\<lparr>x_Status := ExecutionStatusRunning\<rparr>"

definition dist_no_plan :: "int \<Rightarrow> execution_state \<Rightarrow> execution_state" where
  "dist_no_plan now x =
     x\<lparr>x_Status := ExecutionStatusFailed, x_Errors := x_Errors x @ [execution_error_at now Msg_NoPlan],
       x_EndTime := Some now\<rparr>"

definition dist_worker :: "gostring \<Rightarrow> execution_state \<Rightarrow> execution_state" where
  "dist_worker slaveID x =
     (case map_of (x_SlaveStates x) slaveID of
        None \<Rightarrow> x
      | Some ss \<Rightarrow> x\<lparr>x_SlaveStates := AList.update slaveID (ss\<lparr>ss_Status := ExecutionStatusRunning\<rparr>) (x_SlaveStates x)\<rparr>)"

record slave_result =
  sr_SlaveID :: gostring
  sr_Status :: execution_status
  sr_Metrics :: "metrics option"
  sr_Iterations :: int

definition executeTaskLocally :: "engine_outcome \<Rightarrow> gostring \<Rightarrow> slave_result" where
  "executeTaskLocally out slaveID =
     (case out of
        Engine_Error _ \<Rightarrow> \<lparr>sr_SlaveID = slaveID, sr_Status = ExecutionStatusFailed, sr_Metrics = None, sr_Iterations = 0\<rparr>
      | Engine_Result r \<Rightarrow>
          \<lparr>sr_SlaveID = slaveID, sr_Status = tr_Status r, sr_Metrics = tr_Metrics r, sr_Iterations = tr_Iterations r\<rparr>)"

text \<open>The local variables of the loop that collects the results: the metrics objects received so
  far, which of them each slave's state holds, and which of them each step of the aggregated
  metrics comes from.\<close>

record collect =
  c_allCompleted :: bool
  c_hasError :: bool
  c_iterations :: int
  c_objects :: "metrics list"
  c_slaves :: "(gostring, nat) gomap"
  c_steps :: "(gostring, nat) gomap"

definition collect_start :: collect where
  "collect_start = \<lparr>c_allCompleted = True, c_hasError = False, c_iterations = 0, c_objects = [], c_slaves = [], c_steps = []\<rparr>"

definition add_counts :: "step_metrics \<Rightarrow> step_metrics \<Rightarrow> step_metrics" where
  "add_counts m n =
     m\<lparr>m_Count := wrap64 (m_Count m + m_Count n), m_SuccessCount := wrap64 (m_SuccessCount m + m_SuccessCount n),
       m_FailureCount := wrap64 (m_FailureCount m + m_FailureCount n)\<rparr>"

definition object_step :: "metrics list \<Rightarrow> nat \<Rightarrow> gostring \<Rightarrow> step_metrics option" where
  "object_step objs k i = (if k < length objs then map_of (mt_StepMetrics (objs ! k)) i else None)"

definition set_object_step :: "nat \<Rightarrow> gostring \<Rightarrow> step_metrics \<Rightarrow> metrics list \<Rightarrow> metrics list" where
  "set_object_step k i m objs =
     objs[k := (objs ! k)\<lparr>mt_StepMetrics := AList.update i m (mt_StepMetrics (objs ! k))\<rparr>]"

definition merge_step :: "nat \<Rightarrow> collect \<Rightarrow> gostring \<Rightarrow> collect" where
  "merge_step j c i =
     (case map_of (c_steps c) i of
        None \<Rightarrow> c\<lparr>c_steps := AList.update i j (c_steps c)\<rparr>
      | Some k \<Rightarrow>
          (case (object_step (c_objects c) k i, object_step (c_objects c) j i) of
             (Some m, Some n) \<Rightarrow> c\<lparr>c_objects := set_object_step k i (add_counts m n) (c_objects c)\<rparr>
           | _ \<Rightarrow> c))"

definition show_objects :: "collect \<Rightarrow> execution_state \<Rightarrow> execution_state" where
  "show_objects c x =
     x\<lparr>x_SlaveStates := map (\<lambda>(i, ss). (i, case map_of (c_slaves c) i of
          None \<Rightarrow> ss
        | Some k \<Rightarrow> if k < length (c_objects c) then ss\<lparr>ss_CurrentMetrics := Some (c_objects c ! k)\<rparr> else ss)) (x_SlaveStates x)\<rparr>"

definition note_status :: "slave_result \<Rightarrow> collect \<Rightarrow> collect" where
  "note_status r c =
     (if sr_Status r \<noteq> ExecutionStatusCompleted
      then c\<lparr>c_allCompleted := False, c_hasError := c_hasError c \<or> sr_Status r = ExecutionStatusFailed\<rparr>
      else c)"

definition note_metrics :: "bool \<Rightarrow> slave_result \<Rightarrow> collect \<Rightarrow> collect" where
  "note_metrics known r c =
     (case sr_Metrics r of
        None \<Rightarrow> c
      | Some m \<Rightarrow>
          let j = length (c_objects c) in
          foldl (merge_step j)
            (c\<lparr>c_objects := c_objects c @ [m], c_iterations := wrap64 (c_iterations c + sr_Iterations r),
               c_slaves := (if known then AList.update (sr_SlaveID r) j (c_slaves c) else c_slaves c)\<rparr>)
            (map fst (mt_StepMetrics m)))"

definition dist_receive :: "slave_result \<Rightarrow> collect \<times> execution_state \<Rightarrow> collect \<times> execution_state" where
  "dist_receive r cx =
     (let c = fst cx; x = snd cx;
          x1 = (case map_of (x_SlaveStates x) (sr_SlaveID r) of
                  None \<Rightarrow> x
                | Some ss \<Rightarrow> x\<lparr>x_SlaveStates := AList.update (sr_SlaveID r) (ss\<lparr>ss_Status := sr_Status r\<rparr>) (x_SlaveStates x)\<rparr>);
          c2 = note_metrics (map_of (x_SlaveStates x) (sr_SlaveID r) \<noteq> None) r (note_status r c)
      in (c2, show_objects c2 x1))"

definition aggregated_steps :: "collect \<Rightarrow> (gostring, step_metrics) gomap" where
  "aggregated_steps c =
     List.map_filter (\<lambda>(i, k). map_option (\<lambda>m. (i, m)) (object_step (c_objects c) k i)) (c_steps c)"

definition dist_finish :: "execution_options \<Rightarrow> int \<Rightarrow> collect \<Rightarrow> execution_state \<Rightarrow> execution_state" where
  "dist_finish opts now c x =
     (let x1 = (if c_hasError c then x\<lparr>x_Status := ExecutionStatusFailed\<rparr>
                else if c_allCompleted c then x\<lparr>x_Status := ExecutionStatusCompleted, x_Progress := f64_one\<rparr>
                else x\<lparr>x_Status := ExecutionStatusAborted\<rparr>)
      in x1\<lparr>x_AggregatedMetrics := Some \<lparr>ag_ExecutionID = x_ID x1, ag_TotalVUs = opt_VUs opts,
              ag_TotalIterations = c_iterations c, ag_Duration = 0, ag_StepMetrics = aggregated_steps c,
              ag_Thresholds = []\<rparr>,
            x_EndTime := Some now\<rparr>)"

subsection \<open>Collecting results\<close>

definition dist_collect :: "slave_result list \<Rightarrow> execution_state \<Rightarrow> collect \<times> execution_state" where
  "dist_collect rs x = foldl (\<lambda>cx r. dist_receive r cx) (collect_start, x) rs"

text \<open>The metrics of a step as the aggregated map sees them.\<close>

definition agg :: "collect \<Rightarrow> gostring \<Rightarrow> step_metrics option" where
  "agg c i = (case map_of (c_steps c) i of None \<Rightarrow> None | Some k \<Rightarrow> object_step (c_objects c) k i)"

definition merged :: "step_metrics option \<Rightarrow> step_metrics \<Rightarrow> step_metrics" where
  "merged old n = (case old of None \<Rightarrow> n | Some m \<Rightarrow> add_counts m n)"

definition collect_ok :: "collect \<Rightarrow> bool" where
  "collect_ok c \<longleftrightarrow> map_wf (c_steps c) \<and>
     (\<forall>i k. map_of (c_steps c) i = Some k \<longrightarrow> k < length (c_objects c) \<and> object_step (c_objects c) k i \<noteq> None)"

lemma object_step_set:
  "k < length objs \<Longrightarrow> object_step (set_object_step k i m objs) k' i' =
     (if k' = k \<and> i' = i then Some m else object_step objs k' i')"
  by (auto simp: object_step_def set_object_step_def update_conv' nth_list_update)

lemma length_set_object_step [simp]: "length (set_object_step k i m objs) = length objs"
  by (simp add: set_object_step_def)

lemma merge_step_agg:
  assumes "collect_ok c" "object_step (c_objects c) j i = Some n" "map_of (c_steps c) i \<noteq> Some j"
  shows "collect_ok (merge_step j c i) \<and>
    (\<forall>i'. agg (merge_step j c i) i' = (if i' = i then Some (merged (agg c i) n) else agg c i') \<and>
      object_step (c_objects (merge_step j c i)) j i' = object_step (c_objects c) j i' \<and>
      (i' \<noteq> i \<longrightarrow> map_of (c_steps (merge_step j c i)) i' = map_of (c_steps c) i'))"
proof -
  have j: "j < length (c_objects c)" using assms(2) by (simp add: object_step_def split: if_splits)
  consider (new) "map_of (c_steps c) i = None"
    | (old) k m where "map_of (c_steps c) i = Some k" "k \<noteq> j" "k < length (c_objects c)" "object_step (c_objects c) k i = Some m"
    using assms(1,3) unfolding collect_ok_def by (metis not_None_eq)
  then show ?thesis
  proof cases
    case new
    then show ?thesis using assms(1,2) j
      by (auto simp: merge_step_def agg_def merged_def collect_ok_def update_conv' cong: option.case_cong)
  next
    case old
    then show ?thesis using assms(1,2)
      by (auto simp: merge_step_def agg_def merged_def collect_ok_def object_step_set split: option.splits)
  qed
qed

lemma merge_steps_agg:
  assumes "collect_ok c" "distinct is" "\<forall>i \<in> set is. object_step (c_objects c) j i \<noteq> None \<and> map_of (c_steps c) i \<noteq> Some j"
  shows "collect_ok (foldl (merge_step j) c is) \<and>
    agg (foldl (merge_step j) c is) i' =
      (if i' \<in> set is then Some (merged (agg c i') (the (object_step (c_objects c) j i'))) else agg c i')"
  using assms
proof (induction "is" arbitrary: c)
  case (Cons i "is")
  obtain n where n: "object_step (c_objects c) j i = Some n" using Cons.prems(3) by auto
  have nj: "map_of (c_steps c) i \<noteq> Some j" using Cons.prems(3) by simp
  have ok: "collect_ok (merge_step j c i)"
    and ag: "agg (merge_step j c i) i2 = (if i2 = i then Some (merged (agg c i) n) else agg c i2)"
    and ob: "object_step (c_objects (merge_step j c i)) j i2 = object_step (c_objects c) j i2"
    and st: "i2 \<noteq> i \<Longrightarrow> map_of (c_steps (merge_step j c i)) i2 = map_of (c_steps c) i2" for i2
    using merge_step_agg [OF Cons.prems(1) n nj] by blast+
  have "\<forall>i2 \<in> set is. object_step (c_objects (merge_step j c i)) j i2 \<noteq> None \<and> map_of (c_steps (merge_step j c i)) i2 \<noteq> Some j"
  proof
    fix i2 assume "i2 \<in> set is"
    then show "object_step (c_objects (merge_step j c i)) j i2 \<noteq> None \<and> map_of (c_steps (merge_step j c i)) i2 \<noteq> Some j"
      using Cons.prems(2,3) st [of i2] by (cases "i2 = i") (simp_all add: ob)
  qed
  from Cons.IH [OF ok _ this] show ?case
    using Cons.prems(2) n by (simp add: ag ob)
qed simp

lemma agg_append:
  "collect_ok c \<Longrightarrow> agg (c\<lparr>c_objects := c_objects c @ [m], c_iterations := n, c_slaves := s\<rparr>) i = agg c i"
proof (cases "map_of (c_steps c) i")
  case (Some k)
  moreover assume "collect_ok c"
  ultimately have "k < length (c_objects c)" by (simp add: collect_ok_def)
  then show ?thesis by (simp add: agg_def Some object_step_def nth_append)
qed (simp add: agg_def)

lemma object_step_append: "object_step (objs @ [m]) (length objs) i = map_of (mt_StepMetrics m) i"
  by (simp add: object_step_def)

definition receives :: "step_metrics option \<Rightarrow> metrics option \<Rightarrow> gostring \<Rightarrow> step_metrics option" where
  "receives old m i =
     (case m of None \<Rightarrow> old
      | Some x \<Rightarrow> (case map_of (mt_StepMetrics x) i of None \<Rightarrow> old | Some n \<Rightarrow> Some (merged old n)))"

lemma update_Some_keys: "map_of m k = Some v \<Longrightarrow> map fst (AList.update k w m) = map fst m"
  by (induction m) auto

lemma note_status_agg: "collect_ok (note_status r c) = collect_ok c" "agg (note_status r c) i = agg c i"
  by (auto simp: note_status_def collect_ok_def agg_def cong: option.case_cong)

lemma note_metrics_agg:
  assumes "collect_ok c" "\<forall>m. sr_Metrics r = Some m \<longrightarrow> map_wf (mt_StepMetrics m)"
  shows "collect_ok (note_metrics known r c) \<and> agg (note_metrics known r c) i = receives (agg c i) (sr_Metrics r) i"
proof (cases "sr_Metrics r")
  case (Some m)
  let ?j = "length (c_objects c)"
  define c2 where "c2 = c\<lparr>c_objects := c_objects c @ [m], c_iterations := wrap64 (c_iterations c + sr_Iterations r),
    c_slaves := (if known then AList.update (sr_SlaveID r) ?j (c_slaves c) else c_slaves c)\<rparr>"
  have eq: "note_metrics known r c = foldl (merge_step ?j) c2 (map fst (mt_StepMetrics m))"
    by (simp add: note_metrics_def Some c2_def Let_def)
  have ok: "collect_ok c2"
    using assms(1) by (auto simp: c2_def collect_ok_def object_step_def nth_append less_SucI split: if_splits)
  have ag: "agg c2 i = agg c i" for i unfolding c2_def by (rule agg_append [OF assms(1)])
  have obj: "object_step (c_objects c2) ?j i = map_of (mt_StepMetrics m) i" for i
    by (simp add: c2_def object_step_append)
  have "\<forall>i \<in> set (map fst (mt_StepMetrics m)). object_step (c_objects c2) ?j i \<noteq> None \<and> map_of (c_steps c2) i \<noteq> Some ?j"
    unfolding obj using assms(1) by (auto simp: c2_def collect_ok_def map_of_eq_None_iff)
  moreover have "distinct (map fst (mt_StepMetrics m))" using assms(2) Some by (simp add: map_wf_def)
  moreover have "i \<in> set (map fst (mt_StepMetrics m)) \<longleftrightarrow> map_of (mt_StepMetrics m) i \<noteq> None"
    by (simp add: map_of_eq_None_iff)
  ultimately show ?thesis
    unfolding eq using merge_steps_agg [OF ok, of "map fst (mt_StepMetrics m)" ?j i] Some
    by (cases "map_of (mt_StepMetrics m) i") (simp_all add: receives_def obj ag)
qed (simp add: note_metrics_def receives_def assms(1))

lemma dist_receive_agg:
  assumes "collect_ok c" "\<forall>m. sr_Metrics r = Some m \<longrightarrow> map_wf (mt_StepMetrics m)"
  shows "collect_ok (fst (dist_receive r (c, x))) \<and> agg (fst (dist_receive r (c, x))) i = receives (agg c i) (sr_Metrics r) i"
  using note_metrics_agg [of "note_status r c" r] assms by (simp add: dist_receive_def Let_def note_status_agg)

lemma merge_steps_flags:
  "c_hasError (foldl (merge_step j) c is) = c_hasError c \<and> c_allCompleted (foldl (merge_step j) c is) = c_allCompleted c \<and>
     c_iterations (foldl (merge_step j) c is) = c_iterations c"
  by (induction "is" arbitrary: c) (simp_all add: merge_step_def split: option.splits)

lemma dist_receive_flags:
  "c_hasError (fst (dist_receive r cx)) \<longleftrightarrow> c_hasError (fst cx) \<or> sr_Status r = ExecutionStatusFailed"
  "c_allCompleted (fst (dist_receive r cx)) \<longleftrightarrow> c_allCompleted (fst cx) \<and> sr_Status r = ExecutionStatusCompleted"
  "c_iterations (fst (dist_receive r cx)) =
     (if sr_Metrics r = None then c_iterations (fst cx) else wrap64 (c_iterations (fst cx) + sr_Iterations r))"
  by (auto simp: dist_receive_def Let_def note_metrics_def note_status_def merge_steps_flags execution_status_defs
      split: option.splits)

lemma dist_receive_x:
  "x_ID (snd (dist_receive r cx)) = x_ID (snd cx)" "x_Status (snd (dist_receive r cx)) = x_Status (snd cx)"
  "x_EndTime (snd (dist_receive r cx)) = x_EndTime (snd cx)" "x_Errors (snd (dist_receive r cx)) = x_Errors (snd cx)"
  "map fst (x_SlaveStates (snd (dist_receive r cx))) = map fst (x_SlaveStates (snd cx))"
  by (auto simp: dist_receive_def Let_def show_objects_def comp_def case_prod_beta update_Some_keys split: option.splits)

lemma dist_collect_Nil: "dist_collect [] x = (collect_start, x)"
  by (simp add: dist_collect_def)

lemma dist_collect_snoc: "dist_collect (rs @ [r]) x = dist_receive r (dist_collect rs x)"
  by (simp add: dist_collect_def)

lemma dist_collect_flags:
  "c_hasError (fst (dist_collect rs x)) \<longleftrightarrow> (\<exists>r \<in> set rs. sr_Status r = ExecutionStatusFailed)"
  "c_allCompleted (fst (dist_collect rs x)) \<longleftrightarrow> (\<forall>r \<in> set rs. sr_Status r = ExecutionStatusCompleted)"
  "c_iterations (fst (dist_collect rs x)) = wrap64 (sum_list (map sr_Iterations (filter (\<lambda>r. sr_Metrics r \<noteq> None) rs)))"
  by (induction rs rule: rev_induct)
    (auto simp: dist_collect_Nil dist_collect_snoc dist_receive_flags collect_start_def go_wrap)

definition result_steps :: "slave_result list \<Rightarrow> gostring \<Rightarrow> step_metrics list" where
  "result_steps rs i = List.map_filter (\<lambda>r. Option.bind (sr_Metrics r) (\<lambda>m. map_of (mt_StepMetrics m) i)) rs"

definition results_wf :: "slave_result list \<Rightarrow> bool" where
  "results_wf rs \<longleftrightarrow> (\<forall>r \<in> set rs. \<forall>m. sr_Metrics r = Some m \<longrightarrow> map_wf (mt_StepMetrics m))"

lemma result_steps_snoc:
  "result_steps (rs @ [r]) i = result_steps rs i @
     (case sr_Metrics r of None \<Rightarrow> [] | Some m \<Rightarrow> (case map_of (mt_StepMetrics m) i of None \<Rightarrow> [] | Some n \<Rightarrow> [n]))"
  by (simp add: result_steps_def List.map_filter_def split: option.splits)

definition counts_of :: "step_metrics \<Rightarrow> int \<times> int \<times> int" where
  "counts_of m = (wrap64 (m_Count m), wrap64 (m_SuccessCount m), wrap64 (m_FailureCount m))"

definition count_sums :: "step_metrics list \<Rightarrow> int \<times> int \<times> int" where
  "count_sums ms = (wrap64 (sum_list (map m_Count ms)), wrap64 (sum_list (map m_SuccessCount ms)), wrap64 (sum_list (map m_FailureCount ms)))"

lemma wrap64_idem [simp]: "wrap64 (wrap64 i) = wrap64 i"
  by (rule wrap64_id) simp

lemma merged_counts:
  assumes "old = None \<longleftrightarrow> ms = []" "\<And>m. old = Some m \<Longrightarrow> counts_of m = count_sums ms"
  shows "counts_of (merged old n) = count_sums (ms @ [n])"
proof (cases old)
  case None
  then show ?thesis using assms(1) by (simp add: merged_def counts_of_def count_sums_def)
next
  case (Some m)
  then have "wrap64 (m_Count m) = wrap64 (sum_list (map m_Count ms))"
    "wrap64 (m_SuccessCount m) = wrap64 (sum_list (map m_SuccessCount ms))"
    "wrap64 (m_FailureCount m) = wrap64 (sum_list (map m_FailureCount ms))"
    using assms(2) by (simp_all add: counts_of_def count_sums_def)
  then show ?thesis using Some
    by (simp add: merged_def counts_of_def count_sums_def add_counts_def) (metis wrap64_add_left)
qed

lemma dist_collect_agg:
  assumes "results_wf rs"
  shows "collect_ok (fst (dist_collect rs x)) \<and>
    (agg (fst (dist_collect rs x)) i = None \<longleftrightarrow> result_steps rs i = []) \<and>
    (\<forall>m. agg (fst (dist_collect rs x)) i = Some m \<longrightarrow> counts_of m = count_sums (result_steps rs i))"
  using assms
proof (induction rs rule: rev_induct)
  case Nil
  show ?case by (simp add: dist_collect_Nil collect_start_def collect_ok_def agg_def result_steps_def List.map_filter_def)
next
  case (snoc r rs)
  obtain c y where cy: "dist_collect rs x = (c, y)" by fastforce
  have IH: "collect_ok c" "agg c i = None \<longleftrightarrow> result_steps rs i = []" "\<And>m. agg c i = Some m \<Longrightarrow> counts_of m = count_sums (result_steps rs i)"
    using snoc by (simp_all add: results_wf_def cy)
  have wf: "\<forall>m. sr_Metrics r = Some m \<longrightarrow> map_wf (mt_StepMetrics m)" using snoc.prems by (simp add: results_wf_def)
  show ?case
    using dist_receive_agg [OF IH(1) wf, of y i] IH(2,3) merged_counts [OF IH(2,3)]
    by (auto simp: dist_collect_snoc cy result_steps_snoc receives_def split: option.splits)
qed

lemma map_of_aggregated_steps: "map_wf (c_steps c) \<Longrightarrow> map_of (aggregated_steps c) i = agg c i"
proof -
  have key: "map_of (List.map_filter (\<lambda>(i, k). map_option (\<lambda>m. (i, m)) (f k i)) kvs) i =
      (case map_of kvs i of None \<Rightarrow> None | Some k \<Rightarrow> f k i)" if "map_wf kvs" for kvs :: "(gostring, nat) gomap" and f :: "nat \<Rightarrow> gostring \<Rightarrow> step_metrics option"
    using that
  proof (induction kvs)
    case (Cons kv kvs)
    obtain j k where kv: "kv = (j, k)" by fastforce
    have "map_of kvs j = None" using Cons.prems by (auto simp: kv map_wf_def map_of_eq_None_iff)
    then show ?case using Cons by (cases "f k j") (auto simp: kv List.map_filter_def map_wf_def)
  qed (simp add: List.map_filter_def)
  assume "map_wf (c_steps c)"
  from key [OF this, of "object_step (c_objects c)"] show ?thesis by (simp add: aggregated_steps_def agg_def)
qed

subsection \<open>Properties of distributed executions\<close>

definition dist_outcome :: "execution_options \<Rightarrow> int \<Rightarrow> slave_result list \<Rightarrow> execution_state \<Rightarrow> execution_state" where
  "dist_outcome opts now rs x = (case dist_collect rs x of (c, y) \<Rightarrow> dist_finish opts now c y)"

text \<open>A distributed execution ends failed when a slave failed, completed when every slave
  completed, and aborted otherwise, in whatever order the results arrive; the end time is set and
  the iterations of the slaves that reported metrics are added up.\<close>

theorem distributed_status:
  "x_Status (dist_outcome opts now rs x) =
     (if \<exists>r \<in> set rs. sr_Status r = ExecutionStatusFailed then ExecutionStatusFailed
      else if \<forall>r \<in> set rs. sr_Status r = ExecutionStatusCompleted then ExecutionStatusCompleted
      else ExecutionStatusAborted) \<and>
   x_EndTime (dist_outcome opts now rs x) = Some now \<and>
   map_option ag_TotalIterations (x_AggregatedMetrics (dist_outcome opts now rs x)) =
     Some (wrap64 (sum_list (map sr_Iterations (filter (\<lambda>r. sr_Metrics r \<noteq> None) rs))))"
  using dist_collect_flags [of rs x]
  by (auto simp: dist_outcome_def dist_finish_def Let_def split: prod.splits)

definition sample_execution :: execution_state where
  "sample_execution = \<lparr>x_ID = ''e1'', x_WorkflowID = ''w'', x_Status = ExecutionStatusRunning, x_StartTime = 0, x_EndTime = None,
     x_Progress = F_Fin False 0,
     x_SlaveStates = map (\<lambda>i. (i, \<lparr>ss_SlaveID = i, ss_Status = ExecutionStatusPending,
       ss_Segment = \<lparr>seg_Start = F_Fin False 0, seg_End = F_Fin False 1\<rparr>, ss_CompletedVUs = 0, ss_CompletedIters = 0,
       ss_CurrentMetrics = None\<rparr>)) [''s1'', ''s2''],
     x_AggregatedMetrics = None, x_Errors = []\<rparr>"

definition sample_result :: "gostring \<Rightarrow> int \<Rightarrow> slave_result" where
  "sample_result i n = executeTaskLocally (Engine_Result \<lparr>tr_TaskID = ''t'', tr_ExecutionID = ''e1'', tr_SlaveID = i, tr_Status = ExecutionStatusCompleted,
     tr_Metrics = Some \<lparr>mt_Timestamp = 0, mt_StepMetrics = [(''a'', sample_step ''a'' n n None)], mt_SystemMetrics = None\<rparr>,
     tr_Errors = [], tr_Iterations = n\<rparr>) i"

theorem distributed_status_witness:
  "x_Status (dist_outcome default_options 9 [executeTaskLocally (Engine_Error ''boom'') ''s1'', sample_result ''s2'' 3] sample_execution) =
     ExecutionStatusFailed"
  using distributed_status [of default_options 9 "[executeTaskLocally (Engine_Error ''boom'') ''s1'', sample_result ''s2'' 3]" sample_execution]
  by (simp add: executeTaskLocally_def)

text \<open>(C32) The aggregated metrics of a distributed execution have a step exactly when some slave
  reported it, and its counts are the sums of the reported counts, modulo wrap-around, whatever the
  order of the results.\<close>

theorem distributed_counts:
  assumes "results_wf rs"
  shows "\<exists>a. x_AggregatedMetrics (dist_outcome opts now rs x) = Some a \<and>
    (case map_of (ag_StepMetrics a) i of
       None \<Rightarrow> result_steps rs i = []
     | Some m \<Rightarrow> result_steps rs i \<noteq> [] \<and> counts_of m = count_sums (result_steps rs i))"
proof -
  obtain c y where cy: "dist_collect rs x = (c, y)" by fastforce
  have "collect_ok c" "agg c i = None \<longleftrightarrow> result_steps rs i = []" "\<forall>m. agg c i = Some m \<longrightarrow> counts_of m = count_sums (result_steps rs i)"
    using dist_collect_agg [OF assms, of x i] by (simp_all add: cy)
  then show ?thesis
    by (auto simp: dist_outcome_def cy dist_finish_def Let_def map_of_aggregated_steps collect_ok_def split: option.splits)
qed

lemma sample_results_wf: "results_wf [sample_result ''s1'' 10, sample_result ''s2'' 30]"
  by (simp add: results_wf_def sample_result_def executeTaskLocally_def map_wf_def)

theorem distributed_counts_witness:
  "results_wf [sample_result ''s1'' 10, sample_result ''s2'' 30] \<and>
   (\<exists>a. x_AggregatedMetrics (dist_outcome default_options 9 [sample_result ''s1'' 10, sample_result ''s2'' 30] sample_execution) = Some a \<and>
      (case map_of (ag_StepMetrics a) ''a'' of None \<Rightarrow> False | Some m \<Rightarrow> counts_of m = (40, 40, 0)))"
proof -
  have s: "result_steps [sample_result ''s1'' 10, sample_result ''s2'' 30] ''a'' \<noteq> []"
    "count_sums (result_steps [sample_result ''s1'' 10, sample_result ''s2'' 30] ''a'') = (40, 40, 0)"
    by code_simp+
  show ?thesis
    using sample_results_wf distributed_counts [OF sample_results_wf, of default_options 9 sample_execution "''a''"] s
    by (auto split: option.splits)
qed

text \<open>Merging writes into the metrics of the slave that reported a step first: after the results of
  two slaves with 10 and 30 executions of a step, the state of the first slave shows 40.\<close>

theorem first_slave_metrics_overwritten:
  "map_option (\<lambda>ss. map_option (\<lambda>m. map_option m_Count (map_of (mt_StepMetrics m) ''a'')) (ss_CurrentMetrics ss))
     (map_of (x_SlaveStates (dist_outcome default_options 9 [sample_result ''s1'' 10, sample_result ''s2'' 30] sample_execution)) ''s1'') =
   Some (Some (Some 40)) \<and>
   sr_Metrics (sample_result ''s1'' 10) \<noteq> None"
  by code_simp

text \<open>With the statuses that the task engine returns, a distributed execution never ends aborted,
  although it was stopped.\<close>

theorem distributed_never_aborted:
  assumes "\<forall>(out, i) \<in> set outs. engine_ok out"
  shows "x_Status (dist_outcome opts now (map (\<lambda>(out, i). executeTaskLocally out i) outs) x) \<in>
    {ExecutionStatusCompleted, ExecutionStatusFailed}"
proof -
  have "sr_Status (executeTaskLocally out i) \<in> {ExecutionStatusCompleted, ExecutionStatusFailed}" if "(out, i) \<in> set outs" for out i
    using assms that by (auto simp: engine_ok_def executeTaskLocally_def split: engine_outcome.splits)
  then have "sr_Status r \<in> {ExecutionStatusCompleted, ExecutionStatusFailed}"
    if "r \<in> set (map (\<lambda>(out, i). executeTaskLocally out i) outs)" for r
    using that by auto
  then show ?thesis
    using dist_collect_flags [of "map (\<lambda>(out, i). executeTaskLocally out i) outs" x]
    by (force simp: dist_outcome_def dist_finish_def Let_def split: prod.splits)
qed

theorem distributed_never_aborted_witness:
  "(\<forall>(out, i) \<in> set [(Engine_Error ''context canceled'', ''s1'')]. engine_ok out) \<and>
   x_Status (dist_outcome default_options 9 (map (\<lambda>(out, i). executeTaskLocally out i) [(Engine_Error ''context canceled'', ''s1'')])
     sample_execution) \<in> {ExecutionStatusCompleted, ExecutionStatusFailed}"
proof -
  have h: "\<forall>(out, i) \<in> set [(Engine_Error ''context canceled'', ''s1'')]. engine_ok out" by (simp add: engine_ok_def)
  show ?thesis using h distributed_never_aborted [OF h] by blast
qed

end
