(* ===== verification/Master.thy ===== *)
theory Master
  imports Execution
begin

text \<open>
  The master node of \<^verbatim>\<open>internal/master/master.go\<close>: its life cycle, the submission and control of
  executions, and the health check of the slaves.  An execution is a record with the program
  counter of its goroutine; the step relation interleaves the calls of clients with the critical
  sections of these goroutines.  The channels for pausing and resuming have no receiver anywhere,
  so that the sends to them always take the default branch.  Execution IDs come from a generator of
  unique IDs and are arguments here, as is the clock.
\<close>

subsection \<open>State\<close>

record config =
  cf_ID :: gostring
  cf_Address :: gostring
  cf_HeartbeatTimeout :: int
  cf_HealthCheckInterval :: int
  cf_StandaloneMode :: bool
  cf_MaxConcurrentExecutions :: int

definition DefaultConfig :: "gostring \<Rightarrow> config" where
  "DefaultConfig uuid = \<lparr>cf_ID = uuid, cf_Address = '':8080'', cf_HeartbeatTimeout = 30 * Second,
     cf_HealthCheckInterval = 10 * Second, cf_StandaloneMode = False, cf_MaxConcurrentExecutions = 100\<rparr>"

datatype master_state = MasterStateStarting | MasterStateRunning | MasterStateStopping | MasterStateStopped

text \<open>Where the goroutine of an execution is: not yet scheduled, scheduling failed, about to run,
  in the loop of a local execution, distributing (the slaves whose workers have not started, those
  that are running, and the collected results), or finished.\<close>

datatype run_pc =
    P_Submitted
  | P_Unscheduled
  | P_Start
  | P_Local
  | P_Dist "gostring list" "gostring list" collect
  | P_Done

record exec_info =
  ei_ID :: gostring
  ei_Workflow :: workflow
  ei_State :: execution_state
  ei_Plan :: "execution_plan option"
  ei_StartTime :: int
  ei_EndTime :: "int option"
  ei_stopClosed :: bool
  ei_pc :: run_pc

record master =
  m_config :: config
  m_executions :: "(gostring, exec_info) gomap"
  m_executionCount :: int
  m_state :: master_state
  m_started :: bool
  m_stopOnce :: bool
  m_stoppedClosed :: bool
  m_healthRunning :: bool
  m_taskAssigner :: bool

datatype master_error =
    AlreadyStarted
  | WorkflowIsNil
  | NotStarted
  | LimitReached int
  | SchedulingFailed exec_message
  | ExecutionNotFound gostring
  | NotRunningOrPaused execution_status
  | NotRunning execution_status
  | NotPaused execution_status
  | NegativeVUs int
  | CloseOfClosedChannel

definition NewWorkflowMaster :: "gostring \<Rightarrow> config option \<Rightarrow> master" where
  "NewWorkflowMaster uuid cfg =
     \<lparr>m_config = (case cfg of None \<Rightarrow> DefaultConfig uuid | Some c \<Rightarrow> c), m_executions = [], m_executionCount = 0,
      m_state = MasterStateStopped, m_started = False, m_stopOnce = False, m_stoppedClosed = False, m_healthRunning = False,
      m_taskAssigner = False\<rparr>"

text \<open>Whether a task assigner is set.  A worker goroutine asks it to send the task, and executes the task
  locally in any case, whether it answers with an error, without one, or is not set.\<close>

definition SetTaskAssigner :: "bool \<Rightarrow> master \<Rightarrow> master" where
  "SetTaskAssigner assigner m = m\<lparr>m_taskAssigner := assigner\<rparr>"

definition set_execution :: "exec_info \<Rightarrow> master \<Rightarrow> master" where
  "set_execution e m = m\<lparr>m_executions := AList.update (ei_ID e) e (m_executions m)\<rparr>"

subsection \<open>Life cycle\<close>

definition Start :: "master \<Rightarrow> (master_error + unit) \<times> master" where
  "Start m =
     (if m_started m then (Inl AlreadyStarted, m)
      else (Inr (), m\<lparr>m_state := MasterStateRunning, m_started := True, m_healthRunning := True\<rparr>))"

text \<open>The loop of \<^verbatim>\<open>Stop\<close> over the executions: closing a channel that is already closed panics.\<close>

fun stop_loop :: "gostring list \<Rightarrow> master \<Rightarrow> (master_error + unit) \<times> master" where
  "stop_loop [] m = (Inr (), m)"
| "stop_loop (i # is) m =
     (case map_of (m_executions m) i of
        None \<Rightarrow> stop_loop is m
      | Some e \<Rightarrow>
          if x_Status (ei_State e) = ExecutionStatusRunning
          then if ei_stopClosed e then (Inl CloseOfClosedChannel, m)
               else stop_loop is (set_execution (e\<lparr>ei_stopClosed := True\<rparr>) m)
          else stop_loop is m)"

definition Stop :: "(gostring list \<Rightarrow> gostring list) \<Rightarrow> master \<Rightarrow> (master_error + unit) \<times> master" where
  "Stop ord m =
     (if m_stopOnce m then (Inr (), m)
      else case stop_loop (ord (map fst (m_executions m)))
                  (m\<lparr>m_stopOnce := True, m_state := MasterStateStopping, m_healthRunning := False\<rparr>) of
             (Inl e, m') \<Rightarrow> (Inl e, m')
           | (Inr _, m') \<Rightarrow> (Inr (), m'\<lparr>m_state := MasterStateStopped, m_started := False, m_stoppedClosed := True\<rparr>))"

definition GetState :: "master \<Rightarrow> master_state" where
  "GetState m = m_state m"

definition IsRunning :: "master \<Rightarrow> bool" where
  "IsRunning m = (m_started m \<and> GetState m = MasterStateRunning)"

definition GetExecutionCount :: "master \<Rightarrow> int" where
  "GetExecutionCount m = m_executionCount m"

subsection \<open>Submission\<close>

definition wrap32 :: "int \<Rightarrow> int" where
  "wrap32 i = (i + 2 ^ 31) mod 2 ^ 32 - 2 ^ 31"

definition submit_check :: "workflow option \<Rightarrow> master \<Rightarrow> master_error + workflow" where
  "submit_check workflow m =
     (case workflow of
        None \<Rightarrow> Inl WorkflowIsNil
      | Some w \<Rightarrow>
          if \<not> m_started m then Inl NotStarted
          else if m_executionCount m \<ge> cf_MaxConcurrentExecutions (m_config m)
          then Inl (LimitReached (cf_MaxConcurrentExecutions (m_config m)))
          else Inr w)"

definition new_execution :: "gostring \<Rightarrow> int \<Rightarrow> workflow \<Rightarrow> exec_info" where
  "new_execution i now w =
     \<lparr>ei_ID = i, ei_Workflow = w,
      ei_State = \<lparr>x_ID = i, x_WorkflowID = wf_ID w, x_Status = ExecutionStatusPending, x_StartTime = now, x_EndTime = None,
        x_Progress = F_Fin False 0, x_SlaveStates = [], x_AggregatedMetrics = None, x_Errors = []\<rparr>,
      ei_Plan = None, ei_StartTime = now, ei_EndTime = None, ei_stopClosed = False, ei_pc = P_Submitted\<rparr>"

definition submit_store :: "gostring \<Rightarrow> int \<Rightarrow> workflow \<Rightarrow> master \<Rightarrow> master" where
  "submit_store i now w m =
     (set_execution (new_execution i now w) m)\<lparr>m_executionCount := wrap32 (m_executionCount m + 1)\<rparr>"

definition use_local :: "config \<Rightarrow> workflow \<Rightarrow> bool" where
  "use_local cfg w =
     (cf_StandaloneMode cfg \<or>
      (case opt_TargetSlaves (wf_Options w) of
         None \<Rightarrow> False
       | Some sel \<Rightarrow> sel_Mode sel = SelectionModeLocal))"

definition local_slave :: slave_info where
  "local_slave = \<lparr>s_ID = ''local'', s_Type = SlaveTypeWorker, s_Address = ''localhost'',
     s_Capabilities = [''http_executor'', ''script_executor''], s_Labels = None, s_Resources = None\<rparr>"

definition plan_slave_state :: "slave_assignment \<Rightarrow> slave_execution_state" where
  "plan_slave_state a = \<lparr>ss_SlaveID = as_SlaveID a, ss_Status = ExecutionStatusPending, ss_Segment = as_Segment a,
     ss_CompletedVUs = 0, ss_CompletedIters = 0, ss_CurrentMetrics = None\<rparr>"

definition scheduleExecution ::
  "slave_order \<Rightarrow> tie_order \<Rightarrow> 's registry_ops \<Rightarrow> 's \<Rightarrow> config \<Rightarrow> exec_info \<Rightarrow> exec_message + exec_info" where
  "scheduleExecution ord tie ops s cfg e =
     (let w = ei_Workflow e;
          selected = (if use_local cfg w then Inr [local_slave]
                      else SelectSlaves ord tie ops s
                             (case opt_TargetSlaves (wf_Options w) of None \<Rightarrow> Some auto_selector | Some sel \<Rightarrow> Some sel)) in
      case selected of
        Inl err \<Rightarrow> Inl (Msg_SelectFailed err)
      | Inr slaves \<Rightarrow>
          if slaves = [] then Inl Msg_NoSlaves
          else case Schedule (Some w) slaves of
                 Inl err \<Rightarrow> Inl (Msg_PlanFailed err)
               | Inr plan \<Rightarrow>
                   let x = ei_State e;
                       states = foldl (\<lambda>acc a. AList.update (as_SlaveID a) (plan_slave_state a) acc)
                                  (x_SlaveStates x) (pl_Assignments plan) in
                   Inr (e\<lparr>ei_Plan := Some (plan\<lparr>pl_ExecutionID := ei_ID e\<rparr>),
                          ei_State := x\<lparr>x_SlaveStates := states, x_Status := ExecutionStatusRunning\<rparr>,
                          ei_pc := P_Start\<rparr>))"

text \<open>Scheduling, and what \<^verbatim>\<open>SubmitWorkflow\<close> does when it fails: the execution stays in the map, and the
  counter is not taken back.\<close>

definition submit_schedule ::
  "slave_order \<Rightarrow> tie_order \<Rightarrow> 's registry_ops \<Rightarrow> 's \<Rightarrow> int \<Rightarrow> exec_info \<Rightarrow> master \<Rightarrow> master_error option \<times> master" where
  "submit_schedule ord tie ops s now e m =
     (case scheduleExecution ord tie ops s (m_config m) e of
        Inr e' \<Rightarrow> (None, set_execution e' m)
      | Inl msg \<Rightarrow>
          (Some (SchedulingFailed msg),
           set_execution (e\<lparr>ei_State := (ei_State e)\<lparr>x_Status := ExecutionStatusFailed,
               x_Errors := x_Errors (ei_State e) @ [execution_error_at now msg]\<rparr>, ei_pc := P_Unscheduled\<rparr>) m))"

definition SubmitWorkflow ::
  "slave_order \<Rightarrow> tie_order \<Rightarrow> 's registry_ops \<Rightarrow> 's \<Rightarrow> gostring \<Rightarrow> int \<Rightarrow> workflow option \<Rightarrow> master \<Rightarrow>
     (gostring \<times> master_error option) \<times> master" where
  "SubmitWorkflow ord tie ops s i now workflow m =
     (case submit_check workflow m of
        Inl err \<Rightarrow> (([], Some err), m)
      | Inr w \<Rightarrow>
          let m1 = submit_store i now w m;
              (err, m2) = submit_schedule ord tie ops s now (new_execution i now w) m1
          in ((i, err), m2))"

subsection \<open>The goroutine of an execution\<close>

definition run_start :: "config \<Rightarrow> int \<Rightarrow> exec_info \<Rightarrow> exec_info" where
  "run_start cfg now e =
     (if use_local cfg (ei_Workflow e)
      then e\<lparr>ei_State := sim_start (ei_State e), ei_pc := P_Local\<rparr>
      else case ei_Plan e of
             Some p \<Rightarrow>
               if pl_Assignments p = []
               then e\<lparr>ei_State := dist_no_plan now (dist_start (ei_State e)), ei_EndTime := Some now, ei_pc := P_Done\<rparr>
               else e\<lparr>ei_State := dist_start (ei_State e), ei_pc := P_Dist (map as_SlaveID (pl_Assignments p)) [] collect_start\<rparr>
           | None \<Rightarrow> e\<lparr>ei_State := dist_no_plan now (dist_start (ei_State e)), ei_EndTime := Some now, ei_pc := P_Done\<rparr>)"

definition run_tick :: "int \<Rightarrow> int \<Rightarrow> int \<Rightarrow> (gostring, step_metrics) gomap \<Rightarrow> exec_info \<Rightarrow> exec_info" where
  "run_tick elapsed iterations vus steps e =
     e\<lparr>ei_State := sim_tick (wf_Options (ei_Workflow e)) elapsed iterations vus steps (ei_State e)\<rparr>"

definition run_abort :: "int \<Rightarrow> exec_info \<Rightarrow> exec_info" where
  "run_abort now e = e\<lparr>ei_State := sim_abort now (ei_State e), ei_EndTime := Some now, ei_pc := P_Done\<rparr>"

definition run_local_done :: "int \<Rightarrow> engine_outcome \<Rightarrow> exec_info \<Rightarrow> exec_info" where
  "run_local_done now out e =
     e\<lparr>ei_State := (case out of
          Engine_Result r \<Rightarrow> sim_result (wf_Options (ei_Workflow e)) now r (ei_State e)
        | Engine_Error err \<Rightarrow> sim_error now err (ei_State e)),
       ei_EndTime := Some now, ei_pc := P_Done\<rparr>"

definition run_worker :: "gostring \<Rightarrow> exec_info \<Rightarrow> exec_info" where
  "run_worker i e =
     (case ei_pc e of
        P_Dist todo busy c \<Rightarrow> e\<lparr>ei_State := dist_worker i (ei_State e), ei_pc := P_Dist (remove1 i todo) (busy @ [i]) c\<rparr>
      | _ \<Rightarrow> e)"

definition run_receive :: "gostring \<Rightarrow> engine_outcome \<Rightarrow> exec_info \<Rightarrow> exec_info" where
  "run_receive i out e =
     (case ei_pc e of
        P_Dist todo busy c \<Rightarrow>
          (case dist_receive (executeTaskLocally out i) (c, ei_State e) of
             (c', x) \<Rightarrow> e\<lparr>ei_State := x, ei_pc := P_Dist todo (remove1 i busy) c'\<rparr>)
      | _ \<Rightarrow> e)"

definition run_dist_done :: "int \<Rightarrow> exec_info \<Rightarrow> exec_info" where
  "run_dist_done now e =
     (case ei_pc e of
        P_Dist todo busy c \<Rightarrow>
          e\<lparr>ei_State := dist_finish (wf_Options (ei_Workflow e)) now c (ei_State e), ei_EndTime := Some now, ei_pc := P_Done\<rparr>
      | _ \<Rightarrow> e)"

text \<open>The deferred decrement when \<^verbatim>\<open>runExecution\<close> returns.\<close>

definition run_finished :: "exec_info \<Rightarrow> master \<Rightarrow> master" where
  "run_finished e m = (set_execution e m)\<lparr>m_executionCount := wrap32 (m_executionCount m - 1)\<rparr>"

subsection \<open>Control\<close>

definition GetExecutionStatus :: "master \<Rightarrow> gostring \<Rightarrow> master_error + execution_state" where
  "GetExecutionStatus m i =
     (case map_of (m_executions m) i of None \<Rightarrow> Inl (ExecutionNotFound i) | Some e \<Rightarrow> Inr (ei_State e))"

definition StopExecution :: "gostring \<Rightarrow> master \<Rightarrow> (master_error + unit) \<times> master" where
  "StopExecution i m =
     (case map_of (m_executions m) i of
        None \<Rightarrow> (Inl (ExecutionNotFound i), m)
      | Some e \<Rightarrow>
          if x_Status (ei_State e) \<noteq> ExecutionStatusRunning \<and> x_Status (ei_State e) \<noteq> ExecutionStatusPaused
          then (Inl (NotRunningOrPaused (x_Status (ei_State e))), m)
          else if ei_stopClosed e then (Inr (), m)
          else (Inr (), set_execution (e\<lparr>ei_stopClosed := True\<rparr>) m))"

definition set_status :: "execution_status \<Rightarrow> exec_info \<Rightarrow> exec_info" where
  "set_status s e = e\<lparr>ei_State := (ei_State e)\<lparr>x_Status := s\<rparr>\<rparr>"

definition PauseExecution :: "gostring \<Rightarrow> master \<Rightarrow> (master_error + unit) \<times> master" where
  "PauseExecution i m =
     (case map_of (m_executions m) i of
        None \<Rightarrow> (Inl (ExecutionNotFound i), m)
      | Some e \<Rightarrow>
          if x_Status (ei_State e) \<noteq> ExecutionStatusRunning then (Inl (NotRunning (x_Status (ei_State e))), m)
          else (Inr (), set_execution (set_status ExecutionStatusPaused e) m))"

definition ResumeExecution :: "gostring \<Rightarrow> master \<Rightarrow> (master_error + unit) \<times> master" where
  "ResumeExecution i m =
     (case map_of (m_executions m) i of
        None \<Rightarrow> (Inl (ExecutionNotFound i), m)
      | Some e \<Rightarrow>
          if x_Status (ei_State e) \<noteq> ExecutionStatusPaused then (Inl (NotPaused (x_Status (ei_State e))), m)
          else (Inr (), set_execution (set_status ExecutionStatusRunning e) m))"

definition scale_workflow :: "int \<Rightarrow> exec_info \<Rightarrow> exec_info" where
  "scale_workflow vus e =
     e\<lparr>ei_Workflow := (ei_Workflow e)\<lparr>wf_Options := (wf_Options (ei_Workflow e))\<lparr>opt_VUs := vus\<rparr>\<rparr>\<rparr>"

definition ScaleExecution :: "gostring \<Rightarrow> int \<Rightarrow> master \<Rightarrow> (master_error + unit) \<times> master" where
  "ScaleExecution i targetVUs m =
     (if targetVUs < 0 then (Inl (NegativeVUs targetVUs), m)
      else case map_of (m_executions m) i of
             None \<Rightarrow> (Inl (ExecutionNotFound i), m)
           | Some e \<Rightarrow>
               if x_Status (ei_State e) \<noteq> ExecutionStatusRunning then (Inl (NotRunning (x_Status (ei_State e))), m)
               else (Inr (), set_execution (scale_workflow targetVUs e) m))"

text \<open>The aggregator and the registry of a master may be nil; iteration over maps is in the order that an
  argument chooses.\<close>

definition GetMetrics ::
  "((gostring \<times> slave_execution_state) list \<Rightarrow> (gostring \<times> slave_execution_state) list) \<Rightarrow>
   (gostring \<Rightarrow> metrics option list \<Rightarrow> aggregated_metrics) option \<Rightarrow> master \<Rightarrow> gostring \<Rightarrow> master_error + aggregated_metrics" where
  "GetMetrics ord aggregator m i =
     (case map_of (m_executions m) i of
        None \<Rightarrow> Inl (ExecutionNotFound i)
      | Some e \<Rightarrow>
          (case x_AggregatedMetrics (ei_State e) of
             Some a \<Rightarrow> Inr a
           | None \<Rightarrow>
               (case aggregator of
                  Some f \<Rightarrow>
                    Inr (f i (map Some (List.map_filter (\<lambda>(_, ss). ss_CurrentMetrics ss) (ord (x_SlaveStates (ei_State e))))))
                | None \<Rightarrow>
                    Inr \<lparr>ag_ExecutionID = i, ag_TotalVUs = 0, ag_TotalIterations = 0, ag_Duration = 0,
                         ag_StepMetrics = [], ag_Thresholds = []\<rparr>)))"

definition GetSlaves :: "slave_order \<Rightarrow> 's registry_ops option \<Rightarrow> 's \<Rightarrow> reg_error + slave_info list" where
  "GetSlaves ord registry s = (case registry of None \<Rightarrow> Inr [] | Some ops \<Rightarrow> op_ListSlaves ops ord s None)"

definition ListExecutions :: "((gostring \<times> exec_info) list \<Rightarrow> (gostring \<times> exec_info) list) \<Rightarrow> master \<Rightarrow> execution_state list" where
  "ListExecutions ord m = map (\<lambda>(_, e). ei_State e) (ord (m_executions m))"

subsection \<open>Health check\<close>

definition expired_status :: "slave_status \<Rightarrow> slave_status" where
  "expired_status st = \<lparr>st_State = SlaveStateOffline, st_Load = F_Fin False 0, st_ActiveTasks = 0,
     st_LastSeen = st_LastSeen st, st_Metrics = None\<rparr>"

fun health_loop :: "'s registry_ops \<Rightarrow> int \<Rightarrow> int \<Rightarrow> slave_info list \<Rightarrow> 's \<Rightarrow> (reg_error + unit) \<times> 's" where
  "health_loop ops timeout now [] s = (Inr (), s)"
| "health_loop ops timeout now (slave # slaves) s =
     (case op_GetSlaveStatus ops s (s_ID slave) of
        Inl _ \<Rightarrow> health_loop ops timeout now slaves s
      | Inr None \<Rightarrow> (Inl NilDereference, s)
      | Inr (Some st) \<Rightarrow>
          if duration_between (st_LastSeen st) now > timeout
          then health_loop ops timeout now slaves (snd (op_UpdateStatus ops (s_ID slave) (Some (expired_status st)) s))
          else health_loop ops timeout now slaves s)"

definition checkSlaveHealth :: "slave_order \<Rightarrow> 's registry_ops option \<Rightarrow> config \<Rightarrow> int \<Rightarrow> 's \<Rightarrow> (reg_error + unit) \<times> 's" where
  "checkSlaveHealth ord registry cfg now s =
     (case registry of
        None \<Rightarrow> (Inr (), s)
      | Some ops \<Rightarrow>
          (case op_ListSlaves ops ord s None of
             Inl _ \<Rightarrow> (Inr (), s)
           | Inr slaves \<Rightarrow> health_loop ops (cf_HeartbeatTimeout cfg) now slaves s))"

subsection \<open>Steps\<close>

inductive master_step :: "master \<Rightarrow> master \<Rightarrow> bool" where
  ms_start: "master_step m (snd (Start m))"
| ms_stop: "reorders ord \<Longrightarrow> fst (Stop ord m) = Inr () \<Longrightarrow> master_step m (snd (Stop ord m))"
| ms_store: "map_of (m_executions m) i = None \<Longrightarrow> master_step m (submit_store i now w m)"
| ms_schedule: "map_of (m_executions m) i = Some e \<Longrightarrow> ei_pc e = P_Submitted \<Longrightarrow> reg_reachable r \<Longrightarrow> reorders ord \<Longrightarrow> reorders tie
    \<Longrightarrow> master_step m (snd (submit_schedule ord tie mem_ops r now e m))"
| ms_run_start: "map_of (m_executions m) i = Some e \<Longrightarrow> ei_pc e = P_Start \<Longrightarrow> e' = run_start (m_config m) now e \<Longrightarrow> ei_pc e' \<noteq> P_Done
    \<Longrightarrow> master_step m (set_execution e' m)"
| ms_no_plan: "map_of (m_executions m) i = Some e \<Longrightarrow> ei_pc e = P_Start \<Longrightarrow> e' = run_start (m_config m) now e \<Longrightarrow> ei_pc e' = P_Done
    \<Longrightarrow> master_step m (run_finished e' m)"
| ms_tick: "map_of (m_executions m) i = Some e \<Longrightarrow> ei_pc e = P_Local
    \<Longrightarrow> master_step m (set_execution (run_tick elapsed iterations vus steps e) m)"
| ms_abort: "map_of (m_executions m) i = Some e \<Longrightarrow> ei_pc e = P_Local \<Longrightarrow> master_step m (run_finished (run_abort now e) m)"
| ms_local_done: "map_of (m_executions m) i = Some e \<Longrightarrow> ei_pc e = P_Local \<Longrightarrow> engine_ok out
    \<Longrightarrow> master_step m (run_finished (run_local_done now out e) m)"
| ms_worker: "map_of (m_executions m) i = Some e \<Longrightarrow> ei_pc e = P_Dist todo busy c \<Longrightarrow> s \<in> set todo
    \<Longrightarrow> master_step m (set_execution (run_worker s e) m)"
| ms_receive: "map_of (m_executions m) i = Some e \<Longrightarrow> ei_pc e = P_Dist todo busy c \<Longrightarrow> s \<in> set busy \<Longrightarrow> engine_ok out
    \<Longrightarrow> master_step m (set_execution (run_receive s out e) m)"
| ms_dist_done: "map_of (m_executions m) i = Some e \<Longrightarrow> ei_pc e = P_Dist [] [] c
    \<Longrightarrow> master_step m (run_finished (run_dist_done now e) m)"
| ms_stop_execution: "master_step m (snd (StopExecution i m))"
| ms_pause: "master_step m (snd (PauseExecution i m))"
| ms_resume: "master_step m (snd (ResumeExecution i m))"
| ms_scale: "master_step m (snd (ScaleExecution i vus m))"
| ms_assigner: "master_step m (SetTaskAssigner b m)"

inductive_cases master_stepE: "master_step m m'"

inductive master_reachable :: "master \<Rightarrow> bool" where
  mr_new: "master_reachable (NewWorkflowMaster uuid cfg)"
| mr_step: "master_reachable m \<Longrightarrow> master_step m m' \<Longrightarrow> master_reachable m'"

subsection \<open>Invariant\<close>

definition active_status :: "execution_status \<Rightarrow> bool" where
  "active_status s \<longleftrightarrow> s = ExecutionStatusRunning \<or> s = ExecutionStatusPaused"

definition exec_ok :: "exec_info \<Rightarrow> bool" where
  "exec_ok e \<longleftrightarrow> x_ID (ei_State e) = ei_ID e \<and>
     (case ei_pc e of
        P_Submitted \<Rightarrow> x_Status (ei_State e) = ExecutionStatusPending \<and> x_EndTime (ei_State e) = None
      | P_Unscheduled \<Rightarrow> x_Status (ei_State e) = ExecutionStatusFailed \<and> x_EndTime (ei_State e) = None
      | P_Done \<Rightarrow> terminal (x_Status (ei_State e)) \<and> x_EndTime (ei_State e) \<noteq> None \<and> ei_EndTime e = x_EndTime (ei_State e)
      | _ \<Rightarrow> active_status (x_Status (ei_State e)) \<and> x_EndTime (ei_State e) = None)"

definition live :: "exec_info \<Rightarrow> bool" where
  "live e \<longleftrightarrow> ei_pc e \<noteq> P_Done"

definition live_count :: "master \<Rightarrow> nat" where
  "live_count m = length (filter (\<lambda>(i, e). live e) (m_executions m))"

definition master_inv :: "master \<Rightarrow> bool" where
  "master_inv m \<longleftrightarrow> map_wf (m_executions m) \<and>
     (\<forall>i e. map_of (m_executions m) i = Some e \<longrightarrow> ei_ID e = i \<and> exec_ok e) \<and>
     m_executionCount m = wrap32 (int (live_count m))"

lemma status_distinct [simp]:
  "ExecutionStatusRunning \<noteq> ExecutionStatusPaused" "ExecutionStatusPaused \<noteq> ExecutionStatusRunning"
  "ExecutionStatusPending \<noteq> ExecutionStatusRunning" "ExecutionStatusPending \<noteq> ExecutionStatusPaused"
  "ExecutionStatusFailed \<noteq> ExecutionStatusRunning" "ExecutionStatusFailed \<noteq> ExecutionStatusPaused"
  by (simp_all add: execution_status_defs)

lemma terminal_not_active: "terminal s \<Longrightarrow> s \<noteq> ExecutionStatusRunning \<and> s \<noteq> ExecutionStatusPaused \<and> s \<noteq> ExecutionStatusPending"
  by (auto simp: terminal_def execution_status_defs)

lemma wrap32_add: "wrap32 (wrap32 a + b) = wrap32 (a + b)"
proof -
  have "(a + 2 ^ 31) mod 2 ^ 32 - 2 ^ 31 + b + 2 ^ 31 = (a + 2 ^ 31) mod 2 ^ 32 + b" by simp
  then show ?thesis unfolding wrap32_def by (simp add: mod_simps algebra_simps)
qed

lemma filter_update_count:
  assumes "map_wf xs" "map_of xs k = Some old"
  shows "int (length (filter P (AList.update k v xs))) =
    int (length (filter P xs)) - (if P (k, old) then 1 else 0) + (if P (k, v) then 1 else 0)"
  using assms
proof (induction xs)
  case (Cons kv xs)
  then show ?case by (cases kv) (auto simp: map_wf_def)
qed simp

lemma filter_update_new:
  "map_of xs k = None \<Longrightarrow> int (length (filter P (AList.update k v xs))) = int (length (filter P xs)) + (if P (k, v) then 1 else 0)"
  by (induction xs) auto

lemma set_execution_fields [simp]:
  "m_executionCount (set_execution e m) = m_executionCount m" "m_config (set_execution e m) = m_config m"
  "m_state (set_execution e m) = m_state m" "m_started (set_execution e m) = m_started m"
  "m_stopOnce (set_execution e m) = m_stopOnce m"
  by (simp_all add: set_execution_def)

lemma wf_set_execution [simp]: "map_wf (m_executions m) \<Longrightarrow> map_wf (m_executions (set_execution e m))"
  by (simp add: set_execution_def)

lemma lookup_set_execution: "map_of (m_executions (set_execution e m)) i = (if i = ei_ID e then Some e else map_of (m_executions m) i)"
  by (simp add: set_execution_def update_conv')

lemma live_count_set:
  assumes "map_wf (m_executions m)" "map_of (m_executions m) (ei_ID e') = Some e"
  shows "int (live_count (set_execution e' m)) = int (live_count m) - (if live e then 1 else 0) + (if live e' then 1 else 0)"
  using filter_update_count [OF assms, of "\<lambda>(i, e). live e" e'] by (simp add: live_count_def set_execution_def)

text \<open>Replacing an execution by one that is as live as it was, and finishing one.\<close>

lemma inv_set:
  assumes "master_inv m" "map_of (m_executions m) i = Some e" "ei_ID e' = ei_ID e" "exec_ok e'" "live e' = live e"
  shows "master_inv (set_execution e' m)"
proof -
  have id: "ei_ID e = i" using assms(1,2) by (simp add: master_inv_def)
  have "live_count (set_execution e' m) = live_count m"
    using live_count_set [of m e' e] assms id by (simp add: master_inv_def split: if_splits)
  then show ?thesis using assms id
    by (auto simp: master_inv_def lookup_set_execution)
qed

lemma inv_finish:
  assumes "master_inv m" "map_of (m_executions m) i = Some e" "ei_ID e' = ei_ID e" "exec_ok e'" "live e" "\<not> live e'"
  shows "master_inv (run_finished e' m)"
proof -
  have id: "ei_ID e = i" using assms(1,2) by (simp add: master_inv_def)
  have "int (live_count (set_execution e' m)) = int (live_count m) - 1"
    using live_count_set [of m e' e] assms id by (simp add: master_inv_def)
  then have "int (live_count (run_finished e' m)) = int (live_count m) - 1"
    by (simp add: run_finished_def live_count_def)
  moreover have "m_executionCount (run_finished e' m) = wrap32 (int (live_count m) - 1)"
    using assms(1) wrap32_add [of "int (live_count m)" "-1"] by (simp add: run_finished_def master_inv_def)
  ultimately show ?thesis using assms id
    by (auto simp: master_inv_def run_finished_def lookup_set_execution)
qed

named_theorems run_defs \<open>the critical sections of the goroutine of an execution\<close>
declare run_start_def [run_defs] run_tick_def [run_defs] run_abort_def [run_defs] run_local_done_def [run_defs]
  run_worker_def [run_defs] run_receive_def [run_defs] run_dist_done_def [run_defs] sim_start_def [run_defs] sim_tick_def [run_defs]
  sim_abort_def [run_defs] sim_result_def [run_defs] sim_error_def [run_defs] dist_start_def [run_defs] dist_no_plan_def [run_defs]
  dist_worker_def [run_defs] dist_finish_def [run_defs]

lemma terminal_statuses [simp]:
  "terminal ExecutionStatusCompleted" "terminal ExecutionStatusFailed" "terminal ExecutionStatusAborted"
  "active_status ExecutionStatusRunning" "active_status ExecutionStatusPaused"
  by (simp_all add: terminal_def active_status_def)

lemma exec_ok_other_fields [simp]:
  "exec_ok (e\<lparr>ei_stopClosed := b\<rparr>) = exec_ok e" "exec_ok (scale_workflow vus e) = exec_ok e"
  "live (e\<lparr>ei_stopClosed := b\<rparr>) = live e" "live (scale_workflow vus e) = live e" "live (set_status s e) = live e"
  "ei_ID (scale_workflow vus e) = ei_ID e" "ei_ID (set_status s e) = ei_ID e"
  by (simp_all add: exec_ok_def live_def scale_workflow_def set_status_def cong: run_pc.case_cong)

lemma run_start_ok:
  assumes "exec_ok e" "ei_pc e = P_Start"
  shows "exec_ok (run_start cfg now e)" "ei_ID (run_start cfg now e) = ei_ID e" "live e"
    "ei_stopClosed (run_start cfg now e) = ei_stopClosed e"
  using assms by (auto simp: run_defs exec_ok_def live_def split: option.splits)

lemma run_tick_ok:
  assumes "exec_ok e" "ei_pc e = P_Local"
  shows "exec_ok (run_tick a b c d e)" "ei_ID (run_tick a b c d e) = ei_ID e" "live (run_tick a b c d e) = live e"
  using assms by (auto simp: run_defs exec_ok_def live_def)

lemma run_abort_ok:
  assumes "exec_ok e" "ei_pc e = P_Local"
  shows "exec_ok (run_abort now e)" "ei_ID (run_abort now e) = ei_ID e" "live e" "\<not> live (run_abort now e)"
  using assms by (auto simp: run_defs exec_ok_def live_def)

lemma run_local_done_ok:
  assumes "exec_ok e" "ei_pc e = P_Local" "engine_ok out"
  shows "exec_ok (run_local_done now out e)" "ei_ID (run_local_done now out e) = ei_ID e" "live e" "\<not> live (run_local_done now out e)"
  using assms by (auto simp: run_defs exec_ok_def live_def engine_ok_def Let_def split: engine_outcome.splits option.splits)

lemma run_worker_ok:
  assumes "exec_ok e" "ei_pc e = P_Dist todo busy c"
  shows "exec_ok (run_worker s e)" "ei_ID (run_worker s e) = ei_ID e" "live (run_worker s e) = live e"
  using assms by (auto simp: run_defs exec_ok_def live_def split: option.splits)

lemma run_receive_ok:
  assumes "exec_ok e" "ei_pc e = P_Dist todo busy c"
  shows "exec_ok (run_receive s out e)" "ei_ID (run_receive s out e) = ei_ID e" "live (run_receive s out e) = live e"
proof -
  let ?r = "executeTaskLocally out s"
  obtain c' x where r: "dist_receive ?r (c, ei_State e) = (c', x)" by fastforce
  have "x_ID x = x_ID (ei_State e)" "x_Status x = x_Status (ei_State e)" "x_EndTime x = x_EndTime (ei_State e)"
    using dist_receive_x(1-3) [of ?r "(c, ei_State e)"] by (simp_all add: r)
  then show "exec_ok (run_receive s out e)" "ei_ID (run_receive s out e) = ei_ID e" "live (run_receive s out e) = live e"
    using assms by (simp_all add: run_receive_def r exec_ok_def live_def)
qed

lemma run_dist_done_ok:
  assumes "exec_ok e" "ei_pc e = P_Dist todo busy c"
  shows "exec_ok (run_dist_done now e)" "ei_ID (run_dist_done now e) = ei_ID e" "live e" "\<not> live (run_dist_done now e)"
  using assms by (auto simp: run_defs exec_ok_def live_def Let_def)

lemma scheduled_ok:
  assumes "exec_ok e" "ei_pc e = P_Submitted" "scheduleExecution ord tie ops s cfg e = Inr e'"
  shows "exec_ok e'" "ei_ID e' = ei_ID e" "live e' = live e" "ei_pc e' = P_Start" "ei_stopClosed e' = ei_stopClosed e"
  using assms by (auto simp: scheduleExecution_def Let_def exec_ok_def live_def split: sum.splits if_splits)

lemma submit_schedule_inv:
  assumes "master_inv m" "map_of (m_executions m) i = Some e" "ei_pc e = P_Submitted"
  shows "master_inv (snd (submit_schedule ord tie ops s now e m))"
proof -
  have ok: "exec_ok e" using assms(1,2) by (simp add: master_inv_def)
  show ?thesis
  proof (cases "scheduleExecution ord tie ops s (m_config m) e")
    case (Inl msg)
    then show ?thesis unfolding submit_schedule_def
      using ok assms(3) by (simp, intro inv_set [OF assms(1,2)]) (simp_all add: exec_ok_def live_def)
  next
    case (Inr e')
    then show ?thesis unfolding submit_schedule_def
      using scheduled_ok [OF ok assms(3) Inr] by (simp, intro inv_set [OF assms(1,2)])
  qed
qed

lemma submit_store_inv:
  assumes "master_inv m" "map_of (m_executions m) i = None"
  shows "master_inv (submit_store i now w m)"
proof -
  let ?e = "new_execution i now w"
  have e: "ei_ID ?e = i" "exec_ok ?e" "live ?e" by (simp_all add: new_execution_def exec_ok_def live_def)
  have "int (live_count (submit_store i now w m)) = int (live_count m) + 1"
    using filter_update_new [OF assms(2), of "\<lambda>(i, e). live e" ?e] e
    by (simp add: submit_store_def live_count_def set_execution_def)
  moreover have "m_executionCount (submit_store i now w m) = wrap32 (int (live_count m) + 1)"
    using assms(1) wrap32_add [of "int (live_count m)" 1] by (simp add: submit_store_def master_inv_def)
  ultimately show ?thesis using assms e
    by (auto simp: master_inv_def submit_store_def lookup_set_execution)
qed

lemma control_inv:
  assumes "master_inv m"
  shows "master_inv (snd (StopExecution i m))" "master_inv (snd (PauseExecution i m))"
    "master_inv (snd (ResumeExecution i m))" "master_inv (snd (ScaleExecution i vus m))"
proof -
  have ok: "exec_ok e" if "map_of (m_executions m) i = Some e" for e using assms that by (simp add: master_inv_def)
  have pc: "exec_ok (set_status s e)" if "exec_ok e" "active_status (x_Status (ei_State e))" "active_status s" for e s
    using that terminal_not_active by (auto simp: set_status_def exec_ok_def active_status_def split: run_pc.splits)
  show "master_inv (snd (StopExecution i m))"
    using assms ok by (auto simp: StopExecution_def split: option.splits intro!: inv_set [OF assms])
  show "master_inv (snd (ScaleExecution i vus m))"
    using assms ok by (auto simp: ScaleExecution_def split: option.splits intro!: inv_set [OF assms])
  show "master_inv (snd (PauseExecution i m))"
    using assms ok pc by (auto simp: PauseExecution_def active_status_def split: option.splits intro!: inv_set [OF assms])
  show "master_inv (snd (ResumeExecution i m))"
    using assms ok pc by (auto simp: ResumeExecution_def active_status_def split: option.splits intro!: inv_set [OF assms])
qed

lemma stop_loop_inv: "master_inv m \<Longrightarrow> master_inv (snd (stop_loop is m))"
proof (induction "is" m rule: stop_loop.induct)
  case (2 i "is" m)
  show ?case
  proof (cases "map_of (m_executions m) i")
    case (Some e)
    then have "exec_ok e" using "2.prems" by (simp add: master_inv_def)
    then have "master_inv (set_execution (e\<lparr>ei_stopClosed := True\<rparr>) m)"
      by (intro inv_set [OF "2.prems" Some]) simp_all
    then show ?thesis using 2 Some by simp
  qed (use 2 in simp)
qed simp

lemma master_inv_flags [simp]:
  "master_inv (m\<lparr>m_state := a\<rparr>) = master_inv m" "master_inv (m\<lparr>m_started := b\<rparr>) = master_inv m"
  "master_inv (m\<lparr>m_stopOnce := b\<rparr>) = master_inv m" "master_inv (m\<lparr>m_healthRunning := b\<rparr>) = master_inv m"
  "master_inv (m\<lparr>m_stoppedClosed := b\<rparr>) = master_inv m" "master_inv (m\<lparr>m_taskAssigner := b\<rparr>) = master_inv m"
  by (simp_all add: master_inv_def live_count_def)

lemma Stop_inv: "master_inv m \<Longrightarrow> master_inv (snd (Stop ord m))"
  using stop_loop_inv [of "m\<lparr>m_stopOnce := True, m_state := MasterStateStopping, m_healthRunning := False\<rparr>"]
  by (auto simp: Stop_def split: prod.splits sum.splits) (metis snd_conv)+

lemma lookup_ok: "master_inv m \<Longrightarrow> map_of (m_executions m) i = Some e \<Longrightarrow> exec_ok e \<and> ei_ID e = i"
  by (simp add: master_inv_def)

lemma run_step_inv:
  assumes "master_inv m" "map_of (m_executions m) i = Some e"
  shows "ei_pc e = P_Start \<Longrightarrow> ei_pc (run_start cfg now e) \<noteq> P_Done \<Longrightarrow> master_inv (set_execution (run_start cfg now e) m)"
    and "ei_pc e = P_Start \<Longrightarrow> ei_pc (run_start cfg now e) = P_Done \<Longrightarrow> master_inv (run_finished (run_start cfg now e) m)"
    and "ei_pc e = P_Local \<Longrightarrow> master_inv (set_execution (run_tick a b c' d e) m)"
    and "ei_pc e = P_Local \<Longrightarrow> master_inv (run_finished (run_abort now e) m)"
    and "ei_pc e = P_Local \<Longrightarrow> engine_ok out \<Longrightarrow> master_inv (run_finished (run_local_done now out e) m)"
    and "ei_pc e = P_Dist todo busy c \<Longrightarrow> master_inv (set_execution (run_worker s e) m)"
    and "ei_pc e = P_Dist todo busy c \<Longrightarrow> master_inv (set_execution (run_receive s out e) m)"
    and "ei_pc e = P_Dist todo busy c \<Longrightarrow> master_inv (run_finished (run_dist_done now e) m)"
proof -
  have ok: "exec_ok e" using lookup_ok [OF assms] ..
  note set = inv_set [OF assms] and fin = inv_finish [OF assms]
  show "ei_pc e = P_Start \<Longrightarrow> ei_pc (run_start cfg now e) \<noteq> P_Done \<Longrightarrow> master_inv (set_execution (run_start cfg now e) m)"
    using run_start_ok [OF ok] by (intro set) (simp_all add: live_def)
  show "ei_pc e = P_Start \<Longrightarrow> ei_pc (run_start cfg now e) = P_Done \<Longrightarrow> master_inv (run_finished (run_start cfg now e) m)"
    using run_start_ok [OF ok] by (intro fin) (simp_all add: live_def)
  show "ei_pc e = P_Local \<Longrightarrow> master_inv (set_execution (run_tick a b c' d e) m)"
    using run_tick_ok [OF ok] by (intro set) simp_all
  show "ei_pc e = P_Local \<Longrightarrow> master_inv (run_finished (run_abort now e) m)"
    using run_abort_ok [OF ok] by (intro fin) simp_all
  show "ei_pc e = P_Local \<Longrightarrow> engine_ok out \<Longrightarrow> master_inv (run_finished (run_local_done now out e) m)"
    using run_local_done_ok [OF ok] by (intro fin) simp_all
  show "ei_pc e = P_Dist todo busy c \<Longrightarrow> master_inv (set_execution (run_worker s e) m)"
    using run_worker_ok [OF ok] by (intro set) simp_all
  show "ei_pc e = P_Dist todo busy c \<Longrightarrow> master_inv (set_execution (run_receive s out e) m)"
    using run_receive_ok [OF ok] by (intro set) simp_all
  show "ei_pc e = P_Dist todo busy c \<Longrightarrow> master_inv (run_finished (run_dist_done now e) m)"
    using run_dist_done_ok [OF ok] by (intro fin) simp_all
qed

lemma Start_inv: "master_inv m \<Longrightarrow> master_inv (snd (Start m))"
  by (simp add: Start_def)

lemma SetTaskAssigner_inv: "master_inv m \<Longrightarrow> master_inv (SetTaskAssigner b m)"
  by (simp add: SetTaskAssigner_def)

lemma master_step_inv: "master_step m m' \<Longrightarrow> master_inv m \<Longrightarrow> master_inv m'"
  by (induction rule: master_step.induct)
    (blast intro: Start_inv SetTaskAssigner_inv Stop_inv submit_store_inv submit_schedule_inv control_inv run_step_inv)+

lemma master_inv_new: "master_inv (NewWorkflowMaster uuid cfg)"
  by (simp add: master_inv_def NewWorkflowMaster_def live_count_def wrap32_def)

lemma master_reachable_inv: "master_reachable m \<Longrightarrow> master_inv m"
  by (induction rule: master_reachable.induct) (auto intro: master_inv_new master_step_inv)

subsection \<open>Finished executions\<close>

lemma not_terminal_of_pc:
  assumes "exec_ok e" "ei_pc e \<noteq> P_Done" "ei_pc e \<noteq> P_Unscheduled"
  shows "\<not> terminal (x_Status (ei_State e))"
  using assms terminal_not_active by (auto simp: exec_ok_def active_status_def split: run_pc.splits)

definition keeps_state :: "master \<Rightarrow> master \<Rightarrow> gostring \<Rightarrow> bool" where
  "keeps_state m m' i \<longleftrightarrow>
     map_option (\<lambda>e. (ei_State e, ei_pc e)) (map_of (m_executions m') i) =
     map_option (\<lambda>e. (ei_State e, ei_pc e)) (map_of (m_executions m) i)"

lemma keeps_other:
  assumes "master_inv m" "map_of (m_executions m) j = Some e2" "ei_ID e' = ei_ID e2" "i \<noteq> j"
  shows "keeps_state m (set_execution e' m) i" "keeps_state m (run_finished e' m) i"
  using assms lookup_ok [OF assms(1,2)] by (simp_all add: keeps_state_def run_finished_def lookup_set_execution)

lemma stop_loop_keeps: "master_inv m \<Longrightarrow> keeps_state m (snd (stop_loop is m)) i"
proof (induction "is" m rule: stop_loop.induct)
  case (2 j "is" m)
  show ?case
  proof (cases "map_of (m_executions m) j")
    case (Some e)
    let ?m = "set_execution (e\<lparr>ei_stopClosed := True\<rparr>) m"
    have "exec_ok e" "ei_ID e = j" using lookup_ok [OF "2.prems" Some] by simp_all
    then have "master_inv ?m" "keeps_state m ?m i"
      using Some by (auto intro!: inv_set [OF "2.prems" Some] simp: keeps_state_def lookup_set_execution)
    then show ?thesis using 2 Some by (auto simp: keeps_state_def)
  qed (use 2 in simp)
qed (simp add: keeps_state_def)

lemma Stop_keeps: "master_inv m \<Longrightarrow> keeps_state m (snd (Stop ord m)) i"
  using stop_loop_keeps [of "m\<lparr>m_stopOnce := True, m_state := MasterStateStopping, m_healthRunning := False\<rparr>" "ord (map fst (m_executions m))" i]
  by (auto simp: Stop_def keeps_state_def split: prod.splits sum.splits) 

lemma control_keeps:
  assumes "master_inv m" "map_of (m_executions m) i = Some e" "terminal (x_Status (ei_State e))"
  shows "keeps_state m (snd (StopExecution j m)) i" "keeps_state m (snd (PauseExecution j m)) i"
    "keeps_state m (snd (ResumeExecution j m)) i" "keeps_state m (snd (ScaleExecution j vus m)) i"
  using assms terminal_not_active [OF assms(3)]
  by (auto simp: StopExecution_def PauseExecution_def ResumeExecution_def ScaleExecution_def keeps_state_def lookup_set_execution
      dest: lookup_ok split: option.splits)

lemma schedule_ID:
  assumes "exec_ok e" "ei_pc e = P_Submitted"
  shows "\<exists>e'. snd (submit_schedule ord tie ops s now e m) = set_execution e' m \<and> ei_ID e' = ei_ID e"
proof (cases "scheduleExecution ord tie ops s (m_config m) e")
  case (Inr e')
  then show ?thesis using scheduled_ok(2) [OF assms Inr] by (auto simp: submit_schedule_def)
qed (force simp: submit_schedule_def)

lemma terminal_kept:
  assumes "master_step m m'" "master_inv m" "map_of (m_executions m) i = Some e" "terminal (x_Status (ei_State e))"
  shows "keeps_state m m' i"
proof -
  have upd: "keeps_state m (set_execution e' m) i" "keeps_state m (run_finished e' m) i"
    if "map_of (m_executions m) j = Some e2" "ei_pc e2 \<noteq> P_Done" "ei_pc e2 \<noteq> P_Unscheduled" "ei_ID e' = ei_ID e2" for j e2 e'
  proof -
    have "i \<noteq> j" using that assms(3,4) not_terminal_of_pc lookup_ok [OF assms(2) that(1)] by auto
    then show "keeps_state m (set_execution e' m) i" "keeps_state m (run_finished e' m) i"
      using keeps_other [OF assms(2) that(1,4)] by simp_all
  qed
  show ?thesis using assms(1)
  proof cases
    case ms_start
    then show ?thesis by (simp add: Start_def keeps_state_def)
  next
    case (ms_stop ord)
    then show ?thesis using Stop_keeps [OF assms(2)] by simp
  next
    case (ms_store j now w)
    then have "i \<noteq> j" using assms(3) by auto
    then show ?thesis using ms_store by (simp add: submit_store_def keeps_state_def lookup_set_execution new_execution_def)
  next
    case (ms_schedule j e2 r ord tie now)
    then obtain e' where "m' = set_execution e' m" "ei_ID e' = ei_ID e2"
      using schedule_ID lookup_ok [OF assms(2) ms_schedule(2)] by metis
    then show ?thesis using ms_schedule upd(1) [OF ms_schedule(2)] by simp
  next
    case (ms_run_start j e2 e' now)
    then show ?thesis using upd(1) [of j e2] run_start_ok(2) lookup_ok [OF assms(2) ms_run_start(2)] by simp
  next
    case (ms_no_plan j e2 e' now)
    then show ?thesis using upd(2) [of j e2] run_start_ok(2) lookup_ok [OF assms(2) ms_no_plan(2)] by simp
  next
    case (ms_tick j e2)
    then show ?thesis using upd(1) [of j e2] by (simp add: run_tick_def)
  next
    case (ms_abort j e2)
    then show ?thesis using upd(2) [of j e2] by (simp add: run_abort_def)
  next
    case (ms_local_done j e2)
    then show ?thesis using upd(2) [of j e2] by (simp add: run_local_done_def)
  next
    case (ms_worker j e2)
    then show ?thesis using upd(1) [of j e2] by (simp add: run_worker_def)
  next
    case (ms_receive j e2 todo busy c s out)
    then show ?thesis using upd(1) [of j e2] run_receive_ok(2) lookup_ok [OF assms(2) ms_receive(2)] by simp
  next
    case (ms_dist_done j e2)
    then show ?thesis using upd(2) [of j e2] by (simp add: run_dist_done_def)
  next
    case (ms_assigner b)
    then show ?thesis by (simp add: SetTaskAssigner_def keeps_state_def)
  qed (use control_keeps [OF assms(2-4)] in simp_all)
qed

subsection \<open>Every execution can finish\<close>

definition can_finish :: "master \<Rightarrow> gostring \<Rightarrow> bool" where
  "can_finish m i \<longleftrightarrow> (\<exists>m' e. master_step\<^sup>*\<^sup>* m m' \<and> map_of (m_executions m') i = Some e \<and> terminal (x_Status (ei_State e)))"

lemma can_finish_step: "master_step m m' \<Longrightarrow> can_finish m' i \<Longrightarrow> can_finish m i"
  unfolding can_finish_def by (meson converse_rtranclp_into_rtranclp)

lemma can_finish_now: "map_of (m_executions m) i = Some e \<Longrightarrow> terminal (x_Status (ei_State e)) \<Longrightarrow> can_finish m i"
  unfolding can_finish_def by blast

lemma can_finish_set:
  assumes "master_inv m" "map_of (m_executions m) i = Some e" "ei_ID e' = ei_ID e" "terminal (x_Status (ei_State e'))"
  shows "can_finish (set_execution e' m) i" "can_finish (run_finished e' m) i"
proof -
  have "map_of (m_executions (set_execution e' m)) i = Some e'" "map_of (m_executions (run_finished e' m)) i = Some e'"
    using lookup_ok [OF assms(1,2)] assms(3) by (simp_all add: run_finished_def lookup_set_execution)
  then show "can_finish (set_execution e' m) i" "can_finish (run_finished e' m) i"
    using can_finish_now assms(4) by blast+
qed

lemma lookup_same:
  "master_inv m \<Longrightarrow> map_of (m_executions m) i = Some e \<Longrightarrow> ei_ID e' = ei_ID e \<Longrightarrow> map_of (m_executions (set_execution e' m)) i = Some e'"
  using lookup_ok by (simp add: lookup_set_execution)

lemma done_terminal: "exec_ok e \<Longrightarrow> ei_pc e = P_Done \<or> ei_pc e = P_Unscheduled \<Longrightarrow> terminal (x_Status (ei_State e))"
  by (auto simp: exec_ok_def)

lemma finish_dist:
  "master_inv m \<Longrightarrow> map_of (m_executions m) i = Some e \<Longrightarrow> ei_pc e = P_Dist todo busy c \<Longrightarrow> can_finish m i"
proof (induction "2 * length todo + length busy" arbitrary: m e todo busy c rule: less_induct)
  case less
  have ok: "exec_ok e" using lookup_ok less.prems by blast
  consider (start) s where "s \<in> set todo" | (recv) s where "todo = []" "s \<in> set busy" | (fin) "todo = []" "busy = []"
    by (metis list.set_intros(1) neq_Nil_conv)
  then show ?case
  proof cases
    case start
    let ?e = "run_worker s e"
    have pc: "ei_pc ?e = P_Dist (remove1 s todo) (busy @ [s]) c" using less.prems(3) by (simp add: run_worker_def)
    have "2 * length (remove1 s todo) + length (busy @ [s]) < 2 * length todo + length busy"
    proof -
      have "length (remove1 s todo) = length todo - 1" "0 < length todo"
        using start by (auto simp: length_remove1)
      then show ?thesis by (cases todo) simp_all
    qed
    from less.hyps [OF this run_step_inv(6) [OF less.prems] lookup_same [OF less.prems(1,2) run_worker_ok(2) [OF ok less.prems(3)]] pc]
    show ?thesis by (rule can_finish_step [OF ms_worker [OF less.prems(2,3) start]])
  next
    case recv
    let ?e = "run_receive s (Engine_Error []) e"
    obtain c' where pc: "ei_pc ?e = P_Dist todo (remove1 s busy) c'"
      using less.prems(3)
      by (cases "dist_receive (executeTaskLocally (Engine_Error []) s) (c, ei_State e)") (simp add: run_receive_def)
    have "2 * length todo + length (remove1 s busy) < 2 * length todo + length busy"
      using recv(2) length_pos_if_in_set [OF recv(2)] by (simp add: length_remove1)
    from less.hyps [OF this run_step_inv(7) [OF less.prems] lookup_same [OF less.prems(1,2) run_receive_ok(2) [OF ok less.prems(3)]] pc]
    show ?thesis by (rule can_finish_step [OF ms_receive [OF less.prems(2,3) recv(2)], rotated]) (simp add: engine_ok_def)
  next
    case fin
    have pc: "ei_pc e = P_Dist [] [] c" using less.prems(3) fin by simp
    note d = run_dist_done_ok [OF ok less.prems(3)]
    have "can_finish (run_finished (run_dist_done now e) m) i" for now
      using d(1,4) by (intro can_finish_set(2) [OF less.prems(1,2) d(2)] done_terminal) (simp_all add: live_def)
    then show ?thesis by (rule can_finish_step [OF ms_dist_done [OF less.prems(2) pc]])
  qed
qed

lemma finish_local:
  assumes "master_inv m" "map_of (m_executions m) i = Some e" "ei_pc e = P_Local"
  shows "can_finish m i"
proof -
  have ok: "exec_ok e" using lookup_ok assms by blast
  have "can_finish (run_finished (run_abort 0 e) m) i"
    using run_abort_ok [OF ok assms(3)] by (intro can_finish_set(2) [OF assms(1,2)] done_terminal) (simp_all add: live_def)
  then show ?thesis by (rule can_finish_step [OF ms_abort [OF assms(2,3)]])
qed

lemma run_start_pc:
  "ei_pc (run_start cfg now e) = P_Done \<or> ei_pc (run_start cfg now e) = P_Local \<or>
     (\<exists>todo. ei_pc (run_start cfg now e) = P_Dist todo [] collect_start)"
  by (auto simp: run_start_def split: option.splits)

lemma finish_start:
  assumes "master_inv m" "map_of (m_executions m) i = Some e" "ei_pc e = P_Start"
  shows "can_finish m i"
proof -
  let ?e = "run_start (m_config m) 0 e"
  have ok: "exec_ok e" using lookup_ok assms by blast
  note e' = run_start_ok [OF ok assms(3)]
  show ?thesis
  proof (cases "ei_pc ?e = P_Done")
    case True
    then have "can_finish (run_finished ?e m) i"
      using e' by (intro can_finish_set(2) [OF assms(1,2)] done_terminal) simp_all
    then show ?thesis by (rule can_finish_step [OF ms_no_plan [OF assms(2,3) refl True]])
  next
    case False
    note inv = run_step_inv(1) [OF assms False] and look = lookup_same [OF assms(1,2) e'(2)]
    have "can_finish (set_execution ?e m) i"
      using run_start_pc [of "m_config m" 0 e] False finish_local [OF inv look] finish_dist [OF inv look] by blast
    then show ?thesis by (rule can_finish_step [OF ms_run_start [OF assms(2,3) refl False]])
  qed
qed

lemma finish_any:
  assumes "master_inv m" "map_of (m_executions m) i = Some e"
  shows "can_finish m i"
proof (cases "ei_pc e")
  case P_Submitted
  have ok: "exec_ok e" using lookup_ok assms by blast
  let ?m = "snd (submit_schedule (\<lambda>xs. xs) (\<lambda>xs. xs) mem_ops NewInMemorySlaveRegistry 0 e m)"
  have step: "master_step m ?m" by (rule ms_schedule [OF assms(2) P_Submitted reach_new]) simp_all
  note inv = submit_schedule_inv [OF assms P_Submitted]
  have "\<exists>e'. map_of (m_executions ?m) i = Some e' \<and> (ei_pc e' = P_Start \<or> ei_pc e' = P_Unscheduled)"
  proof (cases "scheduleExecution (\<lambda>xs. xs) (\<lambda>xs. xs) mem_ops NewInMemorySlaveRegistry (m_config m) e")
    case (Inl msg)
    then show ?thesis using lookup_ok [OF assms] by (simp add: submit_schedule_def lookup_set_execution)
  next
    case (Inr e')
    then show ?thesis using lookup_ok [OF assms] scheduled_ok [OF ok P_Submitted Inr]
      by (simp add: submit_schedule_def lookup_set_execution)
  qed
  then obtain e' where e': "map_of (m_executions ?m) i = Some e'" "ei_pc e' = P_Start \<or> ei_pc e' = P_Unscheduled" by blast
  have "can_finish ?m i"
    using e'(2) finish_start [OF inv e'(1)] can_finish_now [OF e'(1)] done_terminal lookup_ok [OF inv e'(1)] by blast
  then show ?thesis by (rule can_finish_step [OF step])
next
  case P_Unscheduled
  then show ?thesis using can_finish_now [OF assms(2)] done_terminal lookup_ok [OF assms] by blast
next
  case P_Done
  then show ?thesis using can_finish_now [OF assms(2)] done_terminal lookup_ok [OF assms] by blast
qed (use finish_start [OF assms] finish_local [OF assms] finish_dist [OF assms] in blast)+

subsection \<open>Properties of executions\<close>

definition sample_config :: config where
  "sample_config = (DefaultConfig ''m'')\<lparr>cf_StandaloneMode := True, cf_MaxConcurrentExecutions := 1\<rparr>"

text \<open>A started stand-alone master with one execution that is running.\<close>

definition idle_master :: master where
  "idle_master = snd (Start (NewWorkflowMaster ''m'' (Some sample_config)))"

definition busy_master :: master where
  "busy_master = snd (submit_schedule (\<lambda>xs. xs) (\<lambda>xs. xs) mem_ops NewInMemorySlaveRegistry 4 (new_execution ''e1'' 3 (empty_workflow ''w''))
     (submit_store ''e1'' 3 (empty_workflow ''w'') idle_master))"

lemma idle_reachable: "master_reachable idle_master"
  unfolding idle_master_def by (intro mr_step [OF _ ms_start] mr_new)

lemma busy_reachable: "master_reachable busy_master"
proof -
  let ?m = "submit_store ''e1'' 3 (empty_workflow ''w'') idle_master"
  have "map_of (m_executions idle_master) ''e1'' = None" by (simp add: idle_master_def Start_def NewWorkflowMaster_def)
  then have r: "master_reachable ?m" by (intro mr_step [OF idle_reachable] ms_store)
  have "map_of (m_executions ?m) ''e1'' = Some (new_execution ''e1'' 3 (empty_workflow ''w''))"
    by (simp add: submit_store_def lookup_set_execution new_execution_def)
  then show ?thesis unfolding busy_master_def
    by (intro mr_step [OF r] ms_schedule [where i = "''e1''"] reach_new) (simp_all add: new_execution_def)
qed

lemma busy_lookup: "\<exists>e. map_of (m_executions busy_master) ''e1'' = Some e \<and> x_Status (ei_State e) = ExecutionStatusRunning"
proof -
  have "map_option (\<lambda>e. x_Status (ei_State e)) (map_of (m_executions busy_master) ''e1'') = Some ExecutionStatusRunning"
    by code_simp
  then show ?thesis by auto
qed

lemma busy_not_stopped: "\<not> m_stopOnce busy_master"
  by code_simp

text \<open>(C1) In every reachable state of the master, under every interleaving of client calls with the
  goroutines of the executions, an execution is stored under its own ID, and its status agrees with
  its goroutine: pending before scheduling, running or paused while it runs, and completed, failed
  or aborted with an end time once it has returned.\<close>

theorem master_invariant:
  assumes "master_reachable m" "map_of (m_executions m) i = Some e"
  shows "ei_ID e = i \<and> x_ID (ei_State e) = i \<and>
    (ei_pc e = P_Submitted \<longrightarrow> x_Status (ei_State e) = ExecutionStatusPending) \<and>
    (ei_pc e \<in> {P_Start, P_Local} \<or> (\<exists>todo busy c. ei_pc e = P_Dist todo busy c) \<longrightarrow>
       x_Status (ei_State e) \<in> {ExecutionStatusRunning, ExecutionStatusPaused} \<and> x_EndTime (ei_State e) = None) \<and>
    (ei_pc e = P_Done \<longrightarrow>
       x_Status (ei_State e) \<in> {ExecutionStatusCompleted, ExecutionStatusFailed, ExecutionStatusAborted} \<and>
       x_EndTime (ei_State e) \<noteq> None)"
  using lookup_ok [OF master_reachable_inv [OF assms(1)] assms(2)]
  by (auto simp: exec_ok_def active_status_def terminal_def)

theorem master_invariant_witness:
  "master_reachable busy_master \<and> (\<exists>e. map_of (m_executions busy_master) ''e1'' = Some e \<and> x_ID (ei_State e) = ''e1'')"
  using busy_reachable busy_lookup master_invariant [OF busy_reachable] by blast

text \<open>(C20) Once an execution has ended, its state never changes again: no call and no goroutine can
  revive it, and it is never forgotten.\<close>

theorem ended_stays_ended:
  assumes "master_reachable m" "GetExecutionStatus m i = Inr x" "terminal (x_Status x)" "master_step\<^sup>*\<^sup>* m m'"
  shows "GetExecutionStatus m' i = Inr x"
proof -
  have "master_inv m'' \<and> GetExecutionStatus m'' i = Inr x" if "master_step\<^sup>*\<^sup>* m m''" for m''
    using that
  proof (induction rule: rtranclp_induct)
    case base
    show ?case using assms(2) master_reachable_inv [OF assms(1)] by simp
  next
    case (step y z)
    then obtain e where e: "map_of (m_executions y) i = Some e" "ei_State e = x"
      by (auto simp: GetExecutionStatus_def split: option.splits)
    have "keeps_state y z i" using terminal_kept [OF step(2) _ e(1)] step(3) e(2) assms(3) by simp
    then show ?case using step master_step_inv e
      by (auto simp: keeps_state_def GetExecutionStatus_def split: option.splits)
  qed
  then show ?thesis using assms(4) by blast
qed

definition failed_master :: master where
  "failed_master = snd (submit_schedule (\<lambda>xs. xs) (\<lambda>xs. xs) mem_ops NewInMemorySlaveRegistry 4 (new_execution ''e1'' 3 (empty_workflow ''w''))
     (submit_store ''e1'' 3 (empty_workflow ''w'')
        (snd (Start (NewWorkflowMaster ''m'' (Some (sample_config\<lparr>cf_StandaloneMode := False\<rparr>)))))))"

lemma failed_reachable: "master_reachable failed_master"
proof -
  let ?fresh = "snd (Start (NewWorkflowMaster ''m'' (Some (sample_config\<lparr>cf_StandaloneMode := False\<rparr>))))"
  let ?m = "submit_store ''e1'' 3 (empty_workflow ''w'') ?fresh"
  have r0: "master_reachable ?fresh" by (rule mr_step [OF mr_new ms_start])
  have "map_of (m_executions ?fresh) ''e1'' = None" by (simp add: Start_def NewWorkflowMaster_def)
  then have r: "master_reachable ?m" by (rule mr_step [OF r0 ms_store])
  have "map_of (m_executions ?m) ''e1'' = Some (new_execution ''e1'' 3 (empty_workflow ''w''))"
    by (simp add: submit_store_def lookup_set_execution new_execution_def)
  then show ?thesis unfolding failed_master_def
    by (intro mr_step [OF r] ms_schedule [where i = "''e1''"] reach_new) (simp_all add: new_execution_def)
qed

lemma failed_status:
  "\<exists>x. GetExecutionStatus failed_master ''e1'' = Inr x \<and> x_Status x = ExecutionStatusFailed"
proof -
  have "map_sum id x_Status (GetExecutionStatus failed_master ''e1'') = Inr ExecutionStatusFailed" by code_simp
  then show ?thesis by (cases "GetExecutionStatus failed_master ''e1''") auto
qed

theorem ended_stays_ended_witness:
  "\<exists>x. master_reachable failed_master \<and> GetExecutionStatus failed_master ''e1'' = Inr x \<and> terminal (x_Status x) \<and>
     GetExecutionStatus (snd (PauseExecution ''e1'' failed_master)) ''e1'' = Inr x"
proof -
  obtain x where x: "GetExecutionStatus failed_master ''e1'' = Inr x" "x_Status x = ExecutionStatusFailed"
    using failed_status by blast
  have t: "terminal (x_Status x)" by (simp add: x(2))
  have s: "master_step\<^sup>*\<^sup>* failed_master (snd (PauseExecution ''e1'' failed_master))"
    by (intro r_into_rtranclp ms_pause)
  show ?thesis using failed_reachable x(1) t ended_stays_ended [OF failed_reachable x(1) t s] by blast
qed



subsection \<open>Properties of the limit on executions\<close>

definition unscheduled_count :: "master \<Rightarrow> nat" where
  "unscheduled_count m = length (filter (\<lambda>(i, e). ei_pc e = P_Unscheduled) (m_executions m))"

definition running_count :: "master \<Rightarrow> nat" where
  "running_count m = length (filter (\<lambda>(i, e). ei_pc e \<noteq> P_Unscheduled \<and> ei_pc e \<noteq> P_Done) (m_executions m))"

lemma live_split: "live_count m = running_count m + unscheduled_count m"
proof -
  have "length (filter (\<lambda>(i, e). live e) xs) =
      length (filter (\<lambda>(i, e). ei_pc e \<noteq> P_Unscheduled \<and> ei_pc e \<noteq> P_Done) xs) + length (filter (\<lambda>(i, e). ei_pc e = P_Unscheduled) xs)"
    for xs :: "(gostring, exec_info) gomap"
    by (induction xs) (auto simp: live_def)
  then show ?thesis by (simp add: live_count_def running_count_def unscheduled_count_def)
qed

lemma wrap32_small: "0 \<le> n \<Longrightarrow> n < 2 ^ 31 \<Longrightarrow> wrap32 n = n"
  by (simp add: wrap32_def)

text \<open>The counter of active executions is the number of executions whose goroutine has not
  returned plus the number of those that never got one because scheduling failed: the latter are
  never given back.\<close>

theorem execution_counter:
  assumes "master_reachable m" "int (running_count m + unscheduled_count m) < 2 ^ 31"
  shows "GetExecutionCount m = int (running_count m) + int (unscheduled_count m)"
  using master_reachable_inv [OF assms(1)] wrap32_small [of "int (live_count m)"] assms(2)
  by (simp add: GetExecutionCount_def master_inv_def live_split)

theorem execution_counter_witness:
  "master_reachable failed_master \<and> int (running_count failed_master + unscheduled_count failed_master) < 2 ^ 31 \<and>
   running_count failed_master = 0 \<and> GetExecutionCount failed_master = 1"
proof -
  have c: "running_count failed_master = 0" "unscheduled_count failed_master = 1" by code_simp+
  have h: "int (running_count failed_master + unscheduled_count failed_master) < 2 ^ 31" by (simp add: c)
  show ?thesis using failed_reachable h c execution_counter [OF failed_reachable h] by simp
qed

lemma unscheduled_step:
  assumes "master_step m m'" "master_inv m" "map_of (m_executions m) i = Some e" "ei_pc e = P_Unscheduled"
  shows "\<exists>e'. map_of (m_executions m') i = Some e' \<and> ei_pc e' = P_Unscheduled"
proof -
  have "terminal (x_Status (ei_State e))" using done_terminal lookup_ok [OF assms(2,3)] assms(4) by blast
  from terminal_kept [OF assms(1-3) this] show ?thesis
    using assms(3,4) by (auto simp: keeps_state_def)
qed

lemma config_step: "master_step m m' \<Longrightarrow> m_config m' = m_config m"
proof -
  have loop: "m_config (snd (stop_loop is m)) = m_config m" for "is" m
    by (induction "is" m rule: stop_loop.induct) (auto split: option.splits)
  have stop: "m_config (snd (Stop ord m)) = m_config m" for ord m
    using loop [of "ord (map fst (m_executions m))" "m\<lparr>m_stopOnce := True, m_state := MasterStateStopping, m_healthRunning := False\<rparr>"]
    by (auto simp: Stop_def split: prod.splits sum.splits)
  assume "master_step m m'"
  then show ?thesis
    by cases (auto simp: Start_def stop submit_store_def submit_schedule_def run_finished_def StopExecution_def PauseExecution_def
        ResumeExecution_def ScaleExecution_def SetTaskAssigner_def split: sum.splits option.splits)
qed

lemma unscheduled_keys:
  assumes "map_wf xs"
  shows "length (filter (\<lambda>(i, e). P e) xs) = card {i. \<exists>e. map_of xs i = Some e \<and> P e}"
proof -
  let ?f = "filter (\<lambda>(i, e). P e) xs"
  have "distinct (map fst ?f)" using assms by (simp add: map_wf_def distinct_map_filter)
  then have "length ?f = card (set (map fst ?f))" using distinct_card [of "map fst ?f"] by simp
  also have "set (map fst ?f) = {i. \<exists>e. map_of xs i = Some e \<and> P e}"
    using assms by (force simp: map_wf_def)
  finally show ?thesis .
qed

lemma unscheduled_mono:
  assumes "master_step m m'" "master_inv m"
  shows "unscheduled_count m \<le> unscheduled_count m'"
proof -
  have wf: "map_wf (m_executions m)" "map_wf (m_executions m')"
    using assms(2) master_step_inv [OF assms] by (simp_all add: master_inv_def)
  have "finite {i. \<exists>e. map_of (m_executions m') i = Some e \<and> ei_pc e = P_Unscheduled}"
    by (rule finite_subset [OF _ finite_dom_map_of [of "m_executions m'"]]) auto
  moreover have "{i. \<exists>e. map_of (m_executions m) i = Some e \<and> ei_pc e = P_Unscheduled} \<subseteq>
      {i. \<exists>e. map_of (m_executions m') i = Some e \<and> ei_pc e = P_Unscheduled}"
    using unscheduled_step [OF assms] by blast
  ultimately show ?thesis
    unfolding unscheduled_count_def unscheduled_keys [OF wf(1)] unscheduled_keys [OF wf(2)] by (intro card_mono)
qed

text \<open>Failed submissions use up the limit for good: once as many submissions as the limit have
  failed to be scheduled, the master accepts no workflow any more, in every later state, even when
  nothing is running.\<close>

theorem failed_submissions_block:
  assumes "master_reachable m" "int (unscheduled_count m) \<ge> cf_MaxConcurrentExecutions (m_config m)"
    and "master_step\<^sup>*\<^sup>* m m'" "int (running_count m' + unscheduled_count m') < 2 ^ 31"
  shows "\<exists>err. submit_check (Some w) m' = Inl err"
proof -
  have "master_inv m'' \<and> unscheduled_count m \<le> unscheduled_count m'' \<and> m_config m'' = m_config m"
    if "master_step\<^sup>*\<^sup>* m m''" for m''
    using that
  proof (induction rule: rtranclp_induct)
    case base
    show ?case using master_reachable_inv [OF assms(1)] by simp
  next
    case (step y z)
    then show ?case using master_step_inv [OF step(2)] unscheduled_mono [OF step(2)] config_step [OF step(2)] by auto
  qed
  then have "master_inv m'" "unscheduled_count m \<le> unscheduled_count m'" "m_config m' = m_config m" using assms(3) by blast+
  then have "cf_MaxConcurrentExecutions (m_config m') \<le> m_executionCount m'"
    using assms(2,4) wrap32_small [of "int (live_count m')"] by (simp add: master_inv_def live_split)
  then show ?thesis by (simp add: submit_check_def)
qed

theorem failed_submissions_block_witness:
  "master_reachable failed_master \<and> int (unscheduled_count failed_master) \<ge> cf_MaxConcurrentExecutions (m_config failed_master) \<and>
   running_count failed_master = 0 \<and> (\<exists>err. submit_check (Some (empty_workflow ''w2'')) failed_master = Inl err)"
proof -
  have c: "running_count failed_master = 0" "unscheduled_count failed_master = 1"
    "cf_MaxConcurrentExecutions (m_config failed_master) = 1" by code_simp+
  have h: "int (unscheduled_count failed_master) \<ge> cf_MaxConcurrentExecutions (m_config failed_master)"
    "int (running_count failed_master + unscheduled_count failed_master) < 2 ^ 31" by (simp_all add: c)
  show ?thesis using failed_reachable h c(1) failed_submissions_block [OF failed_reachable h(1) rtranclp.rtrancl_refl h(2)] by blast
qed

text \<open>The limit is checked before the counter is raised: two clients that are checked one after the
  other, before either is stored, are both accepted, and the counter exceeds the limit.\<close>

theorem limit_can_be_exceeded:
  assumes "m_started m" "m_executionCount m = cf_MaxConcurrentExecutions (m_config m) - 1"
    and "0 < cf_MaxConcurrentExecutions (m_config m)" "cf_MaxConcurrentExecutions (m_config m) < 2 ^ 31 - 1"
  shows "submit_check (Some w1) m = Inr w1 \<and> submit_check (Some w2) m = Inr w2 \<and>
    GetExecutionCount (submit_store i2 now w2 (submit_store i1 now w1 m)) = cf_MaxConcurrentExecutions (m_config m) + 1"
  using assms wrap32_small [of "cf_MaxConcurrentExecutions (m_config m)"] wrap32_small [of "cf_MaxConcurrentExecutions (m_config m) + 1"]
  by (simp add: submit_check_def submit_store_def GetExecutionCount_def)

theorem limit_can_be_exceeded_witness:
  "m_started idle_master \<and> GetExecutionCount (submit_store ''e2'' 0 (empty_workflow ''w'') (submit_store ''e1'' 0 (empty_workflow ''w'') idle_master)) =
     cf_MaxConcurrentExecutions (m_config idle_master) + 1"
proof -
  have h: "m_started idle_master" "m_executionCount idle_master = cf_MaxConcurrentExecutions (m_config idle_master) - 1"
    "0 < cf_MaxConcurrentExecutions (m_config idle_master)" "cf_MaxConcurrentExecutions (m_config idle_master) < 2 ^ 31 - 1"
    by (simp_all add: idle_master_def Start_def NewWorkflowMaster_def sample_config_def)
  show ?thesis using h(1) limit_can_be_exceeded [OF h] by blast
qed

subsection \<open>Properties of the life cycle\<close>

lemma stop_loop_panics:
  assumes "master_inv m" "map_of (m_executions m) i = Some e" "x_Status (ei_State e) = ExecutionStatusRunning" "ei_stopClosed e" "i \<in> set is"
  shows "fst (stop_loop is m) = Inl CloseOfClosedChannel"
  using assms
proof (induction "is" m rule: stop_loop.induct)
  case (2 j "is" m)
  show ?case
  proof (cases "j = i")
    case True
    then show ?thesis using 2 by simp
  next
    case False
    then have i: "i \<in> set is" using "2.prems"(5) by simp
    show ?thesis
    proof (cases "map_of (m_executions m) j")
      case (Some e2)
      let ?e = "e2\<lparr>ei_stopClosed := True\<rparr>"
      have ok: "exec_ok e2" "ei_ID e2 = j" using lookup_ok [OF "2.prems"(1) Some] by simp_all
      have inv: "master_inv (set_execution ?e m)" by (rule inv_set [OF "2.prems"(1) Some]) (simp_all add: ok(1))
      have "map_of (m_executions (set_execution ?e m)) i = Some e" using False "2.prems"(2) ok by (simp add: lookup_set_execution)
      then show ?thesis using 2 Some i inv by simp
    qed (use 2 i in simp)
  qed
qed simp

text \<open>Stopping a running execution and then, before it has ended, the master, closes the stop channel
  of the execution twice: the second close panics, in whatever order the executions are visited.\<close>

theorem stop_after_stop_execution_panics:
  assumes "master_reachable m" "map_of (m_executions m) i = Some e" "x_Status (ei_State e) = ExecutionStatusRunning"
    and "\<not> m_stopOnce m" "reorders ord"
  shows "fst (StopExecution i m) = Inr () \<and> fst (Stop ord (snd (StopExecution i m))) = Inl CloseOfClosedChannel"
proof -
  note inv = master_reachable_inv [OF assms(1)]
  let ?m = "snd (StopExecution i m)"
  have id: "ei_ID e = i" using lookup_ok [OF inv assms(2)] by simp
  obtain e' where e': "map_of (m_executions ?m) i = Some e'" "x_Status (ei_State e') = ExecutionStatusRunning" "ei_stopClosed e'"
    using assms(2,3) id by (cases "ei_stopClosed e") (simp_all add: StopExecution_def lookup_set_execution)
  have once: "\<not> m_stopOnce ?m" using assms(2-4) by (simp add: StopExecution_def)
  have "i \<in> set (ord (map fst (m_executions ?m)))"
    using e'(1) by (simp add: reorders_set [OF assms(5)]) (metis domI dom_map_of_conv_image_fst)
  then have "fst (stop_loop (ord (map fst (m_executions ?m)))
      (?m\<lparr>m_stopOnce := True, m_state := MasterStateStopping, m_healthRunning := False\<rparr>)) = Inl CloseOfClosedChannel"
    using e' control_inv(1) [OF inv] by (intro stop_loop_panics [where i = i and e = e']) simp_all
  then have "fst (Stop ord ?m) = Inl CloseOfClosedChannel"
    using once by (auto simp: Stop_def split: prod.splits sum.splits)
  moreover have "fst (StopExecution i m) = Inr ()" using assms(2,3) by (simp add: StopExecution_def)
  ultimately show ?thesis by simp
qed

theorem stop_after_stop_execution_panics_witness:
  "master_reachable busy_master \<and> reorders (rev :: gostring list \<Rightarrow> gostring list) \<and>
   fst (Stop rev (snd (StopExecution ''e1'' busy_master))) = Inl CloseOfClosedChannel"
proof -
  obtain e where e: "map_of (m_executions busy_master) ''e1'' = Some e" "x_Status (ei_State e) = ExecutionStatusRunning"
    using busy_lookup by blast
  have o: "reorders (rev :: gostring list \<Rightarrow> gostring list)" by simp
  show ?thesis using busy_reachable o stop_after_stop_execution_panics [OF busy_reachable e busy_not_stopped o] by blast
qed

text \<open>A master can be started again after it was stopped, but not stopped again: the second stop
  returns without an error and leaves it running.\<close>

theorem restarted_master_cannot_stop:
  assumes "fst (Stop ord m) = Inr ()" "\<not> m_stopOnce m"
  shows "let m1 = snd (Stop ord m); m2 = snd (Start m1) in
    \<not> IsRunning m1 \<and> fst (Start m1) = Inr () \<and> IsRunning m2 \<and> Stop ord' m2 = (Inr (), m2)"
proof -
  have loop: "m_stopOnce (snd (stop_loop is m)) = m_stopOnce m" for "is" m
    by (induction "is" m rule: stop_loop.induct) (auto split: option.splits)
  obtain m' where m': "stop_loop (ord (map fst (m_executions m))) (m\<lparr>m_stopOnce := True, m_state := MasterStateStopping, m_healthRunning := False\<rparr>) = (Inr (), m')"
    using assms by (auto simp: Stop_def split: prod.splits sum.splits)
  then have "m_stopOnce m'" using loop [of "ord (map fst (m_executions m))" "m\<lparr>m_stopOnce := True, m_state := MasterStateStopping, m_healthRunning := False\<rparr>"] by simp
  then show ?thesis using assms(2) m' by (simp add: Let_def Stop_def Start_def IsRunning_def GetState_def)
qed

theorem restarted_master_cannot_stop_witness:
  "fst (Stop rev idle_master) = Inr () \<and> \<not> m_stopOnce idle_master \<and>
   Stop rev (snd (Start (snd (Stop rev idle_master)))) = (Inr (), snd (Start (snd (Stop rev idle_master))))"
proof -
  have h: "fst (Stop rev idle_master) = Inr ()" "\<not> m_stopOnce idle_master" by code_simp+
  show ?thesis using h restarted_master_cannot_stop [OF h, of rev] by (simp add: Let_def)
qed

lemma update_back: "map_of xs k = Some v \<Longrightarrow> AList.update k v (AList.update k w xs) = xs"
  by (induction xs) auto

text \<open>Pausing is possible exactly for a running execution, and resuming right after it restores
  the master to the state before.\<close>

theorem pause_resume:
  assumes "master_reachable m"
  shows "(fst (PauseExecution i m) = Inr () \<longleftrightarrow>
      (\<exists>x. GetExecutionStatus m i = Inr x \<and> x_Status x = ExecutionStatusRunning)) \<and>
    (fst (PauseExecution i m) = Inr () \<longrightarrow> ResumeExecution i (snd (PauseExecution i m)) = (Inr (), m))"
proof (cases "map_of (m_executions m) i")
  case (Some e)
  have id: "ei_ID e = i" using lookup_ok [OF master_reachable_inv [OF assms] Some] by simp
  have undo: "set_status ExecutionStatusRunning (set_status ExecutionStatusPaused e) = e" if "x_Status (ei_State e) = ExecutionStatusRunning"
    using that by (simp add: set_status_def)
  have "set_execution e (set_execution e2 m) = m" if "ei_ID e2 = i" for e2
    using update_back [OF Some, of e2] id that by (simp add: set_execution_def)
  then show ?thesis using Some id undo
    by (auto simp: PauseExecution_def ResumeExecution_def GetExecutionStatus_def lookup_set_execution) (simp_all add: set_status_def)
qed (simp add: PauseExecution_def GetExecutionStatus_def)

theorem pause_resume_witness:
  "master_reachable busy_master \<and> ResumeExecution ''e1'' (snd (PauseExecution ''e1'' busy_master)) = (Inr (), busy_master)"
proof -
  have "fst (PauseExecution ''e1'' busy_master) = Inr ()" by code_simp
  then show ?thesis using busy_reachable pause_resume [OF busy_reachable] by blast
qed

subsection \<open>The health check through the interface\<close>

context slave_registry
begin

definition expired :: "int \<Rightarrow> int \<Rightarrow> slave_status \<Rightarrow> bool" where
  "expired timeout now st \<longleftrightarrow> duration_between (st_LastSeen st) now > timeout"

definition checked :: "int \<Rightarrow> int \<Rightarrow> gostring set \<Rightarrow> 's \<Rightarrow> gostring \<Rightarrow> slave_status option" where
  "checked timeout now ids s i =
     (if i \<in> ids then map_option (\<lambda>st. if expired timeout now st then expired_status st else st) (stat s i) else stat s i)"

lemma health_loop_effect:
  assumes "inv s" "distinct (map s_ID slaves)" "\<forall>x \<in> set slaves. info s (s_ID x) \<noteq> None"
  shows "\<exists>s'. health_loop ops timeout now slaves s = (Inr (), s') \<and> inv s' \<and> info s' = info s \<and>
    stat s' = checked timeout now (s_ID ` set slaves) s"
  using assms
proof (induction slaves arbitrary: s)
  case (Cons x slaves)
  obtain st where st: "stat s (s_ID x) = Some st"
    using Cons.prems(1,3) same_dom [OF Cons.prems(1), of "s_ID x"] by auto
  define s1 where "s1 = (if expired timeout now st then snd (op_UpdateStatus ops (s_ID x) (Some (expired_status st)) s) else s)"
  have reg: "info s (s_ID x) \<noteq> None" using Cons.prems(3) by simp
  have s1: "inv s1" "info s1 = info s" "stat s1 = (stat s)(s_ID x \<mapsto> (if expired timeout now st then expired_status st else st))"
    using Cons.prems(1) reg st by (auto simp: s1_def update_inv update_info update_stat)
  have "\<exists>s'. health_loop ops timeout now slaves s1 = (Inr (), s') \<and> inv s' \<and> info s' = info s1 \<and>
      stat s' = checked timeout now (s_ID ` set slaves) s1"
    using Cons.prems by (intro Cons.IH s1(1)) (simp_all add: s1(2))
  moreover have "health_loop ops timeout now (x # slaves) s = health_loop ops timeout now slaves s1"
    using st by (simp add: get_status [OF Cons.prems(1)] s1_def expired_def)
  moreover have "checked timeout now (s_ID ` set slaves) s1 = checked timeout now (s_ID ` set (x # slaves)) s"
    using Cons.prems(2) st by (auto simp: checked_def s1(3) fun_eq_iff)
  ultimately show ?case using s1(2) by auto
qed (auto simp: checked_def)

lemma checkSlaveHealth_effect:
  assumes "inv s" "reorders ord"
  shows "\<exists>s'. checkSlaveHealth ord (Some ops) cfg now s = (Inr (), s') \<and> inv s' \<and> info s' = info s \<and>
    (\<forall>i. stat s' i = map_option (\<lambda>st. if expired (cf_HeartbeatTimeout cfg) now st then expired_status st else st) (stat s i))"
proof -
  obtain slaves where l: "op_ListSlaves ops ord s None = Inr slaves" by (rule lists_all [OF assms])
  have reg: "\<forall>x \<in> set slaves. info s (s_ID x) \<noteq> None"
    using list_slaves_id [OF assms l] by auto
  have ids: "i \<in> s_ID ` set slaves" if i: "stat s i \<noteq> None" for i
  proof -
    obtain x st where "info s i = Some x" "stat s i = Some st" using i same_dom [OF assms(1), of i] by auto
    then have "x \<in> set slaves" "s_ID x = i"
      using list_slaves_id [OF assms l, of x] info_id [OF assms(1)] by (auto simp: accepts_def)
    then show ?thesis by blast
  qed
  have all: "checked t now (s_ID ` set slaves) s i = map_option (\<lambda>st. if expired t now st then expired_status st else st) (stat s i)" for t i
    using ids [of i] by (cases "stat s i") (auto simp: checked_def)
  show ?thesis
    using health_loop_effect [OF assms(1) listed_distinct [OF assms l] reg, of "cf_HeartbeatTimeout cfg" now] l
    by (auto simp: checkSlaveHealth_def all)
qed

end

text \<open>After a health check, every slave whose last heartbeat is older than the timeout is offline with
  its load, tasks and metrics reset, and every other slave is as before; no slave is added or
  removed and the check does not fail.\<close>

theorem health_check_marks_expired:
  assumes "reg_reachable r" "reorders ord"
  shows "\<exists>r'. checkSlaveHealth ord (Some mem_ops) cfg now r = (Inr (), r') \<and> (\<forall>i. GetSlave r' i = GetSlave r i) \<and>
    (\<forall>i st. GetSlaveStatus r i = Inr (Some st) \<longrightarrow> GetSlaveStatus r' i = Inr (Some
      (if duration_between (st_LastSeen st) now > cf_HeartbeatTimeout cfg
       then \<lparr>st_State = SlaveStateOffline, st_Load = F_Fin False 0, st_ActiveTasks = 0, st_LastSeen = st_LastSeen st, st_Metrics = None\<rparr>
       else st)))"
proof -
  note inv = reachable_inv [OF assms(1)]
  obtain r' where r': "checkSlaveHealth ord (Some mem_ops) cfg now r = (Inr (), r')" "map_of (r_slaves r') = map_of (r_slaves r)"
    "\<And>i. mem_stat r' i = map_option (\<lambda>st. if mem.expired (cf_HeartbeatTimeout cfg) now st then expired_status st else st) (mem_stat r i)"
    using mem.checkSlaveHealth_effect [OF inv assms(2), of cfg now] by blast
  have "GetSlaveStatus r' i = Inr (Some (if mem.expired (cf_HeartbeatTimeout cfg) now st then expired_status st else st))"
    if "GetSlaveStatus r i = Inr (Some st)" for i st
  proof -
    have "mem_stat r i = Some st" using that by (simp add: mem_stat_Some GetSlaveStatus_def split: option.splits)
    then have "mem_stat r' i = Some (if mem.expired (cf_HeartbeatTimeout cfg) now st then expired_status st else st)"
      using r'(3) by simp
    then show ?thesis unfolding mem_stat_Some GetSlaveStatus_def by simp
  qed
  then show ?thesis using r'(1,2) by (auto simp: GetSlave_def mem.expired_def expired_status_def)
qed

theorem health_check_marks_expired_witness:
  "reg_reachable loaded_registry \<and> reorders (rev :: slave_order) \<and>
   (\<exists>r'. checkSlaveHealth rev (Some mem_ops) (DefaultConfig ''m'') 40000000000 loaded_registry = (Inr (), r') \<and>
      (\<exists>st. GetSlaveStatus r' ''s2'' = Inr (Some st) \<and> st_State st = SlaveStateOffline))"
proof -
  let ?now = "40000000000 :: int"
  obtain st where st: "GetSlaveStatus loaded_registry ''s2'' = Inr (Some st)" "st_LastSeen st = 9"
    by (simp add: GetSlaveStatus_def loaded_status)
  have e: "duration_between (st_LastSeen st) ?now > cf_HeartbeatTimeout (DefaultConfig ''m'')"
    by (simp add: st(2) duration_between_def DefaultConfig_def Second_def int64_min_def int64_max_def)
  obtain r' where r': "checkSlaveHealth rev (Some mem_ops) (DefaultConfig ''m'') ?now loaded_registry = (Inr (), r')"
    "GetSlaveStatus r' ''s2'' = Inr (Some \<lparr>st_State = SlaveStateOffline, st_Load = F_Fin False 0, st_ActiveTasks = 0, st_LastSeen = 9, st_Metrics = None\<rparr>)"
    using health_check_marks_expired [OF loaded_reachable reorders_rev, of "DefaultConfig ''m''" ?now] st e by fastforce
  then show ?thesis using loaded_reachable by simp
qed

subsection \<open>Submission end to end\<close>

text \<open>On a started master below its limit, a workflow submitted for local execution is accepted and
  runs: the call returns the new ID without an error, the execution is running with one segment that
  covers the whole work, and the counter goes up by one.\<close>

theorem submit_local_accepted:
  assumes "m_started m" "m_executionCount m < cf_MaxConcurrentExecutions (m_config m)" "use_local (m_config m) w"
    and "0 \<le> m_executionCount m" "m_executionCount m < 2 ^ 31 - 1"
  shows "\<exists>m' e p. SubmitWorkflow ord tie ops s i now (Some w) m = ((i, None), m') \<and>
    map_of (m_executions m') i = Some e \<and> x_Status (ei_State e) = ExecutionStatusRunning \<and> ei_Plan e = Some p \<and>
    pl_ExecutionID p = i \<and>
    map (\<lambda>a. (as_SlaveID a, seg_End (as_Segment a))) (pl_Assignments p) = [(''local'', F_Fin False 1)] \<and>
    GetExecutionCount m' = m_executionCount m + 1"
proof -
  let ?e = "new_execution i now w"
  define plan where "plan = \<lparr>pl_ExecutionID = [], pl_Assignments = calculateSegments w [local_slave]\<rparr>"
  have sched: "Schedule (Some w) [local_slave] = Inr plan" by (simp add: Schedule_def plan_def)
  have as: "map (\<lambda>a. (as_SlaveID a, seg_End (as_Segment a))) (pl_Assignments plan) = [(''local'', F_Fin False 1)]"
    by (simp add: plan_def calculateSegments_def segment_of_def local_slave_def f64_one_def)
  obtain e' where e': "scheduleExecution ord tie ops s (m_config m) ?e = Inr e'" "ei_ID e' = i"
    "x_Status (ei_State e') = ExecutionStatusRunning" "ei_Plan e' = Some (plan\<lparr>pl_ExecutionID := i\<rparr>)"
    using assms(3) sched by (simp add: scheduleExecution_def Let_def new_execution_def)
  let ?m1 = "submit_store i now w m"
  have cfg: "m_config ?m1 = m_config m" by (simp add: submit_store_def)
  have "submit_schedule ord tie ops s now ?e ?m1 = (None, set_execution e' ?m1)"
    using e'(1) cfg by (simp add: submit_schedule_def)
  moreover have "submit_check (Some w) m = Inr w" using assms(1,2) by (simp add: submit_check_def)
  ultimately have "SubmitWorkflow ord tie ops s i now (Some w) m = ((i, None), set_execution e' ?m1)"
    by (simp add: SubmitWorkflow_def)
  moreover have "GetExecutionCount (set_execution e' ?m1) = m_executionCount m + 1"
    using wrap32_small [of "m_executionCount m + 1"] assms(4,5) by (simp add: GetExecutionCount_def submit_store_def)
  moreover have "map_of (m_executions (set_execution e' ?m1)) i = Some e'" using e'(2) by (simp add: lookup_set_execution)
  ultimately show ?thesis using e'(3,4) as by auto
qed

theorem submit_local_accepted_witness:
  "m_started idle_master \<and> m_executionCount idle_master < cf_MaxConcurrentExecutions (m_config idle_master) \<and>
   use_local (m_config idle_master) (empty_workflow ''w'') \<and>
   (\<exists>m'. SubmitWorkflow rev rev mem_ops NewInMemorySlaveRegistry ''e1'' 3 (Some (empty_workflow ''w'')) idle_master = ((''e1'', None), m'))"
proof -
  have h: "m_started idle_master" "m_executionCount idle_master < cf_MaxConcurrentExecutions (m_config idle_master)"
    "use_local (m_config idle_master) (empty_workflow ''w'')" "0 \<le> m_executionCount idle_master" "m_executionCount idle_master < 2 ^ 31 - 1"
    by (simp_all add: idle_master_def Start_def NewWorkflowMaster_def sample_config_def use_local_def)
  obtain m' where "SubmitWorkflow rev rev mem_ops NewInMemorySlaveRegistry ''e1'' 3 (Some (empty_workflow ''w'')) idle_master = ((''e1'', None), m')"
    using submit_local_accepted [OF h, where ord = rev and tie = rev and ops = mem_ops and s = NewInMemorySlaveRegistry and i = "''e1''" and now = 3]
    by metis
  then show ?thesis using h(1-3) by blast
qed

end
