(* ===== verification/Executor_Errors.thy ===== *)
theory Executor_Errors
  imports Expr_Evaluator Go_Time
begin

text \<open>
  Errors as values: the texts of the errors of the expression package (the \<^verbatim>\<open>Error\<close> methods of
  \<^verbatim>\<open>internal/expression/errors.go\<close>) and the errors of the executors with their constructors and
  classification (\<^verbatim>\<open>internal/executor/errors.go\<close>).  The texts of the source are not ASCII; each is
  a constant that lists its UTF-8 bytes.
\<close>

section \<open>Texts\<close>

definition utf8 :: "nat list \<Rightarrow> gostring" where
  "utf8 bs = map char_of bs"

definition txt_expr_at :: gostring where
  "txt_expr_at = utf8 [0xE8, 0xA1, 0xA8, 0xE8, 0xBE, 0xBE, 0xE5, 0xBC, 0x8F, 0xE9, 0x94, 0x99, 0xE8, 0xAF, 0xAF, 0xEF,
     0xBC, 0x8C, 0xE4, 0xBD, 0x8D, 0xE4, 0xBA, 0x8E, 0xE4, 0xBD, 0x8D, 0xE7, 0xBD, 0xAE] @ '' ''"

definition txt_parse_at :: gostring where
  "txt_parse_at = utf8 [0xE8, 0xA7, 0xA3, 0xE6, 0x9E, 0x90, 0xE9, 0x94, 0x99, 0xE8, 0xAF, 0xAF, 0xEF, 0xBC, 0x8C, 0xE4,
     0xBD, 0x8D, 0xE4, 0xBA, 0x8E, 0xE4, 0xBD, 0x8D, 0xE7, 0xBD, 0xAE] @ '' ''"

definition txt_expected :: gostring where
  "txt_expected = '': '' @ utf8 [0xE6, 0x9C, 0x9F, 0xE6, 0x9C, 0x9B] @ '' ''"

definition txt_got :: gostring where
  "txt_got = utf8 [0xEF, 0xBC, 0x8C, 0xE5, 0xBE, 0x97, 0xE5, 0x88, 0xB0] @ '' ''"

definition txt_eval :: gostring where
  "txt_eval = utf8 [0xE6, 0xB1, 0x82, 0xE5, 0x80, 0xBC, 0xE9, 0x94, 0x99, 0xE8, 0xAF, 0xAF] @ '': ''"

definition txt_mismatch :: gostring where
  "txt_mismatch = utf8 [0xE7, 0xB1, 0xBB, 0xE5, 0x9E, 0x8B, 0xE4, 0xB8, 0x8D, 0xE5, 0x8C, 0xB9, 0xE9, 0x85, 0x8D] @ '':
     '' @ utf8 [0xE6, 0x9C, 0x9F, 0xE6, 0x9C, 0x9B] @ '' ''"

definition txt_value :: gostring where
  "txt_value = '' ('' @ utf8 [0xE5, 0x80, 0xBC] @ '': ''"

definition txt_no_variable :: gostring where
  "txt_no_variable = utf8 [0xE5, 0x8F, 0x98, 0xE9, 0x87, 0x8F, 0xE6, 0x9C, 0xAA, 0xE6, 0x89, 0xBE, 0xE5, 0x88, 0xB0] @
     '': ''"

definition txt_field_of_nil :: gostring where
  "txt_field_of_nil = utf8 [0xE6, 0x97, 0xA0, 0xE6, 0xB3, 0x95, 0xE4, 0xBB, 0x8E] @ '' nil '' @ utf8 [0xE8, 0x8E, 0xB7,
     0xE5, 0x8F, 0x96, 0xE5, 0xAD, 0x97, 0xE6, 0xAE, 0xB5] @ '' ''"

definition txt_not_in_map :: gostring where
  "txt_not_in_map = utf8 [0xE5, 0x9C, 0xA8] @ '' map '' @ utf8 [0xE4, 0xB8, 0xAD, 0xE6, 0x9C, 0xAA, 0xE6, 0x89, 0xBE,
     0xE5, 0x88, 0xB0, 0xE5, 0xAD, 0x97, 0xE6, 0xAE, 0xB5] @ '' ''"

definition txt_not_in_struct :: gostring where
  "txt_not_in_struct = utf8 [0xE5, 0x9C, 0xA8, 0xE7, 0xBB, 0x93, 0xE6, 0x9E, 0x84, 0xE4, 0xBD, 0x93, 0xE4, 0xB8, 0xAD,
     0xE6, 0x9C, 0xAA, 0xE6, 0x89, 0xBE, 0xE5, 0x88, 0xB0, 0xE5, 0xAD, 0x97, 0xE6, 0xAE, 0xB5] @ '' ''"

definition txt_from_type :: gostring where
  "txt_from_type = utf8 [0xE6, 0x97, 0xA0, 0xE6, 0xB3, 0x95, 0xE4, 0xBB, 0x8E, 0xE7, 0xB1, 0xBB, 0xE5, 0x9E, 0x8B] @ ''
     ''"

definition txt_get_field :: gostring where
  "txt_get_field = '' '' @ utf8 [0xE8, 0x8E, 0xB7, 0xE5, 0x8F, 0x96, 0xE5, 0xAD, 0x97, 0xE6, 0xAE, 0xB5] @ '' ''"

definition txt_executor_missing :: gostring where
  "txt_executor_missing = utf8 [0xE6, 0x9C, 0xAA, 0xE6, 0x89, 0xBE, 0xE5, 0x88, 0xB0, 0xE7, 0xB1, 0xBB, 0xE5, 0x9E,
     0x8B, 0xE4, 0xB8, 0xBA] @ '' ''"

definition txt_executor_missing_end :: gostring where
  "txt_executor_missing_end = '' '' @ utf8 [0xE7, 0x9A, 0x84, 0xE6, 0x89, 0xA7, 0xE8, 0xA1, 0x8C, 0xE5, 0x99, 0xA8]"

definition txt_timeout :: gostring where
  "txt_timeout = utf8 [0xE6, 0xAD, 0xA5, 0xE9, 0xAA, 0xA4, 0xE6, 0x89, 0xA7, 0xE8, 0xA1, 0x8C, 0xE8, 0xB6, 0x85, 0xE6,
     0x97, 0xB6, 0xEF, 0xBC, 0x8C, 0xE8, 0xB6, 0x85, 0xE6, 0x97, 0xB6, 0xE6, 0x97, 0xB6, 0xE9, 0x97, 0xB4] @ '': ''"

definition txt_init :: gostring where
  "txt_init = utf8 [0xE5, 0x88, 0x9D, 0xE5, 0xA7, 0x8B, 0xE5, 0x8C, 0x96, 0xE6, 0x89, 0xA7, 0xE8, 0xA1, 0x8C, 0xE5,
     0x99, 0xA8] @ '' ''"

definition txt_init_failed :: gostring where
  "txt_init_failed = '' '' @ utf8 [0xE5, 0xA4, 0xB1, 0xE8, 0xB4, 0xA5] @ '': ''"

definition txt_quote :: gostring where
  "txt_quote = utf8 [0x27]"

definition quoted :: "gostring \<Rightarrow> gostring" where
  "quoted s = txt_quote @ s @ txt_quote"

section \<open>Errors of expressions\<close>

fun field_error_text :: "field_error \<Rightarrow> gostring" where
  "field_error_text (FieldOfNil field) = txt_field_of_nil @ quoted field"
| "field_error_text (FieldNotInMap field) = txt_not_in_map @ quoted field"
| "field_error_text (FieldNotInStruct field) = txt_not_in_struct @ quoted field"
| "field_error_text (FieldOfType ty field) = txt_from_type @ ty @ txt_get_field @ quoted field"

text \<open>The text of an evaluation error whose cause is a field error contains that error twice: in its
  message and as its cause.\<close>

fun expr_error_text :: "expr_error \<Rightarrow> gostring" where
  "expr_error_text (ParseError pos expected got) =
     txt_parse_at @ show_int (int pos) @ txt_expected @ expected @ txt_got @ got"
| "expr_error_text (ExpressionError pos msg) = txt_expr_at @ show_int (int pos) @ '': '' @ msg"
| "expr_error_text EvalNilAST = txt_eval @ ''nil AST''"
| "expr_error_text (EvalCannotResolve path e) =
     txt_eval @ ''cannot resolve path '' @ quoted path @ '': '' @ field_error_text e @ '': '' @ field_error_text e"
| "expr_error_text (EvalNilCompare op) = txt_eval @ ''cannot compare nil with operator '' @ op"
| "expr_error_text (EvalUnknownComparison op) = txt_eval @ ''unknown comparison operator: '' @ op"
| "expr_error_text (EvalUnknownLogical op) = txt_eval @ ''unknown logical operator: '' @ op"
| "expr_error_text (TypeMismatchError expected got v) =
     txt_mismatch @ expected @ txt_got @ got @ txt_value @ sprint_v v @ '')''"
| "expr_error_text (VariableNotFoundError name) = txt_no_variable @ name"

section \<open>Errors of executors\<close>

definition ErrCodeNotFound :: gostring where "ErrCodeNotFound = ''EXECUTOR_NOT_FOUND''"
definition ErrCodeExecutor :: gostring where "ErrCodeExecutor = ''EXECUTION_ERROR''"
definition ErrCodeTimeout :: gostring where "ErrCodeTimeout = ''TIMEOUT_ERROR''"
definition ErrCodeConfig :: gostring where "ErrCodeConfig = ''CONFIG_ERROR''"
definition ErrCodeInit :: gostring where "ErrCodeInit = ''INIT_ERROR''"

lemmas error_code_defs = ErrCodeNotFound_def ErrCodeExecutor_def ErrCodeTimeout_def ErrCodeConfig_def ErrCodeInit_def

text \<open>An error is an executor error, an error of the expression package, the error of a cancelled or
  expired context, or any other error, of which only the text is seen.\<close>

datatype go_error =
    ExecutorError (ee_Code: gostring) (ee_Message: gostring) (ee_StepID: gostring) (ee_Cause: "go_error option")
  | ExprError expr_error
  | ContextCanceled
  | DeadlineExceeded
  | OtherError gostring

fun error_text :: "go_error \<Rightarrow> gostring" where
  "error_text (ExecutorError code msg i None) = msg"
| "error_text (ExecutorError code msg i (Some cause)) = msg @ '': '' @ error_text cause"
| "error_text (ExprError e) = expr_error_text e"
| "error_text ContextCanceled = ''context canceled''"
| "error_text DeadlineExceeded = ''context deadline exceeded''"
| "error_text (OtherError s) = s"

fun DetailedError :: "go_error \<Rightarrow> gostring" where
  "DetailedError (ExecutorError code msg i None) = ''['' @ code @ ''] '' @ msg"
| "DetailedError (ExecutorError code msg i (Some cause)) = ''['' @ code @ ''] '' @ msg @ '': '' @ error_text cause"
| "DetailedError e = error_text e"

fun Unwrap :: "go_error \<Rightarrow> go_error option" where
  "Unwrap (ExecutorError code msg i cause) = cause"
| "Unwrap e = None"

definition NewExecutorError :: "gostring \<Rightarrow> gostring \<Rightarrow> go_error option \<Rightarrow> go_error" where
  "NewExecutorError code message cause = ExecutorError code message [] cause"

definition NewExecutorNotFoundError :: "gostring \<Rightarrow> go_error" where
  "NewExecutorNotFoundError execType =
     ExecutorError ErrCodeNotFound (txt_executor_missing @ quoted execType @ txt_executor_missing_end) [] None"

definition NewExecutionError :: "gostring \<Rightarrow> gostring \<Rightarrow> go_error option \<Rightarrow> go_error" where
  "NewExecutionError stepID message cause = ExecutorError ErrCodeExecutor message stepID cause"

definition NewTimeoutError :: "gostring \<Rightarrow> int \<Rightarrow> go_error" where
  "NewTimeoutError stepID timeout = ExecutorError ErrCodeTimeout (txt_timeout @ duration_String timeout) stepID None"

definition NewConfigError :: "gostring \<Rightarrow> go_error option \<Rightarrow> go_error" where
  "NewConfigError message cause = ExecutorError ErrCodeConfig message [] cause"

definition NewInitError :: "gostring \<Rightarrow> gostring \<Rightarrow> go_error option \<Rightarrow> go_error" where
  "NewInitError execType message cause =
     ExecutorError ErrCodeInit (txt_init @ quoted execType @ txt_init_failed @ message) [] cause"

definition has_code :: "gostring \<Rightarrow> go_error \<Rightarrow> bool" where
  "has_code code err = (case err of ExecutorError c _ _ _ \<Rightarrow> c = code | _ \<Rightarrow> False)"

definition IsNotFoundError :: "go_error \<Rightarrow> bool" where "IsNotFoundError err = has_code ErrCodeNotFound err"
definition IsTimeoutError :: "go_error \<Rightarrow> bool" where "IsTimeoutError err = has_code ErrCodeTimeout err"
definition IsExecutionError :: "go_error \<Rightarrow> bool" where "IsExecutionError err = has_code ErrCodeExecutor err"

definition ShouldPropagateError :: "go_error option \<Rightarrow> bool" where
  "ShouldPropagateError err = (err = Some ContextCanceled \<or> err = Some DeadlineExceeded)"

lemma error_classes:
  "IsNotFoundError (NewExecutorNotFoundError t)" "IsTimeoutError (NewTimeoutError i d)" "IsExecutionError (NewExecutionError i m c)"
  "\<not> IsTimeoutError (NewExecutorNotFoundError t)" "\<not> IsExecutionError (NewExecutorNotFoundError t)"
  "\<not> IsNotFoundError (NewExecutionError i m c)" "\<not> IsTimeoutError (NewExecutionError i m c)"
  by (simp_all add: IsNotFoundError_def IsTimeoutError_def IsExecutionError_def has_code_def NewExecutorNotFoundError_def
      NewTimeoutError_def NewExecutionError_def error_code_defs)

end
