(* ===== verification/Exec_Context.thy ===== *)
theory Exec_Context
  imports Executor_Errors Workflow_Types
begin

text \<open>
  The results of steps (\<^verbatim>\<open>pkg/types/result.go\<close>, \<^verbatim>\<open>internal/executor/base.go\<close>) and the execution
  context that the executors of one virtual user share (\<^verbatim>\<open>ExecutionContext\<close> of
  \<^verbatim>\<open>internal/executor/executor.go\<close>).  The context also carries the part of the outside world that
  the executors observe: the readings of the clock, the state of the Go context (how many more checks
  find it alive, and its error after that), the calls of the
  callback in their order, and the results that were recorded as metrics in their order.  The log collector is left out.
\<close>

section \<open>Step results\<close>

type_synonym result_status = gostring

definition ResultStatusSuccess :: result_status where "ResultStatusSuccess = ''success''"
definition ResultStatusFailed :: result_status where "ResultStatusFailed = ''failed''"
definition ResultStatusSkipped :: result_status where "ResultStatusSkipped = ''skipped''"
definition ResultStatusTimeout :: result_status where "ResultStatusTimeout = ''timeout''"

lemmas result_status_defs = ResultStatusSuccess_def ResultStatusFailed_def ResultStatusSkipped_def ResultStatusTimeout_def

record step_result =
  rs_StepID :: gostring
  rs_Status :: result_status
  rs_StartTime :: int
  rs_EndTime :: int
  rs_Duration :: int
  rs_Output :: goval
  rs_Error :: "go_error option"
  rs_Metrics :: "(gostring, float64) gomap"

text \<open>The test that the executors make on a result before they apply an error strategy.\<close>

definition failed_result :: "step_result \<Rightarrow> bool" where
  "failed_result r = (rs_Status r = ResultStatusFailed \<or> rs_Status r = ResultStatusTimeout)"

definition IsSuccess :: "step_result \<Rightarrow> bool" where
  "IsSuccess r = (rs_Status r = ResultStatusSuccess)"

definition Fail :: "go_error \<Rightarrow> step_result \<Rightarrow> step_result" where
  "Fail err r = r\<lparr>rs_Status := ResultStatusFailed, rs_Error := Some err\<rparr>"

definition Timeout :: "go_error \<Rightarrow> step_result \<Rightarrow> step_result" where
  "Timeout err r = r\<lparr>rs_Status := ResultStatusTimeout, rs_Error := Some err\<rparr>"

definition AddMetric :: "gostring \<Rightarrow> float64 \<Rightarrow> step_result \<Rightarrow> step_result" where
  "AddMetric key value r = r\<lparr>rs_Metrics := AList.update key value (rs_Metrics r)\<rparr>"

section \<open>The execution context\<close>

record virtual_user =
  vu_ID :: int
  vu_Iteration :: int
  vu_StartTime :: int

datatype callback_event =
    OnStepStart gostring gostring int
  | OnStepComplete gostring step_result gostring int

record exec_ctx =
  cx_Variables :: "(gostring, goval) gomap"
  cx_Results :: "(gostring, step_result) gomap"
  cx_VU :: "virtual_user option"
  cx_Iteration :: int
  cx_WorkflowID :: gostring
  cx_ExecutionID :: gostring
  cx_Callback :: bool
  cx_ParentStepID :: gostring
  cx_LoopIteration :: int
  cx_cachedEvalCtx :: "eval_ctx option"
  cx_evalCtxDirty :: bool
  cx_clock :: "nat \<Rightarrow> int"
  cx_reads :: nat
  cx_alive :: "nat option"
  cx_ctxErr :: go_error
  cx_events :: "callback_event list"
  cx_recorded :: "(gostring \<times> gostring \<times> step_result) list"

subsection \<open>Clock, cancellation and callback\<close>

definition time_Now :: "exec_ctx \<Rightarrow> int \<times> exec_ctx" where
  "time_Now c = (cx_clock c (cx_reads c), c\<lparr>cx_reads := Suc (cx_reads c)\<rparr>)"

definition ctx_Done :: "exec_ctx \<Rightarrow> bool \<times> exec_ctx" where
  "ctx_Done c =
     (case cx_alive c of
        None \<Rightarrow> (False, c)
      | Some 0 \<Rightarrow> (True, c)
      | Some (Suc n) \<Rightarrow> (False, c\<lparr>cx_alive := Some n\<rparr>))"

definition on_start :: "bool \<Rightarrow> step \<Rightarrow> gostring \<Rightarrow> int \<Rightarrow> exec_ctx \<Rightarrow> exec_ctx" where
  "on_start callback st parentID iteration c =
     (if callback then c\<lparr>cx_events := cx_events c @ [OnStepStart (sp_ID st) parentID iteration]\<rparr> else c)"

definition on_complete :: "bool \<Rightarrow> step \<Rightarrow> step_result \<Rightarrow> gostring \<Rightarrow> int \<Rightarrow> exec_ctx \<Rightarrow> exec_ctx" where
  "on_complete callback st r parentID iteration c =
     (if callback then c\<lparr>cx_events := cx_events c @ [OnStepComplete (sp_ID st) r parentID iteration]\<rparr> else c)"

definition record_step :: "step \<Rightarrow> step_result \<Rightarrow> exec_ctx \<Rightarrow> exec_ctx" where
  "record_step st r c = c\<lparr>cx_recorded := cx_recorded c @ [(sp_ID st, sp_Name st, r)]\<rparr>"

text \<open>A derived context with a timeout: it is done after at most as many checks as the timer allows; the
  checks that were made in it also count for the outer one.\<close>

definition enter_timeout :: "nat option \<Rightarrow> exec_ctx \<Rightarrow> exec_ctx" where
  "enter_timeout timer c =
     (case timer of
        None \<Rightarrow> c
      | Some t \<Rightarrow>
          (case cx_alive c of
             None \<Rightarrow> c\<lparr>cx_alive := Some t, cx_ctxErr := DeadlineExceeded\<rparr>
           | Some n \<Rightarrow> if t < n then c\<lparr>cx_alive := Some t, cx_ctxErr := DeadlineExceeded\<rparr> else c))"

definition leave_timeout :: "exec_ctx \<Rightarrow> exec_ctx \<Rightarrow> exec_ctx \<Rightarrow> exec_ctx" where
  "leave_timeout outer inner c =
     c\<lparr>cx_ctxErr := cx_ctxErr outer,
       cx_alive := (case (cx_alive outer, cx_alive inner, cx_alive c) of
          (Some n, Some m, Some k) \<Rightarrow> Some (n - (m - k))
        | (Some n, _, _) \<Rightarrow> Some n
        | (None, _, _) \<Rightarrow> None)\<rparr>"

subsection \<open>Construction of results\<close>

definition NewStepResult :: "gostring \<Rightarrow> exec_ctx \<Rightarrow> step_result \<times> exec_ctx" where
  "NewStepResult stepID c =
     (case time_Now c of (now, c') \<Rightarrow>
        (\<lparr>rs_StepID = stepID, rs_Status = ResultStatusSuccess, rs_StartTime = now, rs_EndTime = 0, rs_Duration = 0,
          rs_Output = VNil, rs_Error = None, rs_Metrics = []\<rparr>, c'))"

definition Finish :: "step_result \<Rightarrow> exec_ctx \<Rightarrow> step_result \<times> exec_ctx" where
  "Finish r c =
     (case time_Now c of (now, c') \<Rightarrow>
        (r\<lparr>rs_EndTime := now, rs_Duration := duration_between (rs_StartTime r) now\<rparr>, c'))"

definition finished_result :: "gostring \<Rightarrow> result_status \<Rightarrow> int \<Rightarrow> goval \<Rightarrow> go_error option \<Rightarrow> exec_ctx \<Rightarrow> step_result \<times> exec_ctx" where
  "finished_result stepID status startTime output err c =
     (case time_Now c of (now, c') \<Rightarrow>
        (\<lparr>rs_StepID = stepID, rs_Status = status, rs_StartTime = startTime, rs_EndTime = now,
          rs_Duration = duration_between startTime now, rs_Output = output, rs_Error = err, rs_Metrics = []\<rparr>, c'))"

definition CreateSuccessResult :: "gostring \<Rightarrow> int \<Rightarrow> goval \<Rightarrow> exec_ctx \<Rightarrow> step_result \<times> exec_ctx" where
  "CreateSuccessResult stepID startTime output c = finished_result stepID ResultStatusSuccess startTime output None c"

definition CreateFailedResult :: "gostring \<Rightarrow> int \<Rightarrow> go_error option \<Rightarrow> exec_ctx \<Rightarrow> step_result \<times> exec_ctx" where
  "CreateFailedResult stepID startTime err c = finished_result stepID ResultStatusFailed startTime VNil err c"

definition CreateTimeoutResult :: "gostring \<Rightarrow> int \<Rightarrow> int \<Rightarrow> exec_ctx \<Rightarrow> step_result \<times> exec_ctx" where
  "CreateTimeoutResult stepID startTime timeout c =
     finished_result stepID ResultStatusTimeout startTime VNil (Some (NewTimeoutError stepID timeout)) c"

definition CreateSkippedResult :: "gostring \<Rightarrow> exec_ctx \<Rightarrow> step_result \<times> exec_ctx" where
  "CreateSkippedResult stepID c =
     (case time_Now c of (now, c') \<Rightarrow>
        (\<lparr>rs_StepID = stepID, rs_Status = ResultStatusSkipped, rs_StartTime = now, rs_EndTime = now, rs_Duration = 0,
          rs_Output = VNil, rs_Error = None, rs_Metrics = []\<rparr>, c'))"

text \<open>The two helpers that turn an error of \<^verbatim>\<open>Execute\<close> into a result: the second keeps the error
  when it is one to be propagated.\<close>

definition WrapErrorAsResult :: "gostring \<Rightarrow> int \<Rightarrow> go_error option \<Rightarrow> exec_ctx \<Rightarrow> (step_result \<times> go_error option) \<times> exec_ctx" where
  "WrapErrorAsResult stepID startTime err c =
     (case CreateFailedResult stepID startTime err c of (r, c') \<Rightarrow> ((r, None), c'))"

definition HandleExecuteError :: "gostring \<Rightarrow> int \<Rightarrow> go_error option \<Rightarrow> exec_ctx \<Rightarrow> (step_result \<times> go_error option) \<times> exec_ctx" where
  "HandleExecuteError stepID startTime err c =
     (case CreateFailedResult stepID startTime err c of (r, c') \<Rightarrow>
        ((r, if ShouldPropagateError err then err else None), c'))"

subsection \<open>Construction and setters\<close>

definition NewExecutionContext :: "(nat \<Rightarrow> int) \<Rightarrow> nat option \<Rightarrow> go_error \<Rightarrow> exec_ctx" where
  "NewExecutionContext clock alive err =
     \<lparr>cx_Variables = [], cx_Results = [], cx_VU = None, cx_Iteration = 0, cx_WorkflowID = [], cx_ExecutionID = [],
      cx_Callback = False, cx_ParentStepID = [], cx_LoopIteration = 0, cx_cachedEvalCtx = None, cx_evalCtxDirty = True,
      cx_clock = clock, cx_reads = 0, cx_alive = alive, cx_ctxErr = err, cx_events = [], cx_recorded = []\<rparr>"

definition cx_WithVariables :: "(gostring, goval) gomap \<Rightarrow> exec_ctx \<Rightarrow> exec_ctx" where
  "cx_WithVariables vars c = c\<lparr>cx_Variables := vars, cx_evalCtxDirty := True\<rparr>"

definition WithVU :: "virtual_user option \<Rightarrow> exec_ctx \<Rightarrow> exec_ctx" where
  "WithVU vu c = c\<lparr>cx_VU := vu\<rparr>"

definition WithIteration :: "int \<Rightarrow> exec_ctx \<Rightarrow> exec_ctx" where
  "WithIteration iteration c = c\<lparr>cx_Iteration := iteration\<rparr>"

definition WithWorkflowID :: "gostring \<Rightarrow> exec_ctx \<Rightarrow> exec_ctx" where
  "WithWorkflowID i c = c\<lparr>cx_WorkflowID := i\<rparr>"

definition WithExecutionID :: "gostring \<Rightarrow> exec_ctx \<Rightarrow> exec_ctx" where
  "WithExecutionID i c = c\<lparr>cx_ExecutionID := i\<rparr>"

definition WithCallback :: "bool \<Rightarrow> exec_ctx \<Rightarrow> exec_ctx" where
  "WithCallback callback c = c\<lparr>cx_Callback := callback\<rparr>"

definition WithParentStep :: "gostring \<Rightarrow> int \<Rightarrow> exec_ctx \<Rightarrow> exec_ctx" where
  "WithParentStep parentID iteration c = c\<lparr>cx_ParentStepID := parentID, cx_LoopIteration := iteration\<rparr>"

definition SetVariable :: "gostring \<Rightarrow> goval \<Rightarrow> exec_ctx \<Rightarrow> exec_ctx" where
  "SetVariable name value c = c\<lparr>cx_Variables := AList.update name value (cx_Variables c), cx_evalCtxDirty := True\<rparr>"

definition GetVariable :: "exec_ctx \<Rightarrow> gostring \<Rightarrow> goval option" where
  "GetVariable c name = map_of (cx_Variables c) name"

definition SetResult :: "gostring \<Rightarrow> step_result \<Rightarrow> exec_ctx \<Rightarrow> exec_ctx" where
  "SetResult stepID r c = c\<lparr>cx_Results := AList.update stepID r (cx_Results c), cx_evalCtxDirty := True\<rparr>"

definition GetResult :: "exec_ctx \<Rightarrow> gostring \<Rightarrow> step_result option" where
  "GetResult c stepID = map_of (cx_Results c) stepID"

text \<open>The recursive copy of maps and slices.\<close>

fun deepCopyValue :: "goval \<Rightarrow> goval" where
  "deepCopyValue (VMap m) = VMap (map (\<lambda>kv. (fst kv, deepCopyValue (snd kv))) m)"
| "deepCopyValue (VSlice xs) = VSlice (map deepCopyValue xs)"
| "deepCopyValue v = v"

definition Clone :: "exec_ctx \<Rightarrow> exec_ctx" where
  "Clone c = c\<lparr>cx_Variables := map (\<lambda>kv. (fst kv, deepCopyValue (snd kv))) (cx_Variables c),
     cx_cachedEvalCtx := None, cx_evalCtxDirty := True\<rparr>"

subsection \<open>The evaluation context and its cache\<close>

definition result_entries :: "goval \<Rightarrow> (gostring, goval) gomap \<Rightarrow> (gostring, goval) gomap" where
  "result_entries output m =
     (case output of
        VNil \<Rightarrow> m
      | VMap om \<Rightarrow> foldl (\<lambda>acc kv. AList.update (fst kv) (snd kv) acc) (AList.update ''output'' output m) om
      | VStruct ty fs \<Rightarrow>
          if ty = ''*types.HTTPResponseData''
          then foldl (\<lambda>acc (key, field). AList.update key (case map_of fs field of Some v \<Rightarrow> v | None \<Rightarrow> VNil) acc)
                 (AList.update ''output'' output m) [(''status_code'', ''StatusCode''), (''body'', ''Body''), (''headers'', ''Headers'')]
          else AList.update ''output'' output m
      | _ \<Rightarrow> AList.update ''output'' output m)"

definition result_map :: "step_result \<Rightarrow> (gostring, goval) gomap" where
  "result_map r =
     (let m = result_entries (rs_Output r)
            [(''status'', VString (rs_Status r)), (''duration'', VInt K_int64 (Milliseconds (rs_Duration r))), (''step_id'', VString (rs_StepID r))]
      in case rs_Error r of None \<Rightarrow> m | Some e \<Rightarrow> AList.update ''error'' (VString (error_text e)) m)"

text \<open>What \<^verbatim>\<open>BuildEvaluationContext\<close> builds when it does not use its cache.\<close>

definition fresh_eval_ctx :: "exec_ctx \<Rightarrow> eval_ctx" where
  "fresh_eval_ctx c =
     foldl (\<lambda>e (stepID, r). ctx_SetResult e stepID (VMap (result_map r)))
       (foldl (\<lambda>e (k, v). ctx_Set e k v) NewEvaluationContext (cx_Variables c)) (cx_Results c)"

definition BuildEvaluationContext :: "exec_ctx \<Rightarrow> eval_ctx \<times> exec_ctx" where
  "BuildEvaluationContext c =
     (case cx_cachedEvalCtx c of
        Some cached \<Rightarrow>
          if \<not> cx_evalCtxDirty c then (cached, c)
          else (fresh_eval_ctx c, c\<lparr>cx_cachedEvalCtx := Some (fresh_eval_ctx c), cx_evalCtxDirty := False\<rparr>)
      | None \<Rightarrow> (fresh_eval_ctx c, c\<lparr>cx_cachedEvalCtx := Some (fresh_eval_ctx c), cx_evalCtxDirty := False\<rparr>))"

text \<open>\<^verbatim>\<open>ToEvaluationContext\<close>: one flat map, in which a step result hides a variable of the same name.  An
  instant is a struct without exported fields; the metrics of a result are never nil.\<close>

definition flat_result :: "step_result \<Rightarrow> goval" where
  "flat_result r =
     VMap ([(''status'', VString (rs_Status r)), (''duration'', VInt K_int64 (Milliseconds (rs_Duration r))),
            (''output'', rs_Output r), (''step_id'', VString (rs_StepID r)),
            (''start_time'', VStruct ''time.Time'' []), (''end_time'', VStruct ''time.Time'' [])] @
           (case rs_Error r of None \<Rightarrow> [] | Some e \<Rightarrow> [(''error'', VString (error_text e))]) @
           [(''metrics'', VMap (map (\<lambda>(k, v). (k, VFloat64 v)) (rs_Metrics r)))])"

definition ToEvaluationContext :: "exec_ctx \<Rightarrow> (gostring, goval) gomap" where
  "ToEvaluationContext c =
     foldl (\<lambda>m (stepID, r). AList.update stepID (flat_result r) m) (cx_Variables c) (cx_Results c)"

text \<open>The evaluation of a condition by the evaluator of an executor.  Its parse cache is invisible and left out.\<close>

definition eval_string :: "gostring \<Rightarrow> eval_ctx \<Rightarrow> expr_error + bool" where
  "eval_string expr ec = (case Evaluate_expr expr (Some ec) of Some r \<Rightarrow> r | None \<Rightarrow> Inl EvalNilAST)"

end
