(* ===== verification/Executor_Registry.thy ===== *)
theory Executor_Registry
  imports Exec_Context
begin

text \<open>
  The registry of executors (\<^verbatim>\<open>internal/executor/registry.go\<close>) and the execution of nested steps that
  the loop and condition executors share (\<^verbatim>\<open>NestedExecutorBase\<close> of \<^verbatim>\<open>internal/executor/executor.go\<close>).
  An executor is a value with the methods of the interface \<^verbatim>\<open>Executor\<close>; what the executors of the
  leaves of a workflow (HTTP, scripts, databases) do is an argument of the model.  As the package
  documents, \<^verbatim>\<open>Execute\<close> returns a result or an error.
\<close>

section \<open>Executors and their registry\<close>

type_synonym execute = "step \<Rightarrow> exec_ctx \<Rightarrow> (go_error + step_result) \<times> exec_ctx"

record executor =
  ex_Type :: gostring
  ex_Init :: "(gostring, goval) gomap \<Rightarrow> go_error option"
  ex_Execute :: execute
  ex_Cleanup :: "go_error option"

type_synonym executors = "(gostring, executor) gomap"

datatype register_error = NilExecutor | EmptyExecutorType | AlreadyRegistered gostring

definition NewRegistry :: executors where
  "NewRegistry = []"

definition Register_executor :: "executor option \<Rightarrow> executors \<Rightarrow> (register_error + unit) \<times> executors" where
  "Register_executor x reg =
     (case x of
        None \<Rightarrow> (Inl NilExecutor, reg)
      | Some e \<Rightarrow>
          if ex_Type e = [] then (Inl EmptyExecutorType, reg)
          else if map_of reg (ex_Type e) \<noteq> None then (Inl (AlreadyRegistered (ex_Type e)), reg)
          else (Inr (), AList.update (ex_Type e) e reg))"

definition Unregister_executor :: "gostring \<Rightarrow> executors \<Rightarrow> executors" where
  "Unregister_executor execType reg = AList.delete execType reg"

definition Get :: "executors \<Rightarrow> gostring \<Rightarrow> executor option" where
  "Get reg execType = map_of reg execType"

definition GetOrError :: "executors \<Rightarrow> gostring \<Rightarrow> go_error + executor" where
  "GetOrError reg execType =
     (case Get reg execType of None \<Rightarrow> Inl (NewExecutorNotFoundError execType) | Some x \<Rightarrow> Inr x)"

definition Has :: "executors \<Rightarrow> gostring \<Rightarrow> bool" where
  "Has reg execType = (map_of reg execType \<noteq> None)"

definition Types :: "(gostring list \<Rightarrow> gostring list) \<Rightarrow> executors \<Rightarrow> gostring list" where
  "Types ord reg = ord (map_keys reg)"

definition registry_Count :: "executors \<Rightarrow> nat" where
  "registry_Count reg = length reg"

definition RegisterAlias :: "gostring \<Rightarrow> gostring \<Rightarrow> executors \<Rightarrow> executors" where
  "RegisterAlias aliasType targetType reg =
     (case map_of reg targetType of None \<Rightarrow> reg | Some x \<Rightarrow> AList.update aliasType x reg)"

text \<open>The loops of \<^verbatim>\<open>InitAll\<close> and \<^verbatim>\<open>CleanupAll\<close>, over the entries in the order in which the map is
  iterated: the first stops at an error, the second keeps the last one.\<close>

fun InitAll :: "(gostring, (gostring, goval) gomap) gomap \<Rightarrow> (gostring \<times> executor) list \<Rightarrow> (gostring \<times> go_error) option" where
  "InitAll configs [] = None"
| "InitAll configs ((execType, x) # xs) =
     (case ex_Init x (case map_of configs execType of None \<Rightarrow> [] | Some cfg \<Rightarrow> cfg) of
        Some err \<Rightarrow> Some (execType, err)
      | None \<Rightarrow> InitAll configs xs)"

fun CleanupAll :: "(gostring \<times> go_error) option \<Rightarrow> (gostring \<times> executor) list \<Rightarrow> (gostring \<times> go_error) option" where
  "CleanupAll lastErr [] = lastErr"
| "CleanupAll lastErr ((execType, x) # xs) =
     CleanupAll (case ex_Cleanup x of None \<Rightarrow> lastErr | Some err \<Rightarrow> Some (execType, err)) xs"

section \<open>Nested steps\<close>

definition ErrorStrategyAbort :: error_strategy where "ErrorStrategyAbort = ''abort''"
definition ErrorStrategyContinue :: error_strategy where "ErrorStrategyContinue = ''continue''"
definition ErrorStrategyRetry :: error_strategy where "ErrorStrategyRetry = ''retry''"
definition ErrorStrategySkip :: error_strategy where "ErrorStrategySkip = ''skip''"

lemmas error_strategy_defs =
  ErrorStrategyAbort_def ErrorStrategyContinue_def ErrorStrategyRetry_def ErrorStrategySkip_def

text \<open>The result literal that is passed to the callback when a step has no result of its own.\<close>

definition bare_failure :: "go_error \<Rightarrow> step_result" where
  "bare_failure e = \<lparr>rs_StepID = [], rs_Status = ResultStatusFailed, rs_StartTime = 0, rs_EndTime = 0, rs_Duration = 0,
     rs_Output = VNil, rs_Error = Some e, rs_Metrics = []\<rparr>"

fun nested_steps ::
  "executors \<Rightarrow> bool \<Rightarrow> gostring \<Rightarrow> int \<Rightarrow> step list \<Rightarrow> step_result list \<Rightarrow> exec_ctx \<Rightarrow>
     (step_result list \<times> go_error option) \<times> exec_ctx" where
  "nested_steps reg callback parentID iteration [] results c = ((results, None), c)"
| "nested_steps reg callback parentID iteration (st # sts) results c =
     (case ctx_Done c of
        (True, c1) \<Rightarrow> ((results, Some (cx_ctxErr c1)), c1)
      | (False, c1) \<Rightarrow>
          let c2 = on_start callback st parentID iteration c1 in
          (case GetOrError reg (sp_Type st) of
             Inl e \<Rightarrow> ((results, Some e), on_complete callback st (bare_failure e) parentID iteration c2)
           | Inr x \<Rightarrow>
               (case ex_Execute x st c2 of
                  (Inl e, c3) \<Rightarrow> ((results, Some e), on_complete callback st (bare_failure e) parentID iteration c3)
                | (Inr r, c3) \<Rightarrow>
                    let c4 = on_complete callback st r parentID iteration (SetResult (sp_ID st) r c3) in
                    if \<not> failed_result r then nested_steps reg callback parentID iteration sts (results @ [r]) c4
                    else if sp_OnError st = ErrorStrategyAbort \<or> sp_OnError st = [] then ((results @ [r], rs_Error r), c4)
                    else if sp_OnError st = ErrorStrategySkip then ((results @ [r], None), c4)
                    else nested_steps reg callback parentID iteration sts (results @ [r]) c4)))"

definition ExecuteNestedSteps ::
  "executors \<Rightarrow> step list \<Rightarrow> exec_ctx \<Rightarrow> gostring \<Rightarrow> int \<Rightarrow> (step_result list \<times> go_error option) \<times> exec_ctx" where
  "ExecuteNestedSteps reg sts c parentID iteration = nested_steps reg (cx_Callback c) parentID iteration sts [] c"

section \<open>What every executor keeps\<close>

text \<open>A relation between the contexts before and after, which is kept by the operations that the
  executors compose, and closed under bracketing by the two calls of the callback, is kept by every
  execution of nested steps, when the registered executors keep it.  The properties of the loop,
  condition and hook executors are instances.\<close>

locale context_relation =
  fixes R :: "exec_ctx \<Rightarrow> exec_ctx \<Rightarrow> bool"
  assumes refl: "R c c"
    and trans: "R c c' \<Longrightarrow> R c' c'' \<Longrightarrow> R c c''"
    and set_variable: "R c (SetVariable name v c)"
    and set_result: "R c (SetResult i r c)"
    and parent_step: "R c (WithParentStep i n c)"
    and now: "R c (snd (time_Now c))"
    and done_check: "R c (snd (ctx_Done c))"
    and build: "R c (snd (BuildEvaluationContext c))"
    and record_metrics: "R c (record_step st r c)"
    and ctx_state: "R c (c\<lparr>cx_alive := a, cx_ctxErr := e\<rparr>)"
    and bracket: "R (on_start b st p n c) c' \<Longrightarrow> R c (on_complete b st r p n c')"
begin

definition keeps :: "execute \<Rightarrow> bool" where
  "keeps f \<longleftrightarrow> (\<forall>st c. R c (snd (f st c)))"

definition registry_keeps :: "executors \<Rightarrow> bool" where
  "registry_keeps reg \<longleftrightarrow> (\<forall>t x. map_of reg t = Some x \<longrightarrow> keeps (ex_Execute x))"

lemma keepsD: "keeps f \<Longrightarrow> f st c = (res, c') \<Longrightarrow> R c c'"
  unfolding keeps_def by (metis snd_conv)

lemma registry_keepsD: "registry_keeps reg \<Longrightarrow> GetOrError reg t = Inr x \<Longrightarrow> keeps (ex_Execute x)"
  by (simp add: registry_keeps_def GetOrError_def Get_def split: option.splits)

lemma done_checkD: "ctx_Done c = (b, c') \<Longrightarrow> R c c'"
  using done_check [of c] by simp

lemma nowD: "time_Now c = (t, c') \<Longrightarrow> R c c'"
  using now [of c] by simp

lemma buildD: "BuildEvaluationContext c = (e, c') \<Longrightarrow> R c c'"
  using build [of c] by simp

lemma bracketD: "R c c1 \<Longrightarrow> R (on_start b st p n c1) c' \<Longrightarrow> R c (on_complete b st r p n c')"
  by (rule trans [OF _ bracket])

lemma timeout_keeps: "R c (enter_timeout t c)" "R c (leave_timeout d f c)"
proof -
  have same: "c\<lparr>cx_alive := cx_alive c, cx_ctxErr := cx_ctxErr c\<rparr> = c" by simp
  show "R c (enter_timeout t c)"
    by (auto simp: enter_timeout_def refl ctx_state split: option.splits)
  have "leave_timeout d f c = c\<lparr>cx_alive := cx_alive (leave_timeout d f c), cx_ctxErr := cx_ctxErr d\<rparr>"
    by (simp add: leave_timeout_def)
  then show "R c (leave_timeout d f c)" using ctx_state by metis
qed

lemma finished_keeps: "R c (snd (finished_result i status t output e c))"
  by (simp add: finished_result_def nowD split: prod.splits)

lemma result_keeps:
  "CreateSuccessResult i t v c = (r, c') \<Longrightarrow> R c c'" "CreateFailedResult i t e c = (r, c') \<Longrightarrow> R c c'"
  "CreateTimeoutResult i t d c = (r, c') \<Longrightarrow> R c c'" "CreateSkippedResult i c = (r, c') \<Longrightarrow> R c c'"
  using finished_keeps [of c i] by (simp_all add: CreateSuccessResult_def CreateFailedResult_def CreateTimeoutResult_def
      CreateSkippedResult_def split: prod.splits) (metis snd_conv, metis snd_conv, metis snd_conv, metis nowD)

lemma nested_steps_keeps:
  assumes "registry_keeps reg"
  shows "R c (snd (nested_steps reg b p n sts results c))"
proof (induction sts arbitrary: results c)
  case Nil
  then show ?case by (simp add: refl)
next
  case (Cons st sts)
  obtain d c1 where d: "ctx_Done c = (d, c1)" by (cases "ctx_Done c")
  note c1 = done_checkD [OF d]
  show ?case
  proof (cases d)
    case False
    let ?c2 = "on_start b st p n c1"
    show ?thesis
    proof (cases "GetOrError reg (sp_Type st)")
      case (Inl e)
      then show ?thesis using d False bracketD [OF c1 refl] by (simp add: Let_def)
    next
      case (Inr x)
      obtain res c3 where x: "ex_Execute x st ?c2 = (res, c3)" by (cases "ex_Execute x st ?c2")
      note c3 = keepsD [OF registry_keepsD [OF assms Inr] x]
      show ?thesis
      proof (cases res)
        case (Inl e)
        then show ?thesis using d False \<open>GetOrError reg (sp_Type st) = Inr x\<close> x bracketD [OF c1 c3] by (simp add: Let_def)
      next
        case (Inr r)
        have c4: "R c (on_complete b st r p n (SetResult (sp_ID st) r c3))"
          by (rule bracketD [OF c1 trans [OF c3 set_result]])
        then show ?thesis using d False \<open>GetOrError reg (sp_Type st) = Inr x\<close> x Inr trans [OF c4 Cons.IH]
          by (simp add: Let_def)
      qed
    qed
  qed (use d c1 in simp)
qed

lemma ExecuteNestedSteps_keeps: "registry_keeps reg \<Longrightarrow> ExecuteNestedSteps reg sts c p n = (res, c') \<Longrightarrow> R c c'"
  using nested_steps_keeps [of reg c] by (metis ExecuteNestedSteps_def snd_conv)

end

end
