(* ===== verification/Loop_Executor.thy ===== *)
theory Loop_Executor
  imports Executor_Registry
begin

text \<open>
  The loop executor (\<^verbatim>\<open>internal/executor/loop_executor.go\<close>): loops with a fixed count, over a
  collection, and with a condition, with break and continue conditions and the error strategies of the
  steps in the body.  The evaluation context is built once before the loop and only receives the loop
  variables; \<^verbatim>\<open>SetVariable\<close> marks the cached context as stale before the loop writes to it, so that
  the loop's own copy can be a value.  Each loop is recursion on what bounds it: the remaining count,
  the remaining items, the remaining iterations up to the maximum.
\<close>

section \<open>Texts\<close>

definition txt_loop_required :: gostring where
  "txt_loop_required = utf8 [0xE5, 0xBE, 0xAA, 0xE7, 0x8E, 0xAF, 0xE6, 0xAD, 0xA5, 0xE9, 0xAA, 0xA4, 0xE9, 0x9C, 0x80,
     0xE8, 0xA6, 0x81, 0xE9, 0x85, 0x8D, 0xE7, 0xBD, 0xAE] @ '' '' @ utf8 [0x27] @ ''loop'' @ utf8 [0x27, 0xEF, 0xBC,
     0x88, 0xE5, 0xBE, 0xAA, 0xE7, 0x8E, 0xAF, 0xE9, 0x85, 0x8D, 0xE7, 0xBD, 0xAE, 0xEF, 0xBC, 0x89]"

definition txt_mode_empty :: gostring where
  "txt_mode_empty = utf8 [0xE5, 0xBE, 0xAA, 0xE7, 0x8E, 0xAF, 0xE6, 0xA8, 0xA1, 0xE5, 0xBC, 0x8F, 0xE4, 0xB8, 0x8D,
     0xE8, 0x83, 0xBD, 0xE4, 0xB8, 0xBA, 0xE7, 0xA9, 0xBA]"

definition txt_items_required :: gostring where
  "txt_items_required = ''foreach '' @ utf8 [0xE5, 0xBE, 0xAA, 0xE7, 0x8E, 0xAF, 0xE9, 0x9C, 0x80, 0xE8, 0xA6, 0x81,
     0xE9, 0x85, 0x8D, 0xE7, 0xBD, 0xAE] @ '' '' @ utf8 [0x27] @ ''items'' @ utf8 [0x27, 0xEF, 0xBC, 0x88, 0xE9, 0x81,
     0x8D, 0xE5, 0x8E, 0x86, 0xE9, 0x9B, 0x86, 0xE5, 0x90, 0x88, 0xEF, 0xBC, 0x89]"

definition txt_condition_required :: gostring where
  "txt_condition_required = ''while '' @ utf8 [0xE5, 0xBE, 0xAA, 0xE7, 0x8E, 0xAF, 0xE9, 0x9C, 0x80, 0xE8, 0xA6, 0x81,
     0xE9, 0x85, 0x8D, 0xE7, 0xBD, 0xAE] @ '' '' @ utf8 [0x27] @ ''condition'' @ utf8 [0x27, 0xEF, 0xBC, 0x88, 0xE5,
     0xBE, 0xAA, 0xE7, 0x8E, 0xAF, 0xE6, 0x9D, 0xA1, 0xE4, 0xBB, 0xB6, 0xEF, 0xBC, 0x89]"

definition txt_mode_invalid :: gostring where
  "txt_mode_invalid = utf8 [0xE6, 0x97, 0xA0, 0xE6, 0x95, 0x88, 0xE7, 0x9A, 0x84, 0xE5, 0xBE, 0xAA, 0xE7, 0x8E, 0xAF,
     0xE6, 0xA8, 0xA1, 0xE5, 0xBC, 0x8F] @ '': ''"

definition txt_mode_choices :: gostring where
  "txt_mode_choices = utf8 [0xEF, 0xBC, 0x8C, 0xE5, 0xBF, 0x85, 0xE9, 0xA1, 0xBB, 0xE6, 0x98, 0xAF] @ '' for'' @ utf8
     [0xE3, 0x80, 0x81] @ ''foreach '' @ utf8 [0xE6, 0x88, 0x96] @ '' while''"

definition txt_body_empty :: gostring where
  "txt_body_empty = utf8 [0xE5, 0xBE, 0xAA, 0xE7, 0x8E, 0xAF, 0xE4, 0xBD, 0x93, 0xE8, 0x87, 0xB3, 0xE5, 0xB0, 0x91,
     0xE9, 0x9C, 0x80, 0xE8, 0xA6, 0x81, 0xE5, 0x8C, 0x85, 0xE5, 0x90, 0xAB, 0xE4, 0xB8, 0x80, 0xE4, 0xB8, 0xAA, 0xE6,
     0xAD, 0xA5, 0xE9, 0xAA, 0xA4]"

definition txt_mode_unsupported :: gostring where
  "txt_mode_unsupported = utf8 [0xE4, 0xB8, 0x8D, 0xE6, 0x94, 0xAF, 0xE6, 0x8C, 0x81, 0xE7, 0x9A, 0x84, 0xE5, 0xBE,
     0xAA, 0xE7, 0x8E, 0xAF, 0xE6, 0xA8, 0xA1, 0xE5, 0xBC, 0x8F] @ '': ''"

definition txt_at_iteration :: gostring where
  "txt_at_iteration = utf8 [0xE7, 0xAC, 0xAC] @ '' ''"

definition txt_break_failed :: gostring where
  "txt_break_failed = '' '' @ utf8 [0xE6, 0xAC, 0xA1, 0xE8, 0xBF, 0xAD, 0xE4, 0xBB, 0xA3, 0xE6, 0x97, 0xB6] @ '' break
     '' @ utf8 [0xE6, 0x9D, 0xA1, 0xE4, 0xBB, 0xB6, 0xE6, 0xB1, 0x82, 0xE5, 0x80, 0xBC, 0xE5, 0xA4, 0xB1, 0xE8, 0xB4,
     0xA5]"

definition txt_continue_failed :: gostring where
  "txt_continue_failed = '' '' @ utf8 [0xE6, 0xAC, 0xA1, 0xE8, 0xBF, 0xAD, 0xE4, 0xBB, 0xA3, 0xE6, 0x97, 0xB6] @ ''
     continue '' @ utf8 [0xE6, 0x9D, 0xA1, 0xE4, 0xBB, 0xB6, 0xE6, 0xB1, 0x82, 0xE5, 0x80, 0xBC, 0xE5, 0xA4, 0xB1,
     0xE8, 0xB4, 0xA5]"

definition txt_while_failed :: gostring where
  "txt_while_failed = '' '' @ utf8 [0xE6, 0xAC, 0xA1, 0xE8, 0xBF, 0xAD, 0xE4, 0xBB, 0xA3, 0xE6, 0x97, 0xB6] @ '' while
     '' @ utf8 [0xE6, 0x9D, 0xA1, 0xE4, 0xBB, 0xB6, 0xE6, 0xB1, 0x82, 0xE5, 0x80, 0xBC, 0xE5, 0xA4, 0xB1, 0xE8, 0xB4,
     0xA5]"

definition txt_items_failed :: gostring where
  "txt_items_failed = utf8 [0xE8, 0xA7, 0xA3, 0xE6, 0x9E, 0x90, 0xE9, 0x81, 0x8D, 0xE5, 0x8E, 0x86, 0xE9, 0x9B, 0x86,
     0xE5, 0x90, 0x88, 0xE5, 0xA4, 0xB1, 0xE8, 0xB4, 0xA5]"

definition txt_while_exceeded :: gostring where
  "txt_while_exceeded = ''while '' @ utf8 [0xE5, 0xBE, 0xAA, 0xE7, 0x8E, 0xAF, 0xE8, 0xB6, 0x85, 0xE8, 0xBF, 0x87, 0xE6,
     0x9C, 0x80, 0xE5, 0xA4, 0xA7, 0xE8, 0xBF, 0xAD, 0xE4, 0xBB, 0xA3, 0xE6, 0xAC, 0xA1, 0xE6, 0x95, 0xB0] @ '' (''"

definition txt_step_of :: gostring where
  "txt_step_of = '' '' @ utf8 [0xE6, 0xAC, 0xA1, 0xE8, 0xBF, 0xAD, 0xE4, 0xBB, 0xA3, 0xEF, 0xBC, 0x8C, 0xE6, 0xAD, 0xA5,
     0xE9, 0xAA, 0xA4] @ '' ''"

definition txt_step_failed :: gostring where
  "txt_step_failed = '' '' @ utf8 [0xE6, 0x89, 0xA7, 0xE8, 0xA1, 0x8C, 0xE5, 0xA4, 0xB1, 0xE8, 0xB4, 0xA5]"

section \<open>Output and configuration\<close>

definition LoopModeFor :: gostring where "LoopModeFor = ''for''"
definition LoopModeForeach :: gostring where "LoopModeForeach = ''foreach''"
definition LoopModeWhile :: gostring where "LoopModeWhile = ''while''"
definition DefaultMaxIterations :: int where "DefaultMaxIterations = 1000"
definition DefaultItemVar :: gostring where "DefaultItemVar = ''item''"

lemmas loop_mode_defs = LoopModeFor_def LoopModeForeach_def LoopModeWhile_def

record loop_output =
  lo_Mode :: gostring
  lo_TotalIterations :: int
  lo_BreakTriggered :: bool
  lo_StepsExecuted :: "gostring list"
  lo_Duration :: int

definition new_loop_output :: "gostring \<Rightarrow> loop_output" where
  "new_loop_output mode = \<lparr>lo_Mode = mode, lo_TotalIterations = 0, lo_BreakTriggered = False, lo_StepsExecuted = [], lo_Duration = 0\<rparr>"

definition loop_output_value :: "loop_output \<Rightarrow> goval" where
  "loop_output_value out = VStruct ''*executor.LoopOutput''
     [(''Mode'', VString (lo_Mode out)), (''TotalIterations'', VInt K_int (lo_TotalIterations out)),
      (''BreakTriggered'', VBool (lo_BreakTriggered out)), (''StepsExecuted'', VSlice (map VString (lo_StepsExecuted out))),
      (''Duration'', VInt K_int64 (lo_Duration out))]"

definition validateConfig :: "loop \<Rightarrow> go_error option" where
  "validateConfig lp =
     (if lp_Mode lp = [] then Some (NewConfigError txt_mode_empty None)
      else let bad = (if lp_Mode lp = LoopModeFor then None
                      else if lp_Mode lp = LoopModeForeach
                      then (if lp_Items lp = VNil then Some (NewConfigError txt_items_required None) else None)
                      else if lp_Mode lp = LoopModeWhile
                      then (if lp_Condition lp = [] then Some (NewConfigError txt_condition_required None) else None)
                      else Some (NewConfigError (txt_mode_invalid @ lp_Mode lp @ txt_mode_choices) None))
           in if bad \<noteq> None then bad
              else if lp_Steps lp = [] then Some (NewConfigError txt_body_empty None) else None)"

section \<open>Loop variables\<close>

definition setLoopVariables ::
  "int \<Rightarrow> int \<Rightarrow> int \<Rightarrow> goval \<Rightarrow> gostring \<Rightarrow> eval_ctx \<times> exec_ctx \<Rightarrow> eval_ctx \<times> exec_ctx" where
  "setLoopVariables index iteration cnt item itemVar ecx =
     (let ec = fst ecx; c = snd ecx;
          c1 = SetVariable ''loop.iteration'' (VInt K_int iteration) (SetVariable ''loop.index'' (VInt K_int index) c);
          c2 = (if cnt > 0 then SetVariable ''loop.count'' (VInt K_int cnt) c1 else c1);
          c3 = (if item \<noteq> VNil \<and> itemVar \<noteq> [] then SetVariable itemVar item (SetVariable ''loop.item'' item c2) else c2);
          loopCtx = [(''index'', VInt K_int index), (''iteration'', VInt K_int iteration)] @
            (if cnt > 0 then [(''count'', VInt K_int cnt)] else []) @
            (if item \<noteq> VNil then [(''item'', item)] else []);
          ec1 = ctx_Set ec ''loop'' (VMap loopCtx);
          ec2 = (if item \<noteq> VNil \<and> itemVar \<noteq> [] then ctx_Set ec1 itemVar item else ec1)
      in (ec2, c3))"

section \<open>Items\<close>

definition toSlice :: "goval \<Rightarrow> goval list" where
  "toSlice v = (case v of VNil \<Rightarrow> [] | VSlice xs \<Rightarrow> xs | _ \<Rightarrow> [v])"

definition getFieldValue :: "goval \<Rightarrow> gostring \<Rightarrow> goval" where
  "getFieldValue obj field =
     (case obj of
        VMap m \<Rightarrow> (case map_of m field of Some v \<Rightarrow> v | None \<Rightarrow> VNil)
      | VStruct ty fs \<Rightarrow> (case map_of fs field of Some v \<Rightarrow> v | None \<Rightarrow> VNil)
      | _ \<Rightarrow> VNil)"

definition resolvePathValue :: "gostring \<Rightarrow> eval_ctx \<Rightarrow> goval" where
  "resolvePathValue path ec =
     (let parts = split_on (CHR ''.'') path in
      case map_of (Variables ec) (hd parts) of
        Some v \<Rightarrow> foldl getFieldValue v (tl parts)
      | None \<Rightarrow>
          (case map_of (Results ec) (hd parts) of
             Some v \<Rightarrow> foldl getFieldValue v (tl parts)
           | None \<Rightarrow> VNil))"

definition is_expression :: "gostring \<Rightarrow> bool" where
  "is_expression s \<longleftrightarrow> length s > 3 \<and> has_prefix s [CHR 0x24, CHR 0x7B] \<and> last s = CHR 0x7D"

definition resolveItems :: "goval \<Rightarrow> eval_ctx \<Rightarrow> go_error + goval list" where
  "resolveItems items ec =
     (case items of
        VNil \<Rightarrow> Inr []
      | VString s \<Rightarrow>
          if is_expression s
          then let expr = butlast (drop 2 s) in
               case map_of (Variables ec) expr of
                 Some v \<Rightarrow> Inr (toSlice v)
               | None \<Rightarrow>
                   let v = resolvePathValue expr ec in
                   if v \<noteq> VNil then Inr (toSlice v)
                   else Inl (OtherError (''expression '' @ quoted expr @ '' resolved to nil''))
          else Inr [VString s]
      | v \<Rightarrow> Inr (toSlice v))"

section \<open>The body\<close>

definition iteration_text :: "int \<Rightarrow> gostring \<Rightarrow> gostring" where
  "iteration_text i rest = txt_at_iteration @ show_int i @ rest"

fun loop_body ::
  "executors \<Rightarrow> bool \<Rightarrow> gostring \<Rightarrow> int \<Rightarrow> step list \<Rightarrow> gostring list \<Rightarrow> exec_ctx \<Rightarrow>
     (gostring list \<times> go_error option) \<times> exec_ctx" where
  "loop_body reg callback parentID i [] executed c = ((executed, None), c)"
| "loop_body reg callback parentID i (st # sts) executed c =
     (let c1 = on_start callback st parentID (i + 1) c;
          failure = (\<lambda>e. NewExecutionError parentID (iteration_text i (txt_step_of @ quoted (sp_ID st) @ '': '' @ error_text e)) None) in
      (case GetOrError reg (sp_Type st) of
         Inl e \<Rightarrow>
           if callback
           then (case time_Now c1 of (now, c2) \<Rightarrow>
                  (case CreateFailedResult (sp_ID st) now (Some e) c2 of (r, c3) \<Rightarrow>
                    ((executed, Some (failure e)), on_complete callback st r parentID (i + 1) c3)))
           else ((executed, Some (failure e)), c1)
       | Inr x \<Rightarrow>
           (case time_Now (WithParentStep parentID (i + 1) c1) of (startTime, c2) \<Rightarrow>
             (case ex_Execute x st c2 of
                (Inl e, c3) \<Rightarrow>
                  if callback
                  then (case CreateFailedResult (sp_ID st) startTime (Some e) c3 of (r, c4) \<Rightarrow>
                         (case time_Now c4 of (now, c5) \<Rightarrow>
                           ((executed, Some (failure e)),
                            on_complete callback st (r\<lparr>rs_Duration := duration_between startTime now\<rparr>) parentID (i + 1) c5)))
                  else ((executed, Some (failure e)), c3)
              | (Inr r, c3) \<Rightarrow>
                  let executed' = executed @ [sp_ID st];
                      c4 = on_complete callback st r parentID (i + 1) (SetResult (sp_ID st) r c3) in
                  if \<not> failed_result r then loop_body reg callback parentID i sts executed' c4
                  else if sp_OnError st = ErrorStrategyAbort \<or> sp_OnError st = []
                  then ((executed', Some (NewExecutionError parentID (iteration_text i (txt_step_of @ quoted (sp_ID st) @ txt_step_failed)) (rs_Error r))), c4)
                  else if sp_OnError st = ErrorStrategyContinue \<or> sp_OnError st = ErrorStrategySkip
                  then ((executed', None), c4)
                  else loop_body reg callback parentID i sts executed' c4))))"

definition executeLoopBody ::
  "executors \<Rightarrow> step \<Rightarrow> step list \<Rightarrow> exec_ctx \<Rightarrow> int \<Rightarrow> (gostring list \<times> go_error option) \<times> exec_ctx" where
  "executeLoopBody reg parentStep sts c i = loop_body reg (cx_Callback c) (sp_ID parentStep) i sts [] c"

section \<open>One iteration\<close>

text \<open>The break and continue conditions, which the three loops check alike.\<close>

datatype guard = G_Fail go_error | G_Break | G_Continue | G_Run

definition condition_holds :: "gostring \<Rightarrow> eval_ctx \<Rightarrow> expr_error + bool" where
  "condition_holds condition ec = (if condition = [] then Inr False else eval_string condition ec)"

definition loop_guard :: "gostring \<Rightarrow> loop \<Rightarrow> int \<Rightarrow> eval_ctx \<Rightarrow> guard" where
  "loop_guard stepID lp i ec =
     (case condition_holds (lp_BreakCondition lp) ec of
        Inl e \<Rightarrow> G_Fail (NewExecutionError stepID (iteration_text i txt_break_failed) (Some (ExprError e)))
      | Inr True \<Rightarrow> G_Break
      | Inr False \<Rightarrow>
          (case condition_holds (lp_ContinueCondition lp) ec of
             Inl e \<Rightarrow> G_Fail (NewExecutionError stepID (iteration_text i txt_continue_failed) (Some (ExprError e)))
           | Inr True \<Rightarrow> G_Continue
           | Inr False \<Rightarrow> G_Run))"

definition count_iteration :: "gostring list \<Rightarrow> loop_output \<Rightarrow> loop_output" where
  "count_iteration executed out =
     out\<lparr>lo_StepsExecuted := lo_StepsExecuted out @ executed, lo_TotalIterations := lo_TotalIterations out + 1\<rparr>"

text \<open>What an iteration does after the loop variables are set: the loop ends with the output and
  an error or none, or goes on.\<close>

datatype progress = Ended "go_error option" | Going

definition iterate ::
  "executors \<Rightarrow> step \<Rightarrow> loop \<Rightarrow> int \<Rightarrow> eval_ctx \<Rightarrow> loop_output \<Rightarrow> exec_ctx \<Rightarrow> progress \<times> loop_output \<times> exec_ctx" where
  "iterate reg st lp i ec out c =
     (case loop_guard (sp_ID st) lp i ec of
        G_Fail e \<Rightarrow> (Ended (Some e), out, c)
      | G_Break \<Rightarrow> (Ended None, out\<lparr>lo_BreakTriggered := True\<rparr>, c)
      | G_Continue \<Rightarrow> (Going, count_iteration [] out, c)
      | G_Run \<Rightarrow>
          (case executeLoopBody reg st (lp_Steps lp) c i of
             ((executed, Some e), c') \<Rightarrow> (Ended (Some e), out, c')
           | ((executed, None), c') \<Rightarrow> (Going, count_iteration executed out, c')))"

section \<open>The three loops\<close>

fun for_loop ::
  "executors \<Rightarrow> step \<Rightarrow> loop \<Rightarrow> int \<Rightarrow> nat \<Rightarrow> int \<Rightarrow> loop_output \<Rightarrow> eval_ctx \<Rightarrow> exec_ctx \<Rightarrow>
     (loop_output \<times> go_error option) \<times> exec_ctx" where
  "for_loop reg st lp cnt 0 i out ec c = ((out, None), c)"
| "for_loop reg st lp cnt (Suc n) i out ec c =
     (case ctx_Done c of
        (True, c1) \<Rightarrow> ((out, Some (cx_ctxErr c1)), c1)
      | (False, c1) \<Rightarrow>
          (case setLoopVariables i (i + 1) cnt VNil [] (ec, c1) of (ec2, c2) \<Rightarrow>
            (case iterate reg st lp i ec2 out c2 of
               (Ended e, out', c3) \<Rightarrow> ((out', e), c3)
             | (Going, out', c3) \<Rightarrow> for_loop reg st lp cnt n (i + 1) out' ec2 c3)))"

definition executeForLoop ::
  "executors \<Rightarrow> step \<Rightarrow> loop \<Rightarrow> eval_ctx \<Rightarrow> exec_ctx \<Rightarrow> (loop_output \<times> go_error option) \<times> exec_ctx" where
  "executeForLoop reg st lp ec c =
     (if lp_Count lp \<le> 0 then ((new_loop_output LoopModeFor, None), c)
      else for_loop reg st lp (lp_Count lp) (nat (lp_Count lp)) 0 (new_loop_output LoopModeFor) ec c)"

fun foreach_loop ::
  "executors \<Rightarrow> step \<Rightarrow> loop \<Rightarrow> gostring \<Rightarrow> int \<Rightarrow> goval list \<Rightarrow> int \<Rightarrow> loop_output \<Rightarrow> eval_ctx \<Rightarrow> exec_ctx \<Rightarrow>
     (loop_output \<times> go_error option) \<times> exec_ctx" where
  "foreach_loop reg st lp itemVar cnt [] i out ec c = ((out, None), c)"
| "foreach_loop reg st lp itemVar cnt (item # items) i out ec c =
     (case ctx_Done c of
        (True, c1) \<Rightarrow> ((out, Some (cx_ctxErr c1)), c1)
      | (False, c1) \<Rightarrow>
          (case setLoopVariables i (i + 1) cnt item itemVar (ec, c1) of (ec2, c2) \<Rightarrow>
            (case iterate reg st lp i ec2 out c2 of
               (Ended e, out', c3) \<Rightarrow> ((out', e), c3)
             | (Going, out', c3) \<Rightarrow> foreach_loop reg st lp itemVar cnt items (i + 1) out' ec2 c3)))"

definition executeForeachLoop ::
  "executors \<Rightarrow> step \<Rightarrow> loop \<Rightarrow> eval_ctx \<Rightarrow> exec_ctx \<Rightarrow> (loop_output \<times> go_error option) \<times> exec_ctx" where
  "executeForeachLoop reg st lp ec c =
     (case resolveItems (lp_Items lp) ec of
        Inl e \<Rightarrow> ((new_loop_output LoopModeForeach, Some (NewExecutionError (sp_ID st) txt_items_failed (Some e))), c)
      | Inr items \<Rightarrow>
          foreach_loop reg st lp (if lp_ItemVar lp = [] then DefaultItemVar else lp_ItemVar lp) (int (length items)) items 0
            (new_loop_output LoopModeForeach) ec c)"

fun while_loop ::
  "executors \<Rightarrow> step \<Rightarrow> loop \<Rightarrow> int \<Rightarrow> nat \<Rightarrow> int \<Rightarrow> loop_output \<Rightarrow> eval_ctx \<Rightarrow> exec_ctx \<Rightarrow>
     (loop_output \<times> go_error option) \<times> exec_ctx" where
  "while_loop reg st lp maxIterations n i out ec c =
     (case ctx_Done c of
        (True, c1) \<Rightarrow> ((out, Some (cx_ctxErr c1)), c1)
      | (False, c1) \<Rightarrow>
          (case n of
             0 \<Rightarrow> ((out, Some (NewExecutionError (sp_ID st) (txt_while_exceeded @ show_int maxIterations @ '')'') None)), c1)
           | Suc n' \<Rightarrow>
               (case setLoopVariables i (i + 1) 0 VNil [] (ec, c1) of (ec2, c2) \<Rightarrow>
                 (case eval_string (lp_Condition lp) ec2 of
                    Inl e \<Rightarrow>
                      ((out, Some (NewExecutionError (sp_ID st) (iteration_text i txt_while_failed) (Some (ExprError e)))), c2)
                  | Inr False \<Rightarrow> ((out, None), c2)
                  | Inr True \<Rightarrow>
                      (case iterate reg st lp i ec2 out c2 of
                         (Ended e, out', c3) \<Rightarrow> ((out', e), c3)
                       | (Going, out', c3) \<Rightarrow> while_loop reg st lp maxIterations n' (i + 1) out' ec2 c3)))))"

declare while_loop.simps [simp del]

lemma while_loop_0:
  "while_loop reg st lp mx 0 i out ec c =
     (case ctx_Done c of
        (True, c1) \<Rightarrow> ((out, Some (cx_ctxErr c1)), c1)
      | (False, c1) \<Rightarrow>
          ((out, Some (NewExecutionError (sp_ID st) (txt_while_exceeded @ show_int mx @ '')'') None)), c1))"
  by (subst while_loop.simps) (simp split: prod.splits bool.splits)

lemma while_loop_Suc:
  "while_loop reg st lp mx (Suc n) i out ec c =
     (case ctx_Done c of
        (True, c1) \<Rightarrow> ((out, Some (cx_ctxErr c1)), c1)
      | (False, c1) \<Rightarrow>
          (case setLoopVariables i (i + 1) 0 VNil [] (ec, c1) of (ec2, c2) \<Rightarrow>
            (case eval_string (lp_Condition lp) ec2 of
               Inl e \<Rightarrow> ((out, Some (NewExecutionError (sp_ID st) (iteration_text i txt_while_failed) (Some (ExprError e)))), c2)
             | Inr False \<Rightarrow> ((out, None), c2)
             | Inr True \<Rightarrow>
                 (case iterate reg st lp i ec2 out c2 of
                    (Ended e, out', c3) \<Rightarrow> ((out', e), c3)
                  | (Going, out', c3) \<Rightarrow> while_loop reg st lp mx n (i + 1) out' ec2 c3))))"
  by (subst while_loop.simps) (simp split: prod.splits bool.splits)

definition max_iterations :: "loop \<Rightarrow> int" where
  "max_iterations lp = (if lp_MaxIterations lp \<le> 0 then DefaultMaxIterations else lp_MaxIterations lp)"

definition executeWhileLoop ::
  "executors \<Rightarrow> step \<Rightarrow> loop \<Rightarrow> eval_ctx \<Rightarrow> exec_ctx \<Rightarrow> (loop_output \<times> go_error option) \<times> exec_ctx" where
  "executeWhileLoop reg st lp ec c =
     while_loop reg st lp (max_iterations lp) (nat (max_iterations lp)) 0 (new_loop_output LoopModeWhile) ec c"

section \<open>The executor\<close>

definition fail_step :: "step \<Rightarrow> int \<Rightarrow> go_error option \<Rightarrow> goval \<Rightarrow> exec_ctx \<Rightarrow> (go_error + step_result) \<times> exec_ctx" where
  "fail_step st startTime e output c =
     (case CreateFailedResult (sp_ID st) startTime e c of (r, c') \<Rightarrow> (Inr (r\<lparr>rs_Output := output\<rparr>), c'))"

definition loop_mode ::
  "executors \<Rightarrow> step \<Rightarrow> loop \<Rightarrow> eval_ctx \<Rightarrow> exec_ctx \<Rightarrow> ((loop_output \<times> go_error option) \<times> exec_ctx) option" where
  "loop_mode reg st lp ec c =
     (if lp_Mode lp = LoopModeFor then Some (executeForLoop reg st lp ec c)
      else if lp_Mode lp = LoopModeForeach then Some (executeForeachLoop reg st lp ec c)
      else if lp_Mode lp = LoopModeWhile then Some (executeWhileLoop reg st lp ec c)
      else None)"

definition loop_Execute :: "executors \<Rightarrow> execute" where
  "loop_Execute reg st c =
     (case time_Now c of (startTime, c1) \<Rightarrow>
       (case sp_Loop st of
          None \<Rightarrow> fail_step st startTime (Some (NewConfigError txt_loop_required None)) VNil c1
        | Some lp \<Rightarrow>
            (case validateConfig lp of
               Some e \<Rightarrow> fail_step st startTime (Some e) VNil c1
             | None \<Rightarrow>
                 (case BuildEvaluationContext c1 of (ec, c2) \<Rightarrow>
                   (case loop_mode reg st lp ec c2 of
                      None \<Rightarrow> fail_step st startTime (Some (NewConfigError (txt_mode_unsupported @ lp_Mode lp) None)) VNil c2
                    | Some ((out, Some e), c3) \<Rightarrow> fail_step st startTime (Some e) (loop_output_value out) c3
                    | Some ((out, None), c3) \<Rightarrow>
                        (case time_Now c3 of (now, c4) \<Rightarrow>
                          let out' = out\<lparr>lo_Duration := Milliseconds (duration_between startTime now)\<rparr> in
                          (case CreateSuccessResult (sp_ID st) startTime (loop_output_value out') c4 of (r, c5) \<Rightarrow>
                            (Inr (AddMetric ''loop_duration_ms'' (f64_of_int (lo_Duration out'))
                                   (AddMetric ''loop_iterations_total'' (f64_of_int (lo_TotalIterations out')) r)), c5))))))))"

section \<open>What the loops keep of the context\<close>

lemma on_start_off [simp]: "on_start False st p n c = c"
  by (simp add: on_start_def)

context context_relation
begin

lemma then_set_variable: "R c c' \<Longrightarrow> R c (SetVariable name v c')"
  using trans set_variable by blast

lemma setLoopVariables_keeps: "setLoopVariables i j n item v (ec, c) = (ec', c') \<Longrightarrow> R c c'"
  by (auto simp: setLoopVariables_def Let_def split: if_splits intro!: then_set_variable refl)

lemma body_executor_keeps:
  assumes "registry_keeps reg" "GetOrError reg t = Inr x" "time_Now (WithParentStep p n c) = (t0, c2)" "ex_Execute x st c2 = (res, c3)"
  shows "R c c3"
  using keepsD [OF registry_keepsD [OF assms(1,2)] assms(4)] nowD [OF assms(3)] parent_step trans by blast

lemma loop_body_keeps:
  assumes reg: "registry_keeps reg"
  shows "R c (snd (loop_body reg b p i sts executed c))"
proof (induction sts arbitrary: executed c)
  case Nil
  then show ?case by (simp add: refl)
next
  case (Cons st sts)
  let ?c1 = "on_start b st p (i + 1) c"
  show ?case
  proof (cases "GetOrError reg (sp_Type st)")
    case (Inl e)
    obtain t0 c2 where t0: "time_Now ?c1 = (t0, c2)" by (cases "time_Now ?c1")
    obtain r c3 where r: "CreateFailedResult (sp_ID st) t0 (Some e) c2 = (r, c3)"
      by (cases "CreateFailedResult (sp_ID st) t0 (Some e) c2")
    have "R ?c1 c3" using nowD [OF t0] result_keeps(2) [OF r] by (rule trans)
    then show ?thesis using Inl t0 r bracket refl by (cases b) (simp_all add: Let_def)
  next
    case (Inr x)
    obtain t0 c2 where t0: "time_Now (WithParentStep p (i + 1) ?c1) = (t0, c2)"
      by (cases "time_Now (WithParentStep p (i + 1) ?c1)")
    obtain res c3 where x: "ex_Execute x st c2 = (res, c3)" by (cases "ex_Execute x st c2")
    note c3 = body_executor_keeps [OF reg Inr t0 x]
    show ?thesis
    proof (cases res)
      case (Inl e)
      obtain r c4 where r: "CreateFailedResult (sp_ID st) t0 (Some e) c3 = (r, c4)"
        by (cases "CreateFailedResult (sp_ID st) t0 (Some e) c3")
      obtain t1 c5 where t1: "time_Now c4 = (t1, c5)" by (cases "time_Now c4")
      have "R ?c1 c5" using c3 result_keeps(2) [OF r] nowD [OF t1] trans by blast
      then show ?thesis using \<open>GetOrError reg (sp_Type st) = Inr x\<close> t0 x Inl r t1 c3 bracket by (cases b) (simp_all add: Let_def)
    next
      case (Inr r)
      have c4: "R c (on_complete b st r p (i + 1) (SetResult (sp_ID st) r c3))"
        by (rule bracket [OF trans [OF c3 set_result]])
      then show ?thesis using \<open>GetOrError reg (sp_Type st) = Inr x\<close> t0 x Inr trans [OF c4 Cons.IH] by (simp add: Let_def)
    qed
  qed
qed

lemma executeLoopBody_keeps: "registry_keeps reg \<Longrightarrow> executeLoopBody reg st sts c i = (res, c') \<Longrightarrow> R c c'"
  using loop_body_keeps [of reg c] by (metis executeLoopBody_def snd_conv)

lemma iterate_keeps: "registry_keeps reg \<Longrightarrow> iterate reg st lp i ec out c = (p, out', c') \<Longrightarrow> R c c'"
  by (auto simp: iterate_def refl split: guard.splits prod.splits option.splits intro: executeLoopBody_keeps)

text \<open>The part of an iteration that the three loops share.\<close>

lemma round_keeps:
  assumes "registry_keeps reg" "ctx_Done c = (d, c1)" "setLoopVariables i j n item v (ec, c1) = (ec2, c2)"
  shows "R c c2" "iterate reg st lp i ec2 out c2 = (p, out', c3) \<Longrightarrow> R c c3"
proof -
  show c2: "R c c2" using done_checkD [OF assms(2)] setLoopVariables_keeps [OF assms(3)] by (rule trans)
  show "iterate reg st lp i ec2 out c2 = (p, out', c3) \<Longrightarrow> R c c3" using trans [OF c2] iterate_keeps [OF assms(1)] by blast
qed

lemma for_loop_keeps: "registry_keeps reg \<Longrightarrow> R c (snd (for_loop reg st lp cnt n i out ec c))"
proof (induction n arbitrary: i out ec c)
  case (Suc n)
  obtain d c1 where d: "ctx_Done c = (d, c1)" by (cases "ctx_Done c")
  obtain ec2 c2 where v: "setLoopVariables i (i + 1) cnt VNil [] (ec, c1) = (ec2, c2)"
    by (cases "setLoopVariables i (i + 1) cnt VNil [] (ec, c1)")
  obtain p out' c3 where p: "iterate reg st lp i ec2 out c2 = (p, out', c3)" by (cases "iterate reg st lp i ec2 out c2")
  note c3 = round_keeps(2) [OF Suc.prems d v p]
  show ?case using d v p c3 done_checkD [OF d] trans [OF c3 Suc.IH [OF Suc.prems]]
    by (cases d; cases p) simp_all
qed (simp add: refl)

lemma foreach_loop_keeps: "registry_keeps reg \<Longrightarrow> R c (snd (foreach_loop reg st lp v cnt items i out ec c))"
proof (induction items arbitrary: i out ec c)
  case (Cons item items)
  obtain d c1 where d: "ctx_Done c = (d, c1)" by (cases "ctx_Done c")
  obtain ec2 c2 where s: "setLoopVariables i (i + 1) cnt item v (ec, c1) = (ec2, c2)"
    by (cases "setLoopVariables i (i + 1) cnt item v (ec, c1)")
  obtain p out' c3 where p: "iterate reg st lp i ec2 out c2 = (p, out', c3)" by (cases "iterate reg st lp i ec2 out c2")
  note c3 = round_keeps(2) [OF Cons.prems d s p]
  show ?case using d s p c3 done_checkD [OF d] trans [OF c3 Cons.IH [OF Cons.prems]]
    by (cases d; cases p) simp_all
qed (simp add: refl)

lemma while_loop_keeps: "registry_keeps reg \<Longrightarrow> R c (snd (while_loop reg st lp mx n i out ec c))"
proof (induction n arbitrary: i out ec c)
  case 0
  obtain d c1 where d: "ctx_Done c = (d, c1)" by (cases "ctx_Done c")
  then show ?case using done_checkD [OF d] by (cases d) (simp_all add: while_loop_0)
next
  case (Suc n)
  obtain d c1 where d: "ctx_Done c = (d, c1)" by (cases "ctx_Done c")
  obtain ec2 c2 where v: "setLoopVariables i (i + 1) 0 VNil [] (ec, c1) = (ec2, c2)"
    by (cases "setLoopVariables i (i + 1) 0 VNil [] (ec, c1)")
  obtain p out' c3 where p: "iterate reg st lp i ec2 out c2 = (p, out', c3)" by (cases "iterate reg st lp i ec2 out c2")
  note c2 = round_keeps(1) [OF Suc.prems d v] and c3 = round_keeps(2) [OF Suc.prems d v p]
  show ?case using d v p c2 c3 done_checkD [OF d] trans [OF c3 Suc.IH [OF Suc.prems]]
    by (cases d; cases p) (auto simp: while_loop_Suc split: sum.splits bool.splits)
qed

lemma loop_mode_keeps: "registry_keeps reg \<Longrightarrow> loop_mode reg st lp ec c = Some (res, c') \<Longrightarrow> R c c'"
proof -
  assume reg: "registry_keeps reg" and m: "loop_mode reg st lp ec c = Some (res, c')"
  have "R c (snd (executeForLoop reg st lp ec c))" "R c (snd (executeForeachLoop reg st lp ec c))" "R c (snd (executeWhileLoop reg st lp ec c))"
    by (simp_all add: executeForLoop_def executeForeachLoop_def executeWhileLoop_def refl reg for_loop_keeps
        foreach_loop_keeps while_loop_keeps split: sum.splits)
  then show "R c c'" using m by (auto simp: loop_mode_def split: if_splits)
qed

lemma fail_step_keeps: "R c (snd (fail_step st t e v c))"
  by (simp add: fail_step_def split: prod.splits) (metis result_keeps(2))

lemma loop_Execute_keeps:
  assumes reg: "registry_keeps reg"
  shows "keeps (loop_Execute reg)"
  unfolding keeps_def
proof (intro allI)
  fix st c
  obtain t0 c1 where t0: "time_Now c = (t0, c1)" by (cases "time_Now c")
  note c1 = nowD [OF t0]
  obtain ec c2 where b: "BuildEvaluationContext c1 = (ec, c2)" by (cases "BuildEvaluationContext c1")
  note c2 = trans [OF c1 buildD [OF b]]
  have loops: "R c (snd (loop_Execute reg st c))" if lp: "sp_Loop st = Some lp" "validateConfig lp = None" for lp
  proof (cases "loop_mode reg st lp ec c2")
    case None
    then show ?thesis using lp t0 b trans [OF c2 fail_step_keeps] by (simp add: loop_Execute_def)
  next
    case (Some res)
    obtain out e c3 where res: "res = ((out, e), c3)" by (metis prod.collapse)
    note c3 = trans [OF c2 loop_mode_keeps [OF reg Some [unfolded res]]]
    obtain t1 c4 where t1: "time_Now c3 = (t1, c4)" by (cases "time_Now c3")
    have c4: "R c c5" if "CreateSuccessResult (sp_ID st) t0 v c4 = (r, c5)" for v r c5
      by (rule trans [OF trans [OF c3 nowD [OF t1]] result_keeps(1) [OF that]])
    show ?thesis
    proof (cases e)
      case None
      then show ?thesis using lp t0 b Some res t1 by (auto simp: loop_Execute_def Let_def split: prod.splits intro: c4)
    next
      case (Some err)
      then show ?thesis using lp t0 b \<open>loop_mode reg st lp ec c2 = Some res\<close> res trans [OF c3 fail_step_keeps]
        by (simp add: loop_Execute_def)
    qed
  qed
  show "R c (snd (loop_Execute reg st c))"
    using loops t0 trans [OF c1 fail_step_keeps] by (auto simp: loop_Execute_def split: option.splits)
qed

end

end
