(* ===== verification/Condition_Executor.thy ===== *)
theory Condition_Executor
  imports Loop_Executor
begin

text \<open>
  The condition executor (\<^verbatim>\<open>internal/executor/condition_executor.go\<close>): a step with a list of branches
  of kind if, else-if and else, and the older form of a step with one condition in its configuration,
  which carries the state of a group of conditions in a variable of the context.
\<close>

definition txt_condition_failed :: gostring where
  "txt_condition_failed = utf8 [0xE6, 0x9D, 0xA1, 0xE4, 0xBB, 0xB6, 0xE8, 0xA1, 0xA8, 0xE8, 0xBE, 0xBE, 0xE5, 0xBC,
     0x8F, 0xE6, 0xB1, 0x82, 0xE5, 0x80, 0xBC, 0xE5, 0xA4, 0xB1, 0xE8, 0xB4, 0xA5]"

record condition_output =
  co_Expression :: gostring
  co_Result :: bool
  co_BranchTaken :: gostring
  co_StepsExecuted :: "gostring list"

definition condition_output_value :: "condition_output \<Rightarrow> goval" where
  "condition_output_value out = VStruct ''*executor.ConditionOutput''
     [(''Expression'', VString (co_Expression out)), (''Result'', VBool (co_Result out)),
      (''BranchTaken'', VString (co_BranchTaken out)), (''StepsExecuted'', VSlice (map VString (co_StepsExecuted out)))]"

definition condition_error :: "step \<Rightarrow> expr_error \<Rightarrow> go_error" where
  "condition_error st e = NewExecutionError (sp_ID st) txt_condition_failed (Some (ExprError e))"

definition executeBranch ::
  "executors \<Rightarrow> step list \<Rightarrow> exec_ctx \<Rightarrow> gostring \<Rightarrow> (step_result list \<times> go_error option) \<times> exec_ctx" where
  "executeBranch reg sts c parentID = ExecuteNestedSteps reg sts c parentID 0"

definition boolToFloat :: "bool \<Rightarrow> float64" where
  "boolToFloat b = F_Fin False (if b then 1 else 0)"

definition succeed_step ::
  "step \<Rightarrow> int \<Rightarrow> condition_output \<Rightarrow> float64 \<Rightarrow> float64 \<Rightarrow> exec_ctx \<Rightarrow> (go_error + step_result) \<times> exec_ctx" where
  "succeed_step st startTime out result steps c =
     (case CreateSuccessResult (sp_ID st) startTime (condition_output_value out) c of (r, c') \<Rightarrow>
        (Inr (AddMetric ''branch_steps_count'' steps (AddMetric ''condition_result'' result r)), c'))"

section \<open>Branches\<close>

text \<open>Whether a branch is taken, and the state of the group of conditions after the decision.  An
  empty expression counts as false, an unknown kind as an if.\<close>

definition branch_expression :: "gostring \<Rightarrow> eval_ctx \<Rightarrow> expr_error + bool" where
  "branch_expression expr ec = (if expr = [] then Inr False else eval_string expr ec)"

definition branch_kind_of :: "branch \<Rightarrow> branch_kind" where
  "branch_kind_of br = (if br_Kind br = [] then ConditionTypeIf else br_Kind br)"

definition branch_decision :: "branch \<Rightarrow> bool \<Rightarrow> eval_ctx \<Rightarrow> expr_error + (bool \<times> bool)" where
  "branch_decision br matched ec =
     (if branch_kind_of br = ConditionTypeElseIf
      then if matched then Inr (False, matched)
           else (case branch_expression (br_Expression br) ec of Inl e \<Rightarrow> Inl e | Inr b \<Rightarrow> Inr (b, b))
      else if branch_kind_of br = ConditionTypeElse
      then if matched then Inr (False, matched) else Inr (True, True)
      else (case branch_expression (br_Expression br) ec of Inl e \<Rightarrow> Inl e | Inr b \<Rightarrow> Inr (b, b)))"

definition run_branch :: "executors \<Rightarrow> step \<Rightarrow> int \<Rightarrow> branch \<Rightarrow> exec_ctx \<Rightarrow> (go_error + step_result) \<times> exec_ctx" where
  "run_branch reg st startTime br c =
     (let out = (\<lambda>executed. \<lparr>co_Expression = (if branch_kind_of br = ConditionTypeElse then [] else br_Expression br),
                   co_Result = True, co_BranchTaken = branch_kind_of br, co_StepsExecuted = executed\<rparr>) in
      if br_Steps br = [] then succeed_step st startTime (out []) (F_Fin False 1) (F_Fin False 0) c
      else (case executeBranch reg (br_Steps br) c (sp_ID st) of
              ((results, Some e), c') \<Rightarrow> fail_step st startTime (Some e) (condition_output_value (out [])) c'
            | ((results, None), c') \<Rightarrow>
                let executed = map rs_StepID results in
                (case find failed_result results of
                   Some r \<Rightarrow> fail_step st startTime (rs_Error r) (condition_output_value (out executed)) c'
                 | None \<Rightarrow> succeed_step st startTime (out executed) (F_Fin False 1) (f64_of_int (int (length executed))) c')))"

fun branch_loop ::
  "executors \<Rightarrow> step \<Rightarrow> int \<Rightarrow> eval_ctx \<Rightarrow> bool \<Rightarrow> branch list \<Rightarrow> exec_ctx \<Rightarrow> (go_error + step_result) \<times> exec_ctx" where
  "branch_loop reg st startTime ec matched [] c =
     succeed_step st startTime \<lparr>co_Expression = [], co_Result = False, co_BranchTaken = [], co_StepsExecuted = []\<rparr>
       (F_Fin False 0) (F_Fin False 0) c"
| "branch_loop reg st startTime ec matched (br # brs) c =
     (case branch_decision br matched ec of
        Inl e \<Rightarrow> fail_step st startTime (Some (condition_error st e)) VNil c
      | Inr (True, matched') \<Rightarrow> run_branch reg st startTime br c
      | Inr (False, matched') \<Rightarrow> branch_loop reg st startTime ec matched' brs c)"

definition executeWithBranches :: "executors \<Rightarrow> step \<Rightarrow> int \<Rightarrow> exec_ctx \<Rightarrow> (go_error + step_result) \<times> exec_ctx" where
  "executeWithBranches reg st startTime c =
     (case BuildEvaluationContext c of (ec, c1) \<Rightarrow> branch_loop reg st startTime ec False (sp_Branches st) c1)"

section \<open>The older form\<close>

definition group_variable :: gostring where
  "group_variable = ''__condition_group_matched__''"

definition legacy_kind :: "step \<Rightarrow> branch_kind" where
  "legacy_kind st =
     (case map_of (sp_Config st) ''type'' of
        Some (VString t) \<Rightarrow> if t \<noteq> [] then t else ConditionTypeIf
      | _ \<Rightarrow> ConditionTypeIf)"

definition legacy_expression :: "step \<Rightarrow> gostring" where
  "legacy_expression st = (case map_of (sp_Config st) ''expression'' of Some (VString s) \<Rightarrow> s | _ \<Rightarrow> [])"

definition group_matched :: "exec_ctx \<Rightarrow> bool" where
  "group_matched c = (case map_of (cx_Variables c) group_variable of Some (VBool b) \<Rightarrow> b | _ \<Rightarrow> False)"

definition note_match :: "bool \<Rightarrow> exec_ctx \<Rightarrow> exec_ctx" where
  "note_match b c = (if b then SetVariable group_variable (VBool True) c else c)"

text \<open>Whether the children are executed, with the context in which the state of the group is noted.\<close>

definition legacy_decision :: "step \<Rightarrow> eval_ctx \<Rightarrow> exec_ctx \<Rightarrow> (expr_error + bool) \<times> exec_ctx" where
  "legacy_decision st ec c =
     (let matched = group_matched c; kind = legacy_kind st in
      if kind = ConditionTypeElseIf
      then if matched then (Inr False, c)
           else (case eval_string (legacy_expression st) ec of
                   Inl e \<Rightarrow> (Inl e, c)
                 | Inr b \<Rightarrow> (Inr b, note_match b c))
      else if kind = ConditionTypeElse then (Inr (\<not> matched), note_match (\<not> matched) c)
      else let c1 = SetVariable group_variable (VBool False) c in
           (case eval_string (legacy_expression st) ec of
              Inl e \<Rightarrow> (Inl e, c1)
            | Inr b \<Rightarrow> (Inr b, note_match b c1)))"

definition executeLegacy :: "executors \<Rightarrow> step \<Rightarrow> int \<Rightarrow> exec_ctx \<Rightarrow> (go_error + step_result) \<times> exec_ctx" where
  "executeLegacy reg st startTime c =
     (case BuildEvaluationContext c of (ec, c1) \<Rightarrow>
       (case legacy_decision st ec c1 of
          (Inl e, c2) \<Rightarrow> fail_step st startTime (Some (condition_error st e)) VNil c2
        | (Inr b, c2) \<Rightarrow>
            let out = (\<lambda>executed. \<lparr>co_Expression = legacy_expression st, co_Result = b, co_BranchTaken = legacy_kind st,
                         co_StepsExecuted = executed\<rparr>);
                n = f64_of_int (int (length (sp_Children st))) in
            if b \<and> sp_Children st \<noteq> []
            then (case executeBranch reg (sp_Children st) c2 (sp_ID st) of
                    ((results, Some e), c3) \<Rightarrow> fail_step st startTime (Some e) (condition_output_value (out [])) c3
                  | ((results, None), c3) \<Rightarrow>
                      let executed = map rs_StepID results in
                      (case find failed_result results of
                         Some r \<Rightarrow> fail_step st startTime (rs_Error r) (condition_output_value (out executed)) c3
                       | None \<Rightarrow> succeed_step st startTime (out executed) (boolToFloat b) n c3))
            else succeed_step st startTime (out []) (boolToFloat b) n c2))"

definition condition_Execute :: "executors \<Rightarrow> execute" where
  "condition_Execute reg st c =
     (case time_Now c of (startTime, c1) \<Rightarrow>
        if sp_Branches st \<noteq> [] then executeWithBranches reg st startTime c1 else executeLegacy reg st startTime c1)"

section \<open>What conditions keep of the context\<close>

context context_relation
begin

lemma succeed_step_keeps: "R c (snd (succeed_step st t out x n c))"
  by (auto simp: succeed_step_def split: prod.splits intro: result_keeps(1))

lemma run_branch_keeps:
  assumes "registry_keeps reg"
  shows "R c (snd (run_branch reg st t br c))"
proof -
  obtain results e c' where b: "executeBranch reg (br_Steps br) c (sp_ID st) = ((results, e), c')" by (metis prod.collapse)
  then have c': "R c c'" using ExecuteNestedSteps_keeps [OF assms] by (simp add: executeBranch_def)
  note fail = trans [OF c' fail_step_keeps] and succeed = trans [OF c' succeed_step_keeps]
  show ?thesis using b fail succeed succeed_step_keeps by (simp add: run_branch_def Let_def split: option.splits)
qed

lemma branch_loop_keeps: "registry_keeps reg \<Longrightarrow> R c (snd (branch_loop reg st t ec m brs c))"
  by (induction brs arbitrary: m) (simp_all add: succeed_step_keeps fail_step_keeps run_branch_keeps split: sum.splits prod.splits bool.splits)

lemma executeWithBranches_keeps: "registry_keeps reg \<Longrightarrow> R c (snd (executeWithBranches reg st t c))"
  by (auto simp: executeWithBranches_def split: prod.splits intro: trans buildD branch_loop_keeps)

lemma legacy_decision_keeps: "legacy_decision st ec c = (b, c') \<Longrightarrow> R c c'"
  by (auto simp: legacy_decision_def note_match_def Let_def split: if_splits sum.splits intro!: then_set_variable refl)

lemma executeLegacy_keeps:
  assumes "registry_keeps reg"
  shows "R c (snd (executeLegacy reg st t c))"
proof -
  obtain ec c1 where b: "BuildEvaluationContext c = (ec, c1)" by (cases "BuildEvaluationContext c")
  obtain d c2 where d: "legacy_decision st ec c1 = (d, c2)" by (cases "legacy_decision st ec c1")
  note c2 = trans [OF buildD [OF b] legacy_decision_keeps [OF d]]
  obtain results e c3 where x: "executeBranch reg (sp_Children st) c2 (sp_ID st) = ((results, e), c3)" by (metis prod.collapse)
  have c3: "R c c3" using x ExecuteNestedSteps_keeps [OF assms] trans [OF c2] by (simp add: executeBranch_def)
  show ?thesis
    using b d x trans [OF c2 fail_step_keeps] trans [OF c2 succeed_step_keeps] trans [OF c3 fail_step_keeps] trans [OF c3 succeed_step_keeps]
    by (simp add: executeLegacy_def Let_def split: sum.splits option.splits)
qed

lemma condition_Execute_keeps:
  assumes "registry_keeps reg"
  shows "keeps (condition_Execute reg)"
  unfolding keeps_def
  by (auto simp: condition_Execute_def split: prod.splits intro: trans nowD executeWithBranches_keeps [OF assms] executeLegacy_keeps [OF assms])

end

section \<open>Branches are tried in order\<close>

text \<open>The abstract meaning of a list of branches: the first one whose condition holds is taken, an
  else holds always; an expression that cannot be evaluated before that ends the search with its error.\<close>

definition branch_holds :: "eval_ctx \<Rightarrow> branch \<Rightarrow> expr_error + bool" where
  "branch_holds ec br = (if branch_kind_of br = ConditionTypeElse then Inr True else branch_expression (br_Expression br) ec)"

fun first_branch :: "eval_ctx \<Rightarrow> branch list \<Rightarrow> expr_error + branch option" where
  "first_branch ec [] = Inr None"
| "first_branch ec (br # brs) =
     (case branch_holds ec br of
        Inl e \<Rightarrow> Inl e
      | Inr True \<Rightarrow> Inr (Some br)
      | Inr False \<Rightarrow> first_branch ec brs)"

lemma branch_decision_unmatched:
  "branch_decision br False ec = (case branch_holds ec br of Inl e \<Rightarrow> Inl e | Inr b \<Rightarrow> Inr (b, b))"
  by (simp add: branch_decision_def branch_holds_def condition_type_defs)

lemma branch_loop_first:
  "branch_loop reg st t ec False brs c =
     (case first_branch ec brs of
        Inl e \<Rightarrow> fail_step st t (Some (condition_error st e)) VNil c
      | Inr (Some br) \<Rightarrow> run_branch reg st t br c
      | Inr None \<Rightarrow> succeed_step st t \<lparr>co_Expression = [], co_Result = False, co_BranchTaken = [], co_StepsExecuted = []\<rparr>
          (F_Fin False 0) (F_Fin False 0) c)"
  by (induction brs) (auto simp: branch_decision_unmatched split: sum.splits bool.splits)

end
