(* ===== verification/Hook_Runner.thy ===== *)
theory Hook_Runner
  imports Loop_Executor
begin

text \<open>
  Hooks before and after workflows and steps (\<^verbatim>\<open>internal/hook/hook.go\<close> and \<^verbatim>\<open>runner.go\<close>).  A hook
  runs as a step of its own through the executor registered for its type; what runs between the hooks
  is an argument, as in the code.
\<close>

definition txt_hook_step :: gostring where
  "txt_hook_step = '' '' @ utf8 [0xE9, 0x92, 0xA9, 0xE5, 0xAD, 0x90, 0xEF, 0xBC, 0x8C, 0xE6, 0xAD, 0xA5, 0xE9, 0xAA,
     0xA4] @ '' ''"

definition txt_hook :: gostring where
  "txt_hook = '' '' @ utf8 [0xE9, 0x92, 0xA9, 0xE5, 0xAD, 0x90]"

definition txt_hook_no_executor :: gostring where
  "txt_hook_no_executor = utf8 [0xE6, 0x89, 0xA7, 0xE8, 0xA1, 0x8C, 0xE5, 0x99, 0xA8, 0xE6, 0x9C, 0xAA, 0xE6, 0x89,
     0xBE, 0xE5, 0x88, 0xB0]"

definition txt_hook_failed :: gostring where
  "txt_hook_failed = utf8 [0xE9, 0x92, 0xA9, 0xE5, 0xAD, 0x90, 0xE6, 0x89, 0xA7, 0xE8, 0xA1, 0x8C, 0xE5, 0xA4, 0xB1,
     0xE8, 0xB4, 0xA5]"

definition txt_workflow_pre_failed :: gostring where
  "txt_workflow_pre_failed = utf8 [0xE5, 0xB7, 0xA5, 0xE4, 0xBD, 0x9C, 0xE6, 0xB5, 0x81, 0xE5, 0x89, 0x8D, 0xE7, 0xBD,
     0xAE, 0xE9, 0x92, 0xA9, 0xE5, 0xAD, 0x90, 0xE5, 0xA4, 0xB1, 0xE8, 0xB4, 0xA5] @ '': ''"

definition txt_step_word :: gostring where
  "txt_step_word = utf8 [0xE6, 0xAD, 0xA5, 0xE9, 0xAA, 0xA4] @ '' ''"

definition txt_step_pre_failed :: gostring where
  "txt_step_pre_failed = '' '' @ utf8 [0xE7, 0x9A, 0x84, 0xE5, 0x89, 0x8D, 0xE7, 0xBD, 0xAE, 0xE9, 0x92, 0xA9, 0xE5,
     0xAD, 0x90, 0xE5, 0xA4, 0xB1, 0xE8, 0xB4, 0xA5] @ '': ''"

section \<open>Hooks\<close>

definition HookTypePre :: gostring where "HookTypePre = ''pre''"
definition HookTypePost :: gostring where "HookTypePost = ''post''"
definition HookLevelWorkflow :: gostring where "HookLevelWorkflow = ''workflow''"
definition HookLevelStep :: gostring where "HookLevelStep = ''step''"

record hook_error =
  he_HookType :: gostring
  he_HookLevel :: gostring
  he_StepID :: gostring
  he_Message :: gostring
  he_Cause :: "go_error option"

definition NewHookError :: "gostring \<Rightarrow> gostring \<Rightarrow> gostring \<Rightarrow> gostring \<Rightarrow> go_error option \<Rightarrow> hook_error" where
  "NewHookError hookType level stepID message cause =
     \<lparr>he_HookType = hookType, he_HookLevel = level, he_StepID = stepID, he_Message = message, he_Cause = cause\<rparr>"

definition hook_error_text :: "hook_error \<Rightarrow> gostring" where
  "hook_error_text e =
     (let cause = (case he_Cause e of None \<Rightarrow> ''<nil>'' | Some err \<Rightarrow> error_text err);
          place = ''['' @ he_HookLevel e @ ''-'' @ he_HookType e in
      if he_StepID e \<noteq> [] then place @ txt_hook_step @ he_StepID e @ ''] '' @ he_Message e @ '': '' @ cause
      else place @ txt_hook @ ''] '' @ he_Message e @ '': '' @ cause)"

record hook_result =
  hr_HookType :: gostring
  hr_HookLevel :: gostring
  hr_StepID :: gostring
  hr_Status :: result_status
  hr_StartTime :: int
  hr_EndTime :: int
  hr_Duration :: int
  hr_Output :: goval
  hr_Error :: "hook_error option"

definition generateHookStepID :: "gostring \<Rightarrow> gostring \<Rightarrow> gostring \<Rightarrow> gostring" where
  "generateHookStepID hookType level stepID =
     (let base = ''__'' @ level @ ''_'' @ hookType @ ''_hook'' in if stepID \<noteq> [] then base @ ''_'' @ stepID else base)"

definition hook_step :: "hook \<Rightarrow> gostring \<Rightarrow> gostring \<Rightarrow> gostring \<Rightarrow> step" where
  "hook_step hook hookType level stepID =
     Step (generateHookStepID hookType level stepID) (level @ ''-'' @ hookType @ ''-hook'') (hk_Type hook) False (hk_Config hook)
       None None [] [] None [] [] [] 0"

text \<open>The result of a hook and the error that \<^verbatim>\<open>ExecuteHook\<close> returns with it, from what the executor returned.\<close>

definition hook_outcome ::
  "gostring \<Rightarrow> gostring \<Rightarrow> gostring \<Rightarrow> int \<Rightarrow> int \<Rightarrow> go_error + step_result \<Rightarrow> hook_result \<times> hook_error option" where
  "hook_outcome hookType level stepID startTime endTime res =
     (let base = \<lparr>hr_HookType = hookType, hr_HookLevel = level, hr_StepID = stepID, hr_Status = [], hr_StartTime = startTime,
                  hr_EndTime = endTime, hr_Duration = duration_between startTime endTime, hr_Output = VNil, hr_Error = None\<rparr>;
          failure = (\<lambda>cause. Some (NewHookError hookType level stepID txt_hook_failed cause)) in
      case res of
        Inl err \<Rightarrow> (base\<lparr>hr_Status := ResultStatusFailed, hr_Error := failure (Some err)\<rparr>, failure (Some err))
      | Inr r \<Rightarrow>
          let h = base\<lparr>hr_Status := rs_Status r, hr_Output := rs_Output r,
                       hr_Error := (case rs_Error r of None \<Rightarrow> None | Some err \<Rightarrow> failure (Some err))\<rparr> in
          if failed_result r
          then let e = (case hr_Error h of None \<Rightarrow> failure None | Some err \<Rightarrow> Some err) in (h\<lparr>hr_Error := e\<rparr>, e)
          else (h, None))"

definition ExecuteHook ::
  "executors \<Rightarrow> hook option \<Rightarrow> gostring \<Rightarrow> gostring \<Rightarrow> gostring \<Rightarrow> exec_ctx \<Rightarrow>
     (hook_result option \<times> hook_error option) \<times> exec_ctx" where
  "ExecuteHook reg hook hookType level stepID c =
     (case hook of
        None \<Rightarrow> ((None, None), c)
      | Some h \<Rightarrow>
          (case time_Now c of (startTime, c1) \<Rightarrow>
            (case GetOrError reg (hk_Type h) of
               Inl err \<Rightarrow>
                 (case time_Now c1 of (endTime, c2) \<Rightarrow>
                   (case time_Now c2 of (since, c3) \<Rightarrow>
                     let e = NewHookError hookType level stepID txt_hook_no_executor (Some err) in
                     ((Some \<lparr>hr_HookType = hookType, hr_HookLevel = level, hr_StepID = stepID, hr_Status = ResultStatusFailed,
                             hr_StartTime = startTime, hr_EndTime = endTime, hr_Duration = duration_between startTime since,
                             hr_Output = VNil, hr_Error = Some e\<rparr>, Some e), c3)))
             | Inr x \<Rightarrow>
                 (case ex_Execute x (hook_step h hookType level stepID) c1 of (res, c2) \<Rightarrow>
                   (case time_Now c2 of (endTime, c3) \<Rightarrow>
                     (case hook_outcome hookType level stepID startTime endTime res of (r, e) \<Rightarrow> ((Some r, e), c3)))))))"

section \<open>The runner\<close>

definition ExecuteWorkflowPreHook ::
  "executors \<Rightarrow> workflow \<Rightarrow> exec_ctx \<Rightarrow> (hook_result option \<times> go_error option) \<times> exec_ctx" where
  "ExecuteWorkflowPreHook reg w c =
     (case ExecuteHook reg (wf_PreHook w) HookTypePre HookLevelWorkflow [] c of
        ((r, Some e), c') \<Rightarrow> ((r, Some (OtherError (txt_workflow_pre_failed @ hook_error_text e))), c')
      | ((r, None), c') \<Rightarrow> ((r, None), c'))"

definition ExecuteWorkflowPostHook ::
  "executors \<Rightarrow> workflow \<Rightarrow> go_error option \<Rightarrow> exec_ctx \<Rightarrow> (hook_result option \<times> hook_error option) \<times> exec_ctx" where
  "ExecuteWorkflowPostHook reg w workflowErr c =
     (case wf_PostHook w of
        None \<Rightarrow> ((None, None), c)
      | Some h \<Rightarrow>
          ExecuteHook reg (Some h) HookTypePost HookLevelWorkflow []
            (case workflowErr of None \<Rightarrow> c | Some e \<Rightarrow> SetVariable ''__workflow_error'' (VString (error_text e)) c))"

definition ExecuteStepPreHook ::
  "executors \<Rightarrow> step \<Rightarrow> exec_ctx \<Rightarrow> (hook_result option \<times> go_error option) \<times> exec_ctx" where
  "ExecuteStepPreHook reg st c =
     (case ExecuteHook reg (sp_PreHook st) HookTypePre HookLevelStep (sp_ID st) c of
        ((r, Some e), c') \<Rightarrow> ((r, Some (OtherError (txt_step_word @ sp_ID st @ txt_step_pre_failed @ hook_error_text e))), c')
      | ((r, None), c') \<Rightarrow> ((r, None), c'))"

definition step_result_value :: "step_result \<Rightarrow> goval" where
  "step_result_value r = VMap [(''status'', VString (rs_Status r)), (''duration'', VInt K_int64 (Milliseconds (rs_Duration r))), (''output'', rs_Output r)]"

definition publish_result :: "step_result option \<Rightarrow> exec_ctx \<Rightarrow> exec_ctx" where
  "publish_result stepResult c =
     (case stepResult of
        None \<Rightarrow> c
      | Some r \<Rightarrow>
          let c1 = SetVariable ''__step_result'' (step_result_value r) c in
          (case rs_Error r of None \<Rightarrow> c1 | Some e \<Rightarrow> SetVariable ''__step_error'' (VString (error_text e)) c1))"

definition ExecuteStepPostHook ::
  "executors \<Rightarrow> step \<Rightarrow> step_result option \<Rightarrow> exec_ctx \<Rightarrow> (hook_result option \<times> hook_error option) \<times> exec_ctx" where
  "ExecuteStepPostHook reg st stepResult c =
     (case sp_PostHook st of
        None \<Rightarrow> ((None, None), c)
      | Some h \<Rightarrow> ExecuteHook reg (Some h) HookTypePost HookLevelStep (sp_ID st) (publish_result stepResult c))"

record step_execution_result =
  se_PreHookResult :: "hook_result option"
  se_StepResult :: "step_result option"
  se_PostHookResult :: "hook_result option"
  se_Skipped :: bool
  se_Error :: "go_error option"

definition ExecuteStepWithHooks ::
  "executors \<Rightarrow> (step \<Rightarrow> exec_ctx \<Rightarrow> (step_result option \<times> go_error option) \<times> exec_ctx) \<Rightarrow> step \<Rightarrow> exec_ctx \<Rightarrow>
     step_execution_result \<times> exec_ctx" where
  "ExecuteStepWithHooks reg stepExecutor st c =
     (case ExecuteStepPreHook reg st c of
        ((pre, Some err), c1) \<Rightarrow>
          (case CreateSkippedResult (sp_ID st) c1 of (skipped, c2) \<Rightarrow>
            (case ExecuteStepPostHook reg st (Some skipped) c2 of ((post, _), c3) \<Rightarrow>
              (\<lparr>se_PreHookResult = pre, se_StepResult = Some skipped, se_PostHookResult = post, se_Skipped = True, se_Error = Some err\<rparr>, c3)))
      | ((pre, None), c1) \<Rightarrow>
          (case stepExecutor st c1 of ((r, err), c2) \<Rightarrow>
            (case ExecuteStepPostHook reg st r c2 of ((post, _), c3) \<Rightarrow>
              (\<lparr>se_PreHookResult = pre, se_StepResult = r, se_PostHookResult = post, se_Skipped = False, se_Error = err\<rparr>, c3))))"

record workflow_execution_result =
  we_PreHookResult :: "hook_result option"
  we_StepResults :: "step_execution_result list"
  we_PostHookResult :: "hook_result option"
  we_Skipped :: bool
  we_Error :: "go_error option"

definition ExecuteWorkflowWithHooks ::
  "executors \<Rightarrow> (workflow \<Rightarrow> exec_ctx \<Rightarrow> (step_execution_result list \<times> go_error option) \<times> exec_ctx) \<Rightarrow> workflow \<Rightarrow> exec_ctx \<Rightarrow>
     workflow_execution_result \<times> exec_ctx" where
  "ExecuteWorkflowWithHooks reg workflowExecutor w c =
     (case ExecuteWorkflowPreHook reg w c of
        ((pre, Some err), c1) \<Rightarrow>
          (case ExecuteWorkflowPostHook reg w (Some err) c1 of ((post, _), c2) \<Rightarrow>
            (\<lparr>we_PreHookResult = pre, we_StepResults = [], we_PostHookResult = post, we_Skipped = True, we_Error = Some err\<rparr>, c2))
      | ((pre, None), c1) \<Rightarrow>
          (case workflowExecutor w c1 of ((rs, err), c2) \<Rightarrow>
            (case ExecuteWorkflowPostHook reg w err c2 of ((post, _), c3) \<Rightarrow>
              (\<lparr>we_PreHookResult = pre, we_StepResults = rs, we_PostHookResult = post, we_Skipped = False, we_Error = err\<rparr>, c3))))"

section \<open>What hooks keep of the context\<close>

context context_relation
begin

lemma ExecuteHook_keeps:
  assumes "registry_keeps reg" "ExecuteHook reg hook ty lvl i c = (res, c')"
  shows "R c c'"
proof (cases hook)
  case None
  then show ?thesis using assms(2) by (simp add: ExecuteHook_def refl)
next
  case (Some h)
  obtain t0 c1 where t0: "time_Now c = (t0, c1)" by (cases "time_Now c")
  note c1 = nowD [OF t0]
  show ?thesis
  proof (cases "GetOrError reg (hk_Type h)")
    case (Inl err)
    obtain t1 c2 where t1: "time_Now c1 = (t1, c2)" by (cases "time_Now c1")
    obtain t2 c3 where t2: "time_Now c2 = (t2, c3)" by (cases "time_Now c2")
    have "R c c3" using c1 nowD [OF t1] nowD [OF t2] trans by blast
    then show ?thesis using assms(2) Some t0 t1 t2 Inl by (simp add: ExecuteHook_def Let_def)
  next
    case (Inr x)
    obtain r c2 where x: "ex_Execute x (hook_step h ty lvl i) c1 = (r, c2)" by (cases "ex_Execute x (hook_step h ty lvl i) c1")
    obtain t2 c3 where t2: "time_Now c2 = (t2, c3)" by (cases "time_Now c2")
    have "R c c3" using c1 keepsD [OF registry_keepsD [OF assms(1) Inr] x] nowD [OF t2] trans by blast
    then show ?thesis using assms(2) Some t0 x t2 Inr by (simp add: ExecuteHook_def split: prod.splits)
  qed
qed

lemma publish_result_keeps: "R c (publish_result r c)"
  by (auto simp: publish_result_def Let_def split: option.splits intro!: then_set_variable refl)

lemma pre_hook_keeps:
  assumes "registry_keeps reg"
  shows "ExecuteStepPreHook reg st c = (res, c') \<Longrightarrow> R c c'" "ExecuteWorkflowPreHook reg w c = (res', c') \<Longrightarrow> R c c'"
  by (auto simp: ExecuteStepPreHook_def ExecuteWorkflowPreHook_def split: prod.splits option.splits dest: ExecuteHook_keeps [OF assms])

lemma post_hook_keeps:
  assumes "registry_keeps reg"
  shows "ExecuteStepPostHook reg st r c = (res, c') \<Longrightarrow> R c c'" "ExecuteWorkflowPostHook reg w e c = (res', c') \<Longrightarrow> R c c'"
  by (auto simp: ExecuteStepPostHook_def ExecuteWorkflowPostHook_def refl split: option.splits
      dest!: ExecuteHook_keeps [OF assms] intro: trans [OF publish_result_keeps] trans [OF set_variable])

lemma ExecuteStepWithHooks_keeps:
  assumes "registry_keeps reg" and body: "\<And>st c. R c (snd (f st c))"
  shows "R c (snd (ExecuteStepWithHooks reg f st c))"
proof -
  obtain pre e c1 where pre: "ExecuteStepPreHook reg st c = ((pre, e), c1)" by (metis prod.collapse)
  note c1 = pre_hook_keeps(1) [OF assms(1) pre]
  show ?thesis
  proof (cases e)
    case None
    obtain r err c2 where f: "f st c1 = ((r, err), c2)" by (metis prod.collapse)
    then have c2: "R c c2" using body [of c1 st] trans [OF c1] by simp
    show ?thesis using pre None f trans [OF c2] post_hook_keeps(1) [OF assms(1)]
      by (auto simp: ExecuteStepWithHooks_def split: prod.splits)
  next
    case (Some err)
    obtain s c2 where s: "CreateSkippedResult (sp_ID st) c1 = (s, c2)" by (cases "CreateSkippedResult (sp_ID st) c1")
    note c2 = trans [OF c1 result_keeps(4) [OF s]]
    show ?thesis using pre Some s trans [OF c2] post_hook_keeps(1) [OF assms(1)]
      by (auto simp: ExecuteStepWithHooks_def split: prod.splits)
  qed
qed

end

section \<open>Hooks run whatever happens\<close>

lemma ExecuteHook_result: "fst (fst (ExecuteHook reg (Some h) ty lvl i c)) \<noteq> None"
  by (auto simp: ExecuteHook_def Let_def split: prod.splits sum.splits)

lemma ExecuteStepPostHook_result:
  "ExecuteStepPostHook reg st r c = ((post, e), c') \<Longrightarrow> post \<noteq> None \<longleftrightarrow> sp_PostHook st \<noteq> None"
  using ExecuteHook_result [of reg _ HookTypePost HookLevelStep "sp_ID st" "publish_result r c"]
  by (auto simp: ExecuteStepPostHook_def split: option.splits) (metis fst_conv option.distinct(1))



end
