(* ===== verification/Step_Runner.thy ===== *)
theory Step_Runner
  imports Condition_Executor Hook_Runner
begin

text \<open>
  The executors together: the default registry, in which the loop and condition executors find
  themselves and the executors of the leaves, and the properties of running a step with it.  Steps
  nest, so the registry is built to a depth; a registry as deep as the step is large behaves like
  every deeper one.
\<close>

section \<open>The default registry\<close>

definition loop_executor :: "executors \<Rightarrow> executor" where
  "loop_executor reg = \<lparr>ex_Type = ''loop'', ex_Init = \<lambda>_. None, ex_Execute = loop_Execute reg, ex_Cleanup = None\<rparr>"

definition condition_executor :: "executors \<Rightarrow> executor" where
  "condition_executor reg = \<lparr>ex_Type = ''condition'', ex_Init = \<lambda>_. None, ex_Execute = condition_Execute reg, ex_Cleanup = None\<rparr>"

primrec default_registry :: "executors \<Rightarrow> nat \<Rightarrow> executors" where
  "default_registry leaves 0 = leaves"
| "default_registry leaves (Suc n) =
     AList.update ''condition'' (condition_executor (default_registry leaves n))
       (AList.update ''loop'' (loop_executor (default_registry leaves n)) leaves)"

definition run_step :: "executors \<Rightarrow> nat \<Rightarrow> execute" where
  "run_step leaves n st c =
     (case GetOrError (default_registry leaves n) (sp_Type st) of
        Inl e \<Rightarrow> (Inl e, c)
      | Inr x \<Rightarrow> ex_Execute x st c)"

lemma default_registry_Suc:
  "map_of (default_registry leaves (Suc n)) t =
     (if t = ''condition'' then Some (condition_executor (default_registry leaves n))
      else if t = ''loop'' then Some (loop_executor (default_registry leaves n))
      else map_of leaves t)"
  by (simp add: update_conv')

section \<open>Enough depth\<close>

definition agree :: "executors \<Rightarrow> executors \<Rightarrow> step \<Rightarrow> bool" where
  "agree reg reg' st \<longleftrightarrow>
     (case (GetOrError reg (sp_Type st), GetOrError reg' (sp_Type st)) of
        (Inl e, Inl e') \<Rightarrow> e = e'
      | (Inr x, Inr x') \<Rightarrow> (\<forall>c. ex_Execute x st c = ex_Execute x' st c)
      | _ \<Rightarrow> False)"

lemma agree_cases:
  assumes "agree reg reg' st"
  obtains e where "GetOrError reg (sp_Type st) = Inl e" "GetOrError reg' (sp_Type st) = Inl e"
  | x x' where "GetOrError reg (sp_Type st) = Inr x" "GetOrError reg' (sp_Type st) = Inr x'" "ex_Execute x st = ex_Execute x' st"
  using assms that by (auto simp: agree_def fun_eq_iff split: sum.splits)

lemmas case_congs = prod.case_cong bool.case_cong sum.case_cong option.case_cong nat.case_cong progress.case_cong guard.case_cong if_cong

lemma nested_steps_agree:
  "\<forall>st \<in> set sts. agree reg reg' st \<Longrightarrow> nested_steps reg b p n sts results c = nested_steps reg' b p n sts results c"
proof (induction sts arbitrary: results c)
  case (Cons st sts)
  then have "agree reg reg' st" and IH: "\<And>results c. nested_steps reg b p n sts results c = nested_steps reg' b p n sts results c"
    by simp_all
  then show ?case
    by (cases rule: agree_cases) (simp_all add: Let_def cong: case_congs)
qed simp

lemma loop_body_agree:
  "\<forall>st \<in> set sts. agree reg reg' st \<Longrightarrow> loop_body reg b p i sts ex c = loop_body reg' b p i sts ex c"
proof (induction sts arbitrary: ex c)
  case (Cons st sts)
  then have "agree reg reg' st" and IH: "\<And>ex c. loop_body reg b p i sts ex c = loop_body reg' b p i sts ex c"
    by simp_all
  then show ?case
    by (cases rule: agree_cases) (simp_all add: Let_def cong: case_congs)
qed simp

lemma loops_agree:
  assumes "\<forall>s \<in> set (lp_Steps lp). agree reg reg' s"
  shows "loop_mode reg st lp ec c = loop_mode reg' st lp ec c"
proof -
  have "executeLoopBody reg st (lp_Steps lp) = executeLoopBody reg' st (lp_Steps lp)"
    using loop_body_agree [OF assms] by (simp add: executeLoopBody_def fun_eq_iff)
  then have it: "iterate reg st lp = iterate reg' st lp"
    by (simp add: iterate_def fun_eq_iff cong: case_congs)
  have "for_loop reg st lp cnt n i out ec c = for_loop reg' st lp cnt n i out ec c" for cnt n i out ec c
    by (induction n arbitrary: i out ec c) (simp_all add: it cong: case_congs)
  moreover have "foreach_loop reg st lp v cnt items i out ec c = foreach_loop reg' st lp v cnt items i out ec c" for v cnt items i out ec c
    by (induction items arbitrary: i out ec c) (simp_all add: it cong: case_congs)
  moreover have "while_loop reg st lp mx n i out ec c = while_loop reg' st lp mx n i out ec c" for mx n i out ec c
    by (induction n arbitrary: i out ec c) (simp_all add: it while_loop_0 while_loop_Suc cong: case_congs)
  ultimately show ?thesis by (simp add: loop_mode_def executeForLoop_def executeForeachLoop_def executeWhileLoop_def cong: case_congs)
qed

lemma loop_Execute_agree:
  assumes "\<And>lp s. sp_Loop st = Some lp \<Longrightarrow> s \<in> set (lp_Steps lp) \<Longrightarrow> agree reg reg' s"
  shows "loop_Execute reg st c = loop_Execute reg' st c"
  using loops_agree [of _ reg reg'] assms by (auto simp: loop_Execute_def split: prod.splits option.splits)

lemma branch_loop_agree:
  "\<forall>br \<in> set brs. \<forall>s \<in> set (br_Steps br). agree reg reg' s \<Longrightarrow> branch_loop reg st t ec m brs c = branch_loop reg' st t ec m brs c"
proof (induction brs arbitrary: m)
  case (Cons br brs)
  then have "\<forall>s \<in> set (br_Steps br). agree reg reg' s" by simp
  then have "executeBranch reg (br_Steps br) c p = executeBranch reg' (br_Steps br) c p" for p
    by (simp add: executeBranch_def ExecuteNestedSteps_def nested_steps_agree)
  then have "run_branch reg st t br c = run_branch reg' st t br c"
    unfolding run_branch_def by presburger
  then show ?case using Cons by (simp split: sum.splits prod.splits bool.splits)
qed simp

lemma condition_Execute_agree:
  assumes "\<And>s. s \<in> set (sp_Children st) \<Longrightarrow> agree reg reg' s"
    and "\<And>br s. br \<in> set (sp_Branches st) \<Longrightarrow> s \<in> set (br_Steps br) \<Longrightarrow> agree reg reg' s"
  shows "condition_Execute reg st c = condition_Execute reg' st c"
proof -
  have children: "executeBranch reg (sp_Children st) c p = executeBranch reg' (sp_Children st) c p" for c p
    using assms(1) by (simp add: executeBranch_def ExecuteNestedSteps_def nested_steps_agree)
  have branches: "branch_loop reg st t ec m (sp_Branches st) c = branch_loop reg' st t ec m (sp_Branches st) c" for t ec m c
    using assms(2) by (intro branch_loop_agree) blast
  show ?thesis
    unfolding condition_Execute_def executeWithBranches_def executeLegacy_def children branches ..
qed

lemma size_nested:
  "sp_Loop st = Some lp \<Longrightarrow> s \<in> set (lp_Steps lp) \<Longrightarrow> size s < size st"
  "s \<in> set (sp_Children st) \<Longrightarrow> size s < size st"
  "br \<in> set (sp_Branches st) \<Longrightarrow> s \<in> set (br_Steps br) \<Longrightarrow> size s < size st"
proof -
  have "s \<in> set ss \<Longrightarrow> size s < Suc (size_list size ss)" for s and ss :: "step list"
    by (simp add: size_list_estimation' less_Suc_eq_le)
  note here = this
  have "br \<in> set brs \<Longrightarrow> size br \<le> size_list size brs" for br and brs :: "branch list"
    by (simp add: size_list_estimation')
  note brs = this
  show "sp_Loop st = Some lp \<Longrightarrow> s \<in> set (lp_Steps lp) \<Longrightarrow> size s < size st"
    using here [of s "lp_Steps lp"] by (cases st; cases lp) auto
  show "s \<in> set (sp_Children st) \<Longrightarrow> size s < size st"
    using here [of s "sp_Children st"] by (cases st) auto
  show "br \<in> set (sp_Branches st) \<Longrightarrow> s \<in> set (br_Steps br) \<Longrightarrow> size s < size st"
    using here [of s "br_Steps br"] brs [of br "sp_Branches st"] by (cases st; cases br) auto
qed

lemma default_registry_agree: "size st \<le> n \<Longrightarrow> size st \<le> m \<Longrightarrow> agree (default_registry leaves n) (default_registry leaves m) st"
proof (induction "size st" arbitrary: st n m rule: less_induct)
  case less
  obtain n' m' where nm: "n = Suc n'" "m = Suc m'"
    using less.prems by (cases st; cases n; cases m) auto
  have IH: "agree (default_registry leaves n') (default_registry leaves m') s" if "size s < size st" for s
    using less.hyps [OF that] less.prems nm that by simp
  show ?case
    unfolding nm agree_def GetOrError_def Get_def default_registry_Suc
    using loop_Execute_agree [of st "default_registry leaves n'" "default_registry leaves m'"]
      condition_Execute_agree [of st "default_registry leaves n'" "default_registry leaves m'"] IH size_nested [where st = st]
    by (auto simp: loop_executor_def condition_executor_def split: option.splits)
qed

section \<open>Contracts of the executors\<close>

text \<open>The cached evaluation context, when it is not marked stale, is what would be built afresh.\<close>

definition coherent :: "exec_ctx \<Rightarrow> bool" where
  "coherent c \<longleftrightarrow> (\<not> cx_evalCtxDirty c \<longrightarrow> cx_cachedEvalCtx c = Some (fresh_eval_ctx c))"

lemma fresh_eval_ctx_cong: "cx_Variables c = cx_Variables c' \<Longrightarrow> cx_Results c = cx_Results c' \<Longrightarrow> fresh_eval_ctx c = fresh_eval_ctx c'"
  by (simp add: fresh_eval_ctx_def)

lemma coherent_cong:
  assumes "cx_Variables c = cx_Variables c'" "cx_Results c = cx_Results c'"
    and "cx_evalCtxDirty c = cx_evalCtxDirty c'" "cx_cachedEvalCtx c = cx_cachedEvalCtx c'"
  shows "coherent c = coherent c'"
  using assms fresh_eval_ctx_cong [OF assms(1,2)] by (simp add: coherent_def)

lemma coherent_observers:
  "coherent (snd (time_Now c)) = coherent c" "coherent (snd (ctx_Done c)) = coherent c" "coherent (on_start b st p n c) = coherent c"
  "coherent (on_complete b st r p n c) = coherent c" "coherent (WithParentStep i k c) = coherent c"
  "coherent (record_step st r c) = coherent c" "coherent (c\<lparr>cx_alive := a, cx_ctxErr := e\<rparr>) = coherent c"
  by (rule coherent_cong; simp add: time_Now_def ctx_Done_def on_start_def on_complete_def WithParentStep_def record_step_def split: option.splits nat.splits)+

interpretation cache: context_relation "\<lambda>c c'. coherent c \<longrightarrow> coherent c'"
proof (unfold_locales, goal_cases)
  case (8 c)
  have "fresh_eval_ctx (c\<lparr>cx_cachedEvalCtx := x, cx_evalCtxDirty := d\<rparr>) = fresh_eval_ctx c" for x d
    by (rule fresh_eval_ctx_cong) simp_all
  then show ?case by (auto simp: BuildEvaluationContext_def coherent_def split: option.splits)
qed (simp_all add: coherent_observers, simp_all add: coherent_def SetVariable_def SetResult_def)

text \<open>Calls of the callback, replayed on a stack of the steps that have started and not completed.\<close>

fun replay :: "(gostring \<times> gostring \<times> int) list \<Rightarrow> callback_event list \<Rightarrow> (gostring \<times> gostring \<times> int) list option" where
  "replay open_steps [] = Some open_steps"
| "replay open_steps (OnStepStart i p n # es) = replay ((i, p, n) # open_steps) es"
| "replay open_steps (OnStepComplete i r p n # es) =
     (case open_steps of
        [] \<Rightarrow> None
      | k # ks \<Rightarrow> if k = (i, p, n) then replay ks es else None)"

definition balanced :: "callback_event list \<Rightarrow> bool" where
  "balanced es \<longleftrightarrow> replay [] es = Some []"

lemma replay_append: "replay ks (es @ es') = Option.bind (replay ks es) (\<lambda>ks'. replay ks' es')"
  by (induction ks es rule: replay.induct) (auto split: list.splits)

lemma replay_frame: "replay ks es = Some ks' \<Longrightarrow> replay (ks @ ext) es = Some (ks' @ ext)"
proof (induction ks es arbitrary: ks' rule: replay.induct)
  case (3 open_steps i r p n es)
  then show ?case by (auto split: list.splits if_splits)
qed simp_all

lemma balanced_append: "balanced es \<Longrightarrow> balanced es' \<Longrightarrow> balanced (es @ es')"
  by (simp add: balanced_def replay_append)

lemma balanced_bracket: "balanced es \<Longrightarrow> balanced (OnStepStart i p n # es @ [OnStepComplete i r p n])"
  using replay_frame [of "[]" es "[]" "[(i, p, n)]"] by (simp add: balanced_def replay_append)

definition traces :: "exec_ctx \<Rightarrow> exec_ctx \<Rightarrow> bool" where
  "traces c c' \<longleftrightarrow> (\<exists>es. cx_events c' = cx_events c @ es \<and> balanced es)"

lemma traces_silent: "cx_events c' = cx_events c \<Longrightarrow> traces c c'"
  by (simp add: traces_def balanced_def)

lemma events_silent [simp]:
  "cx_events (snd (time_Now c)) = cx_events c" "cx_events (snd (ctx_Done c)) = cx_events c"
  "cx_events (snd (BuildEvaluationContext c)) = cx_events c" "cx_events (SetVariable name v c) = cx_events c"
  "cx_events (SetResult i r c) = cx_events c" "cx_events (WithParentStep i n c) = cx_events c"
  "cx_events (record_step st r c) = cx_events c"
  by (simp_all add: record_step_def time_Now_def ctx_Done_def BuildEvaluationContext_def SetVariable_def SetResult_def WithParentStep_def
      split: option.splits nat.splits)

interpretation callbacks: context_relation traces
proof (unfold_locales, goal_cases)
  case (2 c c' c'')
  then show ?case by (auto simp: traces_def intro: balanced_append)
next
  case (11 b st p n c c' r)
  then show ?case
    by (auto simp: traces_def on_start_def on_complete_def split: if_splits dest: balanced_bracket)
qed (simp_all add: traces_silent)

text \<open>What identifies the execution, and the callback itself, are never changed.\<close>

definition identity :: "exec_ctx \<Rightarrow> gostring \<times> gostring \<times> virtual_user option \<times> int \<times> bool" where
  "identity c = (cx_WorkflowID c, cx_ExecutionID c, cx_VU c, cx_Iteration c, cx_Callback c)"

interpretation identities: context_relation "\<lambda>c c'. identity c' = identity c"
  by unfold_locales
    (simp_all add: identity_def SetVariable_def SetResult_def WithParentStep_def time_Now_def ctx_Done_def BuildEvaluationContext_def
      on_start_def on_complete_def record_step_def split: option.splits nat.splits if_splits)

section \<open>Properties\<close>

text \<open>Every relation that the leaves keep is kept by the whole registry.\<close>

context context_relation
begin

lemma default_registry_keeps: "registry_keeps leaves \<Longrightarrow> registry_keeps (default_registry leaves n)"
proof (induction n)
  case (Suc n)
  then have reg: "registry_keeps (default_registry leaves n)" by simp
  show ?case unfolding registry_keeps_def default_registry_Suc
    using loop_Execute_keeps [OF reg] condition_Execute_keeps [OF reg] Suc.prems
    by (auto simp: loop_executor_def condition_executor_def registry_keeps_def)
qed simp

lemma run_step_keeps: "registry_keeps leaves \<Longrightarrow> R c (snd (run_step leaves n st c))"
  using registry_keepsD [OF default_registry_keeps, of leaves n "sp_Type st"]
  by (auto simp: run_step_def refl keeps_def split: sum.splits)

end

text \<open>A contract of the leaves, as a hypothesis.\<close>

definition leaves_keep :: "(exec_ctx \<Rightarrow> exec_ctx \<Rightarrow> bool) \<Rightarrow> executors \<Rightarrow> bool" where
  "leaves_keep R leaves \<longleftrightarrow> (\<forall>t x st c. map_of leaves t = Some x \<longrightarrow> R c (snd (ex_Execute x st c)))"

text \<open>Sample executors and steps: an executor that sets a variable to false and succeeds, and a loop and a condition around it.\<close>

definition set_executor :: executor where
  "set_executor = \<lparr>ex_Type = ''set'', ex_Init = \<lambda>_. None,
     ex_Execute = (\<lambda>st c. case CreateSuccessResult (sp_ID st) 0 VNil (SetVariable ''x'' (VBool False) c) of (r, c') \<Rightarrow> (Inr r, c')),
     ex_Cleanup = None\<rparr>"

definition sample_leaves :: executors where
  "sample_leaves = [(''set'', set_executor)]"

definition leaf_step :: "gostring \<Rightarrow> step" where
  "leaf_step i = Step i [] ''set'' False [] None None [] [] None [] [] [] 0"

definition sample_loop :: loop where
  "sample_loop = Loop ''for'' 2 VNil [] [] 0 [] [] [leaf_step ''a'', leaf_step ''b'']"

definition loop_step :: "loop \<Rightarrow> step" where
  "loop_step lp = Step ''l'' [] ''loop'' False [] None None [] [] (Some lp) [] [] [] 0"

definition sample_context :: exec_ctx where
  "sample_context = WithCallback True (NewExecutionContext (\<lambda>n. int n) None ContextCanceled)"

lemma set_executor_keeps:
  assumes "\<And>c. R c (SetVariable ''x'' (VBool False) c)" "\<And>c. R c (snd (time_Now c))" "\<And>a b c. R a b \<Longrightarrow> R b c \<Longrightarrow> R a c"
  shows "leaves_keep R sample_leaves"
  unfolding leaves_keep_def sample_leaves_def
proof (intro allI impI)
  fix t x st c
  assume "map_of [(''set'', set_executor)] t = Some x"
  then have x: "x = set_executor" by (simp split: if_splits)
  have "R c (snd (time_Now (SetVariable ''x'' (VBool False) c)))" using assms by blast
  then show "R c (snd (ex_Execute x st c))"
    by (simp add: x set_executor_def CreateSuccessResult_def finished_result_def time_Now_def)
qed



text \<open>The callback sees balanced calls: whatever fails, breaks or is cancelled, every start of a nested
  step is followed by its completion, properly nested, when the leaves call it so themselves.\<close>

theorem callbacks_balanced:
  assumes "leaves_keep traces leaves"
  shows "\<exists>es. cx_events (snd (run_step leaves n st c)) = cx_events c @ es \<and> balanced es"
  using callbacks.run_step_keeps [of leaves c n st] assms
  by (auto simp: leaves_keep_def callbacks.registry_keeps_def callbacks.keeps_def traces_def)

theorem callbacks_balanced_witness:
  "leaves_keep traces sample_leaves \<and>
   (\<exists>es. cx_events (snd (run_step sample_leaves 3 (loop_step sample_loop) sample_context)) = cx_events sample_context @ es \<and> balanced es)"
proof -
  have h: "leaves_keep traces sample_leaves"
    by (rule set_executor_keeps) (blast intro: callbacks.set_variable callbacks.now callbacks.trans)+
  show ?thesis using h callbacks_balanced [OF h] by blast
qed

text \<open>The cache of the evaluation context is invisible: after any step, the context that the next
  condition gets is the one built afresh from the variables and results, when the leaves change
  variables and results only through the methods of the context.\<close>

theorem evaluation_context_fresh:
  assumes "leaves_keep (\<lambda>c c'. coherent c \<longrightarrow> coherent c') leaves" "coherent c"
  shows "fst (BuildEvaluationContext (snd (run_step leaves n st c))) = fresh_eval_ctx (snd (run_step leaves n st c))"
proof -
  have "coherent (snd (run_step leaves n st c))"
    using cache.run_step_keeps [of leaves c n st] assms
    by (auto simp: leaves_keep_def cache.registry_keeps_def cache.keeps_def)
  then show ?thesis by (auto simp: BuildEvaluationContext_def coherent_def split: option.splits)
qed

theorem evaluation_context_fresh_witness:
  "coherent sample_context \<and>
   fst (BuildEvaluationContext (snd (run_step sample_leaves 3 (loop_step sample_loop) sample_context))) =
     fresh_eval_ctx (snd (run_step sample_leaves 3 (loop_step sample_loop) sample_context))"
proof -
  have h: "leaves_keep (\<lambda>c c'. coherent c \<longrightarrow> coherent c') sample_leaves"
    by (rule set_executor_keeps) (simp_all add: coherent_observers, simp add: coherent_def SetVariable_def)
  have h': "coherent sample_context"
    by (simp add: coherent_def sample_context_def WithCallback_def NewExecutionContext_def)
  show ?thesis using h' evaluation_context_fresh [OF h h'] by blast
qed

text \<open>(C15) A condition step with branches takes the first branch whose condition holds in the variables and
  results at its start, an else holding always, and runs its steps; it succeeds without running anything
  when none holds, and fails when an expression before that cannot be evaluated.\<close>

theorem condition_takes_first_branch:
  assumes "coherent c" "sp_Branches st \<noteq> []"
  shows "\<exists>t c'. condition_Execute reg st c =
    (case first_branch (fresh_eval_ctx c) (sp_Branches st) of
       Inl e \<Rightarrow> fail_step st t (Some (condition_error st e)) VNil c'
     | Inr (Some br) \<Rightarrow> run_branch reg st t br c'
     | Inr None \<Rightarrow> succeed_step st t \<lparr>co_Expression = [], co_Result = False, co_BranchTaken = [], co_StepsExecuted = []\<rparr>
         (F_Fin False 0) (F_Fin False 0) c') \<and>
    cx_Variables c' = cx_Variables c \<and> cx_Results c' = cx_Results c"
proof -
  obtain t c1 where t: "time_Now c = (t, c1)" by (cases "time_Now c")
  obtain ec c2 where b: "BuildEvaluationContext c1 = (ec, c2)" by (cases "BuildEvaluationContext c1")
  have c1: "coherent c1" "fresh_eval_ctx c1 = fresh_eval_ctx c" "cx_Variables c1 = cx_Variables c" "cx_Results c1 = cx_Results c"
    using t assms(1) coherent_observers(1) [of c] by (auto simp: time_Now_def intro: fresh_eval_ctx_cong)
  then have "ec = fresh_eval_ctx c" "cx_Variables c2 = cx_Variables c" "cx_Results c2 = cx_Results c"
    using b by (auto simp: BuildEvaluationContext_def coherent_def split: option.splits if_splits)
  moreover have "condition_Execute reg st c = branch_loop reg st t ec False (sp_Branches st) c2"
    using t b assms(2) by (simp add: condition_Execute_def executeWithBranches_def)
  ultimately show ?thesis using branch_loop_first [of reg st t ec "sp_Branches st" c2] by (intro exI [of _ t] exI [of _ c2]) simp
qed

theorem condition_takes_first_branch_witness:
  "coherent sample_context \<and>
   (let st = Step ''c'' [] ''condition'' False [] None None [] [] None [] [Branch ''b1'' [] ''if'' [] [], Branch ''b2'' [] ''else'' [] [leaf_step ''a'']] [] 0
    in \<exists>t c'. condition_Execute sample_leaves st sample_context = run_branch sample_leaves st t (Branch ''b2'' [] ''else'' [] [leaf_step ''a'']) c')"
proof -
  let ?st = "Step ''c'' [] ''condition'' False [] None None [] [] None [] [Branch ''b1'' [] ''if'' [] [], Branch ''b2'' [] ''else'' [] [leaf_step ''a'']] [] 0"
  have h: "coherent sample_context" "sp_Branches ?st \<noteq> []"
    by (simp_all add: coherent_def sample_context_def WithCallback_def NewExecutionContext_def)
  have first: "first_branch ec (sp_Branches ?st) = Inr (Some (Branch ''b2'' [] ''else'' [] [leaf_step ''a'']))" for ec
    by (simp add: branch_holds_def branch_kind_of_def branch_expression_def condition_type_defs)
  show ?thesis using h(1) condition_takes_first_branch [OF h, of sample_leaves] unfolding first Let_def by auto
qed

end
