(* ===== verification/Loop_Properties.thy ===== *)
theory Loop_Properties
  imports Step_Runner
begin

text \<open>
  How often loops run.  The conditions of a loop see the context from before the loop and the loop
  variables, so that the guard of each iteration is known in advance; with a body that does not fail,
  this determines which iterations run.
\<close>

section \<open>The context of an iteration\<close>

definition loop_env :: "int \<Rightarrow> eval_ctx \<Rightarrow> int \<Rightarrow> eval_ctx" where
  "loop_env cnt ec i = ctx_Set ec ''loop'' (VMap ([(''index'', VInt K_int i), (''iteration'', VInt K_int (i + 1))] @
     (if cnt > 0 then [(''count'', VInt K_int cnt)] else [])))"

lemma update_twice: "AList.update k v (AList.update k w m) = AList.update k v m"
  by (induction m) auto

lemma loop_env_twice [simp]: "loop_env cnt (loop_env cnt ec i) j = loop_env cnt ec j"
  by (simp add: loop_env_def ctx_Set_def update_twice)

lemma setLoopVariables_env:
  "\<exists>c'. setLoopVariables i (i + 1) cnt VNil [] (ec, c) = (loop_env cnt ec i, c') \<and> cx_alive c' = cx_alive c"
  by (simp add: setLoopVariables_def loop_env_def SetVariable_def Let_def)

section \<open>Reliable bodies\<close>

text \<open>A step is reliable when it is registered, succeeds, and does not cancel the context.\<close>

definition reliable :: "executors \<Rightarrow> step \<Rightarrow> bool" where
  "reliable reg s \<longleftrightarrow> (\<exists>x. GetOrError reg (sp_Type s) = Inr x \<and>
     (\<forall>c. cx_alive c = None \<longrightarrow> cx_alive (snd (ex_Execute x s c)) = None \<and> (\<exists>r. fst (ex_Execute x s c) = Inr r \<and> \<not> failed_result r)))"

lemma alive_frame [simp]:
  "cx_alive (snd (time_Now c)) = cx_alive c" "cx_alive (WithParentStep i n c) = cx_alive c" "cx_alive (SetResult j r c) = cx_alive c"
  "cx_alive (on_start b st p k c) = cx_alive c" "cx_alive (on_complete b st r p k c) = cx_alive c"
  by (simp_all add: time_Now_def WithParentStep_def SetResult_def on_start_def on_complete_def)

lemma body_reliable:
  assumes "\<forall>s \<in> set sts. reliable reg s" "cx_alive c = None"
  shows "\<exists>c'. loop_body reg b p i sts ex c = ((ex @ map sp_ID sts, None), c') \<and> cx_alive c' = None"
  using assms
proof (induction sts arbitrary: ex c)
  case (Cons s sts)
  obtain x where x: "GetOrError reg (sp_Type s) = Inr x"
    "\<And>c. cx_alive c = None \<Longrightarrow> cx_alive (snd (ex_Execute x s c)) = None \<and> (\<exists>r. fst (ex_Execute x s c) = Inr r \<and> \<not> failed_result r)"
    using Cons.prems(1) by (auto simp: reliable_def)
  let ?c1 = "WithParentStep p (i + 1) (on_start b s p (i + 1) c)"
  obtain t c2 where t: "time_Now ?c1 = (t, c2)" by (cases "time_Now ?c1")
  have alive: "cx_alive c2 = None" using alive_frame(1) [of ?c1] t Cons.prems(2) by simp
  obtain r c3 where r: "ex_Execute x s c2 = (Inr r, c3)" "\<not> failed_result r" "cx_alive c3 = None"
    using x(2) [OF alive] by (metis prod.collapse)
  let ?c4 = "on_complete b s r p (i + 1) (SetResult (sp_ID s) r c3)"
  have "\<exists>c'. loop_body reg b p i sts (ex @ [sp_ID s]) ?c4 = (((ex @ [sp_ID s]) @ map sp_ID sts, None), c') \<and> cx_alive c' = None"
    using Cons.IH [of ?c4 "ex @ [sp_ID s]"] Cons.prems(1) r(3) by simp
  then show ?case using x(1) t r by (simp add: Let_def)
qed simp

definition ids_of :: "loop \<Rightarrow> gostring list" where
  "ids_of lp = map sp_ID (lp_Steps lp)"

definition ran_ids :: "guard \<Rightarrow> loop \<Rightarrow> gostring list" where
  "ran_ids g lp = (if g = G_Run then ids_of lp else [])"

lemma iterate_reliable:
  assumes "\<forall>s \<in> set (lp_Steps lp). reliable reg s" "cx_alive c = None" "loop_guard (sp_ID st) lp i ec = g"
  shows "g = G_Run \<or> g = G_Continue \<Longrightarrow> \<exists>c'. iterate reg st lp i ec out c = (Going, count_iteration (ran_ids g lp) out, c') \<and> cx_alive c' = None"
    and "g = G_Break \<Longrightarrow> iterate reg st lp i ec out c = (Ended None, out\<lparr>lo_BreakTriggered := True\<rparr>, c)"
  using body_reliable [OF assms(1,2), of "cx_Callback c" "sp_ID st" i "[]"] assms(2,3)
  by (auto simp: iterate_def executeLoopBody_def ran_ids_def ids_of_def)

section \<open>Counted loops\<close>

lemma ctx_Done_alive [simp]: "cx_alive c = None \<Longrightarrow> ctx_Done c = (False, c)"
  by (simp add: ctx_Done_def)

definition went_on :: "guard \<Rightarrow> bool" where
  "went_on g \<longleftrightarrow> g = G_Run \<or> g = G_Continue"

definition after_iterations :: "gostring list \<Rightarrow> nat \<Rightarrow> bool \<Rightarrow> loop_output \<Rightarrow> loop_output" where
  "after_iterations executed j broke out =
     out\<lparr>lo_StepsExecuted := lo_StepsExecuted out @ executed, lo_TotalIterations := lo_TotalIterations out + int j,
         lo_BreakTriggered := (lo_BreakTriggered out \<or> broke)\<rparr>"

lemma after_iterations_Suc: "after_iterations (a @ b) (Suc j) broke out = after_iterations b j broke (count_iteration a out)"
  by (simp add: after_iterations_def count_iteration_def)

lemma for_loop_runs:
  fixes G :: "int \<Rightarrow> guard"
  assumes rel: "\<forall>s \<in> set (lp_Steps lp). reliable reg s" and G: "\<And>i. loop_guard (sp_ID st) lp i (loop_env cnt ec i) = G i"
  shows "cx_alive c = None \<Longrightarrow> (\<And>i. loop_env cnt ec' i = loop_env cnt ec i) \<Longrightarrow> j \<le> n \<Longrightarrow> (\<And>k. k < j \<Longrightarrow> went_on (G (i + int k))) \<Longrightarrow>
    j = n \<or> G (i + int j) = G_Break \<Longrightarrow>
    \<exists>c'. for_loop reg st lp cnt n i out ec' c =
      ((after_iterations (concat (map (\<lambda>k. ran_ids (G (i + int k)) lp) [0..<j])) j (j < n) out, None), c')"
proof (induction n arbitrary: i j out ec' c)
  case 0
  then show ?case by (simp add: after_iterations_def)
next
  case (Suc n)
  obtain c2 where v: "setLoopVariables i (i + 1) cnt VNil [] (ec', c) = (loop_env cnt ec i, c2)" "cx_alive c2 = None"
    using setLoopVariables_env [of i cnt ec' c] Suc.prems(1,2) by auto
  note it = iterate_reliable [OF rel v(2) G [of i]]
  show ?case
  proof (cases j)
    case 0
    then have "G i = G_Break" using Suc.prems(5) by simp
    then show ?thesis using 0 Suc.prems(1) v(1) it(2) by (simp add: after_iterations_def)
  next
    case (Suc j')
    then have "went_on (G i)" using Suc.prems(4) [of 0] by simp
    then obtain c3 where c3: "iterate reg st lp i (loop_env cnt ec i) out c2 = (Going, count_iteration (ran_ids (G i) lp) out, c3)" "cx_alive c3 = None"
      using it(1) by (auto simp: went_on_def)
    have shift: "i + 1 + int k = i + int (Suc k)" for k by simp
    have "\<exists>c'. for_loop reg st lp cnt n (i + 1) (count_iteration (ran_ids (G i) lp) out) (loop_env cnt ec i) c3 =
      ((after_iterations (concat (map (\<lambda>k. ran_ids (G (i + 1 + int k)) lp) [0..<j'])) j' (j' < n) (count_iteration (ran_ids (G i) lp) out), None), c')"
    proof (rule Suc.IH [OF c3(2)])
      show "went_on (G (i + 1 + int k))" if "k < j'" for k using Suc.prems(4) [of "Suc k"] that Suc unfolding shift by simp
      show "j' = n \<or> G (i + 1 + int j') = G_Break" using Suc.prems(5) Suc unfolding shift by simp
    qed (use Suc.prems(3) Suc in simp_all)
    moreover have "concat (map (\<lambda>k. ran_ids (G (i + int k)) lp) [0..<Suc j']) = ran_ids (G i) lp @ concat (map (\<lambda>k. ran_ids (G (i + 1 + int k)) lp) [0..<j'])"
    proof -
      have "[0..<Suc j'] = 0 # map Suc [0..<j']" by (simp add: map_Suc_upt upt_conv_Cons del: upt_Suc)
      then show ?thesis by (simp add: comp_def add.assoc del: upt_Suc)
    qed
    ultimately show ?thesis using Suc Suc.prems(1) v(1) c3(1)
      by (simp add: after_iterations_Suc del: upt_Suc)
  qed
qed

text \<open>(C14) A loop with a count runs the iterations it should: with a body that does not fail and no
  cancellation, it stops at the first index where the break condition holds, or at the count; every
  index before that counts as an iteration, and its steps run exactly where the continue condition
  does not hold, in the order of the indices.\<close>

theorem for_loop_iterations:
  assumes "\<forall>s \<in> set (lp_Steps lp). reliable reg s" "cx_alive c = None" "int j \<le> lp_Count lp"
    and "\<forall>k < j. went_on (loop_guard (sp_ID st) lp (int k) (loop_env (lp_Count lp) ec (int k)))"
    and "int j = lp_Count lp \<or> loop_guard (sp_ID st) lp (int j) (loop_env (lp_Count lp) ec (int j)) = G_Break"
  shows "\<exists>out c'. executeForLoop reg st lp ec c = ((out, None), c') \<and> lo_TotalIterations out = int j \<and>
    lo_BreakTriggered out = (int j < lp_Count lp) \<and>
    lo_StepsExecuted out = concat (map (\<lambda>k. ran_ids (loop_guard (sp_ID st) lp (int k) (loop_env (lp_Count lp) ec (int k))) lp) [0..<j])"
proof (cases "lp_Count lp \<le> 0")
  case True
  then have "j = 0" "lp_Count lp = 0" using assms(3) by auto
  then show ?thesis by (simp add: executeForLoop_def new_loop_output_def)
next
  case False
  let ?cnt = "lp_Count lp" and ?G = "\<lambda>i. loop_guard (sp_ID st) lp i (loop_env (lp_Count lp) ec i)"
  have "\<exists>c'. for_loop reg st lp ?cnt (nat ?cnt) 0 (new_loop_output LoopModeFor) ec c =
      ((after_iterations (concat (map (\<lambda>k. ran_ids (?G (0 + int k)) lp) [0..<j])) j (j < nat ?cnt) (new_loop_output LoopModeFor), None), c')"
    using assms(2-5) False by (intro for_loop_runs [OF assms(1)]) auto
  then show ?thesis using False by (auto simp: executeForLoop_def after_iterations_def new_loop_output_def zless_nat_eq_int_zless)
qed

lemma set_executor_reliable: "reliable sample_leaves (leaf_step i)"
  by (auto simp: reliable_def sample_leaves_def leaf_step_def GetOrError_def Get_def set_executor_def CreateSuccessResult_def
      finished_result_def time_Now_def failed_result_def result_status_defs SetVariable_def)

theorem for_loop_iterations_witness:
  "\<exists>out c'. executeForLoop sample_leaves (loop_step sample_loop) sample_loop NewEvaluationContext sample_context = ((out, None), c') \<and>
     lo_TotalIterations out = 2 \<and> lo_StepsExecuted out = [''a'', ''b'', ''a'', ''b'']"
proof -
  let ?G = "\<lambda>i. loop_guard (sp_ID (loop_step sample_loop)) sample_loop i (loop_env (lp_Count sample_loop) NewEvaluationContext i)"
  have G: "?G i = G_Run" for i by (simp add: loop_guard_def condition_holds_def sample_loop_def)
  have h: "\<forall>s \<in> set (lp_Steps sample_loop). reliable sample_leaves s" "cx_alive sample_context = None" "int 2 \<le> lp_Count sample_loop"
    "\<forall>k < 2. went_on (?G (int k))" "int 2 = lp_Count sample_loop \<or> ?G (int 2) = G_Break"
    unfolding G by (simp_all add: went_on_def set_executor_reliable, simp_all add: sample_loop_def sample_context_def WithCallback_def NewExecutionContext_def)
      (simp_all add: set_executor_reliable)
  have "concat (map (\<lambda>k. ran_ids (?G (int k)) sample_loop) [0..<2]) = [''a'', ''b'', ''a'', ''b'']"
    unfolding G by (simp add: ran_ids_def ids_of_def sample_loop_def leaf_step_def upt_rec)
  then show ?thesis using for_loop_iterations [OF h] by auto
qed

section \<open>Conditional loops\<close>

lemma iterate_total:
  assumes "iterate reg st lp i ec out c = (p, out', c')"
  shows "lo_TotalIterations out' = lo_TotalIterations out + (if p = Going then 1 else 0)"
    and "p = Ended None \<Longrightarrow> lo_BreakTriggered out'" and "p = Going \<Longrightarrow> lo_BreakTriggered out' = lo_BreakTriggered out"
  using assms by (auto simp: iterate_def count_iteration_def split: guard.splits prod.splits option.splits)

lemma while_loop_bounds:
  "while_loop reg st lp mx n i out ec' c = ((out', e), c') \<Longrightarrow> (\<And>k. loop_env 0 ec' k = loop_env 0 ec k) \<Longrightarrow> lo_TotalIterations out = i \<Longrightarrow>
   i \<le> lo_TotalIterations out' \<and> lo_TotalIterations out' \<le> i + int n \<and>
   (e = None \<longrightarrow> \<not> lo_BreakTriggered out' \<longrightarrow> eval_string (lp_Condition lp) (loop_env 0 ec (lo_TotalIterations out')) = Inr False)"
proof (induction n arbitrary: i out ec' c)
  case 0
  then show ?case by (auto simp: while_loop_0 split: prod.splits bool.splits)
next
  case (Suc n)
  obtain d c1 where d: "ctx_Done c = (d, c1)" by (cases "ctx_Done c")
  obtain c2 where v: "setLoopVariables i (i + 1) 0 VNil [] (ec', c1) = (loop_env 0 ec i, c2)"
    using setLoopVariables_env [of i 0 ec' c1] Suc.prems(2) by auto
  obtain p o3 c3 where p: "iterate reg st lp i (loop_env 0 ec i) out c2 = (p, o3, c3)"
    by (cases "iterate reg st lp i (loop_env 0 ec i) out c2")
  note it = iterate_total [OF p]
  consider "d" | e1 where "\<not> d" "eval_string (lp_Condition lp) (loop_env 0 ec i) = Inl e1"
    | "\<not> d" "eval_string (lp_Condition lp) (loop_env 0 ec i) = Inr False"
    | e2 where "\<not> d" "eval_string (lp_Condition lp) (loop_env 0 ec i) = Inr True" "p = Ended e2"
    | "\<not> d" "eval_string (lp_Condition lp) (loop_env 0 ec i) = Inr True" "p = Going"
    by (metis (full_types) progress.exhaust sum.exhaust)
  then show ?case
  proof cases
    case 5
    then have rest: "while_loop reg st lp mx n (i + 1) o3 (loop_env 0 ec i) c3 = ((out', e), c')"
      using Suc.prems(1) d v p by (simp add: while_loop_Suc)
    then show ?thesis using Suc.IH [OF rest] it 5 Suc.prems(3) by simp
  qed (use Suc.prems d v p it in \<open>auto simp: while_loop_Suc\<close>)
qed

text \<open>A loop with a condition is bounded, whatever its body does: it counts no more iterations than its
  maximum, and it ends without an error and without a break only at an index where its condition is
  false.\<close>

theorem while_loop_bounded:
  assumes "executeWhileLoop reg st lp ec c = ((out, e), c')"
  shows "0 \<le> lo_TotalIterations out \<and> lo_TotalIterations out \<le> max_iterations lp \<and>
    (e = None \<longrightarrow> lo_BreakTriggered out \<or> eval_string (lp_Condition lp) (loop_env 0 ec (lo_TotalIterations out)) = Inr False)"
proof -
  have mx: "0 < max_iterations lp" by (simp add: max_iterations_def DefaultMaxIterations_def)
  have "lo_TotalIterations (new_loop_output LoopModeWhile) = 0" by (simp add: new_loop_output_def)
  from while_loop_bounds [OF assms [unfolded executeWhileLoop_def] _ this, of ec] mx show ?thesis by auto
qed

definition while_sample :: "gostring \<Rightarrow> loop" where
  "while_sample condition = Loop ''while'' 0 VNil [] condition 3 [] [] [leaf_step ''a'']"

lemma eval_literal_false: "eval_string ''false'' ec = Inr False"
proof -
  have "ParseExpression ''false'' = Some (Inr (LiteralNode (VBool False)))" by code_simp
  then show ?thesis by (simp add: eval_string_def Evaluate_expr_def EvaluateString_def NewEvaluator_def Evaluate_def)
qed

theorem while_loop_bounded_witness:
  "\<exists>out c'. executeWhileLoop sample_leaves (loop_step (while_sample ''false'')) (while_sample ''false'') NewEvaluationContext sample_context = ((out, None), c') \<and>
     lo_TotalIterations out \<le> 3"
proof -
  let ?lp = "while_sample ''false''"
  obtain c2 where v: "setLoopVariables 0 (0 + 1) 0 VNil [] (NewEvaluationContext, sample_context) = (loop_env 0 NewEvaluationContext 0, c2)"
    using setLoopVariables_env by blast
  have "cx_alive sample_context = None" by (simp add: sample_context_def WithCallback_def NewExecutionContext_def)
  then have h: "executeWhileLoop sample_leaves (loop_step ?lp) ?lp NewEvaluationContext sample_context = ((new_loop_output LoopModeWhile, None), c2)"
    using v by (simp add: executeWhileLoop_def max_iterations_def while_sample_def numeral_3_eq_3 while_loop_Suc eval_literal_false)
  show ?thesis using h while_loop_bounded [OF h] by (simp add: max_iterations_def while_sample_def)
qed

lemma while_loop_runs_out:
  assumes "\<forall>s \<in> set (lp_Steps lp). reliable reg s" "lp_BreakCondition lp = []" "lp_ContinueCondition lp = []"
    and "\<And>i. eval_string (lp_Condition lp) (loop_env 0 ec i) = Inr True"
  shows "cx_alive c = None \<Longrightarrow> (\<And>k. loop_env 0 ec' k = loop_env 0 ec k) \<Longrightarrow>
    \<exists>out' c'. while_loop reg st lp mx n i out ec' c =
      ((out', Some (NewExecutionError (sp_ID st) (txt_while_exceeded @ show_int mx @ '')'') None)), c') \<and>
      lo_TotalIterations out' = lo_TotalIterations out + int n"
proof (induction n arbitrary: i out ec' c)
  case 0
  then show ?case by (simp add: while_loop_0)
next
  case (Suc n)
  obtain c2 where v: "setLoopVariables i (i + 1) 0 VNil [] (ec', c) = (loop_env 0 ec i, c2)" "cx_alive c2 = None"
    using setLoopVariables_env [of i 0 ec' c] Suc.prems by auto
  have "loop_guard (sp_ID st) lp i (loop_env 0 ec i) = G_Run" using assms(2,3) by (simp add: loop_guard_def condition_holds_def)
  then obtain c3 where c3: "iterate reg st lp i (loop_env 0 ec i) out c2 = (Going, count_iteration (ran_ids G_Run lp) out, c3)" "cx_alive c3 = None"
    using iterate_reliable(1) [OF assms(1) v(2)] by blast
  show ?case
    using Suc.IH [OF c3(2), of "loop_env 0 ec i" "i + 1" "count_iteration (ran_ids G_Run lp) out"] Suc.prems(1) v(1) c3(1) assms(4)
    by (auto simp: while_loop_Suc count_iteration_def)
qed

text \<open>The condition of a loop does not see what its body does: when it holds whatever the loop variables
  are, the loop runs to its maximum and then fails, although the body may have made the condition false.\<close>

theorem while_condition_frozen:
  assumes "\<forall>s \<in> set (lp_Steps lp). reliable reg s" "cx_alive c = None" "lp_BreakCondition lp = []" "lp_ContinueCondition lp = []"
    and "\<And>i. eval_string (lp_Condition lp) (loop_env 0 ec i) = Inr True"
  shows "\<exists>out c'. executeWhileLoop reg st lp ec c =
      ((out, Some (NewExecutionError (sp_ID st) (txt_while_exceeded @ show_int (max_iterations lp) @ '')'') None)), c') \<and>
    lo_TotalIterations out = max_iterations lp"
proof -
  have "0 < max_iterations lp" by (simp add: max_iterations_def DefaultMaxIterations_def)
  then show ?thesis using while_loop_runs_out [OF assms(1,3,4,5,2), of ec st "max_iterations lp" "nat (max_iterations lp)" 0 "new_loop_output LoopModeWhile"]
    by (simp add: executeWhileLoop_def new_loop_output_def)
qed

text \<open>The body of this loop sets x to false, and the loop still runs until its maximum.\<close>

theorem while_condition_frozen_witness:
  "\<exists>out c'. executeWhileLoop sample_leaves (loop_step (while_sample ''${x}'')) (while_sample ''${x}'')
       (ctx_Set NewEvaluationContext ''x'' (VBool True)) sample_context = ((out, Some (NewExecutionError ''l'' (txt_while_exceeded @ show_int 3 @ '')'') None)), c')"
proof -
  let ?lp = "while_sample ''${x}''" and ?ec = "ctx_Set NewEvaluationContext ''x'' (VBool True)"
  have p: "ParseExpression ''${x}'' = Some (Inr (VariableNode ''x''))" by code_simp
  have e: "eval_string (lp_Condition ?lp) (loop_env 0 ?ec i) = Inr True" for i
    using p by (simp add: while_sample_def eval_string_def Evaluate_expr_def EvaluateString_def NewEvaluator_def Evaluate_def
        resolveVariable_def str_contains_def loop_env_def ctx_Set_def NewEvaluationContext_def)
  have h: "\<forall>s \<in> set (lp_Steps ?lp). reliable sample_leaves s" "cx_alive sample_context = None" "lp_BreakCondition ?lp = []" "lp_ContinueCondition ?lp = []"
    by (simp_all add: while_sample_def set_executor_reliable) (simp add: sample_context_def WithCallback_def NewExecutionContext_def)
  have "max_iterations ?lp = 3" "sp_ID (loop_step ?lp) = ''l''" by (simp_all add: max_iterations_def while_sample_def loop_step_def)
  then show ?thesis using while_condition_frozen [OF h e, of "loop_step ?lp"] by auto
qed

end
