(* ===== verification/Task_Engine.thy ===== *)
theory Task_Engine
  imports Step_Runner Scheduler
begin

text \<open>
  What a slave does with a task (\<^verbatim>\<open>internal/slave/task_engine.go\<close>): its share of the virtual users and
  iterations, and the iterations of one virtual user, each of which runs the steps of the workflow
  between its hooks through the registered executors.  A fresh execution context is made for each
  iteration; clock, Go context, callback and recorded results go on.  When the timer of a step with a
  timeout runs out is an argument.  A panic of an executor is recovered by the engine and is an error
  here.
\<close>

definition txt_execution_failed :: gostring where
  "txt_execution_failed = utf8 [0xE6, 0x89, 0xA7, 0xE8, 0xA1, 0x8C, 0xE5, 0xA4, 0xB1, 0xE8, 0xB4, 0xA5]"

section \<open>The share of a segment\<close>

definition segment_share :: "int \<Rightarrow> execution_segment \<Rightarrow> int" where
  "segment_share total_work seg = f64_to_int (f64_mul (f64_of_int total_work) (f64_sub (seg_End seg) (seg_Start seg)))"

definition calculateVUs :: "int \<Rightarrow> execution_options \<Rightarrow> execution_segment \<Rightarrow> int" where
  "calculateVUs maxVUs opts seg =
     (let totalVUs = (if opt_VUs opts \<le> 0 then 1 else opt_VUs opts);
          share = segment_share totalVUs seg;
          vus = (if share < 1 then 1 else share)
      in if vus > maxVUs then maxVUs else vus)"

definition calculateIterations :: "execution_options \<Rightarrow> execution_segment \<Rightarrow> int" where
  "calculateIterations opts seg =
     (if opt_Iterations opts \<le> 0 then 0
      else let share = segment_share (opt_Iterations opts) seg in if share < 1 then 1 else share)"

section \<open>One step\<close>

definition HTTPEngineStandard :: gostring where "HTTPEngineStandard = ''standard''"

definition executor_type :: "execution_options option \<Rightarrow> step \<Rightarrow> gostring" where
  "executor_type opts st =
     (case opts of
        Some o' \<Rightarrow> if sp_Type st = ''http'' \<and> opt_HTTPEngine o' = HTTPEngineStandard then ''http-std'' else sp_Type st
      | None \<Rightarrow> sp_Type st)"

type_synonym timers = "gostring \<Rightarrow> nat \<Rightarrow> nat"

definition step_timer :: "timers \<Rightarrow> step \<Rightarrow> exec_ctx \<Rightarrow> nat option" where
  "step_timer timers st c = (if sp_Timeout st > 0 then Some (timers (sp_ID st) (cx_reads c)) else None)"

definition executeStepWithCallback ::
  "timers \<Rightarrow> executor \<Rightarrow> step \<Rightarrow> exec_ctx \<Rightarrow> (step_result option \<times> go_error option) \<times> exec_ctx" where
  "executeStepWithCallback timers x st c =
     (case time_Now c of (startTime, c1) \<Rightarrow>
       (let c2 = enter_timeout (step_timer timers st c1) c1 in
        case ex_Execute x st c2 of
          (Inr r, c3) \<Rightarrow> ((Some r, None), leave_timeout c1 c2 (record_step st r c3))
        | (Inl e, c3) \<Rightarrow>
            (case CreateFailedResult (sp_ID st) startTime (Some e) c3 of (r, c4) \<Rightarrow>
              ((Some r, Some e), leave_timeout c1 c2 (record_step st r c4)))))"

section \<open>The steps of a workflow\<close>

definition step_error :: "step_execution_result \<Rightarrow> go_error option" where
  "step_error res =
     (if se_Error res \<noteq> None \<or> (case se_StepResult res of None \<Rightarrow> False | Some r \<Rightarrow> failed_result r)
      then (case se_Error res of
              Some e \<Rightarrow> Some e
            | None \<Rightarrow>
                (case se_StepResult res of
                   Some r \<Rightarrow> (case rs_Error r of Some e \<Rightarrow> Some e | None \<Rightarrow> Some (OtherError txt_execution_failed))
                 | None \<Rightarrow> Some (OtherError txt_execution_failed)))
      else None)"

definition wrap_error :: "step \<Rightarrow> go_error \<Rightarrow> go_error" where
  "wrap_error st e = OtherError (''['' @ sp_Name st @ ''] '' @ error_text e)"

definition publish_step :: "bool \<Rightarrow> step \<Rightarrow> gostring \<Rightarrow> int \<Rightarrow> step_execution_result \<Rightarrow> exec_ctx \<Rightarrow> exec_ctx" where
  "publish_step callback st parentID iteration res c =
     (case se_StepResult res of
        None \<Rightarrow> c
      | Some r \<Rightarrow> on_complete callback st r parentID iteration (SetResult (sp_ID st) r c))"

fun engine_steps ::
  "executors \<Rightarrow> timers \<Rightarrow> execution_options option \<Rightarrow> bool \<Rightarrow> gostring \<Rightarrow> int \<Rightarrow> step list \<Rightarrow> step_execution_result list \<Rightarrow> exec_ctx \<Rightarrow>
     (step_execution_result list \<times> go_error option) \<times> exec_ctx" where
  "engine_steps reg timers opts callback parentID iteration [] results c = ((results, None), c)"
| "engine_steps reg timers opts callback parentID iteration (st # sts) results c =
     (let c1 = on_start callback st parentID iteration c in
      case GetOrError reg (executor_type opts st) of
        Inl e \<Rightarrow>
          (case time_Now c1 of (now, c2) \<Rightarrow>
            (case CreateFailedResult (sp_ID st) now (Some e) c2 of (r, c3) \<Rightarrow>
              ((results, Some e), on_complete callback st r parentID iteration c3)))
      | Inr x \<Rightarrow>
          (case ExecuteStepWithHooks reg (executeStepWithCallback timers x) st c1 of (res, c2) \<Rightarrow>
            (let c3 = publish_step callback st parentID iteration res c2; results' = results @ [res] in
             case step_error res of
               None \<Rightarrow> engine_steps reg timers opts callback parentID iteration sts results' c3
             | Some e \<Rightarrow>
                 if sp_OnError st = ErrorStrategyContinue \<or> sp_OnError st = ErrorStrategySkip
                 then engine_steps reg timers opts callback parentID iteration sts results' c3
                 else ((results', Some (wrap_error st e)), c3))))"

definition executeStepsWithContext ::
  "executors \<Rightarrow> timers \<Rightarrow> execution_options option \<Rightarrow> gostring \<Rightarrow> int \<Rightarrow> step list \<Rightarrow> exec_ctx \<Rightarrow>
     (step_execution_result list \<times> go_error option) \<times> exec_ctx" where
  "executeStepsWithContext reg timers opts parentID iteration sts c =
     engine_steps reg timers opts (cx_Callback c) parentID iteration sts [] c"

definition executeStepsWithOptions ::
  "executors \<Rightarrow> timers \<Rightarrow> execution_options option \<Rightarrow> step list \<Rightarrow> exec_ctx \<Rightarrow> (step_execution_result list \<times> go_error option) \<times> exec_ctx" where
  "executeStepsWithOptions reg timers opts sts c = executeStepsWithContext reg timers opts [] 0 sts c"

section \<open>One iteration\<close>

text \<open>The context of an iteration: fresh variables and results, the outside world of the one before.\<close>

definition iteration_ctx :: "bool \<Rightarrow> gostring \<Rightarrow> workflow \<Rightarrow> virtual_user \<Rightarrow> exec_ctx \<Rightarrow> exec_ctx" where
  "iteration_ctx callback executionID w vu c =
     c\<lparr>cx_Variables := [], cx_Results := [], cx_VU := Some vu, cx_Iteration := vu_Iteration vu, cx_WorkflowID := wf_ID w,
       cx_ExecutionID := executionID, cx_Callback := callback, cx_ParentStepID := [], cx_LoopIteration := 0,
       cx_cachedEvalCtx := None, cx_evalCtxDirty := True\<rparr>"

definition set_all :: "(gostring, goval) gomap \<Rightarrow> exec_ctx \<Rightarrow> exec_ctx" where
  "set_all m c = foldl (\<lambda>c (k, v). SetVariable k v c) c m"

definition inject_variables :: "workflow \<Rightarrow> exec_ctx \<Rightarrow> exec_ctx" where
  "inject_variables w c =
     set_all (map (\<lambda>(k, v). (''env.'' @ k, v)) (wf_EnvVariables w)) (set_all (wf_Variables w) (set_all (wf_ParamValues w) c))"

definition executeWorkflowIteration ::
  "executors \<Rightarrow> timers \<Rightarrow> bool \<Rightarrow> gostring \<Rightarrow> workflow \<Rightarrow> virtual_user \<Rightarrow> exec_ctx \<Rightarrow> (go_error option \<times> workflow) \<times> exec_ctx" where
  "executeWorkflowIteration reg timers callback executionID w vu c =
     (case ExecuteWorkflowWithHooks reg (\<lambda>wf. executeStepsWithOptions reg timers (Some (wf_Options w)) (wf_Steps wf)) w
            (inject_variables w (iteration_ctx callback executionID w vu c)) of (res, c') \<Rightarrow>
       ((we_Error res, w\<lparr>wf_FinalVariables := cx_Variables c'\<rparr>), c'))"

section \<open>One virtual user\<close>

text \<open>The counters of the engine that the virtual user changes, and what the loop of \<^verbatim>\<open>runVU\<close> returns.  The
  context that limits the scheduling is done after a number of checks; without a maximum and
  without an end of that context the loop does not return, which is \<open>None\<close> for every amount of fuel.\<close>

record vu_state =
  vs_iterations :: int
  vs_errors :: "(int \<times> go_error) list"
  vs_workflow :: workflow
  vs_ctx :: exec_ctx

definition sched_done :: "nat option \<Rightarrow> bool \<times> nat option" where
  "sched_done sched = (case sched of None \<Rightarrow> (False, None) | Some 0 \<Rightarrow> (True, Some 0) | Some (Suc n) \<Rightarrow> (False, Some n))"

fun run_vu ::
  "executors \<Rightarrow> timers \<Rightarrow> bool \<Rightarrow> gostring \<Rightarrow> virtual_user \<Rightarrow> int \<Rightarrow> nat \<Rightarrow> nat option \<Rightarrow> int \<Rightarrow> vu_state \<Rightarrow>
     (go_error option \<times> vu_state) option" where
  "run_vu reg timers callback executionID vu maxIterations 0 sched i s = None"
| "run_vu reg timers callback executionID vu maxIterations (Suc fuel) sched i s =
     (case sched_done sched of
        (True, sched') \<Rightarrow> Some (None, s)
      | (False, sched') \<Rightarrow>
          if maxIterations > 0 \<and> i \<ge> maxIterations then Some (None, s)
          else
            (case executeWorkflowIteration reg timers callback executionID (vs_workflow s) (vu\<lparr>vu_Iteration := i\<rparr>) (vs_ctx s) of
               ((None, w'), c') \<Rightarrow>
                 run_vu reg timers callback executionID vu maxIterations fuel sched' (i + 1)
                   (s\<lparr>vs_workflow := w', vs_ctx := c', vs_iterations := wrap64 (vs_iterations s + 1)\<rparr>)
             | ((Some e, w'), c') \<Rightarrow>
                 if cx_alive c' = Some 0 then Some (None, s\<lparr>vs_workflow := w', vs_ctx := c'\<rparr>)
                 else let s' = s\<lparr>vs_workflow := w', vs_ctx := c', vs_errors := vs_errors s @ [(i, e)]\<rparr> in
                      if maxIterations > 0 then Some (Some e, s')
                      else run_vu reg timers callback executionID vu maxIterations fuel sched' (i + 1)
                             (s'\<lparr>vs_iterations := wrap64 (vs_iterations s + 1)\<rparr>)))"

section \<open>What the engine keeps\<close>

context context_relation
begin

lemma executeStepWithCallback_keeps:
  assumes "keeps (ex_Execute x)"
  shows "R c (snd (executeStepWithCallback timers x st c))"
proof -
  obtain t0 c1 where t0: "time_Now c = (t0, c1)" by (cases "time_Now c")
  let ?c2 = "enter_timeout (step_timer timers st c1) c1"
  have c2: "R c ?c2" using nowD [OF t0] timeout_keeps(1) by (rule trans)
  obtain res c3 where x: "ex_Execute x st ?c2 = (res, c3)" by (cases "ex_Execute x st ?c2")
  note c3 = trans [OF c2 keepsD [OF assms x]]
  have done_with: "R c (leave_timeout c1 ?c2 (record_step st r c'))" if "R c c'" for r c'
    using trans [OF that record_metrics] timeout_keeps(2) by (rule trans)
  show ?thesis
  proof (cases res)
    case (Inl e)
    obtain r c4 where r: "CreateFailedResult (sp_ID st) t0 (Some e) c3 = (r, c4)"
      by (cases "CreateFailedResult (sp_ID st) t0 (Some e) c3")
    show ?thesis using t0 x Inl r done_with [OF trans [OF c3 result_keeps(2) [OF r]]] by (simp add: executeStepWithCallback_def Let_def)
  next
    case (Inr r)
    then show ?thesis using t0 x done_with [OF c3] by (simp add: executeStepWithCallback_def Let_def)
  qed
qed

end

lemma executeStepWithCallback_result: "fst (fst (executeStepWithCallback timers x st c)) \<noteq> None"
  by (auto simp: executeStepWithCallback_def Let_def split: prod.splits sum.splits)

lemma ExecuteStepWithHooks_result:
  "(\<And>st c. fst (fst (f st c)) \<noteq> None) \<Longrightarrow> ExecuteStepWithHooks reg f st c = (res, c') \<Longrightarrow> \<exists>r. se_StepResult res = Some r"
proof -
  assume f: "\<And>st c. fst (fst (f st c)) \<noteq> None" and res: "ExecuteStepWithHooks reg f st c = (res, c')"
  obtain pre e c1 where "ExecuteStepPreHook reg st c = ((pre, e), c1)" by (metis prod.collapse)
  then show ?thesis using res f [of st c1] by (auto simp: ExecuteStepWithHooks_def split: prod.splits option.splits)
qed

context context_relation
begin

lemma engine_steps_keeps:
  assumes reg: "registry_keeps reg"
  shows "R c (snd (engine_steps reg timers opts b p n sts results c))"
proof (induction sts arbitrary: results c)
  case (Cons st sts)
  let ?c1 = "on_start b st p n c"
  show ?case
  proof (cases "GetOrError reg (executor_type opts st)")
    case (Inl e)
    obtain t0 c2 where t0: "time_Now ?c1 = (t0, c2)" by (cases "time_Now ?c1")
    obtain r c3 where r: "CreateFailedResult (sp_ID st) t0 (Some e) c2 = (r, c3)"
      by (cases "CreateFailedResult (sp_ID st) t0 (Some e) c2")
    show ?thesis using Inl t0 r bracket [OF trans [OF nowD [OF t0] result_keeps(2) [OF r]]] by (simp add: Let_def)
  next
    case (Inr x)
    obtain res c2 where res: "ExecuteStepWithHooks reg (executeStepWithCallback timers x) st ?c1 = (res, c2)"
      by (cases "ExecuteStepWithHooks reg (executeStepWithCallback timers x) st ?c1")
    obtain r where r: "se_StepResult res = Some r" using ExecuteStepWithHooks_result [OF executeStepWithCallback_result res] by blast
    have "R ?c1 (snd (ExecuteStepWithHooks reg (executeStepWithCallback timers x) st ?c1))"
      by (rule ExecuteStepWithHooks_keeps [OF reg executeStepWithCallback_keeps [OF registry_keepsD [OF reg Inr]]])
    then have c2: "R ?c1 c2" using res by simp
    have c3: "R c (publish_step b st p n res c2)"
      using bracket [OF trans [OF c2 set_result]] r by (simp add: publish_step_def)
    show ?thesis using Inr res c3 trans [OF c3 Cons.IH] by (simp add: Let_def split: option.splits)
  qed
qed (simp add: refl)

lemma executeStepsWithOptions_keeps: "registry_keeps reg \<Longrightarrow> executeStepsWithOptions reg timers opts sts c = (res, c') \<Longrightarrow> R c c'"
  using engine_steps_keeps [of reg c] by (metis executeStepsWithOptions_def executeStepsWithContext_def snd_conv)

lemma ExecuteWorkflowWithHooks_keeps:
  assumes "registry_keeps reg" and body: "\<And>w c. R c (snd (f w c))"
  shows "R c (snd (ExecuteWorkflowWithHooks reg f w c))"
proof -
  obtain pre e c1 where pre: "ExecuteWorkflowPreHook reg w c = ((pre, e), c1)" by (metis prod.collapse)
  note c1 = pre_hook_keeps(2) [OF assms(1) pre]
  show ?thesis
  proof (cases e)
    case None
    obtain r err c2 where f: "f w c1 = ((r, err), c2)" by (metis prod.collapse)
    then have c2: "R c c2" using body [of c1 w] trans [OF c1] by simp
    show ?thesis using pre None f trans [OF c2] post_hook_keeps(2) [OF assms(1)]
      by (auto simp: ExecuteWorkflowWithHooks_def split: prod.splits)
  next
    case (Some err)
    then show ?thesis using pre trans [OF c1] post_hook_keeps(2) [OF assms(1)]
      by (auto simp: ExecuteWorkflowWithHooks_def split: prod.splits)
  qed
qed

lemma executeWorkflowIteration_keeps:
  assumes "registry_keeps reg"
  shows "R (inject_variables w (iteration_ctx b i w vu c)) (snd (executeWorkflowIteration reg timers b i w vu c))"
proof -
  let ?body = "\<lambda>wf. executeStepsWithOptions reg timers (Some (wf_Options w)) (wf_Steps wf)"
  let ?c = "inject_variables w (iteration_ctx b i w vu c)"
  have "R ?c (snd (ExecuteWorkflowWithHooks reg ?body w ?c))"
    by (rule ExecuteWorkflowWithHooks_keeps [OF assms]) (metis executeStepsWithOptions_keeps [OF assms] prod.collapse)
  then show ?thesis by (auto simp: executeWorkflowIteration_def split: prod.splits)
qed

end

section \<open>Properties of an iteration\<close>

lemma set_all_events [simp]: "cx_events (set_all m c) = cx_events c"
  by (induction m arbitrary: c) (auto simp: set_all_def)

lemma inject_variables_events [simp]: "cx_events (inject_variables w (iteration_ctx b i w vu c)) = cx_events c"
  by (simp add: inject_variables_def iteration_ctx_def)

lemma leaves_traces: "leaves_keep traces leaves \<Longrightarrow> callbacks.registry_keeps leaves"
  by (auto simp: leaves_keep_def callbacks.registry_keeps_def callbacks.keeps_def)

definition sample_workflow :: workflow where
  "sample_workflow = (empty_workflow ''w'')\<lparr>wf_Variables := [(''x'', VBool True)], wf_Steps := [loop_step sample_loop, leaf_step ''z'']\<rparr>"

definition sample_vu :: virtual_user where
  "sample_vu = \<lparr>vu_ID = 0, vu_Iteration = 0, vu_StartTime = 0\<rparr>"



section \<open>Properties of a virtual user\<close>

lemma run_vu_step:
  "\<not> (maxIterations > 0 \<and> i \<ge> maxIterations) \<Longrightarrow> sched \<noteq> Some 0 \<Longrightarrow>
   run_vu reg timers b x vu maxIterations (Suc fuel) sched i s =
     (case executeWorkflowIteration reg timers b x (vs_workflow s) (vu\<lparr>vu_Iteration := i\<rparr>) (vs_ctx s) of
        ((None, w'), c') \<Rightarrow>
          run_vu reg timers b x vu maxIterations fuel (map_option (\<lambda>n. n - 1) sched) (i + 1)
            (s\<lparr>vs_workflow := w', vs_ctx := c', vs_iterations := wrap64 (vs_iterations s + 1)\<rparr>)
      | ((Some e, w'), c') \<Rightarrow>
          if cx_alive c' = Some 0 then Some (None, s\<lparr>vs_workflow := w', vs_ctx := c'\<rparr>)
          else let s' = s\<lparr>vs_workflow := w', vs_ctx := c', vs_errors := vs_errors s @ [(i, e)]\<rparr> in
               if maxIterations > 0 then Some (Some e, s')
               else run_vu reg timers b x vu maxIterations fuel (map_option (\<lambda>n. n - 1) sched) (i + 1)
                      (s'\<lparr>vs_iterations := wrap64 (vs_iterations s + 1)\<rparr>))"
  by (cases sched; cases "the sched") (auto simp: sched_done_def Let_def split: prod.splits option.splits)

text \<open>What a virtual user with a maximum has done when it returns.\<close>

definition vu_outcome :: "int \<Rightarrow> nat option \<Rightarrow> int \<Rightarrow> vu_state \<Rightarrow> go_error option \<times> vu_state \<Rightarrow> bool" where
  "vu_outcome maxIterations sched i s res =
     (case res of (err, s') \<Rightarrow>
        (let k = vs_iterations s' - vs_iterations s in
         0 \<le> k \<and> i + k \<le> maxIterations \<and>
         (case err of
            Some e \<Rightarrow> i + k < maxIterations \<and> vs_errors s' = vs_errors s @ [(i + k, e)]
          | None \<Rightarrow> vs_errors s' = vs_errors s \<and> (i + k = maxIterations \<or> sched \<noteq> None \<or> cx_alive (vs_ctx s') = Some 0))))"

lemma run_vu_outcome:
  assumes "0 < maxIterations" "0 \<le> i" "i \<le> maxIterations" "nat (maxIterations - i) < fuel"
    and "0 \<le> vs_iterations s" "vs_iterations s + (maxIterations - i) \<le> int64_max"
  shows "\<exists>res. run_vu reg timers b x vu maxIterations fuel sched i s = Some res \<and> vu_outcome maxIterations sched i s res"
  using assms
proof (induction fuel arbitrary: i sched s)
  case (Suc fuel)
  show ?case
  proof (cases "sched = Some 0 \<or> i = maxIterations")
    case True
    then show ?thesis using Suc.prems by (cases sched) (auto simp: sched_done_def vu_outcome_def split: nat.splits)
  next
    case False
    then have i: "i < maxIterations" and sched: "sched \<noteq> Some 0" using Suc.prems by auto
    obtain err w' c' where it: "executeWorkflowIteration reg timers b x (vs_workflow s) (vu\<lparr>vu_Iteration := i\<rparr>) (vs_ctx s) = ((err, w'), c')"
      by (metis prod.collapse)
    show ?thesis
    proof (cases err)
      case None
      let ?s = "s\<lparr>vs_workflow := w', vs_ctx := c', vs_iterations := wrap64 (vs_iterations s + 1)\<rparr>"
      have one: "wrap64 (vs_iterations s + 1) = vs_iterations s + 1"
        using Suc.prems i by (intro wrap64_id) (auto simp: in_int64_def int64_min_def int64_max_def)
      obtain res where res: "run_vu reg timers b x vu maxIterations fuel (map_option (\<lambda>n. n - 1) sched) (i + 1) ?s = Some res"
        and out: "vu_outcome maxIterations (map_option (\<lambda>n. n - 1) sched) (i + 1) ?s res"
        using Suc.IH [of "i + 1" ?s "map_option (\<lambda>n. n - 1) sched"] Suc.prems i one by fastforce
      have "run_vu reg timers b x vu maxIterations (Suc fuel) sched i s = Some res"
        using run_vu_step [of maxIterations i sched] i sched it None res by simp
      moreover have "vu_outcome maxIterations sched i s res"
        using out one by (auto simp: vu_outcome_def Let_def algebra_simps split: option.splits prod.splits)
      ultimately show ?thesis by blast
    next
      case (Some e)
      then show ?thesis using run_vu_step [of maxIterations i sched] i sched it Suc.prems
        by (simp add: vu_outcome_def Let_def)
    qed
  qed
qed simp


definition sample_vu_state :: vu_state where
  "sample_vu_state = \<lparr>vs_iterations = 0, vs_errors = [], vs_workflow = sample_workflow, vs_ctx = sample_context\<rparr>"


text \<open>A virtual user without a maximum runs until the schedule ends: when that is after \<open>k\<close> checks it returns
  after \<open>k\<close> iterations, the failed ones included, or earlier when an iteration fails and the Go context is
  cancelled; a failure alone does not end it.\<close>

theorem run_vu_until_done:
  assumes "maxIterations \<le> 0" "k < fuel" "0 \<le> vs_iterations s" "vs_iterations s + int k \<le> int64_max"
  shows "\<exists>s'. run_vu reg timers b x vu maxIterations fuel (Some k) i s = Some (None, s') \<and>
           (vs_iterations s' = vs_iterations s + int k \<or> vs_iterations s' < vs_iterations s + int k \<and> cx_alive (vs_ctx s') = Some 0)"
  using assms(2-)
proof (induction k arbitrary: fuel i s)
  case 0
  then show ?case by (cases fuel) (simp_all add: sched_done_def)
next
  case (Suc k)
  then obtain f where fuel: "fuel = Suc f" by (cases fuel) auto
  obtain err w' c' where it: "executeWorkflowIteration reg timers b x (vs_workflow s) (vu\<lparr>vu_Iteration := i\<rparr>) (vs_ctx s) = ((err, w'), c')"
    by (metis prod.collapse)
  have one: "wrap64 (vs_iterations s + 1) = vs_iterations s + 1"
    using Suc.prems by (intro wrap64_id) (auto simp: in_int64_def int64_min_def int64_max_def)
  have next_one: "\<exists>s'. run_vu reg timers b x vu maxIterations f (Some k) (i + 1) t = Some (None, s') \<and>
      (vs_iterations s' = vs_iterations s + int (Suc k) \<or> vs_iterations s' < vs_iterations s + int (Suc k) \<and> cx_alive (vs_ctx s') = Some 0)"
    if "vs_iterations t = vs_iterations s + 1" for t
    using Suc.IH [of f t "i + 1"] Suc.prems that fuel by (simp add: algebra_simps)
  show ?case
    using assms(1) Suc.prems run_vu_step [of maxIterations i "Some (Suc k)" reg timers b x vu f s] it one next_one
    by (cases err) (simp_all add: fuel Let_def)
qed

theorem run_vu_until_done_witness:
  "\<exists>s'. run_vu (default_registry sample_leaves 30) (\<lambda>_ _. 0) True ''e'' sample_vu 0 3 (Some 2) 0 sample_vu_state = Some (None, s') \<and>
     (vs_iterations s' = vs_iterations sample_vu_state + int 2 \<or>
      vs_iterations s' < vs_iterations sample_vu_state + int 2 \<and> cx_alive (vs_ctx s') = Some 0)"
  by (rule run_vu_until_done) (simp_all add: sample_vu_state_def int64_max_def)

section \<open>The share of a segment and the schedule\<close>

text \<open>Every slave runs at least one virtual user, so that a workflow with fewer users than slaves runs more users than it asks for.\<close>

lemma plan_users_at_least_slaves:
  assumes "1 \<le> maxVUs"
  shows "int (length slaves) \<le> (\<Sum>a\<leftarrow>calculateSegments w slaves. calculateVUs maxVUs opts (as_Segment a))"
proof -
  have "1 \<le> calculateVUs maxVUs opts seg" for seg using assms by (simp add: calculateVUs_def Let_def)
  then have "int (length as) \<le> (\<Sum>a\<leftarrow>as. calculateVUs maxVUs opts (as_Segment a))" for as
    by (induction as) (simp_all add: add_mono)
  from this [of "calculateSegments w slaves"] show ?thesis by simp
qed

lemma round_halves: "round_pos 53 (-1074) (1 / 2) = 1 / 2" "round_pos 53 (-1074) (3 / 2) = 3 / 2"
proof -
  have "ilog2 (1 / 2) = -1" "ilog2 (3 / 2) = 0" by code_simp+
  then have "(1 / 2 :: rat) / 2 powi quantum 53 (-1074) (1 / 2) = of_int (2 ^ 52)" "(3 / 2 :: rat) / 2 powi quantum 53 (-1074) (3 / 2) = of_int (3 * 2 ^ 51)"
    by (simp_all add: quantum_def power_int_minus)
  then show "round_pos 53 (-1074) (1 / 2) = (1 / 2 :: rat)" "round_pos 53 (-1074) (3 / 2) = (3 / 2 :: rat)" by (blast intro: round_pos_exact)+
qed

text \<open>The others round down: three users on two slaves are one user each.\<close>

lemma shares_lose_users:
  "map (\<lambda>i. calculateVUs 100 (default_options\<lparr>opt_VUs := 3\<rparr>) (segment_of 2 i)) [0, 1] = [1, 1]"
proof -
  have ilog: "ilog2 (3 / 2) = 0" by code_simp
  have size: "segmentSize 2 = F_Fin False (1 / 2)" using segmentSize_fin [of 2] by (simp add: seg_size_def round_halves)
  have ints: "f64_of_int 0 = F_Fin False 0" "f64_of_int 1 = F_Fin False 1" "f64_of_int 3 = F_Fin False 3"
    using f64_of_int_exact [of 0] f64_of_int_exact [of 1] f64_of_int_exact [of 3] by simp_all
  have half: "f64_round False (1 / 2) = F_Fin False (1 / 2)" "f64_round False (3 / 2) = F_Fin False (3 / 2)" "f64_round False 0 = F_Fin False 0"
    using f64_round_unit [of "1 / 2" False] f64_round_unit [of 0 False] ilog by (simp_all add: round_halves f64_round_def Let_def)
  have segs: "seg_Start (segment_of 2 0) = F_Fin False 0" "seg_End (segment_of 2 0) = F_Fin False (1 / 2)"
    "seg_Start (segment_of 2 1) = F_Fin False (1 / 2)" "seg_End (segment_of 2 1) = F_Fin False 1"
    by (simp_all add: segment_of_def size ints half f64_one_def)
  have "f64_sub (F_Fin False (1 / 2)) (F_Fin False 0) = F_Fin False (1 / 2)" "f64_sub (F_Fin False 1) (F_Fin False (1 / 2)) = F_Fin False (1 / 2)"
    by (simp_all add: f64_sub_def half)
  moreover have "\<lfloor>3 / 2 :: rat\<rfloor> = 1" by (simp add: floor_eq_iff)
  ultimately show ?thesis
    by (simp add: calculateVUs_def segment_share_def segs segs [simplified] ints half f64_to_int_def default_options_def in_int64_def int64_min_def int64_max_def Let_def)
qed
end
