(* ===== verification/Vu_Pool.thy ===== *)
theory Vu_Pool
  imports Exec_Context
begin

text \<open>
  The pool of virtual users of a slave (\<^verbatim>\<open>internal/slave/vu_pool.go\<close>).  Each operation holds the mutex of
  the pool for its whole body, so it is a function on the state.  The instants that an operation reads are
  arguments.  The contract that the execution modes rely on is the locale \<open>user_pool\<close>.
\<close>

section \<open>The pool\<close>

record vu_pool =
  vp_maxVUs :: int
  vp_vus :: "(int, virtual_user) gomap"
  vp_inUse :: "(int, bool) gomap"

definition NewVUPool :: "int \<Rightarrow> vu_pool" where
  "NewVUPool maxVUs = \<lparr>vp_maxVUs = maxVUs, vp_vus = [], vp_inUse = []\<rparr>"

text \<open>Reading an absent key of the map of flags gives false.\<close>

definition IsInUse :: "vu_pool \<Rightarrow> int \<Rightarrow> bool" where
  "IsInUse p i = (map_of (vp_inUse p) i = Some True)"

definition GetVU :: "vu_pool \<Rightarrow> int \<Rightarrow> virtual_user option" where
  "GetVU p i = map_of (vp_vus p) i"

definition Acquire :: "int \<Rightarrow> int \<Rightarrow> int \<Rightarrow> vu_pool \<Rightarrow> virtual_user option \<times> vu_pool" where
  "Acquire created now i p =
     (if i \<ge> vp_maxVUs p then (None, p)
      else if IsInUse p i then (None, p)
      else
        let vu = (case map_of (vp_vus p) i of
                    Some vu \<Rightarrow> vu
                  | None \<Rightarrow> \<lparr>vu_ID = i, vu_Iteration = 0, vu_StartTime = created\<rparr>);
            vu' = vu\<lparr>vu_StartTime := now, vu_Iteration := 0\<rparr>
        in (Some vu', p\<lparr>vp_vus := AList.update i vu' (vp_vus p), vp_inUse := AList.update i True (vp_inUse p)\<rparr>))"

definition Release :: "virtual_user option \<Rightarrow> vu_pool \<Rightarrow> vu_pool" where
  "Release vu p =
     (case vu of
        None \<Rightarrow> p
      | Some v \<Rightarrow> p\<lparr>vp_inUse := AList.update (vu_ID v) False (vp_inUse p)\<rparr>)"

definition ActiveCount :: "vu_pool \<Rightarrow> int" where
  "ActiveCount p = foldl (\<lambda>cnt (i, inUse). if inUse then cnt + 1 else cnt) 0 (vp_inUse p)"

definition StopAll :: "vu_pool \<Rightarrow> vu_pool" where
  "StopAll p = p\<lparr>vp_inUse := map (\<lambda>(i, _). (i, False)) (vp_inUse p)\<rparr>"

definition Reset_pool :: "vu_pool \<Rightarrow> vu_pool" where
  "Reset_pool p = p\<lparr>vp_vus := [], vp_inUse := []\<rparr>"

section \<open>The invariant\<close>

text \<open>A user in use has been created under its own number, which is below the limit.\<close>

definition pool_inv :: "vu_pool \<Rightarrow> bool" where
  "pool_inv p \<longleftrightarrow>
     map_wf (vp_vus p) \<and> map_wf (vp_inUse p) \<and>
     (\<forall>i vu. map_of (vp_vus p) i = Some vu \<longrightarrow> vu_ID vu = i) \<and>
     (\<forall>i. map_of (vp_inUse p) i = Some True \<longrightarrow> i < vp_maxVUs p \<and> map_of (vp_vus p) i \<noteq> None)"

lemma pool_invD:
  "pool_inv p \<Longrightarrow> GetVU p i = Some vu \<Longrightarrow> vu_ID vu = i"
  "pool_inv p \<Longrightarrow> IsInUse p i \<Longrightarrow> i < vp_maxVUs p"
  by (auto simp: pool_inv_def GetVU_def IsInUse_def)

inductive pool_reachable :: "int \<Rightarrow> vu_pool \<Rightarrow> bool" for maxVUs :: int where
  new: "pool_reachable maxVUs (NewVUPool maxVUs)"
| acquire: "pool_reachable maxVUs p \<Longrightarrow> pool_reachable maxVUs (snd (Acquire created now i p))"
| release: "pool_reachable maxVUs p \<Longrightarrow> pool_reachable maxVUs (Release vu p)"
| stop_all: "pool_reachable maxVUs p \<Longrightarrow> pool_reachable maxVUs (StopAll p)"
| reset: "pool_reachable maxVUs p \<Longrightarrow> pool_reachable maxVUs (Reset_pool p)"

lemma Acquire_inv:
  assumes "pool_inv p"
  shows "pool_inv (snd (Acquire created now i p))"
proof -
  have "vu_ID vu = i" if "map_of (vp_vus p) i = Some vu" for vu using assms that by (simp add: pool_inv_def)
  then show ?thesis using assms by (auto simp: Acquire_def Let_def pool_inv_def update_conv' split: option.splits)
qed

lemma Release_inv: "pool_inv p \<Longrightarrow> pool_inv (Release vu p)"
  by (auto simp: Release_def pool_inv_def update_conv' split: option.splits if_splits)

lemma map_of_all_false: "map_of (map (\<lambda>(i, _). (i, False)) m) i = map_option (\<lambda>_. False) (map_of m i)"
  by (induction m) auto

lemma StopAll_inv: "pool_inv p \<Longrightarrow> pool_inv (StopAll p)"
  by (auto simp: StopAll_def pool_inv_def map_of_all_false map_wf_def comp_def case_prod_beta)

lemma maxVUs_const [simp]: "vp_maxVUs (snd (Acquire created now i p)) = vp_maxVUs p" "vp_maxVUs (Release vu p) = vp_maxVUs p"
  by (simp_all add: Acquire_def Release_def Let_def split: option.splits)

lemma reachable_pool_inv: "pool_reachable maxVUs p \<Longrightarrow> pool_inv p \<and> vp_maxVUs p = maxVUs"
  by (induction rule: pool_reachable.induct)
    (simp_all add: Acquire_inv Release_inv StopAll_inv, auto simp: NewVUPool_def pool_inv_def StopAll_def Reset_pool_def)

text \<open>The users in use are counted once each.\<close>

lemma ActiveCount_eq: "ActiveCount p = int (length (filter snd (vp_inUse p)))"
proof -
  have "foldl (\<lambda>cnt (i, inUse). if inUse then cnt + 1 else cnt) n m = n + int (length (filter snd m))" for n and m :: "(int, bool) gomap"
    by (induction m arbitrary: n) auto
  then show ?thesis by (simp add: ActiveCount_def)
qed

lemma ActiveCount_card:
  assumes "pool_inv p"
  shows "ActiveCount p = int (card {i. IsInUse p i})"
proof -
  have wf: "distinct (map fst (vp_inUse p))" using assms by (simp add: pool_inv_def map_wf_def)
  have "{i. IsInUse p i} = fst ` set (filter snd (vp_inUse p))"
    using wf by (force simp: IsInUse_def)
  moreover have "distinct (map fst (filter snd (vp_inUse p)))" using wf by (simp add: distinct_map_filter)
  ultimately show ?thesis unfolding ActiveCount_eq by (metis distinct_card length_map set_map)
qed

section \<open>The contract\<close>

text \<open>What the execution modes rely on: a number that is free and below the limit is given out, any other is not; giving
  one out or taking it back changes no other number.\<close>

locale user_pool =
  fixes inv :: "'p \<Rightarrow> bool"
    and limit :: "'p \<Rightarrow> int"
    and in_use :: "'p \<Rightarrow> int \<Rightarrow> bool"
    and acquire :: "int \<Rightarrow> int \<Rightarrow> int \<Rightarrow> 'p \<Rightarrow> virtual_user option \<times> 'p"
    and release :: "virtual_user option \<Rightarrow> 'p \<Rightarrow> 'p"
  assumes acquire_inv: "inv p \<Longrightarrow> inv (snd (acquire t0 t i p))"
    and acquire_limit: "limit (snd (acquire t0 t i p)) = limit p"
    and acquire_free: "inv p \<Longrightarrow> i < limit p \<Longrightarrow> \<not> in_use p i \<Longrightarrow>
      (\<exists>vu. fst (acquire t0 t i p) = Some vu \<and> vu_ID vu = i \<and> vu_Iteration vu = 0) \<and>
      (\<forall>j. in_use (snd (acquire t0 t i p)) j = (j = i \<or> in_use p j))"
    and acquire_taken: "i \<ge> limit p \<or> in_use p i \<Longrightarrow> acquire t0 t i p = (None, p)"
    and release_frees: "in_use (release (Some vu) p) j = (in_use p j \<and> j \<noteq> vu_ID vu)"
begin

lemma no_double_acquire:
  "inv p \<Longrightarrow> fst (acquire t0 t i p) = Some vu \<Longrightarrow> fst (acquire t0' t' i (snd (acquire t0 t i p))) = None"
  using acquire_free [of p i] acquire_taken [of p i] acquire_taken [of "snd (acquire t0 t i p)" i]
  by (cases "i < limit p \<and> \<not> in_use p i") auto

lemma acquire_again:
  assumes "inv p" "fst (acquire t0 t i p) = Some vu" "inv (release (Some vu) (snd (acquire t0 t i p)))"
    and "limit (release (Some vu) (snd (acquire t0 t i p))) = limit p"
  shows "fst (acquire t0' t' i (release (Some vu) (snd (acquire t0 t i p)))) \<noteq> None"
proof -
  have free: "i < limit p" "\<not> in_use p i" using assms(2) acquire_taken [of p i t0 t] by fastforce+
  then have "vu_ID vu = i" using acquire_free [OF assms(1) free, of t0 t] assms(2) by auto
  then have "\<not> in_use (release (Some vu) (snd (acquire t0 t i p))) i" by (simp add: release_frees)
  then show ?thesis using acquire_free [OF assms(3)] assms(4) free(1) by fastforce
qed

end

interpretation users: user_pool pool_inv vp_maxVUs IsInUse Acquire Release
  by unfold_locales
    (simp_all add: Acquire_inv, auto simp: Acquire_def Release_def IsInUse_def Let_def update_conv' pool_inv_def split: option.splits)

section \<open>Properties\<close>



text \<open>The number of users in use with a number of at least zero, which are the only numbers the engine asks for, is at most the limit
  of the pool.\<close>

theorem active_count_bound:
  assumes "pool_reachable maxVUs p" "0 \<le> maxVUs" "\<And>i. IsInUse p i \<Longrightarrow> 0 \<le> i"
  shows "0 \<le> ActiveCount p \<and> ActiveCount p \<le> maxVUs"
proof -
  have inv: "pool_inv p" and mx: "vp_maxVUs p = maxVUs" using reachable_pool_inv [OF assms(1)] by simp_all
  have "{i. IsInUse p i} \<subseteq> {0..<maxVUs}" using pool_invD(2) [OF inv] assms(3) mx by auto
  from card_mono [OF _ this] have "card {i. IsInUse p i} \<le> nat maxVUs" by simp
  then show ?thesis using assms(2) by (simp add: ActiveCount_card [OF inv])
qed

theorem active_count_bound_witness:
  "0 \<le> ActiveCount (snd (Acquire 0 0 0 (NewVUPool 2))) \<and> ActiveCount (snd (Acquire 0 0 0 (NewVUPool 2))) \<le> 2"
proof (rule active_count_bound)
  show "pool_reachable 2 (snd (Acquire 0 0 0 (NewVUPool 2)))" by (intro pool_reachable.intros)
  show "0 \<le> i" if "IsInUse (snd (Acquire 0 0 0 (NewVUPool 2))) i" for i
    using that by (simp add: IsInUse_def Acquire_def NewVUPool_def Let_def split: if_splits)
qed simp

end
