(* ===== verification/Shared_Iterations.thy ===== *)
theory Shared_Iterations
  imports Vu_Pool
begin

text \<open>
  The execution mode in which all virtual users share the iterations
  (\<^verbatim>\<open>executeSharedIterations\<close> of \<^verbatim>\<open>internal/slave/task_engine.go\<close>), as a step relation: each
  virtual user is a goroutine that takes the next iteration from a closed, buffered channel, runs it, and
  sends its error to a second buffered channel, which the function reads only after all users have
  returned.  The error that an iteration gives is an argument.  The other mode with a fixed number of
  iterations, \<^verbatim>\<open>executePerVUIterations\<close>, collects at most one error of each user.
\<close>

section \<open>The users of a mode\<close>

text \<open>The users that a mode starts: a number that the pool does not give out is passed over.\<close>

fun acquire_users :: "(int \<Rightarrow> int) \<Rightarrow> int list \<Rightarrow> vu_pool \<Rightarrow> virtual_user list \<times> vu_pool" where
  "acquire_users now [] p = ([], p)"
| "acquire_users now (i # is) p =
     (case Acquire (now i) (now i) i p of
        (None, p') \<Rightarrow> acquire_users now is p'
      | (Some vu, p') \<Rightarrow> (case acquire_users now is p' of (vus, p'') \<Rightarrow> (vu # vus, p'')))"

definition start_users :: "(int \<Rightarrow> int) \<Rightarrow> int \<Rightarrow> vu_pool \<Rightarrow> virtual_user list \<times> vu_pool" where
  "start_users now vus p = acquire_users now [0..vus - 1] p"

lemma acquire_users_ids:
  "pool_inv p \<Longrightarrow> distinct is \<Longrightarrow>
   map vu_ID (fst (acquire_users now is p)) = filter (\<lambda>i. i < vp_maxVUs p \<and> \<not> IsInUse p i) is"
proof (induction "is" arbitrary: p)
  case (Cons i "is")
  obtain vu p' where a: "Acquire (now i) (now i) i p = (vu, p')" by (cases "Acquire (now i) (now i) i p")
  have inv: "pool_inv p'" and mx: "vp_maxVUs p' = vp_maxVUs p"
    using Acquire_inv [OF Cons.prems(1)] users.acquire_limit [of "now i" "now i" i p] a by (metis snd_conv)+
  show ?case
  proof (cases "i < vp_maxVUs p \<and> \<not> IsInUse p i")
    case True
    then have vu: "\<exists>v. vu = Some v \<and> vu_ID v = i" and used: "\<And>j. IsInUse p' j = (j = i \<or> IsInUse p j)"
      using users.acquire_free [OF Cons.prems(1), of i "now i" "now i"] a by auto
    have "filter (\<lambda>j. j < vp_maxVUs p \<and> \<not> IsInUse p' j) is = filter (\<lambda>j. j < vp_maxVUs p \<and> \<not> IsInUse p j) is"
      using Cons.prems(2) used by (intro filter_cong) auto
    then show ?thesis using Cons.IH [OF inv] Cons.prems(2) a vu True mx by (auto split: prod.splits)
  next
    case False
    then have "vu = None" "p' = p" using users.acquire_taken [of p i] a by auto
    then show ?thesis using Cons a False by auto
  qed
qed simp

section \<open>Errors of the users\<close>

definition first_error :: "go_error list \<Rightarrow> go_error option" where
  "first_error errs = (case errs of [] \<Rightarrow> None | e # _ \<Rightarrow> Some e)"

text \<open>\<^verbatim>\<open>executePerVUIterations\<close>: what the users returned, in the order in which they ended.\<close>

definition per_vu_error :: "go_error option list \<Rightarrow> go_error option" where
  "per_vu_error results = first_error (filter (\<lambda>e. e \<noteq> ContextCanceled) (List.map_filter id results))"

section \<open>Shared iterations\<close>

datatype phase = Idle | Working int | Sending go_error | Finished

record shared =
  sh_iters :: "int list"
  sh_errs :: "go_error list"
  sh_cap :: nat
  sh_users :: "phase list"
  sh_cancelled :: bool
  sh_started :: "int list"

definition shared_iterations :: "int \<Rightarrow> int list" where
  "shared_iterations totalIterations = [0..(if totalIterations \<le> 0 then 1 else totalIterations) - 1]"

definition shared_start :: "nat \<Rightarrow> int \<Rightarrow> int \<Rightarrow> shared" where
  "shared_start users vus totalIterations =
     \<lparr>sh_iters = shared_iterations totalIterations, sh_errs = [], sh_cap = nat vus, sh_users = replicate users Idle,
      sh_cancelled = False, sh_started = []\<rparr>"

inductive shared_step :: "(int \<Rightarrow> go_error option) \<Rightarrow> shared \<Rightarrow> shared \<Rightarrow> bool" for outcome :: "int \<Rightarrow> go_error option" where
  take_next: "j < length (sh_users s) \<Longrightarrow> sh_users s ! j = Idle \<Longrightarrow> sh_iters s = i # is \<Longrightarrow> \<not> sh_cancelled s \<Longrightarrow>
    shared_step outcome s (s\<lparr>sh_users := (sh_users s)[j := Working i], sh_iters := is, sh_started := sh_started s @ [i]\<rparr>)"
| give_up: "j < length (sh_users s) \<Longrightarrow> sh_users s ! j = Idle \<Longrightarrow> sh_iters s = i # is \<Longrightarrow> sh_cancelled s \<Longrightarrow>
    shared_step outcome s (s\<lparr>sh_users := (sh_users s)[j := Finished], sh_iters := is\<rparr>)"
| drained: "j < length (sh_users s) \<Longrightarrow> sh_users s ! j = Idle \<Longrightarrow> sh_iters s = [] \<Longrightarrow>
    shared_step outcome s (s\<lparr>sh_users := (sh_users s)[j := Finished]\<rparr>)"
| succeed: "j < length (sh_users s) \<Longrightarrow> sh_users s ! j = Working i \<Longrightarrow> outcome i = None \<Longrightarrow>
    shared_step outcome s (s\<lparr>sh_users := (sh_users s)[j := Idle]\<rparr>)"
| fails: "j < length (sh_users s) \<Longrightarrow> sh_users s ! j = Working i \<Longrightarrow> outcome i = Some e \<Longrightarrow>
    shared_step outcome s (s\<lparr>sh_users := (sh_users s)[j := Sending e]\<rparr>)"
| send: "j < length (sh_users s) \<Longrightarrow> sh_users s ! j = Sending e \<Longrightarrow> length (sh_errs s) < sh_cap s \<Longrightarrow>
    shared_step outcome s (s\<lparr>sh_users := (sh_users s)[j := Idle], sh_errs := sh_errs s @ [e]\<rparr>)"
| cancel: "\<not> sh_cancelled s \<Longrightarrow> shared_step outcome s (s\<lparr>sh_cancelled := True\<rparr>)"

text \<open>All goroutines have ended, so that the function reads the errors and returns the first.\<close>

definition shared_returned :: "shared \<Rightarrow> bool" where
  "shared_returned s = list_all (\<lambda>p. p = Finished) (sh_users s)"

section \<open>Conservation of iterations and errors\<close>

fun pending :: "(int \<Rightarrow> go_error option) \<Rightarrow> phase \<Rightarrow> go_error multiset" where
  "pending outcome (Working i) = (case outcome i of None \<Rightarrow> {#} | Some e \<Rightarrow> {#e#})"
| "pending outcome (Sending e) = {#e#}"
| "pending outcome _ = {#}"

definition failures :: "(int \<Rightarrow> go_error option) \<Rightarrow> int list \<Rightarrow> go_error multiset" where
  "failures outcome is = mset (List.map_filter outcome is)"

lemma failures_append [simp]: "failures outcome (is @ js) = failures outcome is + failures outcome js"
  by (induction "is") (simp_all add: failures_def map_filter_simps split: option.splits)

lemma failures_single [simp]: "failures outcome [i] = (case outcome i of None \<Rightarrow> {#} | Some e \<Rightarrow> {#e#})" "failures outcome [] = {#}"
  by (simp_all add: failures_def map_filter_simps split: option.splits)

definition shared_inv :: "(int \<Rightarrow> go_error option) \<Rightarrow> int list \<Rightarrow> shared \<Rightarrow> bool" where
  "shared_inv outcome its s \<longleftrightarrow>
     (\<exists>rest. its = sh_started s @ rest \<and> (\<not> sh_cancelled s \<longrightarrow> rest = sh_iters s)) \<and>
     mset (sh_errs s) + (\<Sum>p\<leftarrow>sh_users s. pending outcome p) = failures outcome (sh_started s) \<and>
     length (sh_errs s) \<le> sh_cap s \<and>
     (\<not> sh_cancelled s \<longrightarrow> Finished \<in> set (sh_users s) \<longrightarrow> sh_iters s = [])"

lemma sum_list_update_multiset:
  "j < length ps \<Longrightarrow> (\<Sum>p\<leftarrow>ps[j := q]. f p) + f (ps ! j) = (\<Sum>p\<leftarrow>ps. f p) + (f q :: 'a multiset)"
  by (induction ps arbitrary: j) (auto simp: nth_Cons split: nat.splits)

lemma shared_start_inv: "shared_inv outcome (shared_iterations totalIterations) (shared_start users vus totalIterations)"
proof -
  have "(\<Sum>p\<leftarrow>replicate users Idle. pending outcome p) = {#}" by (induction users) simp_all
  then show ?thesis by (auto simp: shared_inv_def shared_start_def)
qed

lemma shared_step_inv: "shared_step outcome s t \<Longrightarrow> shared_inv outcome its s \<Longrightarrow> shared_inv outcome its t"
proof (induction rule: shared_step.induct)
  case (take_next j s i "is")
  then have "Finished \<notin> set (sh_users s)" by (auto simp: shared_inv_def)
  then have "Finished \<notin> set ((sh_users s)[j := Working i])" using set_update_subset_insert [of "sh_users s" j "Working i"] by auto
  then show ?case using take_next sum_list_update_multiset [of j "sh_users s" "pending outcome" "Working i"]
    by (auto simp: shared_inv_def ac_simps)
next
  case (give_up j s i "is")
  then show ?case using sum_list_update_multiset [of j "sh_users s" "pending outcome" Finished] by (auto simp: shared_inv_def)
next
  case (drained j s)
  then show ?case using sum_list_update_multiset [of j "sh_users s" "pending outcome" Finished] by (auto simp: shared_inv_def)
next
  case (succeed j s i)
  then show ?case using sum_list_update_multiset [of j "sh_users s" "pending outcome" Idle] set_update_subset_insert [of "sh_users s" j Idle]
    by (auto simp: shared_inv_def)
next
  case (fails j s i e)
  then show ?case using sum_list_update_multiset [of j "sh_users s" "pending outcome" "Sending e"] set_update_subset_insert [of "sh_users s" j "Sending e"]
    by (auto simp: shared_inv_def)
next
  case (send j s e)
  then have "(\<Sum>p\<leftarrow>sh_users s. pending outcome p) = (\<Sum>p\<leftarrow>(sh_users s)[j := Idle]. pending outcome p) + {#e#}"
    using sum_list_update_multiset [of j "sh_users s" "pending outcome" Idle] by simp
  then show ?case using send set_update_subset_insert [of "sh_users s" j Idle] by (auto simp: shared_inv_def)
next
  case (cancel s)
  then show ?case by (auto simp: shared_inv_def)
qed

lemma shared_steps_inv: "(shared_step outcome)\<^sup>*\<^sup>* s t \<Longrightarrow> shared_inv outcome its s \<Longrightarrow> shared_inv outcome its t"
  by (induction rule: rtranclp_induct) (blast intro: shared_step_inv)+

lemma shared_steps_const: "(shared_step outcome)\<^sup>*\<^sup>* s t \<Longrightarrow> sh_cap t = sh_cap s \<and> length (sh_users t) = length (sh_users s)"
  by (induction rule: rtranclp_induct) (auto elim: shared_step.cases)

text \<open>Every run is finite.\<close>

fun phase_weight :: "phase \<Rightarrow> nat" where
  "phase_weight Idle = 1"
| "phase_weight (Working i) = 3"
| "phase_weight (Sending e) = 2"
| "phase_weight Finished = 0"

definition shared_weight :: "shared \<Rightarrow> nat" where
  "shared_weight s = 4 * length (sh_iters s) + (\<Sum>p\<leftarrow>sh_users s. phase_weight p) + (if sh_cancelled s then 0 else 1)"

lemma sum_list_update_nat:
  "j < length ps \<Longrightarrow> (\<Sum>p\<leftarrow>ps[j := q]. f p) + f (ps ! j) = (\<Sum>p\<leftarrow>ps. f p) + (f q :: nat)"
  by (induction ps arbitrary: j) (auto simp: nth_Cons split: nat.splits)

lemma shared_step_weight: "shared_step outcome s t \<Longrightarrow> shared_weight t < shared_weight s"
proof (induction rule: shared_step.induct)
  case (take_next j s i "is")
  then show ?case using sum_list_update_nat [of j "sh_users s" phase_weight "Working i"] by (simp add: shared_weight_def)
next
  case (give_up j s i "is")
  then show ?case using sum_list_update_nat [of j "sh_users s" phase_weight Finished] by (simp add: shared_weight_def)
next
  case (drained j s)
  then show ?case using sum_list_update_nat [of j "sh_users s" phase_weight Finished] by (simp add: shared_weight_def)
next
  case (succeed j s i)
  then show ?case using sum_list_update_nat [of j "sh_users s" phase_weight Idle] by (simp add: shared_weight_def)
next
  case (fails j s i e)
  then show ?case using sum_list_update_nat [of j "sh_users s" phase_weight "Sending e"] by (simp add: shared_weight_def)
next
  case (send j s e)
  then show ?case using sum_list_update_nat [of j "sh_users s" phase_weight Idle] by (simp add: shared_weight_def)
qed (simp add: shared_weight_def)

text \<open>A user can always go on, unless it has ended or waits to send an error into the full channel.\<close>

lemma user_goes_on:
  assumes "j < length (sh_users s)" "sh_users s ! j \<noteq> Finished" "\<And>e. sh_users s ! j = Sending e \<Longrightarrow> length (sh_errs s) < sh_cap s"
  shows "\<exists>t. shared_step outcome s t \<and> sh_cancelled t = sh_cancelled s"
proof (cases "sh_users s ! j")
  case Idle
  consider i "is" where "sh_iters s = i # is" "\<not> sh_cancelled s" | i "is" where "sh_iters s = i # is" "sh_cancelled s" | "sh_iters s = []"
    by (cases "sh_iters s") auto
  then show ?thesis
  proof cases
    case 1
    show ?thesis by (rule exI, rule conjI, rule shared_step.take_next [OF assms(1) Idle 1]) simp
  next
    case 2
    show ?thesis by (rule exI, rule conjI, rule shared_step.give_up [OF assms(1) Idle 2]) simp
  next
    case 3
    show ?thesis by (rule exI, rule conjI, rule shared_step.drained [OF assms(1) Idle 3]) simp
  qed
next
  case (Working i)
  show ?thesis
  proof (cases "outcome i")
    case None
    show ?thesis by (rule exI, rule conjI, rule shared_step.succeed [where outcome = outcome, OF assms(1) Working None]) simp
  next
    case (Some e)
    show ?thesis by (rule exI, rule conjI, rule shared_step.fails [where outcome = outcome, OF assms(1) Working Some]) simp
  qed
next
  case (Sending e)
  show ?thesis by (rule exI, rule conjI, rule shared_step.send [OF assms(1) Sending assms(3) [OF Sending]]) simp
qed (use assms in simp)

lemma pending_send:
  assumes "j < length ps" "ps ! j = Sending e"
  shows "1 \<le> size (\<Sum>p\<leftarrow>ps. pending outcome p)"
  using assms by (induction ps arbitrary: j) (auto simp: nth_Cons trans_le_add2 split: nat.splits)

lemma few_failures_go_on:
  assumes inv: "shared_inv outcome its s" and few: "size (failures outcome its) \<le> sh_cap s" and "\<not> shared_returned s"
  shows "\<exists>t. shared_step outcome s t \<and> sh_cancelled t = sh_cancelled s"
proof -
  obtain j where j: "j < length (sh_users s)" "sh_users s ! j \<noteq> Finished"
    using assms(3) by (auto simp: shared_returned_def list_all_length)
  have bal: "mset (sh_errs s) + (\<Sum>p\<leftarrow>sh_users s. pending outcome p) = failures outcome (sh_started s)"
    using inv by (simp add: shared_inv_def)
  obtain rest where "its = sh_started s @ rest" using inv by (auto simp: shared_inv_def)
  then have "size (failures outcome (sh_started s)) \<le> sh_cap s" using few by simp
  moreover have "length (sh_errs s) + size (\<Sum>p\<leftarrow>sh_users s. pending outcome p) = size (failures outcome (sh_started s))"
    using bal by (metis size_mset size_union)
  ultimately have "length (sh_errs s) < sh_cap s" if "sh_users s ! j = Sending e" for e
    using pending_send [OF j(1) that, of outcome] by linarith
  then show ?thesis using user_goes_on [OF j] by blast
qed

lemma few_failures_return:
  assumes "shared_inv outcome its s" "size (failures outcome its) \<le> sh_cap s"
  shows "\<exists>t. (shared_step outcome)\<^sup>*\<^sup>* s t \<and> shared_returned t \<and> sh_cancelled t = sh_cancelled s"
  using assms
proof (induction "shared_weight s" arbitrary: s rule: less_induct)
  case less
  show ?case
  proof (cases "shared_returned s")
    case False
    obtain t where t: "shared_step outcome s t" "sh_cancelled t = sh_cancelled s" using few_failures_go_on [OF less.prems False] by blast
    have "sh_cap t = sh_cap s" using shared_steps_const [OF r_into_rtranclp [where r = "shared_step outcome", OF t(1)]] by simp
    then show ?thesis
      using less.hyps [OF shared_step_weight [OF t(1)] shared_step_inv [OF t(1) less.prems(1)]] less.prems(2) t
      by (metis converse_rtranclp_into_rtranclp)
  qed auto
qed

lemma returned_all_done:
  assumes inv: "shared_inv outcome its s" and ret: "shared_returned s" and "\<not> sh_cancelled s" "sh_users s \<noteq> []"
  shows "sh_started s = its \<and> mset (sh_errs s) = failures outcome its"
proof -
  have fin: "\<And>p. p \<in> set (sh_users s) \<Longrightarrow> p = Finished" using ret by (auto simp: shared_returned_def list_all_iff)
  then have "Finished \<in> set (sh_users s)" using assms(4) by (cases "sh_users s") auto
  then have "sh_iters s = []" using inv assms(3) by (simp add: shared_inv_def)
  then have st: "sh_started s = its" using inv assms(3) by (simp add: shared_inv_def)
  have "(\<Sum>p\<leftarrow>ps. pending outcome p) = {#}" if "\<forall>p \<in> set ps. p = Finished" for ps
    using that by (induction ps) simp_all
  then have "(\<Sum>p\<leftarrow>sh_users s. pending outcome p) = {#}" using fin by blast
  then show ?thesis using inv st by (simp add: shared_inv_def)
qed

section \<open>Properties\<close>

text \<open>(C16) When no more iterations fail than the mode has virtual users, it returns: no run is longer than a bound, from every state on the way
  the goroutines can go on until all have ended, and when the Go context was not cancelled each iteration has then been run exactly once,
  and the errors that are read are those of the failed iterations.\<close>

theorem shared_iterations_return:
  assumes "(shared_step outcome)\<^sup>*\<^sup>* (shared_start users vus n) s" "0 < users"
    and "size (failures outcome (shared_iterations n)) \<le> nat vus"
  shows "(\<exists>t. (shared_step outcome)\<^sup>*\<^sup>* s t \<and> shared_returned t \<and> sh_cancelled t = sh_cancelled s) \<and>
    (\<forall>k t. (shared_step outcome ^^ k) s t \<longrightarrow> k \<le> shared_weight s) \<and>
    (shared_returned s \<and> \<not> sh_cancelled s \<longrightarrow>
       sh_started s = shared_iterations n \<and> mset (sh_errs s) = failures outcome (shared_iterations n))"
proof -
  note inv = shared_steps_inv [OF assms(1) shared_start_inv]
  have const: "sh_cap s = nat vus" "length (sh_users s) = users"
    using shared_steps_const [OF assms(1)] by (simp_all add: shared_start_def)
  have "k + shared_weight t \<le> shared_weight s" if "(shared_step outcome ^^ k) s t" for k t
    using that
  proof (induction k arbitrary: t)
    case (Suc k)
    then obtain u where "(shared_step outcome ^^ k) s u" "shared_step outcome u t" by auto
    then show ?case using Suc.IH shared_step_weight by fastforce
  qed simp
  then have "k \<le> shared_weight s" if "(shared_step outcome ^^ k) s t" for k t using that add_leD1 by blast
  moreover have "sh_users s \<noteq> []" using assms(2) const(2) by auto
  ultimately show ?thesis using few_failures_return [OF inv] returned_all_done [OF inv] assms(3) const(1) by simp
qed

theorem shared_iterations_return_witness:
  "\<exists>t. (shared_step (\<lambda>i. if i = 1 then Some ContextCanceled else None))\<^sup>*\<^sup>* (shared_start 2 2 3) t \<and> shared_returned t"
proof -
  have "size (failures (\<lambda>i. if i = 1 then Some ContextCanceled else None) (shared_iterations 3)) \<le> nat 2"
    by (simp add: failures_def shared_iterations_def map_filter_simps upto_rec1)
  then show ?thesis using shared_iterations_return [OF rtranclp.rtrancl_refl, where users = 2 and vus = 2 and n = 3] by fastforce
qed

text \<open>(C17) When more iterations fail than the mode has virtual users, it does not return, unless the Go context is cancelled: the channel for the
  errors holds one error for each virtual user, each user sends one for every iteration of its own that failed, and nothing
  reads the channel before all of them have ended.  A user that waits to send into the full channel waits forever, also
  after a cancellation.\<close>

theorem shared_iterations_hang:
  assumes "(shared_step outcome)\<^sup>*\<^sup>* (shared_start users vus n) s" "0 < users"
    and "nat vus < size (failures outcome (shared_iterations n))"
  shows "(shared_returned s \<longrightarrow> sh_cancelled s) \<and>
    (length (sh_errs s) = nat vus \<and> j < users \<and> sh_users s ! j = Sending e \<longrightarrow>
       (\<forall>t. (shared_step outcome)\<^sup>*\<^sup>* s t \<longrightarrow> \<not> shared_returned t))"
proof -
  note inv = shared_steps_inv [OF assms(1) shared_start_inv]
  have const: "sh_cap s = nat vus" "length (sh_users s) = users"
    using shared_steps_const [OF assms(1)] by (simp_all add: shared_start_def)
  have "sh_cancelled s" if "shared_returned s"
  proof (rule ccontr)
    assume "\<not> sh_cancelled s"
    moreover have "sh_users s \<noteq> []" using assms(2) const(2) by auto
    ultimately have "mset (sh_errs s) = failures outcome (shared_iterations n)" using returned_all_done [OF inv that] by blast
    then have "length (sh_errs s) = size (failures outcome (shared_iterations n))" by (metis size_mset)
    then show False using inv assms(3) const(1) by (simp add: shared_inv_def)
  qed
  moreover have "\<not> shared_returned t"
    if full: "length (sh_errs s) = nat vus" "j < users" "sh_users s ! j = Sending e" and st: "(shared_step outcome)\<^sup>*\<^sup>* s t" for t
  proof -
    have "sh_users t ! j = Sending e \<and> length (sh_errs t) = sh_cap t \<and> j < length (sh_users t)" using st
    proof (induction rule: rtranclp_induct)
      case (step t u)
      from step.hyps(2) step.IH show ?case by cases (auto simp: nth_list_update)
    qed (use full const in simp)
    then show ?thesis by (auto simp: shared_returned_def list_all_length)
  qed
  ultimately show ?thesis by blast
qed

definition stuck_shared :: shared where
  "stuck_shared = \<lparr>sh_iters = [], sh_errs = [ContextCanceled], sh_cap = 1, sh_users = [Sending ContextCanceled], sh_cancelled = False, sh_started = [0, 1]\<rparr>"

lemma stuck_reachable: "(shared_step (\<lambda>_. Some ContextCanceled))\<^sup>*\<^sup>* (shared_start 1 1 2) stuck_shared"
proof -
  let ?o = "\<lambda>_. Some ContextCanceled"
  let ?s = "\<lambda>its errs p st. \<lparr>sh_iters = its, sh_errs = errs, sh_cap = 1, sh_users = [p], sh_cancelled = False, sh_started = st\<rparr>"
  have s0: "shared_start 1 1 2 = ?s [0, 1] [] Idle []" by (simp add: shared_start_def shared_iterations_def upto_rec1)
  have a: "shared_step ?o (?s [0, 1] [] Idle []) (?s [1] [] (Working 0) [0])"
    using shared_step.take_next [of 0 "?s [0, 1] [] Idle []" 0 "[1]" ?o] by simp
  have b: "shared_step ?o (?s [1] [] (Working 0) [0]) (?s [1] [] (Sending ContextCanceled) [0])"
    using shared_step.fails [of 0 "?s [1] [] (Working 0) [0]" 0 ?o ContextCanceled] by simp
  have c: "shared_step ?o (?s [1] [] (Sending ContextCanceled) [0]) (?s [1] [ContextCanceled] Idle [0])"
    using shared_step.send [of 0 "?s [1] [] (Sending ContextCanceled) [0]" ContextCanceled ?o] by simp
  have d: "shared_step ?o (?s [1] [ContextCanceled] Idle [0]) (?s [] [ContextCanceled] (Working 1) [0, 1])"
    using shared_step.take_next [of 0 "?s [1] [ContextCanceled] Idle [0]" 1 "[]" ?o] by simp
  have e: "shared_step ?o (?s [] [ContextCanceled] (Working 1) [0, 1]) stuck_shared"
    using shared_step.fails [of 0 "?s [] [ContextCanceled] (Working 1) [0, 1]" 1 ?o ContextCanceled] by (simp add: stuck_shared_def)
  note into = converse_rtranclp_into_rtranclp [where r = "shared_step ?o"]
  show ?thesis unfolding s0 by (rule into [OF a into [OF b into [OF c into [OF d r_into_rtranclp [where r = "shared_step ?o", OF e]]]]])
qed

theorem shared_iterations_hang_witness:
  "(shared_step (\<lambda>_. Some ContextCanceled))\<^sup>*\<^sup>* (shared_start 1 1 2) stuck_shared \<and>
   \<not> (\<exists>t. (shared_step (\<lambda>_. Some ContextCanceled))\<^sup>*\<^sup>* stuck_shared t \<and> shared_returned t)"
proof -
  have h: "nat 1 < size (failures (\<lambda>i. Some ContextCanceled) (shared_iterations 2))"
    by (simp add: failures_def shared_iterations_def map_filter_simps upto_rec1)
  have "length (sh_errs stuck_shared) = nat 1 \<and> 0 < (1::nat) \<and> sh_users stuck_shared ! 0 = Sending ContextCanceled"
    by (simp add: stuck_shared_def)
  then show ?thesis using stuck_reachable shared_iterations_hang [OF stuck_reachable zero_less_one h, of 0 ContextCanceled] by blast
qed

text \<open>The virtual users that a mode starts from a fresh pool are those below its number of virtual users and the limit of the pool.\<close>

theorem users_started:
  "map vu_ID (fst (start_users now vus (NewVUPool maxVUs))) = [0..min vus maxVUs - 1]"
proof -
  have "pool_inv (NewVUPool maxVUs)" using reachable_pool_inv [OF pool_reachable.new] by blast
  then have "map vu_ID (fst (start_users now vus (NewVUPool maxVUs))) = filter (\<lambda>i. i < maxVUs) [0..vus - 1]"
    by (simp add: start_users_def acquire_users_ids NewVUPool_def IsInUse_def)
  also have "filter (\<lambda>i. i < maxVUs) [0..m] = [0..min (m + 1) maxVUs - 1]" for m
  proof (induction "nat (m + 1)" arbitrary: m)
    case (Suc k)
    then have m: "[0..m] = [0..m - 1] @ [m]" by (intro upto_rec2) simp
    have "filter (\<lambda>i. i < maxVUs) [0..m - 1] = [0..min m maxVUs - 1]" using Suc.hyps(1) [of "m - 1"] Suc.hyps(2) by simp
    then show ?case using m Suc.hyps(2) by (auto simp: min_def upto_rec2 [of 0 m])
  qed simp
  finally show ?thesis by simp
qed

end
