(* ===== verification/Vu_Control.thy ===== *)
theory Vu_Control
  imports Shared_Iterations
begin

text \<open>
  How the task engine changes the number of virtual users while it runs
  (\<^verbatim>\<open>executeConstantVUs\<close> and \<^verbatim>\<open>executeRampingVUs\<close> of \<^verbatim>\<open>internal/slave/task_engine.go\<close>): the controller that brings the number of users to
  the limit of the engine twice a second, as operations and a step relation on what the mutex of the mode protects, and the
  ramping of a stage.
\<close>

section \<open>The limit\<close>

datatype scale_error = VUCountNegative | VUCountExceeds int

definition maxAllowedVUs :: int where "maxAllowedVUs = 100000"

definition ScaleVUs :: "int \<Rightarrow> int \<Rightarrow> scale_error option \<times> int" where
  "ScaleVUs newVUs maxVUs =
     (if newVUs < 0 then (Some VUCountNegative, maxVUs)
      else if newVUs > maxAllowedVUs then (Some (VUCountExceeds newVUs), maxVUs)
      else (None, newVUs))"

section \<open>The controller of constant virtual users\<close>

text \<open>The cancel functions of the registered users, with whether they have been called; the users whose
  goroutine has not ended, each of which is counted as active; the number of the next user.\<close>

record controller =
  ct_stopping :: bool
  ct_next :: int
  ct_cancels :: "(int, bool) gomap"
  ct_active :: "int list"

definition new_controller :: controller where
  "new_controller = \<lparr>ct_stopping = False, ct_next = 0, ct_cancels = [], ct_active = []\<rparr>"

definition startVU :: "controller \<Rightarrow> controller" where
  "startVU s =
     (if ct_stopping s then s
      else s\<lparr>ct_next := ct_next s + 1, ct_cancels := AList.update (ct_next s) False (ct_cancels s), ct_active := ct_active s @ [ct_next s]\<rparr>)"

definition stopOneVU :: "controller \<Rightarrow> controller" where
  "stopOneVU s =
     (let maxID = foldl (\<lambda>m (i, _). if i > m then i else m) (-1) (ct_cancels s) in
      if maxID \<ge> 0 \<and> map_of (ct_cancels s) maxID \<noteq> None
      then s\<lparr>ct_cancels := AList.update maxID True (ct_cancels s)\<rparr>
      else s)"

definition launch :: "int \<Rightarrow> controller \<Rightarrow> controller" where
  "launch vus s = (startVU ^^ nat vus) s"

definition control_tick :: "int \<Rightarrow> controller \<Rightarrow> controller" where
  "control_tick target s =
     (if ct_stopping s then s
      else
        let current = int (length (ct_active s)) in
        if target > current then (startVU ^^ nat (target - current)) s
        else if target < current then (stopOneVU ^^ nat (current - target)) s
        else s)"

text \<open>A user ends in two steps: it removes its cancel function, and then it is released and no longer counted.\<close>

definition deregister :: "int \<Rightarrow> controller \<Rightarrow> controller" where
  "deregister i s = s\<lparr>ct_cancels := AList.delete i (ct_cancels s)\<rparr>"

definition end_user :: "int \<Rightarrow> controller \<Rightarrow> controller" where
  "end_user i s = s\<lparr>ct_active := remove1 i (ct_active s)\<rparr>"

definition stop_control :: "controller \<Rightarrow> controller" where
  "stop_control s = s\<lparr>ct_stopping := True, ct_cancels := map (\<lambda>(i, _). (i, True)) (ct_cancels s)\<rparr>"

inductive control_reachable :: "int \<Rightarrow> controller \<Rightarrow> bool" for vus :: int where
  launched: "control_reachable vus (launch vus new_controller)"
| tick: "control_reachable vus s \<Longrightarrow> control_reachable vus (control_tick target s)"
| deregisters: "control_reachable vus s \<Longrightarrow> control_reachable vus (deregister i s)"
| ends: "control_reachable vus s \<Longrightarrow> i \<notin> fst ` set (ct_cancels s) \<Longrightarrow> control_reachable vus (end_user i s)"
| stops: "control_reachable vus s \<Longrightarrow> control_reachable vus (stop_control s)"

subsection \<open>The invariant\<close>

definition control_inv :: "controller \<Rightarrow> bool" where
  "control_inv s \<longleftrightarrow>
     0 \<le> ct_next s \<and> map_wf (ct_cancels s) \<and> distinct (ct_active s) \<and>
     set (ct_active s) \<subseteq> {0..<ct_next s} \<and> fst ` set (ct_cancels s) \<subseteq> set (ct_active s)"

lemma keys_update: "fst ` set (AList.update k v m) = insert k (fst ` set m)"
  by (simp add: dom_update)

lemma startVU_inv: "control_inv s \<Longrightarrow> control_inv (startVU s)"
  by (auto simp: startVU_def control_inv_def keys_update)

lemma funpow_inv: "(\<And>s. P s \<Longrightarrow> P (f s)) \<Longrightarrow> P s \<Longrightarrow> P ((f ^^ n) s)"
  by (induction n) auto

text \<open>The largest key, or minus one.\<close>

lemma foldl_max_eq:
  fixes m :: int
  shows "foldl (\<lambda>m (i, _). if i > m then i else m) m kvs = Max (insert m (fst ` set kvs))"
proof (induction kvs arbitrary: m)
  case (Cons kv kvs)
  have "Max (insert (max m k) S) = Max (insert m (insert k S))" if "finite S" for k :: int and S
    using that by (cases "S = {}") (simp_all add: max.assoc)
  moreover have "(if fst kv > m then fst kv else m) = max m (fst kv)" by (simp add: max_def)
  ultimately show ?case using Cons.IH [of "max m (fst kv)"] by (simp add: case_prod_beta)
qed simp

lemma stopOneVU_eq:
  assumes "\<And>i. i \<in> fst ` set (ct_cancels s) \<Longrightarrow> 0 \<le> i"
  shows "stopOneVU s =
    (if ct_cancels s = [] then s else s\<lparr>ct_cancels := AList.update (Max (fst ` set (ct_cancels s))) True (ct_cancels s)\<rparr>)"
proof (cases "ct_cancels s = []")
  case False
  let ?K = "fst ` set (ct_cancels s)"
  have K: "?K \<noteq> {}" "finite ?K" using False by simp_all
  then have mem: "Max ?K \<in> ?K" by simp
  have m: "foldl (\<lambda>m (i, _). if i > m then i else m) (-1) (ct_cancels s) = Max ?K"
    using assms [OF mem] K by (simp add: foldl_max_eq)
  have "map_of (ct_cancels s) (Max ?K) \<noteq> None" using mem by (simp add: map_of_eq_None_iff)
  then show ?thesis using False assms [OF mem] unfolding stopOneVU_def m Let_def by simp
qed (simp add: stopOneVU_def)

lemma control_inv_keys: "control_inv s \<Longrightarrow> i \<in> fst ` set (ct_cancels s) \<Longrightarrow> 0 \<le> i"
  by (force simp: control_inv_def)

lemma keys_update_same: "k \<in> fst ` set m \<Longrightarrow> fst ` set (AList.update k v m) = fst ` set m"
  by (auto simp: keys_update)

lemma Max_key: "ct_cancels s \<noteq> [] \<Longrightarrow> Max (fst ` set (ct_cancels s)) \<in> fst ` set (ct_cancels s)"
  by (intro Max_in) auto

lemma stopOneVU_inv: "control_inv s \<Longrightarrow> control_inv (stopOneVU s)"
proof (cases "ct_cancels s = []")
  case False
  assume inv: "control_inv s"
  then have "stopOneVU s = s\<lparr>ct_cancels := AList.update (Max (fst ` set (ct_cancels s))) True (ct_cancels s)\<rparr>"
    using False stopOneVU_eq [OF control_inv_keys [OF inv]] by simp
  then show ?thesis using inv keys_update_same [OF Max_key [OF False], of True] by (simp add: control_inv_def)
qed (simp add: stopOneVU_def)

lemma control_tick_inv: "control_inv s \<Longrightarrow> control_inv (control_tick target s)"
  by (simp add: control_tick_def Let_def funpow_inv [of control_inv] startVU_inv stopOneVU_inv)

lemma map_wf_true: "map_wf m \<Longrightarrow> map_wf (map (\<lambda>(i, _). (i, True)) m)"
  by (simp add: map_wf_def comp_def case_prod_beta)

lemma reachable_control_inv: "control_reachable vus s \<Longrightarrow> control_inv s"
proof (induction rule: control_reachable.induct)
  case launched
  then show ?case unfolding launch_def
    by (rule funpow_inv [of control_inv, OF startVU_inv]) (simp_all add: control_inv_def new_controller_def)
next
  case (deregisters s i)
  have "fst ` set (AList.delete i (ct_cancels s)) \<subseteq> fst ` set (ct_cancels s)"
    using delete_keys [of i "ct_cancels s"] by (metis Diff_subset set_map set_removeAll)
  then show ?case using deregisters.IH by (auto simp: control_inv_def deregister_def)
next
  case (ends s i)
  then show ?case by (auto simp: control_inv_def end_user_def)
next
  case (stops s)
  then show ?case by (force simp: control_inv_def stop_control_def map_wf_true)
qed (rule control_tick_inv)

lemma startVU_stopping [simp]: "ct_stopping ((startVU ^^ n) s) = ct_stopping s"
  by (induction n) (simp_all add: startVU_def)

lemma startVU_many:
  "\<not> ct_stopping s \<Longrightarrow> length (ct_active ((startVU ^^ n) s)) = length (ct_active s) + n \<and> ct_next ((startVU ^^ n) s) = ct_next s + int n"
proof (induction n)
  case (Suc n)
  then show ?case by (simp add: startVU_def [of "(startVU ^^ n) s"])
qed simp

lemma stopOneVU_idem:
  assumes "control_inv s"
  shows "stopOneVU (stopOneVU s) = stopOneVU s"
proof (cases "ct_cancels s = []")
  case False
  let ?m = "Max (fst ` set (ct_cancels s))"
  let ?t = "s\<lparr>ct_cancels := AList.update ?m True (ct_cancels s)\<rparr>"
  have once: "stopOneVU s = ?t" using False stopOneVU_eq [OF control_inv_keys [OF assms]] by simp
  have keys: "fst ` set (ct_cancels ?t) = fst ` set (ct_cancels s)" using keys_update_same [OF Max_key [OF False]] by simp
  have "ct_cancels ?t \<noteq> []" using keys False by (cases "ct_cancels ?t") auto
  then have "stopOneVU ?t = ?t\<lparr>ct_cancels := AList.update ?m True (AList.update ?m True (ct_cancels s))\<rparr>"
    using stopOneVU_eq [of ?t] control_inv_keys [OF assms] keys by simp
  moreover have "AList.update k v (AList.update k v m) = AList.update k v m" for k :: int and v :: bool and m
    by (induction m) auto
  ultimately show ?thesis by (simp add: once)
qed (simp add: stopOneVU_def)

lemma stopOneVU_many: "control_inv s \<Longrightarrow> 0 < n \<Longrightarrow> (stopOneVU ^^ n) s = stopOneVU s"
proof (induction n)
  case (Suc n)
  then show ?case using stopOneVU_idem by (cases n) simp_all
qed simp

section \<open>Properties of the controller\<close>



text \<open>A tick of the controller brings the number of active users up to its target at once, which is the limit of the engine and
  not the number of users of the workflow; users that have done their iterations are replaced.\<close>

theorem tick_scales_up:
  assumes "control_reachable vus s" "\<not> ct_stopping s" "int (length (ct_active s)) \<le> maxVUs"
  shows "int (length (ct_active (control_tick maxVUs s))) = maxVUs"
  using assms startVU_many [OF assms(2), of "nat (maxVUs - int (length (ct_active s)))"]
  by (auto simp: control_tick_def Let_def)

theorem tick_scales_up_witness: "int (length (ct_active (control_tick 100 (launch 10 new_controller)))) = 100"
proof (rule tick_scales_up)
  show "control_reachable 10 (launch 10 new_controller)" by (rule control_reachable.launched)
  show stop: "\<not> ct_stopping (launch 10 new_controller)" by (simp add: launch_def new_controller_def)
  show "int (length (ct_active (launch 10 new_controller))) \<le> 100"
    using startVU_many [of new_controller 10] by (simp add: launch_def new_controller_def)
qed

text \<open>A tick that is to take users away cancels one user, the one with the largest number, however many are to go: the user that
  is to be stopped is looked for again before the one that was cancelled has ended.\<close>

theorem tick_stops_one:
  assumes "control_reachable vus s" "\<not> ct_stopping s" "target < int (length (ct_active s))" "ct_cancels s \<noteq> []"
  shows "control_tick target s = s\<lparr>ct_cancels := AList.update (Max (fst ` set (ct_cancels s))) True (ct_cancels s)\<rparr>"
proof -
  note inv = reachable_control_inv [OF assms(1)]
  have "control_tick target s = stopOneVU s"
    using assms(2,3) stopOneVU_many [OF inv, of "nat (int (length (ct_active s)) - target)"] by (simp add: control_tick_def Let_def)
  then show ?thesis using assms(4) stopOneVU_eq [OF control_inv_keys [OF inv]] by simp
qed

theorem tick_stops_one_witness:
  "ct_cancels (control_tick 1 (launch 3 new_controller)) = [(0, False), (1, False), (2, True)]"
proof -
  have r: "control_reachable 3 (launch 3 new_controller)" by (rule control_reachable.launched)
  have l: "launch 3 new_controller = \<lparr>ct_stopping = False, ct_next = 3, ct_cancels = [(0, False), (1, False), (2, False)], ct_active = [0, 1, 2]\<rparr>"
    by code_simp
  show ?thesis using tick_stops_one [OF r, of 1] by (simp add: l)
qed

section \<open>Ramping\<close>

text \<open>The number of users that a stage aims at after some time of it, the users with a cancel function, and the two loops of a tick.\<close>

definition ramp_target :: "int \<Rightarrow> int \<Rightarrow> int \<Rightarrow> int \<Rightarrow> int" where
  "ramp_target currentVUs targetVUs elapsed stageDuration =
     currentVUs + f64_to_int (f64_mul (f64_of_int (targetVUs - currentVUs)) (f64_div (f64_of_int elapsed) (f64_of_int stageDuration)))"

definition stage_target :: "int \<Rightarrow> int \<Rightarrow> int" where
  "stage_target maxVUs target = (if target > maxVUs then maxVUs else target)"

definition stage_duration :: "int \<Rightarrow> int" where
  "stage_duration d = (if d \<le> 0 then Second else d)"

fun ramp_up :: "(int \<Rightarrow> int) \<Rightarrow> int list \<Rightarrow> int list \<times> vu_pool \<Rightarrow> int list \<times> vu_pool" where
  "ramp_up now [] s = s"
| "ramp_up now (i # is) (ctxs, p) =
     (case Acquire (now i) (now i) i p of
        (None, p') \<Rightarrow> ramp_up now is (ctxs, p')
      | (Some vu, p') \<Rightarrow> ramp_up now is (List.insert i ctxs, p'))"

definition ramp_down :: "int \<Rightarrow> int list \<Rightarrow> int list" where
  "ramp_down target ctxs = foldl (\<lambda>m i. remove1 i m) ctxs (rev [target..int (length ctxs) - 1])"

definition ramp_tick :: "(int \<Rightarrow> int) \<Rightarrow> int \<Rightarrow> int list \<times> vu_pool \<Rightarrow> int list \<times> vu_pool" where
  "ramp_tick now target s =
     (case ramp_up now [int (length (fst s))..target - 1] s of (ctxs, p) \<Rightarrow> (ramp_down target ctxs, p))"

lemma ramp_up_free:
  assumes "pool_inv p" "distinct is" "\<forall>i \<in> set is. i < vp_maxVUs p \<and> \<not> IsInUse p i" "distinct ctxs"
  shows "\<exists>ctxs' p'. ramp_up now is (ctxs, p) = (ctxs', p') \<and> set ctxs' = set ctxs \<union> set is \<and> distinct ctxs'"
  using assms
proof (induction "is" arbitrary: p ctxs)
  case (Cons i "is")
  have i: "i < vp_maxVUs p" "\<not> IsInUse p i" using Cons.prems(3) by simp_all
  note acq = users.acquire_free [OF Cons.prems(1) i, of "now i" "now i"]
  obtain vu' p' where res: "Acquire (now i) (now i) i p = (vu', p')" by (cases "Acquire (now i) (now i) i p")
  obtain vu where a: "Acquire (now i) (now i) i p = (Some vu, p')" using acq res by auto
  have used: "\<And>j. IsInUse p' j = (j = i \<or> IsInUse p j)" using acq res by simp
  have "pool_inv p'" "vp_maxVUs p' = vp_maxVUs p"
    using Acquire_inv [OF Cons.prems(1), of "now i" "now i" i] users.acquire_limit [of "now i" "now i" i p] a by simp_all
  moreover have "\<forall>j \<in> set is. j < vp_maxVUs p' \<and> \<not> IsInUse p' j" using Cons.prems(2,3) used calculation(2) by auto
  ultimately obtain ctxs' q where "ramp_up now is (List.insert i ctxs, p') = (ctxs', q)" "set ctxs' = set (List.insert i ctxs) \<union> set is" "distinct ctxs'"
    using Cons.IH [of p' "List.insert i ctxs"] Cons.prems(2,4) by auto
  then show ?case using a by auto
qed simp

lemma foldl_remove1: "distinct m \<Longrightarrow> set (foldl (\<lambda>m i. remove1 i m) m is) = set m - set is"
  by (induction "is" arbitrary: m) auto

text \<open>When the users that run are those with the first numbers, as many as there are, and the users to be added are free, a tick leaves exactly the
  users below the target of the moment running.\<close>

theorem ramp_tick_target:
  assumes "pool_inv p" "set ctxs = {0..<n}" "distinct ctxs" "0 \<le> n" "0 \<le> target" "target \<le> vp_maxVUs p"
    and free: "\<And>i. n \<le> i \<Longrightarrow> i < target \<Longrightarrow> \<not> IsInUse p i"
  shows "set (fst (ramp_tick now target (ctxs, p))) = {0..<target}"
proof -
  have len: "int (length ctxs) = n" using distinct_card [OF assms(3)] assms(2,4) by simp
  obtain ctxs' p' where up: "ramp_up now [n..target - 1] (ctxs, p) = (ctxs', p')" and set': "set ctxs' = {0..<n} \<union> {n..target - 1}" "distinct ctxs'"
    using ramp_up_free [OF assms(1), of "[n..target - 1]" ctxs now] assms(2,3,6) free by auto
  have all: "set ctxs' = {0..<max n target}" using set'(1) assms(4,5) by auto
  then have "int (length ctxs') = max n target" using distinct_card [OF set'(2)] assms(4,5) by simp
  then have "set (ramp_down target ctxs') = {0..<target}"
    using foldl_remove1 [OF set'(2)] all assms(4,5) by (auto simp: ramp_down_def)
  then show ?thesis using up len by (simp add: ramp_tick_def)
qed

theorem ramp_tick_target_witness: "set (fst (ramp_tick (\<lambda>_. 0) 2 ([], NewVUPool 5))) = {0..<2}"
proof (rule ramp_tick_target [where n = 0])
  show "pool_inv (NewVUPool 5)" using reachable_pool_inv [OF pool_reachable.new] by blast
qed (simp_all add: NewVUPool_def IsInUse_def)

text \<open>During a stage the number of users stays between the number at its start and its target, upwards and downwards, whatever the
  rounding of the intermediate results does.\<close>

theorem ramp_target_between:
  assumes "0 \<le> elapsed" "elapsed < stageDuration" "in_int64 stageDuration"
    and "0 \<le> currentVUs" "currentVUs \<le> 2 ^ 53" "0 \<le> targetVUs" "targetVUs \<le> 2 ^ 53"
  shows "min currentVUs targetVUs \<le> ramp_target currentVUs targetVUs elapsed stageDuration \<and>
    ramp_target currentVUs targetVUs elapsed stageDuration \<le> max currentVUs targetVUs"
proof -
  obtain q where q: "f64_div (f64_of_int elapsed) (f64_of_int stageDuration) = F_Fin False q" "0 \<le> q" "q \<le> 1"
    using f64_quotient_unit [of elapsed stageDuration] assms by auto
  let ?d = "targetVUs - currentVUs"
  have d: "0 \<le> \<bar>?d\<bar>" "\<bar>?d\<bar> \<le> 2 ^ 53" using assms by auto
  obtain m where m: "f64_round (?d < 0) (of_int \<bar>?d\<bar> * q) = F_Fin (?d < 0) m" "0 \<le> m" "m \<le> of_int \<bar>?d\<bar>"
    using f64_part [OF d q(2,3), of "?d < 0"] by blast
  have t: "ramp_target currentVUs targetVUs elapsed stageDuration = currentVUs + f64_to_int (F_Fin (?d < 0) m)"
    using f64_of_int_exact [OF d(2)] m(1) by (simp add: ramp_target_def q(1))
  show ?thesis unfolding t using f64_to_int_part [OF m(2,3) d(2)] by (cases "?d < 0") auto
qed

theorem ramp_target_between_witness:
  "min 0 10 \<le> ramp_target 0 10 300000000 1000000000 \<and> ramp_target 0 10 300000000 1000000000 \<le> max 0 10"
  by (rule ramp_target_between) (simp_all add: in_int64_def int64_min_def int64_max_def)

end
