(* ===== verification/Metrics_Sink.thy ===== *)
theory Metrics_Sink
  imports Go_Order
begin

text \<open>
  Metrics and their aggregation (\<^verbatim>\<open>pkg/metrics/sample.go\<close>, \<^verbatim>\<open>pkg/metrics/sink.go\<close>): the four kinds of sinks, samples and the
  registry of metrics.  A method of a sink holds its mutex for the whole body.  An index outside of a
  slice, at which Go panics, is the value \<open>None\<close>.
\<close>

section \<open>Samples\<close>

type_synonym metric_type = gostring

definition MetricCounter :: metric_type where "MetricCounter = ''counter''"
definition MetricGauge :: metric_type where "MetricGauge = ''gauge''"
definition MetricRate :: metric_type where "MetricRate = ''rate''"
definition MetricTrend :: metric_type where "MetricTrend = ''trend''"

lemmas metric_type_defs = MetricCounter_def MetricGauge_def MetricRate_def MetricTrend_def

text \<open>A sample refers to its metric by name; one registry makes one metric for each name.\<close>

record sample =
  sm_Name :: gostring
  sm_Type :: metric_type
  sm_Time :: int
  sm_Value :: float64
  sm_Tags :: "(gostring, gostring) gomap"
  sm_Metadata :: "(gostring, gostring) gomap"

section \<open>Sinks\<close>

definition f64_zero :: float64 where "f64_zero = F_Fin False 0"

record counter_sink =
  cs_Value :: float64
  cs_First :: "int option"

definition new_counter :: counter_sink where
  "new_counter = \<lparr>cs_Value = f64_zero, cs_First = None\<rparr>"

definition counter_Add :: "sample \<Rightarrow> counter_sink \<Rightarrow> counter_sink" where
  "counter_Add x c =
     c\<lparr>cs_Value := f64_add (cs_Value c) (sm_Value x),
       cs_First := (case cs_First c of None \<Rightarrow> Some (sm_Time x) | Some t \<Rightarrow> Some t)\<rparr>"

definition counter_Format :: "float64 \<Rightarrow> counter_sink \<Rightarrow> (gostring, float64) gomap" where
  "counter_Format duration c =
     (''count'', cs_Value c) #
     (if f64_lt f64_zero duration then [(''rate'', f64_div (cs_Value c) duration)] else [])"

definition counter_IsEmpty :: "counter_sink \<Rightarrow> bool" where
  "counter_IsEmpty c = f64_eq (cs_Value c) f64_zero"

record gauge_sink =
  gs_Value :: float64
  gs_Min :: float64
  gs_Max :: float64
  gs_Sum :: float64
  gs_Count :: int
  gs_minSet :: bool

definition new_gauge :: gauge_sink where
  "new_gauge = \<lparr>gs_Value = f64_zero, gs_Min = f64_zero, gs_Max = f64_zero, gs_Sum = f64_zero, gs_Count = 0, gs_minSet = False\<rparr>"

definition gauge_Add :: "sample \<Rightarrow> gauge_sink \<Rightarrow> gauge_sink" where
  "gauge_Add x g =
     g\<lparr>gs_Value := sm_Value x,
       gs_Sum := f64_add (gs_Sum g) (sm_Value x),
       gs_Count := wrap64 (gs_Count g + 1),
       gs_Min := (if \<not> gs_minSet g \<or> f64_lt (sm_Value x) (gs_Min g) then sm_Value x else gs_Min g),
       gs_minSet := True,
       gs_Max := (if f64_lt (gs_Max g) (sm_Value x) then sm_Value x else gs_Max g)\<rparr>"

definition gauge_Format :: "gauge_sink \<Rightarrow> (gostring, float64) gomap" where
  "gauge_Format g =
     [(''value'', gs_Value g), (''min'', gs_Min g), (''max'', gs_Max g)] @
     (if gs_Count g > 0 then [(''avg'', f64_div (gs_Sum g) (f64_of_int (gs_Count g)))] else [])"

definition gauge_IsEmpty :: "gauge_sink \<Rightarrow> bool" where
  "gauge_IsEmpty g = (gs_Count g = 0)"

record rate_sink =
  rk_Trues :: int
  rk_Total :: int

definition new_rate :: rate_sink where
  "new_rate = \<lparr>rk_Trues = 0, rk_Total = 0\<rparr>"

definition rate_Add :: "sample \<Rightarrow> rate_sink \<Rightarrow> rate_sink" where
  "rate_Add x r =
     r\<lparr>rk_Total := wrap64 (rk_Total r + 1),
       rk_Trues := (if \<not> f64_eq (sm_Value x) f64_zero then wrap64 (rk_Trues r + 1) else rk_Trues r)\<rparr>"

definition rate_Format :: "rate_sink \<Rightarrow> (gostring, float64) gomap" where
  "rate_Format r =
     [(''passes'', f64_of_int (rk_Trues r)), (''fails'', f64_of_int (wrap64 (rk_Total r - rk_Trues r))),
      (''rate'', if rk_Total r > 0 then f64_div (f64_of_int (rk_Trues r)) (f64_of_int (rk_Total r)) else f64_zero)]"

definition rate_IsEmpty :: "rate_sink \<Rightarrow> bool" where
  "rate_IsEmpty r = (rk_Total r = 0)"

record trend_sink =
  ts_Values :: "float64 list"
  ts_Count :: int
  ts_Sum :: float64
  ts_Min :: float64
  ts_Max :: float64
  ts_minSet :: bool

definition new_trend :: trend_sink where
  "new_trend = \<lparr>ts_Values = [], ts_Count = 0, ts_Sum = f64_zero, ts_Min = f64_zero, ts_Max = f64_zero, ts_minSet = False\<rparr>"

definition trend_Add :: "sample \<Rightarrow> trend_sink \<Rightarrow> trend_sink" where
  "trend_Add x t =
     t\<lparr>ts_Values := ts_Values t @ [sm_Value x],
       ts_Count := wrap64 (ts_Count t + 1),
       ts_Sum := f64_add (ts_Sum t) (sm_Value x),
       ts_Min := (if \<not> ts_minSet t \<or> f64_lt (sm_Value x) (ts_Min t) then sm_Value x else ts_Min t),
       ts_minSet := True,
       ts_Max := (if f64_lt (ts_Max t) (sm_Value x) then sm_Value x else ts_Max t)\<rparr>"

text \<open>\<^verbatim>\<open>sort.Float64s\<close> puts NaN before everything else.\<close>

definition f64_less :: "float64 \<Rightarrow> float64 \<Rightarrow> bool" where
  "f64_less a b = (f64_lt a b \<or> a = F_NaN \<and> b \<noteq> F_NaN)"

fun f64_floor :: "float64 \<Rightarrow> float64" where
  "f64_floor (F_Fin s m) = F_Fin s (of_int (if s then \<lceil>m\<rceil> else \<lfloor>m\<rfloor>))"
| "f64_floor f = f"

fun f64_ceil :: "float64 \<Rightarrow> float64" where
  "f64_ceil (F_Fin s m) = F_Fin s (of_int (if s then \<lfloor>m\<rfloor> else \<lceil>m\<rceil>))"
| "f64_ceil f = f"

definition at_index :: "'a list \<Rightarrow> int \<Rightarrow> 'a option" where
  "at_index xs i = (if 0 \<le> i \<and> i < int (length xs) then Some (xs ! nat i) else None)"

text \<open>The rank of a percentile among the sorted values, and the indices on its two sides.\<close>

definition percentile_rank :: "float64 \<Rightarrow> nat \<Rightarrow> float64" where
  "percentile_rank p n = f64_mul (f64_div p (F_Fin False 100)) (f64_of_int (int n - 1))"

definition percentile :: "(float64 list \<Rightarrow> float64 list) \<Rightarrow> float64 \<Rightarrow> trend_sink \<Rightarrow> float64 option" where
  "percentile tie p t =
     (if ts_Values t = [] then Some f64_zero
      else
        let ordered = sort_slice tie f64_less (ts_Values t);
            r = percentile_rank p (length ordered);
            lower = f64_to_int (f64_floor r);
            upper = f64_to_int (f64_ceil r)
        in if lower = upper then at_index ordered lower
           else
             case (at_index ordered lower, at_index ordered upper) of
               (Some a, Some b) \<Rightarrow>
                 (let weight = f64_sub r (f64_of_int lower)
                  in Some (f64_add (f64_mul a (f64_sub (F_Fin False 1) weight)) (f64_mul b weight)))
             | _ \<Rightarrow> None)"

definition trend_Format :: "(float64 list \<Rightarrow> float64 list) \<Rightarrow> trend_sink \<Rightarrow> (gostring, float64) gomap option" where
  "trend_Format tie t =
     (let base = [(''count'', f64_of_int (ts_Count t)), (''min'', ts_Min t), (''max'', ts_Max t)] in
      if ts_Count t > 0 then
        case (percentile tie (F_Fin False 50) t, percentile tie (F_Fin False 90) t,
              percentile tie (F_Fin False 95) t, percentile tie (F_Fin False 99) t) of
          (Some p50, Some p90, Some p95, Some p99) \<Rightarrow>
            Some (base @ [(''avg'', f64_div (ts_Sum t) (f64_of_int (ts_Count t))), (''med'', p50), (''p(90)'', p90), (''p(95)'', p95), (''p(99)'', p99)])
        | _ \<Rightarrow> None
      else Some base)"

definition trend_IsEmpty :: "trend_sink \<Rightarrow> bool" where
  "trend_IsEmpty t = (ts_Count t = 0)"

text \<open>The interface \<^verbatim>\<open>Sink\<close>.\<close>

datatype sink = CounterSink counter_sink | GaugeSink gauge_sink | RateSink rate_sink | TrendSink trend_sink

definition NewSink :: "metric_type \<Rightarrow> sink" where
  "NewSink ty =
     (if ty = MetricCounter then CounterSink new_counter
      else if ty = MetricGauge then GaugeSink new_gauge
      else if ty = MetricRate then RateSink new_rate
      else if ty = MetricTrend then TrendSink new_trend
      else CounterSink new_counter)"

fun sink_Add :: "sample \<Rightarrow> sink \<Rightarrow> sink" where
  "sink_Add x (CounterSink c) = CounterSink (counter_Add x c)"
| "sink_Add x (GaugeSink g) = GaugeSink (gauge_Add x g)"
| "sink_Add x (RateSink r) = RateSink (rate_Add x r)"
| "sink_Add x (TrendSink t) = TrendSink (trend_Add x t)"

fun sink_Format :: "(float64 list \<Rightarrow> float64 list) \<Rightarrow> float64 \<Rightarrow> sink \<Rightarrow> (gostring, float64) gomap option" where
  "sink_Format tie duration (CounterSink c) = Some (counter_Format duration c)"
| "sink_Format tie duration (GaugeSink g) = Some (gauge_Format g)"
| "sink_Format tie duration (RateSink r) = Some (rate_Format r)"
| "sink_Format tie duration (TrendSink t) = trend_Format tie t"

fun sink_IsEmpty :: "sink \<Rightarrow> bool" where
  "sink_IsEmpty (CounterSink c) = counter_IsEmpty c"
| "sink_IsEmpty (GaugeSink g) = gauge_IsEmpty g"
| "sink_IsEmpty (RateSink r) = rate_IsEmpty r"
| "sink_IsEmpty (TrendSink t) = trend_IsEmpty t"

section \<open>Percentiles are computed within the values\<close>

lemma int_of_nat_exact: "n \<le> 2 ^ 53 \<Longrightarrow> f64_of_int (int n) = F_Fin False (of_nat n)"
  using f64_of_int_exact [of "int n"] by simp

lemma percentile_rank_bounds:
  assumes "0 \<le> p" "p \<le> 100" "0 < n" "n \<le> 2 ^ 53"
  shows "\<exists>m. percentile_rank (F_Fin False p) n = F_Fin False m \<and> 0 \<le> m \<and> m \<le> of_int (int n - 1)"
proof -
  have q: "0 \<le> p / 100" "p / 100 \<le> 1" using assms by simp_all
  let ?q = "round_pos 53 (-1074) (p / 100)"
  have div: "f64_div (F_Fin False p) (F_Fin False 100) = F_Fin False ?q" using f64_round_unit [OF q, of False] by simp
  have q': "0 \<le> ?q" "?q \<le> 1" using round_pos_nonneg [OF q(1)] round_pos_le_one [OF q] by simp_all
  have n: "f64_of_int (int n - 1) = F_Fin False (of_int (int n - 1))"
    using f64_of_int_exact [of "int n - 1"] assms(3,4) by (simp add: abs_of_nonneg)
  obtain m where "f64_round False (of_int (int n - 1) * ?q) = F_Fin False m" "0 \<le> m" "m \<le> of_int (int n - 1)"
    using f64_part [of "int n - 1" ?q False] q' assms(3,4) by auto
  then show ?thesis unfolding percentile_rank_def div n by (simp add: mult.commute)
qed

lemma rank_indices:
  assumes "0 \<le> m" "m \<le> of_int (int n - 1)" "n \<le> 2 ^ 53"
  shows "f64_to_int (f64_floor (F_Fin False m)) = \<lfloor>m\<rfloor>" "f64_to_int (f64_ceil (F_Fin False m)) = \<lceil>m\<rceil>"
    "0 \<le> \<lfloor>m\<rfloor>" "\<lceil>m\<rceil> < int n" "\<lfloor>m\<rfloor> \<le> \<lceil>m\<rceil>"
proof -
  show fl: "0 \<le> \<lfloor>m\<rfloor>" using assms(1) by simp
  show cl: "\<lceil>m\<rceil> < int n" using assms(2) by (simp add: ceiling_less_iff)
  show le: "\<lfloor>m\<rfloor> \<le> \<lceil>m\<rceil>" by (rule floor_le_ceiling)
  have "in_int64 k" if "0 \<le> k" "k < int n" for k
    using that assms(3) by (simp add: in_int64_def int64_min_def int64_max_def)
  from this [of "\<lfloor>m\<rfloor>"] this [of "\<lceil>m\<rceil>"] have "in_int64 \<lfloor>m\<rfloor>" "in_int64 \<lceil>m\<rceil>" using fl cl le by linarith+
  then show "f64_to_int (f64_floor (F_Fin False m)) = \<lfloor>m\<rfloor>" "f64_to_int (f64_ceil (F_Fin False m)) = \<lceil>m\<rceil>"
    by (simp_all add: f64_to_int_def Let_def)
qed

lemma percentile_defined:
  assumes "reorders tie" "0 \<le> p" "p \<le> 100" "length (ts_Values t) \<le> 2 ^ 53"
  shows "\<exists>v. percentile tie (F_Fin False p) t = Some v"
proof (cases "ts_Values t = []")
  case False
  let ?n = "length (sort_slice tie f64_less (ts_Values t))"
  have n: "0 < ?n" "?n \<le> 2 ^ 53" using False assms by (simp_all add: length_sort_slice)
  obtain m where m: "percentile_rank (F_Fin False p) ?n = F_Fin False m" "0 \<le> m" "m \<le> of_int (int ?n - 1)"
    using percentile_rank_bounds [OF assms(2,3) n] by blast
  note r = rank_indices [OF m(2,3) n(2)]
  then have "0 \<le> \<lfloor>m\<rfloor> \<and> \<lfloor>m\<rfloor> < int ?n" "0 \<le> \<lceil>m\<rceil> \<and> \<lceil>m\<rceil> < int ?n" by linarith+
  then show ?thesis using False by (simp add: percentile_def Let_def m(1) r(1,2) at_index_def del: f64_floor.simps f64_ceil.simps)
qed (simp add: percentile_def)

section \<open>What the sinks collect\<close>

definition add_samples :: "(sample \<Rightarrow> 'a \<Rightarrow> 'a) \<Rightarrow> sample list \<Rightarrow> 'a \<Rightarrow> 'a" where
  "add_samples add xs t = foldl (\<lambda>t x. add x t) t xs"

lemma add_samples_simps [simp]:
  "add_samples add [] t = t" "add_samples add (xs @ [x]) t = add x (add_samples add xs t)"
  by (simp_all add: add_samples_def)

text \<open>Values that are numbers and not negative, as durations are.\<close>

definition nonneg_value :: "float64 \<Rightarrow> bool" where
  "nonneg_value v \<longleftrightarrow> v \<noteq> F_NaN \<and> \<not> f64_lt v f64_zero"

lemma f64_less_le: "a \<noteq> F_NaN \<Longrightarrow> b \<noteq> F_NaN \<Longrightarrow> f64_lt a b \<Longrightarrow> f64_le a b"
  by (simp add: f64_le_def)

lemma trend_values: "ts_Values (add_samples trend_Add xs new_trend) = map sm_Value xs"
  by (induction xs rule: rev_induct) (simp_all add: new_trend_def trend_Add_def)

lemma trend_count: "int (length xs) \<le> int64_max \<Longrightarrow> ts_Count (add_samples trend_Add xs new_trend) = int (length xs)"
proof (induction xs rule: rev_induct)
  case (snoc x xs)
  then have "in_int64 (int (length xs) + 1)" by (simp add: in_int64_def int64_min_def)
  then show ?case using snoc by (simp add: trend_Add_def wrap64_id)
qed (simp add: new_trend_def)

definition trend_inv :: "float64 list \<Rightarrow> trend_sink \<Rightarrow> bool" where
  "trend_inv vs t \<longleftrightarrow>
     ts_minSet t = (vs \<noteq> []) \<and> ts_Min t \<noteq> F_NaN \<and> ts_Max t \<noteq> F_NaN \<and> \<not> f64_lt (ts_Max t) f64_zero \<and>
     (vs \<noteq> [] \<longrightarrow> ts_Min t \<in> set vs) \<and> (\<forall>v \<in> set vs. f64_le (ts_Min t) v \<and> f64_le v (ts_Max t)) \<and>
     (ts_Max t = f64_zero \<or> ts_Max t \<in> set vs)"

lemma trend_inv_add:
  assumes "trend_inv vs t" "nonneg_value (sm_Value x)"
  shows "trend_inv (vs @ [sm_Value x]) (trend_Add x t)"
proof -
  let ?x = "sm_Value x"
  have nan: "?x \<noteq> F_NaN" "ts_Min t \<noteq> F_NaN" "ts_Max t \<noteq> F_NaN" and nonneg: "\<not> f64_lt ?x f64_zero" "\<not> f64_lt (ts_Max t) f64_zero"
    using assms by (simp_all add: trend_inv_def nonneg_value_def)
  have refl: "f64_le ?x ?x" using nan by (simp add: f64_le_refl)
  have min: "f64_le (ts_Min (trend_Add x t)) v" if "v \<in> set (vs @ [?x])" for v
  proof (cases "v = ?x")
    case True
    then show ?thesis using refl nan f64_not_lt [of ?x "ts_Min t"] by (auto simp: trend_Add_def)
  next
    case False
    then have v: "v \<in> set vs" and le: "f64_le (ts_Min t) v" using that assms(1) by (auto simp: trend_inv_def)
    then show ?thesis using assms(1) f64_le_trans [OF _ le, of ?x] f64_less_le [of ?x "ts_Min t"] nan
      by (auto simp: trend_Add_def trend_inv_def)
  qed
  have max: "f64_le v (ts_Max (trend_Add x t))" if "v \<in> set (vs @ [?x])" for v
  proof (cases "v = ?x")
    case True
    then show ?thesis using refl nan f64_not_lt [of "ts_Max t" ?x] by (auto simp: trend_Add_def)
  next
    case False
    then have "f64_le v (ts_Max t)" using that assms(1) by (auto simp: trend_inv_def)
    then show ?thesis using f64_le_trans f64_less_le [of "ts_Max t" ?x] nan by (auto simp: trend_Add_def)
  qed
  show ?thesis using min max nan nonneg assms(1) unfolding trend_inv_def by (auto simp: trend_Add_def)
qed

lemma trend_inv_samples: "\<forall>x \<in> set xs. nonneg_value (sm_Value x) \<Longrightarrow> trend_inv (map sm_Value xs) (add_samples trend_Add xs new_trend)"
proof (induction xs rule: rev_induct)
  case (snoc x xs)
  then show ?case using trend_inv_add [of "map sm_Value xs"] by simp
qed (simp add: trend_inv_def new_trend_def f64_zero_def)

text \<open>A trend of values that are not negative keeps all of them, counts them, and its minimum and maximum bound them and are among them,
  or zero for the maximum; its statistics, with the percentiles, are computed without an index out of range.\<close>

theorem trend_statistics:
  assumes "\<forall>x \<in> set xs. nonneg_value (sm_Value x)" "xs \<noteq> []" "length xs \<le> 2 ^ 53" "reorders tie"
  shows "let t = add_samples trend_Add xs new_trend in
    ts_Values t = map sm_Value xs \<and> ts_Count t = int (length xs) \<and>
    ts_Min t \<in> sm_Value ` set xs \<and> (ts_Max t = f64_zero \<or> ts_Max t \<in> sm_Value ` set xs) \<and>
    (\<forall>x \<in> set xs. f64_le (ts_Min t) (sm_Value x) \<and> f64_le (sm_Value x) (ts_Max t)) \<and>
    trend_Format tie t \<noteq> None"
proof -
  let ?t = "add_samples trend_Add xs new_trend"
  have cnt: "ts_Count ?t = int (length xs)" using assms(3) by (intro trend_count) (simp add: int64_max_def)
  have "\<exists>v. percentile tie (F_Fin False p) ?t = Some v" if "0 \<le> p" "p \<le> 100" for p
    using percentile_defined [OF assms(4) that] assms(3) by (simp add: trend_values)
  from this [of 50] this [of 90] this [of 95] this [of 99] have "trend_Format tie ?t \<noteq> None"
    by (auto simp: trend_Format_def Let_def)
  then show ?thesis using trend_inv_samples [OF assms(1)] assms(2) cnt by (auto simp: trend_inv_def trend_values Let_def)
qed

definition value_sample :: "gostring \<Rightarrow> metric_type \<Rightarrow> float64 \<Rightarrow> sample" where
  "value_sample name ty v = \<lparr>sm_Name = name, sm_Type = ty, sm_Time = 0, sm_Value = v, sm_Tags = [], sm_Metadata = []\<rparr>"

theorem trend_statistics_witness:
  "trend_Format (\<lambda>xs. xs) (add_samples trend_Add (map (value_sample ''t'' MetricTrend) [F_Fin False 7, F_Fin False 3, F_Fin False 5]) new_trend) \<noteq> None"
proof -
  let ?xs = "map (value_sample ''t'' MetricTrend) [F_Fin False 7, F_Fin False 3, F_Fin False 5]"
  have h: "\<forall>x \<in> set ?xs. nonneg_value (sm_Value x)" "?xs \<noteq> []" "length ?xs \<le> 2 ^ 53"
    by (simp_all add: value_sample_def nonneg_value_def f64_zero_def)
  show ?thesis using trend_statistics [OF h reorders_id] unfolding Let_def by blast
qed

text \<open>A gauge, and a trend, of negative values reports the maximum zero.\<close>

lemma gauge_maximum_of_negative: "gs_Max (gauge_Add (value_sample ''g'' MetricGauge (F_Fin True 5)) new_gauge) = f64_zero"
  by (simp add: gauge_Add_def new_gauge_def f64_zero_def value_sample_def)

lemma in_int64_next: "0 \<le> k \<Longrightarrow> k \<le> n \<Longrightarrow> n + 1 \<le> int64_max \<Longrightarrow> in_int64 (k + 1)"
  by (simp add: in_int64_def int64_min_def)

lemma rate_counts:
  assumes "int (length xs) \<le> int64_max"
  shows "rk_Total (add_samples rate_Add xs new_rate) = int (length xs) \<and>
    rk_Trues (add_samples rate_Add xs new_rate) = int (length (filter (\<lambda>x. \<not> f64_eq (sm_Value x) f64_zero) xs))"
  using assms
proof (induction xs rule: rev_induct)
  case (snoc x xs)
  let ?k = "int (length (filter (\<lambda>x. \<not> f64_eq (sm_Value x) f64_zero) xs))"
  have "?k \<le> int (length xs)" using length_filter_le [of _ xs] by (simp only: of_nat_le_iff)
  moreover have "int (length xs) + 1 \<le> int64_max" using snoc.prems by simp
  ultimately have "in_int64 (int (length xs) + 1)" "in_int64 (?k + 1)"
    using in_int64_next [of "int (length xs)" "int (length xs)"] in_int64_next [of ?k "int (length xs)"] by simp_all
  then show ?case using snoc by (simp add: rate_Add_def wrap64_id)
qed (simp add: new_rate_def)

end
