(* ===== verification/Metrics_Collector.thy ===== *)
theory Metrics_Collector
  imports Exec_Context Workflow_Types Metrics_Sink Aggregator
begin

text \<open>
  The collection of metrics on a slave (\<^verbatim>\<open>internal/slave/metrics_collector.go\<close>) and the emission of samples
  (\<^verbatim>\<open>SampleEmitter\<close> of \<^verbatim>\<open>pkg/output/integration.go\<close>).  The HDR histogram is a library; its operations are an argument.
  The locks of the collector and of the data of a step make the recording of a result one step.
\<close>

section \<open>The emitter\<close>

text \<open>The channel of samples has a capacity, and a sample that finds it full is dropped.  The instants are read in order from a clock.\<close>

record emitter =
  em_registry :: "(gostring, metric_type) gomap"
  em_tags :: "(gostring, gostring) gomap"
  em_chan :: "sample list option"
  em_cap :: nat
  em_clock :: "nat \<Rightarrow> int"
  em_reads :: nat

definition NewSampleEmitter :: "nat \<Rightarrow> (nat \<Rightarrow> int) \<Rightarrow> (gostring, gostring) gomap \<Rightarrow> emitter" where
  "NewSampleEmitter cap clock tags =
     \<lparr>em_registry = [], em_tags = tags, em_chan = Some [], em_cap = cap, em_clock = clock, em_reads = 0\<rparr>"

definition merge_tags :: "(gostring, gostring) gomap \<Rightarrow> (gostring, gostring) gomap \<Rightarrow> (gostring, gostring) gomap" where
  "merge_tags own tags =
     foldl (\<lambda>m (k, v). AList.update k v m) (foldl (\<lambda>m (k, v). AList.update k v m) [] own) tags"

definition Emit :: "gostring \<Rightarrow> metric_type \<Rightarrow> float64 \<Rightarrow> (gostring, gostring) gomap \<Rightarrow> emitter \<Rightarrow> emitter" where
  "Emit name ty value tags e =
     (case em_chan e of
        None \<Rightarrow> e
      | Some buf \<Rightarrow>
          let ty' = (case map_of (em_registry e) name of Some t \<Rightarrow> t | None \<Rightarrow> ty);
              reg = (case map_of (em_registry e) name of Some _ \<Rightarrow> em_registry e | None \<Rightarrow> AList.update name ty (em_registry e));
              smp = \<lparr>sm_Name = name, sm_Type = ty', sm_Time = em_clock e (em_reads e), sm_Value = value,
                     sm_Tags = merge_tags (em_tags e) tags, sm_Metadata = []\<rparr>
          in e\<lparr>em_registry := reg, em_reads := Suc (em_reads e),
               em_chan := Some (if length buf < em_cap e then buf @ [smp] else buf)\<rparr>)"

definition EmitCounter :: "gostring \<Rightarrow> float64 \<Rightarrow> (gostring, gostring) gomap \<Rightarrow> emitter \<Rightarrow> emitter" where
  "EmitCounter name value tags = Emit name MetricCounter value tags"

definition EmitGauge :: "gostring \<Rightarrow> float64 \<Rightarrow> (gostring, gostring) gomap \<Rightarrow> emitter \<Rightarrow> emitter" where
  "EmitGauge name value tags = Emit name MetricGauge value tags"

definition EmitRate :: "gostring \<Rightarrow> bool \<Rightarrow> (gostring, gostring) gomap \<Rightarrow> emitter \<Rightarrow> emitter" where
  "EmitRate name success tags = Emit name MetricRate (if success then F_Fin False 1 else f64_zero) tags"

definition EmitTrend :: "gostring \<Rightarrow> float64 \<Rightarrow> (gostring, gostring) gomap \<Rightarrow> emitter \<Rightarrow> emitter" where
  "EmitTrend name value tags = Emit name MetricTrend value tags"

definition EmitIterationMetrics :: "int \<Rightarrow> bool \<Rightarrow> int \<Rightarrow> int \<Rightarrow> emitter \<Rightarrow> emitter" where
  "EmitIterationMetrics duration success vuID iteration e =
     (let tags = [(''vu'', show_int vuID), (''iteration'', show_int iteration)] in
      EmitRate ''iteration_success'' success tags
        (EmitTrend ''iteration_duration'' (f64_of_int (Milliseconds duration)) tags
          (EmitCounter ''iterations'' (F_Fin False 1) tags e)))"

section \<open>The collector\<close>

record ('h, 's) hdr_ops =
  hd_New :: "int \<Rightarrow> int \<Rightarrow> int \<Rightarrow> 'h"
  hd_RecordValue :: "int \<Rightarrow> 'h \<Rightarrow> 'h"
  hd_ValueAtQuantile :: "'h \<Rightarrow> int \<Rightarrow> int"
  hd_Export :: "'h \<Rightarrow> 's"
  hd_Import :: "'s \<Rightarrow> 'h"
  hd_Merge :: "'h \<Rightarrow> 'h \<Rightarrow> 'h"

record custom_metric =
  cm_count :: int
  cm_sum :: float64
  cm_min :: float64
  cm_max :: float64

record 'h step_data =
  sd_count :: int
  sd_successCount :: int
  sd_failureCount :: int
  sd_minDuration :: int
  sd_maxDuration :: int
  sd_sumDuration :: int
  sd_histogram :: 'h
  sd_customMetrics :: "(gostring, custom_metric) gomap"

record 'h collector =
  mc_stepMetrics :: "(gostring, 'h step_data) gomap"
  mc_startTime :: int
  mc_emitter :: "emitter option"

definition newStepMetricsData :: "('h, 's) hdr_ops \<Rightarrow> 'h step_data" where
  "newStepMetricsData hdr =
     \<lparr>sd_count = 0, sd_successCount = 0, sd_failureCount = 0, sd_minDuration = 0, sd_maxDuration = 0, sd_sumDuration = 0,
      sd_histogram = hd_New hdr 1 3600000000 3, sd_customMetrics = []\<rparr>"

definition NewMetricsCollector :: "int \<Rightarrow> 'h collector" where
  "NewMetricsCollector now = \<lparr>mc_stepMetrics = [], mc_startTime = now, mc_emitter = None\<rparr>"

definition SetSamplesChannel :: "emitter option \<Rightarrow> 'h collector \<Rightarrow> 'h collector" where
  "SetSamplesChannel em c = (case em of None \<Rightarrow> c | Some e \<Rightarrow> c\<lparr>mc_emitter := Some e\<rparr>)"

subsection \<open>Recording a result\<close>

definition Microseconds :: "int \<Rightarrow> int" where
  "Microseconds d = go_div d 1000"

definition record_custom :: "(gostring, custom_metric) gomap \<Rightarrow> gostring \<times> float64 \<Rightarrow> (gostring, custom_metric) gomap" where
  "record_custom m kv =
     (case kv of (k, v) \<Rightarrow>
        let cm = (case map_of m k of Some cm \<Rightarrow> cm | None \<Rightarrow> \<lparr>cm_count = 0, cm_sum = f64_zero, cm_min = v, cm_max = v\<rparr>)
        in AList.update k
             (cm\<lparr>cm_count := wrap64 (cm_count cm + 1), cm_sum := f64_add (cm_sum cm) v,
                 cm_min := (if f64_lt v (cm_min cm) then v else cm_min cm),
                 cm_max := (if f64_lt (cm_max cm) v then v else cm_max cm)\<rparr>) m)"

definition record_result :: "('h, 's) hdr_ops \<Rightarrow> step_result \<Rightarrow> 'h step_data \<Rightarrow> 'h step_data" where
  "record_result hdr r d =
     (let duration = rs_Duration r;
          micros = Microseconds duration
      in d\<lparr>sd_count := wrap64 (sd_count d + 1),
           sd_successCount := (if rs_Status r = ResultStatusSuccess then wrap64 (sd_successCount d + 1) else sd_successCount d),
           sd_failureCount := (if failed_result r then wrap64 (sd_failureCount d + 1) else sd_failureCount d),
           sd_sumDuration := wrap64 (sd_sumDuration d + duration),
           sd_minDuration := (if sd_minDuration d = 0 \<or> duration < sd_minDuration d then duration else sd_minDuration d),
           sd_maxDuration := (if duration > sd_maxDuration d then duration else sd_maxDuration d),
           sd_histogram := hd_RecordValue hdr (if micros < 1 then 1 else micros) (sd_histogram d),
           sd_customMetrics := foldl record_custom (sd_customMetrics d) (rs_Metrics r)\<rparr>)"

definition emit_metric :: "(gostring, gostring) gomap \<Rightarrow> gostring \<times> float64 \<Rightarrow> emitter \<Rightarrow> emitter" where
  "emit_metric tags kv e =
     (case kv of (k, v) \<Rightarrow>
        if k = ''data_sent'' \<or> k = ''data_received'' then EmitCounter k v tags e
        else EmitGauge (''custom_'' @ k) v tags e)"

definition emit_result :: "gostring \<Rightarrow> gostring \<Rightarrow> step_result \<Rightarrow> emitter \<Rightarrow> emitter" where
  "emit_result stepID stepName r e =
     (let tags = [(''step_id'', stepID), (''step_name'', stepName)];
          ms = f64_of_int (Milliseconds (rs_Duration r));
          success = (rs_Status r = ResultStatusSuccess);
          e1 = EmitCounter (''step_reqs_'' @ stepID) (F_Fin False 1) tags e;
          e2 = EmitTrend (''step_duration_'' @ stepID) ms tags e1;
          e3 = EmitRate (''step_failed_'' @ stepID) success tags e2;
          e4 = EmitTrend ''step_duration'' ms tags e3;
          e5 = EmitRate ''step_failed'' success tags e4
      in foldl (\<lambda>e kv. emit_metric tags kv e) e5 (rs_Metrics r))"

definition RecordStep :: "('h, 's) hdr_ops \<Rightarrow> gostring \<Rightarrow> gostring \<Rightarrow> step_result option \<Rightarrow> 'h collector \<Rightarrow> 'h collector" where
  "RecordStep hdr stepID stepName result c =
     (case result of
        None \<Rightarrow> c
      | Some r \<Rightarrow>
          let data = (case map_of (mc_stepMetrics c) stepID of Some d \<Rightarrow> d | None \<Rightarrow> newStepMetricsData hdr)
          in c\<lparr>mc_stepMetrics := AList.update stepID (record_result hdr r data) (mc_stepMetrics c),
               mc_emitter := map_option (emit_result stepID stepName r) (mc_emitter c)\<rparr>)"

subsection \<open>Reading\<close>

definition micros_duration :: "int \<Rightarrow> int" where
  "micros_duration v = wrap64 (v * 1000)"

definition empty_duration :: duration_metrics where
  "empty_duration = \<lparr>dm_Min = 0, dm_Max = 0, dm_Avg = 0, dm_P50 = 0, dm_P90 = 0, dm_P95 = 0, dm_P99 = 0\<rparr>"

definition calculateDurationMetrics :: "('h, 's) hdr_ops \<Rightarrow> 'h step_data \<Rightarrow> duration_metrics" where
  "calculateDurationMetrics hdr d =
     (if sd_count d = 0 then empty_duration
      else
        let q = (\<lambda>p. micros_duration (hd_ValueAtQuantile hdr (sd_histogram d) p))
        in \<lparr>dm_Min = sd_minDuration d, dm_Max = sd_maxDuration d, dm_Avg = go_div (sd_sumDuration d) (sd_count d),
            dm_P50 = q 50, dm_P90 = q 90, dm_P95 = q 95, dm_P99 = q 99\<rparr>)"

definition getCustomMetrics :: "'h step_data \<Rightarrow> (gostring, float64) gomap" where
  "getCustomMetrics d =
     map (\<lambda>(k, cm). (k, f64_div (cm_sum cm) (f64_of_int (cm_count cm)))) (filter (\<lambda>(k, cm). cm_count cm > 0) (sd_customMetrics d))"

definition step_metrics_of :: "('h, 's) hdr_ops \<Rightarrow> gostring \<Rightarrow> 'h step_data \<Rightarrow> step_metrics" where
  "step_metrics_of hdr stepID d =
     \<lparr>m_StepID = stepID, m_Count = sd_count d, m_SuccessCount = sd_successCount d, m_FailureCount = sd_failureCount d,
      m_Duration = Some (calculateDurationMetrics hdr d), m_CustomMetrics = getCustomMetrics d\<rparr>"

definition GetMetrics :: "('h, 's) hdr_ops \<Rightarrow> int \<Rightarrow> 'h collector \<Rightarrow> metrics" where
  "GetMetrics hdr now c =
     \<lparr>mt_Timestamp = now, mt_StepMetrics = map (\<lambda>(i, d). (i, step_metrics_of hdr i d)) (mc_stepMetrics c), mt_SystemMetrics = None\<rparr>"

definition GetStepMetrics :: "('h, 's) hdr_ops \<Rightarrow> gostring \<Rightarrow> 'h collector \<Rightarrow> step_metrics option" where
  "GetStepMetrics hdr stepID c = map_option (step_metrics_of hdr stepID) (map_of (mc_stepMetrics c) stepID)"

definition total_counts :: "'h collector \<Rightarrow> int \<times> int" where
  "total_counts c =
     foldl (\<lambda>(n, f) (_, d). (wrap64 (n + sd_count d), wrap64 (f + sd_failureCount d))) (0, 0) (mc_stepMetrics c)"

definition GetErrorRate :: "'h collector \<Rightarrow> float64" where
  "GetErrorRate c =
     (case total_counts c of (totalCount, failureCount) \<Rightarrow>
        if totalCount = 0 then f64_zero else f64_div (f64_of_int failureCount) (f64_of_int totalCount))"

text \<open>\<^verbatim>\<open>Duration.Seconds\<close>.\<close>

definition duration_Seconds :: "int \<Rightarrow> float64" where
  "duration_Seconds d = f64_add (f64_of_int (go_div d Second)) (f64_div (f64_of_int (go_mod d Second)) (F_Fin False 1000000000))"

definition GetThroughput :: "int \<Rightarrow> 'h collector \<Rightarrow> float64" where
  "GetThroughput now c =
     (let elapsed = duration_Seconds (duration_between (mc_startTime c) now) in
      if f64_le elapsed f64_zero then f64_zero else f64_div (f64_of_int (fst (total_counts c))) elapsed)"

definition Reset_collector :: "int \<Rightarrow> 'h collector \<Rightarrow> 'h collector" where
  "Reset_collector now c = c\<lparr>mc_stepMetrics := [], mc_startTime := now\<rparr>"

definition GetDurationSamples :: "('h, 's) hdr_ops \<Rightarrow> gostring \<Rightarrow> 'h collector \<Rightarrow> int list option" where
  "GetDurationSamples hdr stepID c =
     map_option
       (\<lambda>d. [sd_minDuration d] @ map (\<lambda>p. micros_duration (hd_ValueAtQuantile hdr (sd_histogram d) p)) [25, 50, 75, 90, 95, 99] @ [sd_maxDuration d])
       (map_of (mc_stepMetrics c) stepID)"

definition GetMemoryUsage :: "'h collector \<Rightarrow> int" where
  "GetMemoryUsage c = foldl (\<lambda>n (_, d). wrap64 (n + 20 * 1024 + int (length (sd_customMetrics d)) * 40)) 0 (mc_stepMetrics c)"

definition GetHistogramSnapshot :: "('h, 's) hdr_ops \<Rightarrow> gostring \<Rightarrow> 'h collector \<Rightarrow> 's option" where
  "GetHistogramSnapshot hdr stepID c = map_option (\<lambda>d. hd_Export hdr (sd_histogram d)) (map_of (mc_stepMetrics c) stepID)"

definition MergeHistogram :: "('h, 's) hdr_ops \<Rightarrow> gostring \<Rightarrow> 's \<Rightarrow> 'h collector \<Rightarrow> 'h collector" where
  "MergeHistogram hdr stepID snapshot c =
     (let data = (case map_of (mc_stepMetrics c) stepID of Some d \<Rightarrow> d | None \<Rightarrow> newStepMetricsData hdr)
      in c\<lparr>mc_stepMetrics := AList.update stepID
             (data\<lparr>sd_histogram := hd_Merge hdr (sd_histogram data) (hd_Import hdr snapshot)\<rparr>) (mc_stepMetrics c)\<rparr>)"

section \<open>What is collected\<close>

text \<open>The collector after a sequence of results, and the results of one step.\<close>

definition record_all :: "('h, 's) hdr_ops \<Rightarrow> (gostring \<times> gostring \<times> step_result) list \<Rightarrow> 'h collector \<Rightarrow> 'h collector" where
  "record_all hdr recs c = foldl (\<lambda>c (i, n, r). RecordStep hdr i n (Some r) c) c recs"

definition results_of :: "gostring \<Rightarrow> (gostring \<times> gostring \<times> step_result) list \<Rightarrow> step_result list" where
  "results_of stepID recs = map (\<lambda>(i, n, r). r) (filter (\<lambda>(i, n, r). i = stepID) recs)"

lemma record_all_snoc: "record_all hdr (recs @ [(i, n, r)]) c = RecordStep hdr i n (Some r) (record_all hdr recs c)"
  by (simp add: record_all_def)

lemma results_of_simps [simp]:
  "results_of stepID [] = []"
  "results_of stepID (recs @ [(i, n, r)]) = results_of stepID recs @ (if i = stepID then [r] else [])"
  by (simp_all add: results_of_def)

definition step_data_of :: "('h, 's) hdr_ops \<Rightarrow> step_result list \<Rightarrow> 'h step_data" where
  "step_data_of hdr rs = foldl (\<lambda>d r. record_result hdr r d) (newStepMetricsData hdr) rs"

lemma step_data_of_snoc [simp]: "step_data_of hdr (rs @ [r]) = record_result hdr r (step_data_of hdr rs)"
  by (simp add: step_data_of_def)

lemma recorded_data:
  "map_of (mc_stepMetrics (record_all hdr recs (NewMetricsCollector now))) stepID =
     (if results_of stepID recs = [] then None else Some (step_data_of hdr (results_of stepID recs)))"
proof (induction recs rule: rev_induct)
  case (snoc x recs)
  obtain i n r where x: "x = (i, n, r)" by (cases x)
  show ?case using snoc.IH
    by (auto simp: x record_all_snoc RecordStep_def Let_def update_conv' step_data_of_def)
qed (simp add: record_all_def NewMetricsCollector_def)

lemma recorded_wf: "map_wf (mc_stepMetrics (record_all hdr recs (NewMetricsCollector now)))"
proof (induction recs rule: rev_induct)
  case (snoc x recs)
  obtain i n r where x: "x = (i, n, r)" by (cases x)
  show ?case using snoc.IH by (simp add: x record_all_snoc RecordStep_def Let_def)
qed (simp add: record_all_def NewMetricsCollector_def)

lemma step_counts:
  assumes "int (length rs) \<le> int64_max"
  shows "sd_count (step_data_of hdr rs) = int (length rs) \<and>
    sd_successCount (step_data_of hdr rs) = int (length (filter IsSuccess rs)) \<and>
    sd_failureCount (step_data_of hdr rs) = int (length (filter failed_result rs))"
  using assms
proof (induction rs rule: rev_induct)
  case (snoc r rs)
  have le: "int (length (filter P rs)) \<le> int (length rs)" for P by simp
  have "int (length rs) + 1 \<le> int64_max" using snoc.prems by simp
  then have "wrap64 (int (length rs) + 1) = int (length rs) + 1" "\<And>P. wrap64 (int (length (filter P rs)) + 1) = int (length (filter P rs)) + 1"
    using in_int64_next [of _ "int (length rs)"] le by (simp_all add: wrap64_id)
  then show ?case using snoc by (simp add: record_result_def Let_def IsSuccess_def)
qed (simp add: step_data_of_def newStepMetricsData_def)

lemma step_durations:
  assumes "\<forall>r \<in> set rs. 0 < rs_Duration r" "(\<Sum>r\<leftarrow>rs. rs_Duration r) \<le> int64_max"
  shows "sd_sumDuration (step_data_of hdr rs) = (\<Sum>r\<leftarrow>rs. rs_Duration r) \<and>
    (rs \<noteq> [] \<longrightarrow> sd_minDuration (step_data_of hdr rs) = Min (rs_Duration ` set rs) \<and> sd_maxDuration (step_data_of hdr rs) = Max (rs_Duration ` set rs))"
  using assms
proof (induction rs rule: rev_induct)
  case (snoc r rs)
  let ?d = "step_data_of hdr rs" and ?D = "rs_Duration ` set rs"
  have pos: "0 < rs_Duration r" "\<forall>r \<in> set rs. 0 < rs_Duration r" using snoc.prems(1) by simp_all
  have "0 \<le> (\<Sum>r\<leftarrow>rs. rs_Duration r)" using pos(2) by (intro sum_list_nonneg) auto
  then have range: "(\<Sum>r\<leftarrow>rs. rs_Duration r) \<le> int64_max" "in_int64 ((\<Sum>r\<leftarrow>rs. rs_Duration r) + rs_Duration r)"
    using snoc.prems(2) pos(1) by (simp_all add: in_int64_def int64_min_def)
  note IH = snoc.IH [OF pos(2) range(1)]
  have sum: "sd_sumDuration (step_data_of hdr (rs @ [r])) = (\<Sum>r\<leftarrow>rs @ [r]. rs_Duration r)"
    using IH range(2) by (simp add: record_result_def Let_def wrap64_id)
  show ?case
  proof (cases "rs = []")
    case True
    then show ?thesis using sum pos(1) by (simp add: record_result_def Let_def step_data_of_def newStepMetricsData_def)
  next
    case False
    then have D: "finite ?D" "?D \<noteq> {}" by simp_all
    then have "Min ?D \<in> ?D" by (rule Min_in)
    then have D0: "Min ?D \<noteq> 0" using pos(2) by auto
    obtain lo hi where lh: "Min ?D = lo" "Max ?D = hi" by blast
    have "rs_Duration ` set (rs @ [r]) = insert (rs_Duration r) ?D" by simp
    then have "Min (rs_Duration ` set (rs @ [r])) = min (rs_Duration r) lo" "Max (rs_Duration ` set (rs @ [r])) = max (rs_Duration r) hi"
      using Min_insert [OF D, of "rs_Duration r"] Max_insert [OF D, of "rs_Duration r"] lh by simp_all
    moreover have "sd_minDuration ?d = lo" "sd_maxDuration ?d = hi" "lo \<noteq> 0" using IH False D0 lh by simp_all
    ultimately show ?thesis using sum by (simp add: record_result_def Let_def min_def max_def)
  qed
qed (simp add: step_data_of_def newStepMetricsData_def)

text \<open>The metrics of a step count the results recorded for it, the successful and the failed ones; a step has metrics exactly when
  a result was recorded.\<close>

theorem collector_counts:
  assumes "int (length recs) \<le> int64_max"
  shows "case GetStepMetrics hdr stepID (record_all hdr recs (NewMetricsCollector now)) of
      None \<Rightarrow> results_of stepID recs = []
    | Some m \<Rightarrow> results_of stepID recs \<noteq> [] \<and> m_StepID m = stepID \<and> m_Count m = int (length (results_of stepID recs)) \<and>
        m_SuccessCount m = int (length (filter IsSuccess (results_of stepID recs))) \<and>
        m_FailureCount m = int (length (filter failed_result (results_of stepID recs)))"
proof -
  have "length (results_of stepID recs) \<le> length recs" by (simp add: results_of_def)
  then have "int (length (results_of stepID recs)) \<le> int64_max" using assms by linarith
  from step_counts [OF this, of hdr] show ?thesis
    by (auto simp: GetStepMetrics_def recorded_data step_metrics_of_def)
qed

definition unit_hdr :: "(unit, unit) hdr_ops" where
  "unit_hdr = \<lparr>hd_New = \<lambda>_ _ _. (), hd_RecordValue = \<lambda>_ _. (), hd_ValueAtQuantile = \<lambda>_ _. 0, hd_Export = id, hd_Import = id, hd_Merge = \<lambda>_ _. ()\<rparr>"

definition timed_result :: "gostring \<Rightarrow> result_status \<Rightarrow> int \<Rightarrow> step_result" where
  "timed_result i status d =
     \<lparr>rs_StepID = i, rs_Status = status, rs_StartTime = 0, rs_EndTime = d, rs_Duration = d, rs_Output = VNil, rs_Error = None, rs_Metrics = []\<rparr>"

definition sample_records :: "(gostring \<times> gostring \<times> step_result) list" where
  "sample_records =
     [(''a'', ''A'', timed_result ''a'' ResultStatusSuccess 30), (''b'', ''B'', timed_result ''b'' ResultStatusFailed 20),
      (''a'', ''A'', timed_result ''a'' ResultStatusTimeout 50)]"

theorem collector_counts_witness:
  "map_option m_FailureCount (GetStepMetrics unit_hdr ''a'' (record_all unit_hdr sample_records (NewMetricsCollector 0))) = Some 1"
proof -
  have h: "int (length sample_records) \<le> int64_max" by (simp add: sample_records_def int64_max_def)
  have "results_of ''a'' sample_records = [timed_result ''a'' ResultStatusSuccess 30, timed_result ''a'' ResultStatusTimeout 50]"
    by (simp add: results_of_def sample_records_def)
  then show ?thesis using collector_counts [OF h, of "''a''" unit_hdr 0]
    by (auto simp: failed_result_def timed_result_def result_status_defs split: option.splits)
qed

lemma sum_list_between:
  fixes lo hi :: int
  shows "\<forall>x \<in> set xs. lo \<le> f x \<and> f x \<le> hi \<Longrightarrow> lo * int (length xs) \<le> (\<Sum>x\<leftarrow>xs. f x) \<and> (\<Sum>x\<leftarrow>xs. f x) \<le> hi * int (length xs)"
  by (induction xs) (auto simp: algebra_simps)

text \<open>(C34) What a slave reports is what the master's aggregation relies on: when the durations are positive and their sum does not
  overflow, minimum and maximum are those of the recorded results and the average is between them.\<close>

theorem collector_sane:
  assumes "results_of stepID recs \<noteq> []" "int (length recs) \<le> int64_max"
    and "\<forall>r \<in> set (results_of stepID recs). 0 < rs_Duration r" "(\<Sum>r\<leftarrow>results_of stepID recs. rs_Duration r) \<le> int64_max"
  shows "\<exists>m d. GetStepMetrics hdr stepID (record_all hdr recs (NewMetricsCollector now)) = Some m \<and> m_Duration m = Some d \<and> sane_duration d \<and>
    dm_Min d = Min (rs_Duration ` set (results_of stepID recs)) \<and> dm_Max d = Max (rs_Duration ` set (results_of stepID recs))"
proof -
  let ?rs = "results_of stepID recs"
  let ?D = "rs_Duration ` set ?rs"
  let ?d = "step_data_of hdr ?rs"
  let ?n = "int (length ?rs)"
  have "length ?rs \<le> length recs" by (simp add: results_of_def)
  then have "?n \<le> int64_max" using assms(2) by linarith
  then have cnt: "sd_count ?d = ?n" using step_counts [of ?rs hdr] by simp
  have dur: "sd_sumDuration ?d = (\<Sum>r\<leftarrow>?rs. rs_Duration r)" "sd_minDuration ?d = Min ?D" "sd_maxDuration ?d = Max ?D"
    using step_durations [OF assms(3,4), of hdr] assms(1) by simp_all
  have n: "0 < ?n" using assms(1) by simp
  have sums: "Min ?D * ?n \<le> (\<Sum>r\<leftarrow>?rs. rs_Duration r)" "(\<Sum>r\<leftarrow>?rs. rs_Duration r) \<le> Max ?D * ?n"
    using sum_list_between [of ?rs "Min ?D" rs_Duration "Max ?D"] by simp_all
  have pos: "0 < Min ?D" using assms(1,3) by simp
  then have nonneg: "0 \<le> (\<Sum>r\<leftarrow>?rs. rs_Duration r)" using sums(1) n by (meson less_imp_le mult_nonneg_nonneg order_trans)
  have "Min ?D \<le> (\<Sum>r\<leftarrow>?rs. rs_Duration r) div ?n" using zdiv_mono1 [OF sums(1) n] n by simp
  moreover have "(\<Sum>r\<leftarrow>?rs. rs_Duration r) div ?n \<le> Max ?D" using zdiv_mono1 [OF sums(2) n] n by simp
  moreover have "go_div (sd_sumDuration ?d) (sd_count ?d) = (\<Sum>r\<leftarrow>?rs. rs_Duration r) div ?n" using nonneg n cnt dur(1) by simp
  ultimately have "sd_minDuration ?d \<le> go_div (sd_sumDuration ?d) (sd_count ?d)" "go_div (sd_sumDuration ?d) (sd_count ?d) \<le> sd_maxDuration ?d"
    unfolding dur(2,3) by linarith+
  moreover have "0 \<le> sd_minDuration ?d" unfolding dur(2) using pos by (rule less_imp_le)
  ultimately have "sane_duration (calculateDurationMetrics hdr ?d)"
    using cnt n by (simp add: sane_duration_def calculateDurationMetrics_def Let_def)
  moreover have "dm_Min (calculateDurationMetrics hdr ?d) = Min ?D" "dm_Max (calculateDurationMetrics hdr ?d) = Max ?D"
    using dur(2,3) cnt n by (simp_all add: calculateDurationMetrics_def Let_def)
  ultimately show ?thesis using assms(1) by (simp add: GetStepMetrics_def recorded_data step_metrics_of_def)
qed

theorem collector_sane_witness:
  "\<exists>m d. GetStepMetrics unit_hdr ''a'' (record_all unit_hdr sample_records (NewMetricsCollector 0)) = Some m \<and> m_Duration m = Some d \<and> sane_duration d"
proof -
  have r: "results_of ''a'' sample_records = [timed_result ''a'' ResultStatusSuccess 30, timed_result ''a'' ResultStatusTimeout 50]"
    by (simp add: results_of_def sample_records_def)
  have h: "results_of ''a'' sample_records \<noteq> []" "int (length sample_records) \<le> int64_max"
    "\<forall>r \<in> set (results_of ''a'' sample_records). 0 < rs_Duration r" "(\<Sum>r\<leftarrow>results_of ''a'' sample_records. rs_Duration r) \<le> int64_max"
    unfolding r by (simp_all add: sample_records_def timed_result_def int64_max_def)
  show ?thesis using collector_sane [OF h, of unit_hdr 0] by blast
qed

text \<open>A duration of zero is lost: zero stands for a minimum that is not set.\<close>

lemma zero_duration_lost:
  "map_option (\<lambda>m. map_option dm_Min (m_Duration m))
     (GetStepMetrics unit_hdr ''a'' (record_all unit_hdr
        [(''a'', ''A'', timed_result ''a'' ResultStatusSuccess 0), (''a'', ''A'', timed_result ''a'' ResultStatusSuccess 5)] (NewMetricsCollector 0))) =
   Some (Some 5)"
  by code_simp

end
