(* ===== verification/Metrics_Report.thy ===== *)
theory Metrics_Report
  imports Metrics_Collector
begin

text \<open>
  The consumers of the samples: the metrics engine (\<^verbatim>\<open>internal/metrics/engine\<close>) and the summary of a test run
  (\<^verbatim>\<open>internal/output/summary/summary.go\<close>).  Both take the samples of their buffer in order under a lock.
  The metrics of the samples come from one emitter, so a metric is identified by its name.
\<close>

section \<open>Statistics by name\<close>

text \<open>Reading an absent key of a map of statistics gives zero, and of a map of strings the empty string.\<close>

definition stat :: "(gostring, float64) gomap \<Rightarrow> gostring \<Rightarrow> float64" where
  "stat m k = (case map_of m k of Some v \<Rightarrow> v | None \<Rightarrow> f64_zero)"

definition tag :: "(gostring, gostring) gomap \<Rightarrow> gostring \<Rightarrow> gostring" where
  "tag m k = (case map_of m k of Some v \<Rightarrow> v | None \<Rightarrow> [])"

text \<open>The length test and the comparison of the first bytes of a name.\<close>

definition after_prefix :: "gostring \<Rightarrow> gostring \<Rightarrow> gostring option" where
  "after_prefix p name = (if length name > length p \<and> take (length p) name = p then Some (drop (length p) name) else None)"

section \<open>The metrics engine\<close>

record metrics_engine =
  me_Observed :: "(gostring, sink) gomap"
  me_StepNames :: "(gostring, gostring) gomap"

definition NewMetricsEngine :: metrics_engine where
  "NewMetricsEngine = \<lparr>me_Observed = [], me_StepNames = []\<rparr>"

definition ingest :: "sample \<Rightarrow> metrics_engine \<Rightarrow> metrics_engine" where
  "ingest x me =
     (let s = (case map_of (me_Observed me) (sm_Name x) of Some s \<Rightarrow> s | None \<Rightarrow> NewSink (sm_Type x));
          sid = tag (sm_Tags x) ''step_id'';
          sn = tag (sm_Tags x) ''step_name''
      in me\<lparr>me_Observed := AList.update (sm_Name x) (sink_Add x s) (me_Observed me),
            me_StepNames := (if sid \<noteq> [] \<and> sn \<noteq> [] then AList.update sid sn (me_StepNames me) else me_StepNames me)\<rparr>)"

definition flushMetrics :: "sample list \<Rightarrow> metrics_engine \<Rightarrow> metrics_engine" where
  "flushMetrics xs me = foldl (\<lambda>me x. ingest x me) me xs"

record step_stats =
  ss_StepID :: gostring
  ss_StepName :: gostring
  ss_Count :: int
  ss_SuccessCount :: int
  ss_FailureCount :: int
  ss_AvgMs :: float64
  ss_MinMs :: float64
  ss_MaxMs :: float64
  ss_P50Ms :: float64
  ss_P90Ms :: float64
  ss_P95Ms :: float64
  ss_P99Ms :: float64

definition new_step_stats :: "metrics_engine \<Rightarrow> gostring \<Rightarrow> step_stats" where
  "new_step_stats me stepID =
     \<lparr>ss_StepID = stepID, ss_StepName = tag (me_StepNames me) stepID, ss_Count = 0, ss_SuccessCount = 0, ss_FailureCount = 0,
      ss_AvgMs = f64_zero, ss_MinMs = f64_zero, ss_MaxMs = f64_zero, ss_P50Ms = f64_zero, ss_P90Ms = f64_zero, ss_P95Ms = f64_zero, ss_P99Ms = f64_zero\<rparr>"

definition getOrCreateStepStats :: "metrics_engine \<Rightarrow> (gostring, step_stats) gomap \<Rightarrow> gostring \<Rightarrow> step_stats" where
  "getOrCreateStepStats me m stepID = (case map_of m stepID of Some s \<Rightarrow> s | None \<Rightarrow> new_step_stats me stepID)"

text \<open>One metric of the loop of \<^verbatim>\<open>buildStepMetrics\<close>, with its statistics.\<close>

definition step_stats_of ::
  "metrics_engine \<Rightarrow> gostring \<Rightarrow> (gostring, float64) gomap \<Rightarrow> (gostring, step_stats) gomap \<Rightarrow> (gostring, step_stats) gomap" where
  "step_stats_of me name stats m =
     (case after_prefix ''step_duration_'' name of
        Some i \<Rightarrow>
          (let s = getOrCreateStepStats me m i in
           AList.update i
             (s\<lparr>ss_AvgMs := stat stats ''avg'', ss_MinMs := stat stats ''min'', ss_MaxMs := stat stats ''max'', ss_P50Ms := stat stats ''med'',
                ss_P90Ms := stat stats ''p(90)'', ss_P95Ms := stat stats ''p(95)'', ss_P99Ms := stat stats ''p(99)'', ss_Count := f64_to_int (stat stats ''count'')\<rparr>) m)
      | None \<Rightarrow>
          (case after_prefix ''step_reqs_'' name of
             Some i \<Rightarrow>
               (let s = getOrCreateStepStats me m i in
                AList.update i (if ss_Count s = 0 then s\<lparr>ss_Count := f64_to_int (stat stats ''count'')\<rparr> else s) m)
           | None \<Rightarrow>
               (case after_prefix ''step_failed_'' name of
                  Some i \<Rightarrow>
                    (let s = getOrCreateStepStats me m i in
                     AList.update i (s\<lparr>ss_SuccessCount := f64_to_int (stat stats ''passes''), ss_FailureCount := f64_to_int (stat stats ''fails'')\<rparr>) m)
                | None \<Rightarrow> m)))"

fun build_loop ::
  "(float64 list \<Rightarrow> float64 list) \<Rightarrow> metrics_engine \<Rightarrow> float64 \<Rightarrow> (gostring, sink) gomap \<Rightarrow> (gostring, step_stats) gomap \<Rightarrow> (gostring, step_stats) gomap option" where
  "build_loop tie me duration [] m = Some m"
| "build_loop tie me duration ((name, s) # rest) m =
     (if sink_IsEmpty s then build_loop tie me duration rest m
      else case sink_Format tie duration s of
             None \<Rightarrow> None
           | Some stats \<Rightarrow> build_loop tie me duration rest (step_stats_of me name stats m))"

definition unify_count :: "step_stats \<Rightarrow> step_stats" where
  "unify_count s =
     (let rateTotal = wrap64 (ss_SuccessCount s + ss_FailureCount s) in
      if rateTotal > 0 \<and> rateTotal \<noteq> ss_Count s then s\<lparr>ss_Count := rateTotal\<rparr> else s)"

definition buildStepMetrics :: "(float64 list \<Rightarrow> float64 list) \<Rightarrow> float64 \<Rightarrow> metrics_engine \<Rightarrow> (gostring, step_stats) gomap option" where
  "buildStepMetrics tie duration me =
     map_option (map (\<lambda>(i, s). (i, unify_count s))) (build_loop tie me duration (me_Observed me) [])"

section \<open>Errors by message\<close>

record error_entry =
  ee_Message :: gostring
  ee_StepID :: gostring
  ee_Count :: int
  ee_FirstSeen :: int
  ee_LastSeen :: int

definition tracker_Record :: "gostring \<Rightarrow> gostring \<Rightarrow> int \<Rightarrow> (gostring, error_entry) gomap \<Rightarrow> (gostring, error_entry) gomap" where
  "tracker_Record message stepID t m =
     (let key = stepID @ '':'' @ message in
      case map_of m key of
        Some e \<Rightarrow> AList.update key (e\<lparr>ee_Count := wrap64 (ee_Count e + 1), ee_LastSeen := t\<rparr>) m
      | None \<Rightarrow> AList.update key \<lparr>ee_Message = message, ee_StepID = stepID, ee_Count = 1, ee_FirstSeen = t, ee_LastSeen = t\<rparr> m)"

record error_analysis =
  an_TotalErrors :: int
  an_ErrorTypes :: "(gostring \<times> int \<times> float64) list"
  an_TopErrors :: "error_entry list"

definition BuildAnalysis ::
  "(error_entry list \<Rightarrow> error_entry list) \<Rightarrow> ((gostring \<times> int \<times> float64) list \<Rightarrow> (gostring \<times> int \<times> float64) list) \<Rightarrow>
     (gostring, error_entry) gomap \<Rightarrow> error_analysis" where
  "BuildAnalysis tie tie' m =
     (if m = [] then \<lparr>an_TotalErrors = 0, an_ErrorTypes = [], an_TopErrors = []\<rparr>
      else
        let entries = map snd m;
            totalErrors = foldl (\<lambda>n e. wrap64 (n + ee_Count e)) 0 entries;
            typeCounts = foldl (\<lambda>acc e. AList.update (ee_Message e)
                (wrap64 ((case map_of acc (ee_Message e) of Some n \<Rightarrow> n | None \<Rightarrow> 0) + ee_Count e)) acc) [] entries;
            top = take 20 (sort_slice tie (\<lambda>a b. ee_Count a > ee_Count b) entries);
            errorTypes = map (\<lambda>(ty, n). (ty, n, f64_mul (f64_div (f64_of_int n) (f64_of_int totalErrors)) (F_Fin False 100))) typeCounts
        in \<lparr>an_TotalErrors = totalErrors, an_ErrorTypes = sort_slice tie' (\<lambda>(_, a, _) (_, b, _). a > b) errorTypes, an_TopErrors = top\<rparr>)"

section \<open>The summary of a run\<close>

record summary_output =
  so_stepDurations :: "(gostring, trend_sink) gomap"
  so_stepCounts :: "(gostring, counter_sink) gomap"
  so_stepFailures :: "(gostring, rate_sink) gomap"
  so_stepNames :: "(gostring, gostring) gomap"
  so_errors :: "(gostring, error_entry) gomap"

definition new_summary :: summary_output where
  "new_summary = \<lparr>so_stepDurations = [], so_stepCounts = [], so_stepFailures = [], so_stepNames = [], so_errors = []\<rparr>"

definition getOrCreate :: "'a \<Rightarrow> (gostring, 'a) gomap \<Rightarrow> gostring \<Rightarrow> 'a" where
  "getOrCreate new m i = (case map_of m i of Some s \<Rightarrow> s | None \<Rightarrow> new)"

definition track_error :: "gostring \<Rightarrow> sample \<Rightarrow> summary_output \<Rightarrow> summary_output" where
  "track_error stepID x o' =
     (if f64_eq (sm_Value x) f64_zero then
        let errMsg = (if tag (sm_Tags x) ''error'' = [] then tag (sm_Metadata x) ''error'' else tag (sm_Tags x) ''error'')
        in if errMsg \<noteq> [] then o'\<lparr>so_errors := tracker_Record errMsg stepID (sm_Time x) (so_errors o')\<rparr> else o'
      else o')"

definition processSample :: "sample \<Rightarrow> summary_output \<Rightarrow> summary_output" where
  "processSample x o0 =
     (let name = sm_Name x;
          stepID = tag (sm_Tags x) ''step_id'';
          sn = tag (sm_Tags x) ''step_name'';
          o' = (if stepID \<noteq> [] \<and> sn \<noteq> [] then o0\<lparr>so_stepNames := AList.update stepID sn (so_stepNames o0)\<rparr> else o0)
      in if sm_Type x = MetricTrend then
           (if stepID \<noteq> []
            then o'\<lparr>so_stepDurations := AList.update stepID (trend_Add x (getOrCreate new_trend (so_stepDurations o') stepID)) (so_stepDurations o')\<rparr>
            else o')
         else if sm_Type x = MetricCounter then
           (if stepID \<noteq> [] \<and> (name = ''step_reqs'' \<or> after_prefix ''step_reqs_'' name \<noteq> None)
            then o'\<lparr>so_stepCounts := AList.update stepID (counter_Add x (getOrCreate new_counter (so_stepCounts o') stepID)) (so_stepCounts o')\<rparr>
            else o')
         else if sm_Type x = MetricRate then
           (if stepID \<noteq> [] \<and> (name = ''step_failed'' \<or> after_prefix ''step_failed_'' name \<noteq> None)
            then track_error stepID x
                   (o'\<lparr>so_stepFailures := AList.update stepID (rate_Add x (getOrCreate new_rate (so_stepFailures o') stepID)) (so_stepFailures o')\<rparr>)
            else o')
         else o')"

definition flushSamples :: "sample list \<Rightarrow> summary_output \<Rightarrow> summary_output" where
  "flushSamples xs o' = foldl (\<lambda>o' x. processSample x o') o' xs"

record step_detail =
  de_StepID :: gostring
  de_StepName :: gostring
  de_Count :: int
  de_SuccessCount :: int
  de_FailureCount :: int
  de_ErrorRate :: float64
  de_AvgMs :: float64
  de_MinMs :: float64
  de_MaxMs :: float64
  de_P50Ms :: float64
  de_P90Ms :: float64
  de_P95Ms :: float64
  de_P99Ms :: float64

definition new_detail :: "gostring \<Rightarrow> gostring \<Rightarrow> step_detail" where
  "new_detail i name =
     \<lparr>de_StepID = i, de_StepName = name, de_Count = 0, de_SuccessCount = 0, de_FailureCount = 0, de_ErrorRate = f64_zero,
      de_AvgMs = f64_zero, de_MinMs = f64_zero, de_MaxMs = f64_zero, de_P50Ms = f64_zero, de_P90Ms = f64_zero, de_P95Ms = f64_zero, de_P99Ms = f64_zero\<rparr>"

definition detail_durations :: "(gostring, float64) gomap \<Rightarrow> step_detail \<Rightarrow> step_detail" where
  "detail_durations stats d =
     d\<lparr>de_AvgMs := stat stats ''avg'', de_MinMs := stat stats ''min'', de_MaxMs := stat stats ''max'', de_P50Ms := stat stats ''med'',
       de_P90Ms := stat stats ''p(90)'', de_P95Ms := stat stats ''p(95)'', de_P99Ms := stat stats ''p(99)'', de_Count := f64_to_int (stat stats ''count'')\<rparr>"

definition detail_count :: "(gostring, float64) gomap \<Rightarrow> step_detail \<Rightarrow> step_detail" where
  "detail_count stats d =
     (let c = f64_to_int (stat stats ''count'') in if c > de_Count d then d\<lparr>de_Count := c\<rparr> else d)"

definition detail_failures :: "rate_sink option \<Rightarrow> step_detail \<Rightarrow> step_detail" where
  "detail_failures s d =
     (case s of
        None \<Rightarrow> d\<lparr>de_SuccessCount := de_Count d\<rparr>
      | Some r \<Rightarrow>
          let stats = rate_Format r;
              d1 = d\<lparr>de_SuccessCount := f64_to_int (stat stats ''passes''), de_FailureCount := f64_to_int (stat stats ''fails'')\<rparr>;
              rateTotal = wrap64 (de_SuccessCount d1 + de_FailureCount d1);
              d2 = (if rateTotal > 0 then d1\<lparr>de_Count := rateTotal\<rparr> else d1)
          in if de_Count d2 > 0
             then d2\<lparr>de_ErrorRate := f64_mul (f64_div (f64_of_int (de_FailureCount d2)) (f64_of_int (de_Count d2))) (F_Fin False 100)\<rparr>
             else d2)"

definition build_detail :: "(float64 list \<Rightarrow> float64 list) \<Rightarrow> float64 \<Rightarrow> summary_output \<Rightarrow> gostring \<Rightarrow> step_detail option" where
  "build_detail tie duration o' i =
     (let d0 = new_detail i (tag (so_stepNames o') i);
          d1 = (case map_of (so_stepDurations o') i of None \<Rightarrow> Some d0 | Some t \<Rightarrow> map_option (\<lambda>stats. detail_durations stats d0) (trend_Format tie t))
      in map_option (\<lambda>d. detail_failures (map_of (so_stepFailures o') i)
           (case map_of (so_stepCounts o') i of None \<Rightarrow> d | Some c \<Rightarrow> detail_count (counter_Format duration c) d)) d1)"

definition step_ids :: "summary_output \<Rightarrow> gostring list" where
  "step_ids o' = sort (remdups (map fst (so_stepDurations o') @ map fst (so_stepCounts o')))"

definition buildStepDetails :: "(float64 list \<Rightarrow> float64 list) \<Rightarrow> float64 \<Rightarrow> summary_output \<Rightarrow> step_detail list option" where
  "buildStepDetails tie duration o' = those (map (build_detail tie duration o') (step_ids o'))"

record report_summary =
  rp_TotalDurationMs :: int
  rp_TotalRequests :: int
  rp_SuccessRequests :: int
  rp_FailedRequests :: int
  rp_ErrorRate :: float64
  rp_AvgQPS :: float64
  rp_AvgResponseTimeMs :: float64
  rp_MinResponseTimeMs :: float64
  rp_MaxResponseTimeMs :: float64
  rp_P50 :: float64
  rp_P90 :: float64
  rp_P95 :: float64
  rp_P99 :: float64
  rp_MaxVUs :: int
  rp_TotalIterations :: int

definition weighted :: "(step_detail \<Rightarrow> float64) \<Rightarrow> step_detail list \<Rightarrow> float64" where
  "weighted f steps = foldl (\<lambda>acc d. f64_add acc (f64_mul (f d) (f64_of_int (de_Count d)))) f64_zero steps"

definition buildSummary :: "step_detail list \<Rightarrow> int \<Rightarrow> int \<Rightarrow> int \<Rightarrow> report_summary" where
  "buildSummary steps durationMs totalIterations maxVUs =
     (let requests = foldl (\<lambda>n d. wrap64 (n + de_Count d)) 0 steps;
          successes = foldl (\<lambda>n d. wrap64 (n + de_SuccessCount d)) 0 steps;
          failed = foldl (\<lambda>n d. wrap64 (n + de_FailureCount d)) 0 steps;
          lowest = foldl (\<lambda>(m, isSet) d. if \<not> isSet \<or> f64_lt (de_MinMs d) m then (de_MinMs d, True) else (m, isSet)) (f64_zero, False) steps;
          highest = foldl (\<lambda>m d. if f64_lt m (de_MaxMs d) then de_MaxMs d else m) f64_zero steps;
          mean = (\<lambda>f. if requests > 0 then f64_div (weighted f steps) (f64_of_int requests) else f64_zero)
      in \<lparr>rp_TotalDurationMs = durationMs, rp_TotalRequests = requests, rp_SuccessRequests = successes, rp_FailedRequests = failed,
          rp_ErrorRate = (if requests > 0 then f64_mul (f64_div (f64_of_int failed) (f64_of_int requests)) (F_Fin False 100) else f64_zero),
          rp_AvgQPS = (if durationMs > 0 then f64_div (f64_of_int requests) (f64_div (f64_of_int durationMs) (F_Fin False 1000)) else f64_zero),
          rp_AvgResponseTimeMs = mean de_AvgMs, rp_MinResponseTimeMs = fst lowest, rp_MaxResponseTimeMs = highest,
          rp_P50 = mean de_P50Ms, rp_P90 = mean de_P90Ms, rp_P95 = mean de_P95Ms, rp_P99 = mean de_P99Ms,
          rp_MaxVUs = maxVUs, rp_TotalIterations = totalIterations\<rparr>)"

section \<open>The samples of a result\<close>

text \<open>The kind of metric that the collector uses each name for.\<close>

definition metric_kind :: "gostring \<Rightarrow> metric_type" where
  "metric_kind n =
     (if has_prefix n ''step_reqs_'' \<or> n = ''data_sent'' \<or> n = ''data_received'' then MetricCounter
      else if has_prefix n ''step_duration'' then MetricTrend
      else if has_prefix n ''step_failed'' then MetricRate
      else MetricGauge)"

definition kinds_ok :: "emitter \<Rightarrow> bool" where
  "kinds_ok e \<longleftrightarrow> (\<forall>n t. map_of (em_registry e) n = Some t \<longrightarrow> t = metric_kind n)"

text \<open>An emitter that has sent some samples, without a loss.\<close>

definition sent :: "emitter \<Rightarrow> sample list \<Rightarrow> emitter \<Rightarrow> bool" where
  "sent e xs e' \<longleftrightarrow>
     kinds_ok e' \<and> em_cap e' = em_cap e \<and> em_tags e' = em_tags e \<and> (\<exists>buf. em_chan e = Some buf \<and> em_chan e' = Some (buf @ xs))"

definition room :: "emitter \<Rightarrow> nat \<Rightarrow> bool" where
  "room e n \<longleftrightarrow> kinds_ok e \<and> (\<exists>buf. em_chan e = Some buf \<and> length buf + n \<le> em_cap e)"

lemma sent_trans: "sent e xs e' \<Longrightarrow> sent e' ys e'' \<Longrightarrow> sent e (xs @ ys) e''"
  by (auto simp: sent_def)

lemma sent_room: "sent e xs e' \<Longrightarrow> room e (length xs + n) \<Longrightarrow> room e' n"
  by (auto simp: sent_def room_def)

lemma sent_one_room: "sent e [x] e' \<Longrightarrow> room e (Suc n) \<Longrightarrow> room e' n"
  using sent_room [of e "[x]" e' n] by simp

lemma Emit_sent:
  assumes "room e (Suc n)" "ty = metric_kind name"
  shows "\<exists>x. sent e [x] (Emit name ty v tags e) \<and> sm_Name x = name \<and> sm_Type x = ty \<and> sm_Value x = v \<and> sm_Tags x = merge_tags (em_tags e) tags"
proof -
  obtain buf where buf: "em_chan e = Some buf" "length buf < em_cap e" and ok: "kinds_ok e" using assms(1) by (auto simp: room_def)
  let ?x = "\<lparr>sm_Name = name, sm_Type = ty, sm_Time = em_clock e (em_reads e), sm_Value = v, sm_Tags = merge_tags (em_tags e) tags, sm_Metadata = []\<rparr>"
  have "sent e [?x] (Emit name ty v tags e)"
    using buf ok assms(2) by (auto simp: sent_def Emit_def Let_def kinds_ok_def update_conv' split: option.splits if_splits)
  then show ?thesis by force
qed

text \<open>What of a sample matters to the summary.\<close>

definition sample_view :: "sample \<Rightarrow> gostring \<times> metric_type \<times> float64 \<times> gostring \<times> gostring" where
  "sample_view x = (sm_Name x, sm_Type x, sm_Value x, tag (sm_Tags x) ''step_id'', tag (sm_Tags x) ''step_name'')"

definition result_view :: "gostring \<Rightarrow> gostring \<Rightarrow> step_result \<Rightarrow> (gostring \<times> metric_type \<times> float64 \<times> gostring \<times> gostring) list" where
  "result_view i n r =
     (let ms = f64_of_int (Milliseconds (rs_Duration r)); ok = (if rs_Status r = ResultStatusSuccess then F_Fin False 1 else f64_zero) in
      [(''step_reqs_'' @ i, MetricCounter, F_Fin False 1, i, n), (''step_duration_'' @ i, MetricTrend, ms, i, n), (''step_failed_'' @ i, MetricRate, ok, i, n),
       (''step_duration'', MetricTrend, ms, i, n), (''step_failed'', MetricRate, ok, i, n)] @
      map (\<lambda>(k, v). if k = ''data_sent'' \<or> k = ''data_received'' then (k, MetricCounter, v, i, n) else (''custom_'' @ k, MetricGauge, v, i, n)) (rs_Metrics r))"

lemma tags_of_merge:
  "tag (merge_tags own [(''step_id'', i), (''step_name'', n)]) ''step_id'' = i"
  "tag (merge_tags own [(''step_id'', i), (''step_name'', n)]) ''step_name'' = n"
  by (simp_all add: merge_tags_def tag_def update_conv')

lemma emit_one:
  assumes "room e (Suc k)" "ty = metric_kind name"
  shows "\<exists>x. sent e [x] (Emit name ty v [(''step_id'', i), (''step_name'', n)] e) \<and> sample_view x = (name, ty, v, i, n)"
  using Emit_sent [OF assms, of v "[(''step_id'', i), (''step_name'', n)]"] by (auto simp: sample_view_def tags_of_merge)

lemma kinds:
  "metric_kind (''step_reqs_'' @ i) = MetricCounter" "metric_kind (''step_duration_'' @ i) = MetricTrend" "metric_kind (''step_failed_'' @ i) = MetricRate"
  "metric_kind ''step_duration'' = MetricTrend" "metric_kind ''step_failed'' = MetricRate" "metric_kind (''custom_'' @ k) = MetricGauge"
  "metric_kind ''data_sent'' = MetricCounter" "metric_kind ''data_received'' = MetricCounter"
  by (simp_all add: metric_kind_def)

lemma emit_metrics_sent:
  assumes "room e (length kvs + k)"
  shows "\<exists>xs. sent e xs (foldl (\<lambda>e kv. emit_metric [(''step_id'', i), (''step_name'', n)] kv e) e kvs) \<and>
    map sample_view xs = map (\<lambda>(k, v). if k = ''data_sent'' \<or> k = ''data_received'' then (k, MetricCounter, v, i, n) else (''custom_'' @ k, MetricGauge, v, i, n)) kvs"
  using assms
proof (induction kvs arbitrary: e)
  case Nil
  then show ?case by (auto simp: sent_def room_def)
next
  case (Cons kv kvs)
  obtain key v where kv: "kv = (key, v)" by (cases kv)
  let ?e = "emit_metric [(''step_id'', i), (''step_name'', n)] kv e"
  have r: "room e (Suc (length kvs + k))" using Cons.prems by simp
  obtain x where x: "sent e [x] ?e" "sample_view x = (if key = ''data_sent'' \<or> key = ''data_received'' then (key, MetricCounter, v, i, n) else (''custom_'' @ key, MetricGauge, v, i, n))"
  proof (cases "key = ''data_sent'' \<or> key = ''data_received''")
    case True
    then have "MetricCounter = metric_kind key" using kinds by auto
    from emit_one [OF r this, of v i n] show ?thesis using True that by (auto simp: kv emit_metric_def EmitCounter_def)
  next
    case False
    have "MetricGauge = metric_kind (''custom_'' @ key)" using kinds by simp
    from emit_one [OF r this, of v i n] show ?thesis using False that by (auto simp: kv emit_metric_def EmitGauge_def)
  qed
  have "room ?e (length kvs + k)" using sent_room [OF x(1)] r by simp
  then obtain xs where xs: "sent ?e xs (foldl (\<lambda>e kv. emit_metric [(''step_id'', i), (''step_name'', n)] kv e) ?e kvs)"
    "map sample_view xs = map (\<lambda>(k, v). if k = ''data_sent'' \<or> k = ''data_received'' then (k, MetricCounter, v, i, n) else (''custom_'' @ k, MetricGauge, v, i, n)) kvs"
    using Cons.IH by blast
  show ?case using sent_trans [OF x(1) xs(1)] x(2) xs(2) by (intro exI [of _ "[x] @ xs"]) (simp add: kv)
qed

lemma emit_result_sent:
  assumes "room e (5 + length (rs_Metrics r) + k)"
  shows "\<exists>xs. sent e xs (emit_result i n r e) \<and> map sample_view xs = result_view i n r"
proof -
  let ?tags = "[(''step_id'', i), (''step_name'', n)]" and ?ms = "f64_of_int (Milliseconds (rs_Duration r))"
  let ?ok = "if rs_Status r = ResultStatusSuccess then F_Fin False 1 else f64_zero"
  let ?e1 = "EmitCounter (''step_reqs_'' @ i) (F_Fin False 1) ?tags e"
  let ?e2 = "EmitTrend (''step_duration_'' @ i) ?ms ?tags ?e1"
  let ?e3 = "EmitRate (''step_failed_'' @ i) (rs_Status r = ResultStatusSuccess) ?tags ?e2"
  let ?e4 = "EmitTrend ''step_duration'' ?ms ?tags ?e3"
  let ?e5 = "EmitRate ''step_failed'' (rs_Status r = ResultStatusSuccess) ?tags ?e4"
  let ?n = "length (rs_Metrics r) + k"
  have r0: "room e (Suc (Suc (Suc (Suc (Suc ?n)))))" using assms by (simp add: eval_nat_numeral)
  obtain x1 where x1: "sent e [x1] ?e1" "sample_view x1 = (''step_reqs_'' @ i, MetricCounter, F_Fin False 1, i, n)"
    using emit_one [OF r0 kinds(1) [symmetric]] unfolding EmitCounter_def by blast
  note r1 = sent_one_room [OF x1(1) r0]
  obtain x2 where x2: "sent ?e1 [x2] ?e2" "sample_view x2 = (''step_duration_'' @ i, MetricTrend, ?ms, i, n)"
    using emit_one [OF r1 kinds(2) [symmetric]] unfolding EmitTrend_def by blast
  note r2 = sent_one_room [OF x2(1) r1]
  obtain x3 where x3: "sent ?e2 [x3] ?e3" "sample_view x3 = (''step_failed_'' @ i, MetricRate, ?ok, i, n)"
    using emit_one [OF r2 kinds(3) [symmetric]] unfolding EmitRate_def by blast
  note r3 = sent_one_room [OF x3(1) r2]
  obtain x4 where x4: "sent ?e3 [x4] ?e4" "sample_view x4 = (''step_duration'', MetricTrend, ?ms, i, n)"
    using emit_one [OF r3 kinds(4) [symmetric]] unfolding EmitTrend_def by blast
  note r4 = sent_one_room [OF x4(1) r3]
  obtain x5 where x5: "sent ?e4 [x5] ?e5" "sample_view x5 = (''step_failed'', MetricRate, ?ok, i, n)"
    using emit_one [OF r4 kinds(5) [symmetric]] unfolding EmitRate_def by blast
  note r5 = sent_one_room [OF x5(1) r4]
  obtain xs where xs: "sent ?e5 xs (foldl (\<lambda>e kv. emit_metric ?tags kv e) ?e5 (rs_Metrics r))"
    "map sample_view xs = map (\<lambda>(k, v). if k = ''data_sent'' \<or> k = ''data_received'' then (k, MetricCounter, v, i, n) else (''custom_'' @ k, MetricGauge, v, i, n)) (rs_Metrics r)"
    using emit_metrics_sent [OF r5] by blast
  have "sent e ([x1] @ [x2] @ [x3] @ [x4] @ [x5] @ xs) (emit_result i n r e)"
    unfolding emit_result_def Let_def
    by (rule sent_trans [OF x1(1) sent_trans [OF x2(1) sent_trans [OF x3(1) sent_trans [OF x4(1) sent_trans [OF x5(1) xs(1)]]]]])
  then show ?thesis using x1(2) x2(2) x3(2) x4(2) x5(2) xs(2)
    by (intro exI [of _ "[x1] @ [x2] @ [x3] @ [x4] @ [x5] @ xs"]) (simp add: result_view_def Let_def)
qed

lemma record_all_emitter:
  "mc_emitter (record_all hdr recs c) = map_option (\<lambda>e. foldl (\<lambda>e (i, n, r). emit_result i n r e) e recs) (mc_emitter c)"
proof (induction recs rule: rev_induct)
  case (snoc x recs)
  obtain i n r where "x = (i, n, r)" by (cases x)
  then show ?case using snoc.IH by (simp add: record_all_snoc RecordStep_def Let_def option.map_comp comp_def)
qed (simp add: record_all_def option.map_ident)

definition views_of :: "(gostring \<times> gostring \<times> step_result) list \<Rightarrow> (gostring \<times> metric_type \<times> float64 \<times> gostring \<times> gostring) list" where
  "views_of recs = concat (map (\<lambda>(i, n, r). result_view i n r) recs)"

lemma length_result_view: "length (result_view i n r) = 5 + length (rs_Metrics r)"
  by (simp add: result_view_def Let_def)

lemma records_sent:
  assumes "room e (length (views_of recs) + k)"
  shows "\<exists>xs. sent e xs (foldl (\<lambda>e (i, n, r). emit_result i n r e) e recs) \<and> map sample_view xs = views_of recs"
  using assms
proof (induction recs arbitrary: e)
  case Nil
  then show ?case by (auto simp: sent_def room_def views_of_def)
next
  case (Cons x recs)
  obtain i n r where x: "x = (i, n, r)" by (cases x)
  have rm: "room e (5 + length (rs_Metrics r) + (length (views_of recs) + k))"
    using Cons.prems by (simp add: x views_of_def length_result_view ac_simps)
  obtain xs where xs: "sent e xs (emit_result i n r e)" "map sample_view xs = result_view i n r"
    using emit_result_sent [OF rm] by blast
  have len: "length xs = 5 + length (rs_Metrics r)" using xs(2) by (metis length_map length_result_view)
  have "room e (length xs + (length (views_of recs) + k))" using rm unfolding len .
  from Cons.IH [OF sent_room [OF xs(1) this]]
  obtain ys where ys: "sent (emit_result i n r e) ys (foldl (\<lambda>e (i, n, r). emit_result i n r e) (emit_result i n r e) recs)" "map sample_view ys = views_of recs"
    by blast
  show ?case using sent_trans [OF xs(1) ys(1)] xs(2) ys(2) by (intro exI [of _ "xs @ ys"]) (simp add: x views_of_def)
qed

section \<open>What the summary counts\<close>

definition rate_view :: "gostring \<Rightarrow> gostring \<times> metric_type \<times> float64 \<times> gostring \<times> gostring \<Rightarrow> bool" where
  "rate_view i v =
     (case v of (name, ty, _, stepID, _) \<Rightarrow>
        ty = MetricRate \<and> stepID = i \<and> (name = ''step_failed'' \<or> after_prefix ''step_failed_'' name \<noteq> None))"

definition view_value :: "gostring \<times> metric_type \<times> float64 \<times> gostring \<times> gostring \<Rightarrow> float64" where
  "view_value v = fst (snd (snd v))"

lemma flush_snoc: "flushSamples (xs @ [x]) o' = processSample x (flushSamples xs o')"
  by (simp add: flushSamples_def)

lemma track_error_failures [simp]: "so_stepFailures (track_error i x o') = so_stepFailures o'"
  by (simp add: track_error_def Let_def)

lemma process_failures:
  "i \<noteq> [] \<Longrightarrow> map_of (so_stepFailures (processSample x o')) i =
     (if rate_view i (sample_view x) then Some (rate_Add x (getOrCreate new_rate (so_stepFailures o') i)) else map_of (so_stepFailures o') i)"
  by (auto simp: processSample_def Let_def rate_view_def sample_view_def update_conv' metric_type_defs)

lemma flushed_failures:
  assumes "i \<noteq> []"
  shows "map_of (so_stepFailures (flushSamples xs new_summary)) i =
    (let ys = filter (\<lambda>x. rate_view i (sample_view x)) xs in if ys = [] then None else Some (add_samples rate_Add ys new_rate))"
proof (induction xs rule: rev_induct)
  case (snoc x xs)
  let ?ys = "filter (\<lambda>x. rate_view i (sample_view x)) xs"
  have get: "getOrCreate new_rate (so_stepFailures (flushSamples xs new_summary)) i = add_samples rate_Add ?ys new_rate"
    using snoc.IH by (simp add: getOrCreate_def Let_def)
  show ?case
  proof (cases "rate_view i (sample_view x)")
    case True
    then show ?thesis by (simp add: flush_snoc process_failures [OF assms] get Let_def)
  next
    case False
    then show ?thesis using snoc.IH by (simp add: flush_snoc process_failures [OF assms])
  qed
qed (simp add: flushSamples_def new_summary_def)

definition ok_value :: "step_result \<Rightarrow> float64" where
  "ok_value r = (if rs_Status r = ResultStatusSuccess then F_Fin False 1 else f64_zero)"

lemma result_rate_views:
  assumes "i \<noteq> []"
  shows "map view_value (filter (rate_view stepID) (result_view i n r)) = (if i = stepID then [ok_value r, ok_value r] else [])"
proof -
  have no: "\<not> rate_view stepID (k, MetricCounter, v, j, m)" "\<not> rate_view stepID (k, MetricGauge, v, j, m)" "\<not> rate_view stepID (k, MetricTrend, v, j, m)" for k v j m
    by (simp_all add: rate_view_def metric_type_defs)
  have rest: "filter (rate_view stepID) (map (\<lambda>(k, v). if k = ''data_sent'' \<or> k = ''data_received'' then (k, MetricCounter, v, i, n) else (''custom_'' @ k, MetricGauge, v, i, n)) kvs) = []" for kvs
    by (induction kvs) (auto simp: no split: if_splits)
  have yes1: "j \<noteq> [] \<Longrightarrow> rate_view stepID (''step_failed_'' @ j, MetricRate, v, j, m) = (j = stepID)" for v j m
    by (simp add: rate_view_def after_prefix_def)
  have yes2: "rate_view stepID (''step_failed'', MetricRate, v, j, m) = (j = stepID)" for v j m
    by (simp add: rate_view_def)
  show ?thesis unfolding result_view_def Let_def filter_append rest
    using assms by (cases "i = stepID") (simp_all add: no yes1 [simplified] yes2 ok_value_def view_value_def)
qed

lemma records_rate_views:
  assumes "\<forall>(i, n, r) \<in> set recs. i \<noteq> []"
  shows "map view_value (filter (rate_view stepID) (views_of recs)) = concat (map (\<lambda>r. [ok_value r, ok_value r]) (results_of stepID recs))"
  using assms
proof (induction recs)
  case (Cons x recs)
  obtain i n r where x: "x = (i, n, r)" by (cases x)
  then have "i \<noteq> []" using Cons.prems by simp
  from result_rate_views [OF this, of stepID n r] show ?case using Cons by (simp add: x views_of_def results_of_def)
qed (simp add: views_of_def results_of_def)

lemma count_twice: "length (filter P (concat (map (\<lambda>r. [f r, f r]) rs))) = 2 * length (filter (\<lambda>r. P (f r)) rs)"
  by (induction rs) auto

lemma flushed_counts:
  assumes "stepID \<noteq> []" "\<forall>(i, n, r) \<in> set recs. i \<noteq> []" "map sample_view xs = views_of recs" "results_of stepID recs \<noteq> []"
    and "2 * int (length (results_of stepID recs)) \<le> int64_max"
  shows "\<exists>s. map_of (so_stepFailures (flushSamples xs new_summary)) stepID = Some s \<and>
    rk_Total s = 2 * int (length (results_of stepID recs)) \<and> rk_Trues s = 2 * int (length (filter IsSuccess (results_of stepID recs)))"
proof -
  let ?ys = "filter (\<lambda>x. rate_view stepID (sample_view x)) xs" and ?rs = "results_of stepID recs"
  have "map sm_Value ?ys = map view_value (map sample_view ?ys)" by (simp add: sample_view_def view_value_def)
  also have "map sample_view ?ys = filter (rate_view stepID) (map sample_view xs)" by (simp add: filter_map comp_def)
  also have "map view_value (filter (rate_view stepID) (map sample_view xs)) = concat (map (\<lambda>r. [ok_value r, ok_value r]) ?rs)"
    using records_rate_views [OF assms(2)] assms(3) by simp
  finally have vals: "map sm_Value ?ys = concat (map (\<lambda>r. [ok_value r, ok_value r]) ?rs)" .
  have len: "length ?ys = 2 * length ?rs" using arg_cong [OF vals, of length] count_twice [of "\<lambda>_. True" ok_value ?rs] by simp
  have nonzero: "\<not> f64_eq (ok_value r) f64_zero \<longleftrightarrow> IsSuccess r" for r by (simp add: ok_value_def IsSuccess_def f64_zero_def)
  have "length (filter (\<lambda>x. \<not> f64_eq (sm_Value x) f64_zero) ?ys) = length (filter (\<lambda>v. \<not> f64_eq v f64_zero) (map sm_Value ?ys))"
    by (simp add: filter_map comp_def)
  also have "\<dots> = 2 * length (filter IsSuccess ?rs)" unfolding vals count_twice nonzero ..
  finally have trues: "length (filter (\<lambda>x. \<not> f64_eq (sm_Value x) f64_zero) ?ys) = 2 * length (filter IsSuccess ?rs)" .
  have "?ys \<noteq> []" using len assms(4) by auto
  then have "map_of (so_stepFailures (flushSamples xs new_summary)) stepID = Some (add_samples rate_Add ?ys new_rate)"
    by (simp only: flushed_failures [OF assms(1)] Let_def if_False)
  moreover have "int (length ?ys) \<le> int64_max" using len assms(5) by simp
  ultimately show ?thesis using rate_counts [of ?ys] len trues by simp
qed

lemma f64_to_int_of_int: "0 \<le> k \<Longrightarrow> k \<le> 2 ^ 53 \<Longrightarrow> f64_to_int (f64_of_int k) = k"
  using f64_of_int_exact [of k] by (simp add: f64_to_int_def in_int64_def int64_min_def int64_max_def Let_def)

lemma detail_of_rate:
  assumes "0 \<le> rk_Trues s" "rk_Trues s \<le> rk_Total s" "0 < rk_Total s" "rk_Total s \<le> 2 ^ 53"
  shows "de_Count (detail_failures (Some s) d) = rk_Total s \<and> de_SuccessCount (detail_failures (Some s) d) = rk_Trues s \<and>
    de_FailureCount (detail_failures (Some s) d) = rk_Total s - rk_Trues s"
proof -
  have fits: "in_int64 k" if "0 \<le> k" "k \<le> 2 ^ 53" for k using that by (simp add: in_int64_def int64_min_def int64_max_def)
  have "wrap64 (rk_Total s - rk_Trues s) = rk_Total s - rk_Trues s" "wrap64 (rk_Total s) = rk_Total s"
    using assms by (simp_all add: wrap64_id fits)
  then show ?thesis using assms
    by (simp add: detail_failures_def rate_Format_def stat_def Let_def f64_to_int_of_int)
qed

lemma track_error_durations [simp]: "so_stepDurations (track_error i x o') = so_stepDurations o'"
  by (simp add: track_error_def Let_def)

lemma process_durations:
  "map_of (so_stepDurations (processSample x o')) i = Some t \<Longrightarrow>
     map_of (so_stepDurations o') i = Some t \<or> t = trend_Add x (getOrCreate new_trend (so_stepDurations o') i)"
  by (auto simp: processSample_def Let_def update_conv' split: if_splits)

lemma durations_few: "map_of (so_stepDurations (flushSamples xs new_summary)) i = Some t \<Longrightarrow> length (ts_Values t) \<le> length xs"
proof (induction xs arbitrary: t rule: rev_induct)
  case (snoc x xs)
  have "length (ts_Values (getOrCreate new_trend (so_stepDurations (flushSamples xs new_summary)) i)) \<le> length xs"
    using snoc.IH by (auto simp: getOrCreate_def new_trend_def split: option.splits)
  then show ?case using snoc.IH [of t] process_durations [OF snoc.prems [unfolded flush_snoc]] by (auto simp: trend_Add_def)
qed (simp add: flushSamples_def new_summary_def)

lemma trend_Format_defined:
  assumes "reorders tie" "length (ts_Values t) \<le> 2 ^ 53"
  shows "trend_Format tie t \<noteq> None"
proof -
  have "\<exists>v. percentile tie (F_Fin False p) t = Some v" if "0 \<le> p" "p \<le> 100" for p
    using percentile_defined [OF assms(1) that assms(2)] .
  from this [of 50] this [of 90] this [of 95] this [of 99] show ?thesis by (auto simp: trend_Format_def Let_def)
qed

lemma build_detail_defined:
  assumes "reorders tie" "length xs \<le> 2 ^ 53"
  shows "\<exists>d. build_detail tie duration (flushSamples xs new_summary) i =
    Some (detail_failures (map_of (so_stepFailures (flushSamples xs new_summary)) i) d)"
proof (cases "map_of (so_stepDurations (flushSamples xs new_summary)) i")
  case (Some t)
  then have "trend_Format tie t \<noteq> None" using durations_few [OF Some] assms by (intro trend_Format_defined) auto
  then show ?thesis by (auto simp: build_detail_def Some Let_def)
qed (auto simp: build_detail_def Let_def)

lemma record_all_emitter_irrelevant: "mc_stepMetrics (record_all hdr recs (SetSamplesChannel em c)) = mc_stepMetrics (record_all hdr recs c)"
proof (induction recs rule: rev_induct)
  case (snoc x recs)
  obtain i n r where "x = (i, n, r)" by (cases x)
  then show ?case using snoc.IH by (simp add: record_all_snoc RecordStep_def Let_def)
qed (simp add: record_all_def SetSamplesChannel_def split: option.splits)

definition collecting :: "('h, 's) hdr_ops \<Rightarrow> nat \<Rightarrow> (nat \<Rightarrow> int) \<Rightarrow> (gostring, gostring) gomap \<Rightarrow> (gostring \<times> gostring \<times> step_result) list \<Rightarrow> 'h collector" where
  "collecting hdr cap clock tags recs =
     record_all hdr recs (SetSamplesChannel (Some (NewSampleEmitter cap clock tags)) (NewMetricsCollector 0))"

definition collected_samples :: "'h collector \<Rightarrow> sample list" where
  "collected_samples c = (case mc_emitter c of Some e \<Rightarrow> (case em_chan e of Some xs \<Rightarrow> xs | None \<Rightarrow> []) | None \<Rightarrow> [])"

text \<open>(C12) The report of a run counts every result of a step twice, although the collector counts it once and no sample is lost:
  for each result the collector sends a rate under the name of the step and one for all steps, both tagged with the step, and the summary takes
  both for the step.  So the number of requests, of successes and of failures in the report are twice those of the run.\<close>

theorem report_counts_twice:
  assumes "\<forall>(i, n, r) \<in> set recs. i \<noteq> []" "results_of stepID recs \<noteq> []" "length (views_of recs) \<le> cap"
    and "length (views_of recs) \<le> 2 ^ 52" "reorders tie"
  shows "\<exists>m d. GetStepMetrics hdr stepID (collecting hdr cap clock tags recs) = Some m \<and>
    build_detail tie duration (flushSamples (collected_samples (collecting hdr cap clock tags recs)) new_summary) stepID = Some d \<and>
    m_Count m = int (length (results_of stepID recs)) \<and> de_Count d = 2 * m_Count m \<and> de_SuccessCount d = 2 * m_SuccessCount m \<and>
    de_FailureCount d = 2 * (m_Count m - m_SuccessCount m)"
proof -
  let ?c = "collecting hdr cap clock tags recs" and ?e = "NewSampleEmitter cap clock tags" and ?rs = "results_of stepID recs"
  let ?s = "length (filter IsSuccess ?rs)"
  have "room ?e (length (views_of recs) + 0)" using assms(3) by (simp add: room_def kinds_ok_def NewSampleEmitter_def)
  from records_sent [OF this] obtain xs where sent: "sent ?e xs (foldl (\<lambda>e (i, n, r). emit_result i n r e) ?e recs)" and views: "map sample_view xs = views_of recs"
    by blast
  have xs: "collected_samples ?c = xs"
    using sent by (simp add: collected_samples_def collecting_def record_all_emitter SetSamplesChannel_def sent_def NewSampleEmitter_def)
  have lenr: "length ?rs \<le> length recs" "length recs \<le> length (views_of recs)"
    by (simp add: results_of_def, induction recs) (auto simp: views_of_def length_result_view)
  have "length xs = length (views_of recs)" using arg_cong [OF views, of length] by simp
  then have lenx: "length xs \<le> 2 ^ 53" using assms(4) by simp
  have id: "stepID \<noteq> []"
  proof
    assume "stepID = []"
    then have "results_of stepID recs = []" using assms(1) by (auto simp: results_of_def filter_empty_conv)
    then show False using assms(2) by simp
  qed
  have small: "int (length ?rs) \<le> 2 ^ 52" using lenr assms(4) by simp
  then have big: "2 * int (length ?rs) \<le> int64_max" "int (length ?rs) \<le> int64_max" by (simp_all add: int64_max_def)
  obtain t where t: "map_of (so_stepFailures (flushSamples xs new_summary)) stepID = Some t" "rk_Total t = 2 * int (length ?rs)" "rk_Trues t = 2 * int ?s"
    using flushed_counts [OF id assms(1) views assms(2) big(1)] by blast
  obtain d where d: "build_detail tie duration (flushSamples xs new_summary) stepID = Some (detail_failures (Some t) d)"
    using build_detail_defined [OF assms(5) lenx, of duration stepID] t(1) by auto
  have "?s \<le> length ?rs" by simp
  then have "0 \<le> rk_Trues t" "rk_Trues t \<le> rk_Total t" "0 < rk_Total t" "rk_Total t \<le> 2 ^ 53" using t(2,3) small assms(2) by simp_all
  note det = detail_of_rate [OF this, of d]
  have "GetStepMetrics hdr stepID ?c = Some (step_metrics_of hdr stepID (step_data_of hdr ?rs))"
    using assms(2) recorded_data [of hdr recs 0 stepID] by (simp add: GetStepMetrics_def collecting_def record_all_emitter_irrelevant)
  then show ?thesis using d det t(2,3) step_counts [OF big(2), of hdr] unfolding xs by (simp add: step_metrics_of_def)
qed

theorem report_counts_twice_witness:
  "\<exists>m d. GetStepMetrics unit_hdr ''a'' (collecting unit_hdr 1000 int [] sample_records) = Some m \<and>
    build_detail (\<lambda>xs. xs) f64_zero (flushSamples (collected_samples (collecting unit_hdr 1000 int [] sample_records)) new_summary) ''a'' = Some d \<and>
    m_Count m = 2 \<and> de_Count d = 4"
proof -
  have h: "\<forall>(i, n, r) \<in> set sample_records. i \<noteq> []" "results_of ''a'' sample_records \<noteq> []" "length (views_of sample_records) \<le> 1000"
    "length (views_of sample_records) \<le> 2 ^ 52"
    by (simp_all add: sample_records_def results_of_def views_of_def length_result_view timed_result_def)
  have "length (results_of ''a'' sample_records) = 2" by (simp add: sample_records_def results_of_def)
  then show ?thesis using report_counts_twice [OF h reorders_id, of unit_hdr int "[]" f64_zero] by fastforce
qed

text \<open>The errors of a run are never analysed: the samples of a result have no tag for the error.\<close>

lemma views_no_errors:
  assumes "\<forall>x \<in> set xs. tag (sm_Tags x) ''error'' = [] \<and> tag (sm_Metadata x) ''error'' = []"
  shows "so_errors (flushSamples xs new_summary) = []"
  using assms
proof (induction xs rule: rev_induct)
  case (snoc x xs)
  then show ?case by (simp add: flush_snoc processSample_def track_error_def Let_def)
qed (simp add: flushSamples_def new_summary_def)

end
