(* ===== verification/Sample_Logs.thy ===== *)
theory Sample_Logs
  imports Exec_Context
begin

text \<open>
  The collector of sampled requests (\<^verbatim>\<open>internal/slave/sample_log_collector.go\<close>).  The numbers that it draws at random are
  arguments; \<^verbatim>\<open>Intn(n)\<close> gives a number below \<^verbatim>\<open>n\<close>.  The output of an HTTP step is a struct whose fields are read by name.
\<close>

section \<open>The collector\<close>

type_synonym sampling_mode = gostring

definition SamplingModeNone :: sampling_mode where "SamplingModeNone = ''none''"
definition SamplingModeErrors :: sampling_mode where "SamplingModeErrors = ''errors''"
definition SamplingModeSmart :: sampling_mode where "SamplingModeSmart = ''smart''"

lemmas sampling_mode_defs = SamplingModeNone_def SamplingModeErrors_def SamplingModeSmart_def

definition defaultMaxSampleLogs :: nat where "defaultMaxSampleLogs = 1000"

record log_entry =
  le_ExecutionID :: gostring
  le_StepID :: gostring
  le_StepName :: gostring
  le_Timestamp :: int
  le_Status :: gostring
  le_DurationMs :: int
  le_RequestMethod :: goval
  le_RequestURL :: goval
  le_RequestHeaders :: goval
  le_RequestBody :: goval
  le_ResponseStatus :: goval
  le_ResponseHeaders :: goval
  le_ResponseBody :: goval
  le_ErrorMessage :: gostring

record log_collector =
  lc_mode :: sampling_mode
  lc_executionID :: gostring
  lc_logs :: "log_entry list"
  lc_maxLogs :: nat
  lc_totalCount :: int

definition NewSampleLogCollector :: "gostring \<Rightarrow> sampling_mode \<Rightarrow> log_collector" where
  "NewSampleLogCollector executionID mode =
     \<lparr>lc_mode = (if mode = [] then SamplingModeNone else mode), lc_executionID = executionID, lc_logs = [],
      lc_maxLogs = defaultMaxSampleLogs, lc_totalCount = 0\<rparr>"

definition ShouldSample :: "int \<Rightarrow> step_result \<Rightarrow> log_collector \<Rightarrow> bool" where
  "ShouldSample draw r c =
     (if lc_mode c = SamplingModeNone then False
      else if lc_mode c = SamplingModeErrors then failed_result r
      else if lc_mode c = SamplingModeSmart then
        failed_result r \<or> length (lc_logs c) < lc_maxLogs c \<or> draw < int (lc_maxLogs c)
      else False)"

definition truncateString :: "nat \<Rightarrow> goval \<Rightarrow> goval" where
  "truncateString maxLen v = (case v of VString s \<Rightarrow> VString (if length s \<le> maxLen then s else take maxLen s) | _ \<Rightarrow> v)"

definition struct_field :: "(gostring, goval) gomap \<Rightarrow> gostring \<Rightarrow> goval \<Rightarrow> goval" where
  "struct_field fs name zero = (case map_of fs name of Some v \<Rightarrow> v | None \<Rightarrow> zero)"

definition request_fields :: "goval \<Rightarrow> log_entry \<Rightarrow> log_entry" where
  "request_fields req en =
     (case req of
        VStruct ty fs \<Rightarrow>
          en\<lparr>le_RequestMethod := struct_field fs ''Method'' (VString []), le_RequestURL := struct_field fs ''URL'' (VString []),
             le_RequestHeaders := struct_field fs ''Headers'' VNil, le_RequestBody := truncateString 4096 (struct_field fs ''Body'' (VString []))\<rparr>
      | _ \<Rightarrow> en)"

definition buildEntry :: "gostring \<Rightarrow> gostring \<Rightarrow> step_result \<Rightarrow> log_collector \<Rightarrow> log_entry" where
  "buildEntry stepID stepName r c =
     (let en = \<lparr>le_ExecutionID = lc_executionID c, le_StepID = stepID, le_StepName = stepName, le_Timestamp = rs_StartTime r,
                le_Status = rs_Status r, le_DurationMs = Milliseconds (rs_Duration r), le_RequestMethod = VString [], le_RequestURL = VString [],
                le_RequestHeaders = VNil, le_RequestBody = VString [], le_ResponseStatus = VInt K_int 0, le_ResponseHeaders = VNil,
                le_ResponseBody = VString [], le_ErrorMessage = (case rs_Error r of Some e \<Rightarrow> error_text e | None \<Rightarrow> [])\<rparr>
      in case rs_Output r of
           VStruct ty fs \<Rightarrow>
             if ty = ''*types.HTTPResponseData''
             then request_fields (struct_field fs ''ActualRequest'' VNil)
                    (en\<lparr>le_ResponseStatus := struct_field fs ''StatusCode'' (VInt K_int 0), le_ResponseHeaders := struct_field fs ''Headers'' VNil,
                        le_ResponseBody := truncateString 4096 (struct_field fs ''Body'' (VString []))\<rparr>)
             else en
         | _ \<Rightarrow> en)"

text \<open>The first log of a successful request is replaced.\<close>

fun replace_success :: "log_entry \<Rightarrow> log_entry list \<Rightarrow> log_entry list" where
  "replace_success en [] = []"
| "replace_success en (l # ls) = (if le_Status l = ''success'' then en # ls else l # replace_success en ls)"

definition record_entry :: "nat \<Rightarrow> step_result \<Rightarrow> log_entry \<Rightarrow> log_collector \<Rightarrow> log_entry list" where
  "record_entry idx r en c =
     (if length (lc_logs c) < lc_maxLogs c then lc_logs c @ [en]
      else if lc_mode c = SamplingModeSmart \<and> rs_Status r = ResultStatusSuccess then
        (if le_Status (lc_logs c ! idx) = ''success'' then (lc_logs c)[idx := en] else lc_logs c)
      else replace_success en (lc_logs c))"

definition Record_log :: "nat \<Rightarrow> gostring \<Rightarrow> gostring \<Rightarrow> step_result \<Rightarrow> log_collector \<Rightarrow> log_collector" where
  "Record_log idx stepID stepName r c =
     (let c' = c\<lparr>lc_totalCount := wrap64 (lc_totalCount c + 1)\<rparr>
      in c'\<lparr>lc_logs := record_entry idx r (buildEntry stepID stepName r c') c'\<rparr>)"

definition recordSampleLog :: "int \<Rightarrow> nat \<Rightarrow> gostring \<Rightarrow> gostring \<Rightarrow> step_result \<Rightarrow> log_collector option \<Rightarrow> log_collector option" where
  "recordSampleLog draw idx stepID stepName r c =
     map_option (\<lambda>c. if ShouldSample draw r c then Record_log idx stepID stepName r c else c) c"

definition GetLogs :: "log_collector \<Rightarrow> log_entry list" where
  "GetLogs c = lc_logs c"

definition log_Count :: "log_collector \<Rightarrow> nat" where
  "log_Count c = length (lc_logs c)"

section \<open>Failures are kept\<close>

text \<open>The logs of requests that did not succeed, in order.\<close>

definition failures_logged :: "log_collector \<Rightarrow> log_entry list" where
  "failures_logged c = filter (\<lambda>l. le_Status l \<noteq> ''success'') (lc_logs c)"

lemma entry_status [simp]: "le_Status (buildEntry stepID stepName r c) = rs_Status r"
  by (simp add: buildEntry_def request_fields_def Let_def split: goval.splits)

lemma set_replace_success: "{l \<in> set ls. le_Status l \<noteq> ''success''} \<subseteq> set (replace_success en ls)" "length (replace_success en ls) = length ls"
  "set (replace_success en ls) \<subseteq> insert en (set ls)"
  "\<exists>l \<in> set ls. le_Status l = ''success'' \<Longrightarrow> en \<in> set (replace_success en ls)"
  by (induction ls) auto

text \<open>The collector keeps at most its maximum of logs.  A log of a request that did not succeed is never displaced, and a new one is
  always taken when there is room or a successful request whose log can make place.\<close>

theorem failures_kept:
  assumes "length (lc_logs c) \<le> lc_maxLogs c" "idx < lc_maxLogs c"
  shows "let c' = Record_log idx stepID stepName r c in
    length (lc_logs c') \<le> lc_maxLogs c' \<and> lc_maxLogs c' = lc_maxLogs c \<and>
    set (failures_logged c) \<subseteq> set (failures_logged c') \<and>
    (rs_Status r \<noteq> ResultStatusSuccess \<and> (length (lc_logs c) < lc_maxLogs c \<or> (\<exists>l \<in> set (lc_logs c). le_Status l = ''success'')) \<longrightarrow>
       (\<exists>l \<in> set (failures_logged c'). le_StepID l = stepID \<and> le_Status l = rs_Status r))"
proof -
  let ?c = "c\<lparr>lc_totalCount := wrap64 (lc_totalCount c + 1)\<rparr>"
  let ?en = "buildEntry stepID stepName r ?c"
  have id: "le_StepID ?en = stepID" by (simp add: buildEntry_def request_fields_def Let_def split: goval.splits)
  have upd: "{l \<in> set ls. le_Status l \<noteq> ''success''} \<subseteq> set (ls[idx := x])" if "le_Status (ls ! idx) = ''success''" for ls and x :: log_entry
  proof
    fix l assume "l \<in> {l \<in> set ls. le_Status l \<noteq> ''success''}"
    then obtain k where "k < length ls" "ls ! k = l" "le_Status l \<noteq> ''success''" by (auto simp: in_set_conv_nth)
    then show "l \<in> set (ls[idx := x])" using that by (metis length_list_update nth_list_update_neq nth_mem)
  qed
  have kept: "{l \<in> set (lc_logs c). le_Status l \<noteq> ''success''} \<subseteq> set (record_entry idx r ?en ?c)"
    using upd [of "lc_logs c" ?en] set_replace_success(1) [of "lc_logs c" ?en] by (auto simp: record_entry_def)
  have len: "length (record_entry idx r ?en ?c) \<le> lc_maxLogs c" using assms(1) by (simp add: record_entry_def set_replace_success)
  have new: "?en \<in> set (record_entry idx r ?en ?c)"
    if "rs_Status r \<noteq> ResultStatusSuccess" "length (lc_logs c) < lc_maxLogs c \<or> (\<exists>l \<in> set (lc_logs c). le_Status l = ''success'')"
    using that set_replace_success(4) [of "lc_logs c" ?en] by (auto simp: record_entry_def)
  have st: "le_Status ?en = rs_Status r" by simp
  have logged: "set (failures_logged (Record_log idx stepID stepName r c)) = {l \<in> set (record_entry idx r ?en ?c). le_Status l \<noteq> ''success''}"
    by (auto simp: Record_log_def failures_logged_def Let_def)
  have "\<exists>l \<in> set (failures_logged (Record_log idx stepID stepName r c)). le_StepID l = stepID \<and> le_Status l = rs_Status r"
    if "rs_Status r \<noteq> ResultStatusSuccess" "length (lc_logs c) < lc_maxLogs c \<or> (\<exists>l \<in> set (lc_logs c). le_Status l = ''success'')"
    using new [OF that] id st that(1) unfolding logged by (intro bexI [of _ ?en]) (auto simp: ResultStatusSuccess_def)
  moreover have "set (failures_logged c) \<subseteq> set (failures_logged (Record_log idx stepID stepName r c))"
    using kept unfolding logged by (auto simp: failures_logged_def)
  moreover have "length (lc_logs (Record_log idx stepID stepName r c)) \<le> lc_maxLogs c" "lc_maxLogs (Record_log idx stepID stepName r c) = lc_maxLogs c"
    using len by (simp_all add: Record_log_def Let_def)
  ultimately show ?thesis by (simp add: Let_def)
qed

theorem failures_kept_witness:
  "length (lc_logs (Record_log 0 ''a'' ''A'' \<lparr>rs_StepID = ''a'', rs_Status = ResultStatusFailed, rs_StartTime = 0, rs_EndTime = 5, rs_Duration = 5,
     rs_Output = VNil, rs_Error = None, rs_Metrics = []\<rparr> (NewSampleLogCollector ''e'' SamplingModeErrors))) \<le> 1000"
proof -
  have h: "length (lc_logs (NewSampleLogCollector ''e'' SamplingModeErrors)) \<le> lc_maxLogs (NewSampleLogCollector ''e'' SamplingModeErrors)"
    "0 < lc_maxLogs (NewSampleLogCollector ''e'' SamplingModeErrors)"
    by (simp_all add: NewSampleLogCollector_def defaultMaxSampleLogs_def)
  have "lc_maxLogs (NewSampleLogCollector ''e'' SamplingModeErrors) = 1000" by (simp add: NewSampleLogCollector_def defaultMaxSampleLogs_def)
  then show ?thesis using failures_kept [OF h] unfolding Let_def by metis
qed

end
