(* ===== verification/Go_Chan.thy ===== *)
theory Go_Chan
  imports Prelude
begin

text \<open>
  Buffered channels of Go, as the code uses them between handlers and goroutines: sends and receives in a \<^verbatim>\<open>select\<close> with a
  default case, \<^verbatim>\<open>close\<close>, and the loop that takes everything that waits.  A send to a closed channel panics; a
  receive from a closed, empty one gives the zero value at once, again and again.  The
  locale \<open>bounded_fifo\<close> states what a user of a queue relies on.
\<close>

section \<open>Operations\<close>

record 'a gochan =
  gc_items :: "'a list"
  gc_cap :: nat
  gc_shut :: bool

definition make_chan :: "nat \<Rightarrow> 'a gochan" where
  "make_chan n = \<lparr>gc_items = [], gc_cap = n, gc_shut = False\<rparr>"

datatype 'a sent = Sent "'a gochan" | ChanFull | ChanPanic

definition try_send :: "'a \<Rightarrow> 'a gochan \<Rightarrow> 'a sent" where
  "try_send x c =
     (if gc_shut c then ChanPanic
      else if length (gc_items c) < gc_cap c then Sent (c\<lparr>gc_items := gc_items c @ [x]\<rparr>)
      else ChanFull)"

datatype 'a received = Received 'a "'a gochan" | ZeroValue | ChanEmpty

definition try_recv :: "'a gochan \<Rightarrow> 'a received" where
  "try_recv c =
     (case gc_items c of
        x # xs \<Rightarrow> Received x (c\<lparr>gc_items := xs\<rparr>)
      | [] \<Rightarrow> if gc_shut c then ZeroValue else ChanEmpty)"

definition close_chan :: "'a gochan \<Rightarrow> 'a gochan" where
  "close_chan c = c\<lparr>gc_shut := True\<rparr>"

text \<open>The loop over non-blocking receives until the default case.  An element \<open>None\<close> is the nil that a closed channel gives.\<close>

partial_function (option) recv_all :: "'a gochan \<Rightarrow> 'a option list \<Rightarrow> ('a option list \<times> 'a gochan) option" where
  "recv_all c acc =
     (case try_recv c of
        Received x c' \<Rightarrow> recv_all c' (acc @ [Some x])
      | ZeroValue \<Rightarrow> recv_all c (acc @ [None])
      | ChanEmpty \<Rightarrow> Some (acc, c))"

section \<open>Properties\<close>

definition chan_ok :: "'a gochan \<Rightarrow> bool" where
  "chan_ok c \<longleftrightarrow> length (gc_items c) \<le> gc_cap c"

lemma chan_ok_make [simp]: "chan_ok (make_chan n)"
  by (simp add: chan_ok_def make_chan_def)

lemma make_chan_sel [simp]:
  "gc_items (make_chan n) = []" "gc_cap (make_chan n) = n" "gc_shut (make_chan n) = False"
  by (simp_all add: make_chan_def)

lemma try_send_Sent:
  assumes "try_send x c = Sent c'"
  shows "gc_items c' = gc_items c @ [x]" "gc_cap c' = gc_cap c" "gc_shut c' = gc_shut c" "\<not> gc_shut c"
    "length (gc_items c) < gc_cap c"
  using assms by (auto simp: try_send_def split: if_splits)

lemma chan_ok_sent: "try_send x c = Sent c' \<Longrightarrow> chan_ok c'"
  by (auto simp: try_send_def chan_ok_def split: if_splits)

text \<open>Emptying an open channel returns what it holds, in order.\<close>

lemma recv_all_open:
  assumes "\<not> gc_shut c"
  shows "recv_all c acc = Some (acc @ map Some (gc_items c), c\<lparr>gc_items := []\<rparr>)"
  using assms
proof (induction "gc_items c" arbitrary: c acc)
  case Nil
  then have "c\<lparr>gc_items := []\<rparr> = c" by (cases c) simp
  with Nil show ?case by (subst recv_all.simps) (simp add: try_recv_def Nil(1)[symmetric])
next
  case (Cons x xs)
  then show ?case by (subst recv_all.simps) (simp add: try_recv_def Cons(2)[symmetric] Cons(1))
qed

text \<open>Emptying a closed channel does not return.\<close>

lemma recv_all_returns:
  assumes "recv_all c acc = Some r"
  shows "\<not> gc_shut c"
proof (rule recv_all.raw_induct [where P = "\<lambda>c acc r. \<not> gc_shut c", OF _ assms])
  fix f and c :: "'a gochan" and acc r
  assume f: "\<And>c acc y. f c acc = Some y \<Longrightarrow> \<not> gc_shut c"
    and r: "(case try_recv c of
        Received x c' \<Rightarrow> f c' (acc @ [Some x])
      | ZeroValue \<Rightarrow> f c (acc @ [None])
      | ChanEmpty \<Rightarrow> Some (acc, c)) = Some r"
  then show "\<not> gc_shut c" by (cases "gc_items c") (auto simp: try_recv_def split: if_splits dest: f)
qed

lemma recv_all_shut: "gc_shut c \<Longrightarrow> recv_all c acc = None"
  using recv_all_returns by (cases "recv_all c acc") auto

section \<open>Bounded queues\<close>

text \<open>Adding at the back until the queue is full, and taking everything.\<close>

locale bounded_fifo =
  fixes put :: "'a \<Rightarrow> 'q \<Rightarrow> 'q option"
    and take_all :: "'q \<Rightarrow> 'a list \<times> 'q"
    and contents :: "'q \<Rightarrow> 'a list"
    and room :: "'q \<Rightarrow> nat"
    and usable :: "'q \<Rightarrow> bool"
  assumes put_room: "usable q \<Longrightarrow> 0 < room q \<Longrightarrow>
      \<exists>q'. put x q = Some q' \<and> usable q' \<and> contents q' = contents q @ [x] \<and> room q = Suc (room q')"
    and put_full: "usable q \<Longrightarrow> room q = 0 \<Longrightarrow> put x q = None"
    and take_contents: "usable q \<Longrightarrow> fst (take_all q) = contents q"
    and take_empties: "usable q \<Longrightarrow> usable (snd (take_all q)) \<and> contents (snd (take_all q)) = []"
begin

primrec put_list :: "'a list \<Rightarrow> 'q \<Rightarrow> 'q option" where
  "put_list [] q = Some q"
| "put_list (x # xs) q = (case put x q of None \<Rightarrow> None | Some q' \<Rightarrow> put_list xs q')"

lemma put_list_room:
  assumes "usable q" "length xs \<le> room q"
  shows "\<exists>q'. put_list xs q = Some q' \<and> usable q' \<and> contents q' = contents q @ xs"
  using assms
proof (induction xs arbitrary: q)
  case (Cons x xs)
  then obtain q' where q': "put x q = Some q'" "usable q'" "contents q' = contents q @ [x]" "room q = Suc (room q')"
    using put_room [of q x] by auto
  then show ?case using Cons.IH [of q'] Cons.prems(2) by auto
qed simp

lemma put_list_full:
  assumes "usable q" "room q < length xs"
  shows "put_list xs q = None"
  using assms
proof (induction xs arbitrary: q)
  case (Cons x xs)
  show ?case
  proof (cases "room q = 0")
    case False
    then obtain q' where "put x q = Some q'" "usable q'" "room q = Suc (room q')"
      using put_room [of q x] Cons.prems(1) by auto
    then show ?thesis using Cons.IH [of q'] Cons.prems(2) by auto
  qed (simp add: put_full Cons.prems(1))
qed simp

lemma put_then_take:
  assumes "usable q" "contents q = []" "put_list xs q = Some q'"
  shows "fst (take_all q') = xs"
proof -
  have "length xs \<le> room q" using assms put_list_full [of q xs] by (metis leI option.distinct(1))
  then show ?thesis using put_list_room [OF assms(1)] take_contents assms(2,3) by fastforce
qed

end

text \<open>An open channel is such a queue.\<close>

definition chan_put :: "'a \<Rightarrow> 'a gochan \<Rightarrow> 'a gochan option" where
  "chan_put x c = (case try_send x c of Sent c' \<Rightarrow> Some c' | _ \<Rightarrow> None)"

definition chan_take_all :: "'a gochan \<Rightarrow> 'a list \<times> 'a gochan" where
  "chan_take_all c = (case recv_all c [] of None \<Rightarrow> ([], c) | Some (xs, c') \<Rightarrow> (map the (filter (\<lambda>x. x \<noteq> None) xs), c'))"

lemma chan_take_all_open:
  assumes "\<not> gc_shut c"
  shows "chan_take_all c = (gc_items c, c\<lparr>gc_items := []\<rparr>)"
  by (simp add: chan_take_all_def recv_all_open [OF assms] comp_def)

interpretation chan: bounded_fifo chan_put chan_take_all gc_items "\<lambda>c. gc_cap c - length (gc_items c)" "\<lambda>c. \<not> gc_shut c"
  by unfold_locales (auto simp: chan_put_def try_send_def chan_take_all_open)

end
