(* ===== verification/Slave_Server.thy ===== *)
theory Slave_Server
  imports Slave_Registry Workflow_Types Executor_Errors Go_Chan
begin

text \<open>
  The side of the master that the slaves talk to: the handlers of \<^verbatim>\<open>api/rest/handlers.go\<close> for slaves, with the queues of tasks and
  commands, and the hub of WebSocket connections (\<^verbatim>\<open>api/rest/slave_ws.go\<close>).  A handler is a function from the parsed
  request and the state of the server to the reply and the new state; what the web framework makes of the bytes of a body, and
  the encoder of JSON, are arguments.  The parts of a handler between which locks are released
  are definitions of their own.
\<close>

definition txt_slave_nil :: gostring where
  "txt_slave_nil = ''Slave '' @ utf8 [0xE4, 0xB8, 0x8D, 0xE8, 0x83, 0xBD, 0xE4, 0xB8, 0xBA, 0xE7, 0xA9, 0xBA]"

definition txt_slave_id_empty :: gostring where
  "txt_slave_id_empty = ''Slave ID '' @ utf8 [0xE4, 0xB8, 0x8D, 0xE8, 0x83, 0xBD, 0xE4, 0xB8, 0xBA, 0xE7, 0xA9, 0xBA]"

definition txt_slave_exists :: gostring where
  "txt_slave_exists = ''Slave '' @ utf8 [0xE5, 0xB7, 0xB2, 0xE6, 0xB3, 0xA8, 0xE5, 0x86, 0x8C] @ '': ''"

definition txt_slave_missing :: gostring where
  "txt_slave_missing = ''Slave '' @ utf8 [0xE6, 0x9C, 0xAA, 0xE6, 0x89, 0xBE, 0xE5, 0x88, 0xB0] @ '': ''"

section \<open>Messages\<close>

record register_request =
  rr_SlaveID :: gostring
  rr_SlaveType :: gostring
  rr_Capabilities :: "gostring list"
  rr_Labels :: "(gostring, gostring) gomap option"
  rr_Address :: gostring
  rr_Resources :: "resource_info option"

record register_response =
  rp_Accepted :: bool
  rp_AssignedID :: gostring
  rp_Error :: gostring
  rp_HeartbeatInterval :: int
  rp_MasterID :: gostring
  rp_Version :: gostring

record api_status =
  ai_State :: gostring
  ai_Load :: float64
  ai_ActiveTasks :: int
  ai_LastSeen :: int
  ai_Metrics :: "slave_metrics option"

record heartbeat_request =
  hb_SlaveID :: gostring
  hb_Status :: "api_status option"
  hb_Timestamp :: int

record control_command =
  cc_Type :: gostring
  cc_ExecutionID :: gostring
  cc_Params :: "(gostring, gostring) gomap"

record api_stage =
  ag_DurationMs :: int
  ag_Target :: int
  ag_Name :: gostring

record api_options =
  ao_VUs :: int
  ao_DurationMs :: int
  ao_Iterations :: int
  ao_ExecutionMode :: gostring
  ao_Stages :: "api_stage list"

record task_assignment =
  ta_TaskID :: gostring
  ta_ExecutionID :: gostring
  ta_Workflow :: "workflow option"
  ta_Segment :: "execution_segment option"
  ta_Options :: "api_options option"

record error_request =
  er_Code :: gostring
  er_Message :: gostring
  er_StepID :: gostring
  er_Timestamp :: int

record result_request =
  tq_TaskID :: gostring
  tq_ExecutionID :: gostring
  tq_SlaveID :: gostring
  tq_Status :: gostring
  tq_Result :: "(gostring, goval) gomap"
  tq_Errors :: "error_request list"

record metrics_data =
  md_TotalVUs :: int
  md_TotalIterations :: int
  md_DurationMs :: int

record metrics_request =
  mq_SlaveID :: gostring
  mq_ExecutionID :: gostring
  mq_Timestamp :: int
  mq_Metrics :: "metrics_data option"
  mq_StepMetrics :: "(gostring, step_metrics) gomap"

type_synonym ws_type = gostring

definition WSMsgTaskAssign :: ws_type where "WSMsgTaskAssign = ''task_assign''"
definition WSMsgCommand :: ws_type where "WSMsgCommand = ''command''"
definition WSMsgPing :: ws_type where "WSMsgPing = ''ping''"
definition WSMsgRegisterAck :: ws_type where "WSMsgRegisterAck = ''register_ack''"
definition WSMsgRegister :: ws_type where "WSMsgRegister = ''register''"
definition WSMsgHeartbeat :: ws_type where "WSMsgHeartbeat = ''heartbeat''"
definition WSMsgTaskResult :: ws_type where "WSMsgTaskResult = ''task_result''"
definition WSMsgMetrics :: ws_type where "WSMsgMetrics = ''metrics''"
definition WSMsgPong :: ws_type where "WSMsgPong = ''pong''"

record ws_message =
  ws_Type :: ws_type
  ws_Data :: "gostring option"

text \<open>Replies; a panic is recovered by the framework, and a handler may also not return.\<close>

datatype api_body =
    B_Error gostring gostring
  | B_Register register_response
  | B_Heartbeat "control_command option list" int
  | B_Tasks "task_assignment option list"
  | B_Result bool gostring
  | B_Metrics bool gostring
  | B_Unregister bool gostring
  | B_Success bool gostring

datatype reply = Reply int api_body | Panicked | Hangs

fun reg_error_text :: "reg_error \<Rightarrow> gostring" where
  "reg_error_text SlaveIsNil = txt_slave_nil"
| "reg_error_text SlaveIDEmpty = txt_slave_id_empty"
| "reg_error_text (AlreadyRegistered i) = txt_slave_exists @ i"
| "reg_error_text (SlaveNotFound i) = txt_slave_missing @ i"
| "reg_error_text NilDereference = []"
| "reg_error_text SendOnClosed = []"

section \<open>Queues\<close>

text \<open>A map from slaves to channels; the channels are heap objects, since a handler may hold one that is no longer in the map.\<close>

record 'a queues =
  qs_map :: "(gostring, nat) gomap"
  qs_chan :: "nat \<Rightarrow> 'a gochan option"
  qs_next :: nat

definition no_queues :: "'a queues" where
  "no_queues = \<lparr>qs_map = [], qs_chan = Map.empty, qs_next = 0\<rparr>"

definition queue_capacity :: nat where
  "queue_capacity = 100"

definition queue_of :: "gostring \<Rightarrow> 'a queues \<Rightarrow> nat \<times> 'a queues" where
  "queue_of i qs =
     (case map_of (qs_map qs) i of
        Some q \<Rightarrow> (q, qs)
      | None \<Rightarrow>
          (qs_next qs,
           qs\<lparr>qs_map := AList.update i (qs_next qs) (qs_map qs),
              qs_chan := (qs_chan qs)(qs_next qs \<mapsto> make_chan queue_capacity),
              qs_next := Suc (qs_next qs)\<rparr>))"

datatype send_error = SendTimeout gostring | SendPanic

text \<open>The send waits for room for five seconds at most.  When it is still full then, the send fails; a send that had to wait is this step at
  the moment at which there is room.\<close>

definition send_queue :: "gostring \<Rightarrow> nat \<Rightarrow> 'a \<Rightarrow> 'a queues \<Rightarrow> (send_error + unit) \<times> 'a queues" where
  "send_queue i q x qs =
     (case qs_chan qs q of
        None \<Rightarrow> (Inl (SendTimeout i), qs)
      | Some c \<Rightarrow>
          (case try_send x c of
             Sent c' \<Rightarrow> (Inr (), qs\<lparr>qs_chan := (qs_chan qs)(q \<mapsto> c')\<rparr>)
           | ChanFull \<Rightarrow> (Inl (SendTimeout i), qs)
           | ChanPanic \<Rightarrow> (Inl SendPanic, qs)))"

definition enqueue :: "gostring \<Rightarrow> 'a \<Rightarrow> 'a queues \<Rightarrow> (send_error + unit) \<times> 'a queues" where
  "enqueue i x qs = (let (q, qs1) = queue_of i qs in send_queue i q x qs1)"

definition pending :: "gostring \<Rightarrow> 'a queues \<Rightarrow> ('a option list \<times> 'a queues) option" where
  "pending i qs =
     (case map_of (qs_map qs) i of
        None \<Rightarrow> Some ([], qs)
      | Some q \<Rightarrow>
          (case qs_chan qs q of
             None \<Rightarrow> Some ([], qs)
           | Some c \<Rightarrow>
               (case recv_all c [] of
                  None \<Rightarrow> None
                | Some (xs, c') \<Rightarrow> Some (xs, qs\<lparr>qs_chan := (qs_chan qs)(q \<mapsto> c')\<rparr>))))"

definition cleanup_queue :: "gostring \<Rightarrow> 'a queues \<Rightarrow> 'a queues" where
  "cleanup_queue i qs =
     (case map_of (qs_map qs) i of
        None \<Rightarrow> qs
      | Some q \<Rightarrow>
          qs\<lparr>qs_map := AList.delete i (qs_map qs),
             qs_chan := (qs_chan qs)(q := map_option close_chan (qs_chan qs q))\<rparr>)"

section \<open>The server\<close>

record ws_conn =
  wc_slaveID :: gostring
  wc_send :: "ws_message gochan"
  wc_done :: bool
  wc_writing :: bool

record rest_server =
  sv_registry :: "registry option"
  sv_conns :: "(gostring, nat) gomap"
  sv_ws :: "nat \<Rightarrow> ws_conn option"
  sv_nextConn :: nat
  sv_taskQueues :: "task_assignment queues"
  sv_commandQueues :: "control_command queues"

definition NewServer :: "registry option \<Rightarrow> rest_server" where
  "NewServer reg =
     \<lparr>sv_registry = reg, sv_conns = [], sv_ws = Map.empty, sv_nextConn = 0,
      sv_taskQueues = no_queues, sv_commandQueues = no_queues\<rparr>"

subsection \<open>Conversions\<close>

definition slave_info_of :: "register_request \<Rightarrow> slave_info" where
  "slave_info_of q =
     \<lparr>s_ID = rr_SlaveID q, s_Type = rr_SlaveType q, s_Address = rr_Address q, s_Capabilities = rr_Capabilities q,
      s_Labels = rr_Labels q, s_Resources = rr_Resources q\<rparr>"

definition status_of :: "int \<Rightarrow> api_status \<Rightarrow> slave_status" where
  "status_of now a =
     \<lparr>st_State = ai_State a, st_Load = ai_Load a, st_ActiveTasks = ai_ActiveTasks a, st_LastSeen = now,
      st_Metrics = ai_Metrics a\<rparr>"

definition accepted :: "gostring \<Rightarrow> int \<Rightarrow> register_response" where
  "accepted i interval =
     \<lparr>rp_Accepted = True, rp_AssignedID = i, rp_Error = [], rp_HeartbeatInterval = interval,
      rp_MasterID = ''master-1'', rp_Version = ''1.0.0''\<rparr>"

definition rejected :: "reg_error \<Rightarrow> register_response" where
  "rejected e =
     \<lparr>rp_Accepted = False, rp_AssignedID = [], rp_Error = ''Registration failed: '' @ reg_error_text e,
      rp_HeartbeatInterval = 0, rp_MasterID = [], rp_Version = []\<rparr>"

definition invalid_request :: "gostring \<Rightarrow> reply" where
  "invalid_request msg = Reply 400 (B_Error ''invalid_request'' msg)"

definition unparsed :: "gostring \<Rightarrow> reply" where
  "unparsed e = invalid_request (''Failed to parse request body: '' @ e)"

definition no_registry :: reply where
  "no_registry = Reply 503 (B_Error ''service_unavailable'' ''Slave registry is not available'')"

subsection \<open>Handlers\<close>

definition registerSlave :: "int \<Rightarrow> gostring + register_request \<Rightarrow> rest_server \<Rightarrow> reply \<times> rest_server" where
  "registerSlave now req s =
     (case req of
        Inl e \<Rightarrow> (unparsed e, s)
      | Inr q \<Rightarrow>
          if rr_SlaveID q = [] then (invalid_request ''Slave ID is required'', s)
          else if rr_Address q = [] then (invalid_request ''Address is required'', s)
          else
            (case sv_registry s of
               None \<Rightarrow> (no_registry, s)
             | Some r \<Rightarrow>
                 (case Register now (Some (slave_info_of q)) r of
                    (Inl e, r') \<Rightarrow>
                      (if is_panic (Inl e :: reg_error + unit) then Panicked else Reply 500 (B_Register (rejected e)),
                       s\<lparr>sv_registry := Some r'\<rparr>)
                  | (Inr _, r') \<Rightarrow>
                      (Reply 201 (B_Register (accepted (rr_SlaveID q) 5000)), s\<lparr>sv_registry := Some r'\<rparr>))))"

definition getPendingCommands :: "gostring \<Rightarrow> rest_server \<Rightarrow> (control_command option list \<times> rest_server) option" where
  "getPendingCommands i s =
     map_option (\<lambda>(xs, qs). (xs, s\<lparr>sv_commandQueues := qs\<rparr>)) (pending i (sv_commandQueues s))"

definition getPendingTasks :: "gostring \<Rightarrow> rest_server \<Rightarrow> (task_assignment option list \<times> rest_server) option" where
  "getPendingTasks i s =
     map_option (\<lambda>(xs, qs). (xs, s\<lparr>sv_taskQueues := qs\<rparr>)) (pending i (sv_taskQueues s))"

definition heartbeat_reply :: "gostring \<Rightarrow> int \<Rightarrow> rest_server \<Rightarrow> reply \<times> rest_server" where
  "heartbeat_reply i now s =
     (case getPendingCommands i s of
        None \<Rightarrow> (Hangs, s)
      | Some (cmds, s') \<Rightarrow> (Reply 200 (B_Heartbeat cmds now), s'))"

definition slaveHeartbeat ::
  "int \<Rightarrow> gostring \<Rightarrow> gostring + heartbeat_request \<Rightarrow> rest_server \<Rightarrow> reply \<times> rest_server" where
  "slaveHeartbeat now i req s =
     (if i = [] then (invalid_request ''Slave ID is required'', s)
      else case req of
        Inl e \<Rightarrow> (unparsed e, s)
      | Inr q \<Rightarrow>
          (case sv_registry s of
             None \<Rightarrow> (no_registry, s)
           | Some r \<Rightarrow>
               (case GetSlave r i of
                  Inl e \<Rightarrow> (Reply 404 (B_Error ''not_found'' (''Slave not found: '' @ reg_error_text e)), s)
                | Inr _ \<Rightarrow>
                    (case hb_Status q of
                       None \<Rightarrow> heartbeat_reply i now s
                     | Some a \<Rightarrow>
                         (case UpdateStatus i (Some (status_of now a)) r of
                            (Inl e, r') \<Rightarrow>
                              (if is_panic (Inl e :: reg_error + unit) then Panicked
                               else Reply 500 (B_Error ''update_failed''
                                      (''Failed to update slave status: '' @ reg_error_text e)),
                               s\<lparr>sv_registry := Some r'\<rparr>)
                          | (Inr _, r') \<Rightarrow> heartbeat_reply i now (s\<lparr>sv_registry := Some r'\<rparr>))))))"

definition getSlaveTasks :: "gostring \<Rightarrow> rest_server \<Rightarrow> reply \<times> rest_server" where
  "getSlaveTasks i s =
     (if i = [] then (invalid_request ''Slave ID is required'', s)
      else case sv_registry s of
        None \<Rightarrow> (no_registry, s)
      | Some r \<Rightarrow>
          (case GetSlave r i of
             Inl e \<Rightarrow> (Reply 404 (B_Error ''not_found'' (''Slave not found: '' @ reg_error_text e)), s)
           | Inr _ \<Rightarrow>
               (case getPendingTasks i s of
                  None \<Rightarrow> (Hangs, s)
                | Some (tasks, s') \<Rightarrow> (Reply 200 (B_Tasks tasks), s'))))"

definition receiveTaskResult :: "gostring \<Rightarrow> gostring + result_request \<Rightarrow> rest_server \<Rightarrow> reply \<times> rest_server" where
  "receiveTaskResult taskID req s =
     (if taskID = [] then (invalid_request ''Task ID is required'', s)
      else case req of
        Inl e \<Rightarrow> (unparsed e, s)
      | Inr q \<Rightarrow>
          if tq_ExecutionID q = [] then (invalid_request ''Execution ID is required'', s)
          else if tq_SlaveID q = [] then (invalid_request ''Slave ID is required'', s)
          else (Reply 200 (B_Result True ''Task result received successfully''), s))"

definition receiveMetricsReport :: "gostring \<Rightarrow> gostring + metrics_request \<Rightarrow> rest_server \<Rightarrow> reply \<times> rest_server" where
  "receiveMetricsReport executionID req s =
     (if executionID = [] then (invalid_request ''Execution ID is required'', s)
      else case req of
        Inl e \<Rightarrow> (unparsed e, s)
      | Inr q \<Rightarrow>
          if mq_SlaveID q = [] then (invalid_request ''Slave ID is required'', s)
          else (Reply 200 (B_Metrics True []), s))"

definition cleanupSlaveQueues :: "gostring \<Rightarrow> rest_server \<Rightarrow> rest_server" where
  "cleanupSlaveQueues i s =
     s\<lparr>sv_taskQueues := cleanup_queue i (sv_taskQueues s), sv_commandQueues := cleanup_queue i (sv_commandQueues s)\<rparr>"

definition unregisterSlave :: "gostring \<Rightarrow> rest_server \<Rightarrow> reply \<times> rest_server" where
  "unregisterSlave i s =
     (if i = [] then (invalid_request ''Slave ID is required'', s)
      else case sv_registry s of
        None \<Rightarrow> (no_registry, s)
      | Some r \<Rightarrow>
          (case Unregister i r of
             (Inl e, r') \<Rightarrow>
               (if is_panic (Inl e :: reg_error + unit) then Panicked
                else Reply 500 (B_Error ''unregister_failed'' (''Failed to unregister slave: '' @ reg_error_text e)),
                s\<lparr>sv_registry := Some r'\<rparr>)
           | (Inr _, r') \<Rightarrow>
               (Reply 200 (B_Unregister True ''Slave unregistered successfully''),
                cleanupSlaveQueues i (s\<lparr>sv_registry := Some r'\<rparr>))))"

definition drainSlave :: "gostring \<Rightarrow> rest_server \<Rightarrow> reply \<times> rest_server" where
  "drainSlave i s =
     (if i = [] then (invalid_request ''Slave ID is required'', s)
      else case sv_registry s of
        None \<Rightarrow> (Reply 404 (B_Error ''not_found'' ''Slave not found''), s)
      | Some r \<Rightarrow>
          (case DrainSlave i r of
             (Inl e, r') \<Rightarrow>
               (if is_panic (Inl e :: reg_error + unit) then Panicked
                else Reply 500 (B_Error ''drain_failed'' (''Failed to drain slave: '' @ reg_error_text e)),
                s\<lparr>sv_registry := Some r'\<rparr>)
           | (Inr _, r') \<Rightarrow> (Reply 200 (B_Success True ''Slave drain initiated successfully''), s\<lparr>sv_registry := Some r'\<rparr>)))"

subsection \<open>The hub\<close>

definition HasConn :: "gostring \<Rightarrow> rest_server \<Rightarrow> bool" where
  "HasConn i s \<longleftrightarrow> map_of (sv_conns s) i \<noteq> None"

datatype ws_error = NotConnectedWS gostring | SendBufferFull gostring | MarshalFailed

text \<open>The channel of a connection is never closed.\<close>

definition sendToSlave :: "gostring \<Rightarrow> ws_message \<Rightarrow> rest_server \<Rightarrow> (ws_error + unit) \<times> rest_server" where
  "sendToSlave i msg s =
     (case map_of (sv_conns s) i of
        None \<Rightarrow> (Inl (NotConnectedWS i), s)
      | Some k \<Rightarrow>
          (case sv_ws s k of
             None \<Rightarrow> (Inl (NotConnectedWS i), s)
           | Some c \<Rightarrow>
               (case try_send msg (wc_send c) of
                  Sent ch \<Rightarrow> (Inr (), s\<lparr>sv_ws := (sv_ws s)(k \<mapsto> c\<lparr>wc_send := ch\<rparr>)\<rparr>)
                | _ \<Rightarrow> (Inl (SendBufferFull i), s))))"

type_synonym 'a encoder = "'a \<Rightarrow> gostring option"

definition PushTask ::
  "task_assignment encoder \<Rightarrow> gostring \<Rightarrow> task_assignment \<Rightarrow> rest_server \<Rightarrow> (ws_error + unit) \<times> rest_server" where
  "PushTask enc i t s =
     (case enc t of
        None \<Rightarrow> (Inl MarshalFailed, s)
      | Some d \<Rightarrow> sendToSlave i \<lparr>ws_Type = WSMsgTaskAssign, ws_Data = Some d\<rparr> s)"

definition PushCommand ::
  "control_command encoder \<Rightarrow> gostring \<Rightarrow> control_command \<Rightarrow> rest_server \<Rightarrow> (ws_error + unit) \<times> rest_server" where
  "PushCommand enc i c s =
     (case enc c of
        None \<Rightarrow> (Inl MarshalFailed, s)
      | Some d \<Rightarrow> sendToSlave i \<lparr>ws_Type = WSMsgCommand, ws_Data = Some d\<rparr> s)"

definition AssignTask ::
  "task_assignment encoder \<Rightarrow> gostring \<Rightarrow> task_assignment \<Rightarrow> rest_server \<Rightarrow> (send_error + unit) \<times> rest_server" where
  "AssignTask enc i t s =
     (case (if HasConn i s then PushTask enc i t s else (Inl (NotConnectedWS i), s)) of
        (Inr _, s1) \<Rightarrow> (Inr (), s1)
      | (Inl _, s1) \<Rightarrow>
          (let (res, qs) = enqueue i t (sv_taskQueues s1) in (res, s1\<lparr>sv_taskQueues := qs\<rparr>)))"

definition SendCommand ::
  "control_command encoder \<Rightarrow> gostring \<Rightarrow> control_command \<Rightarrow> rest_server \<Rightarrow> (send_error + unit) \<times> rest_server" where
  "SendCommand enc i c s =
     (case (if HasConn i s then PushCommand enc i c s else (Inl (NotConnectedWS i), s)) of
        (Inr _, s1) \<Rightarrow> (Inr (), s1)
      | (Inl _, s1) \<Rightarrow>
          (let (res, qs) = enqueue i c (sv_commandQueues s1) in (res, s1\<lparr>sv_commandQueues := qs\<rparr>)))"

definition close_conn :: "nat \<Rightarrow> rest_server \<Rightarrow> rest_server" where
  "close_conn k s = s\<lparr>sv_ws := (sv_ws s)(k := map_option (wc_done_update (\<lambda>_. True)) (sv_ws s k))\<rparr>"

definition hub_register :: "nat \<Rightarrow> gostring \<Rightarrow> rest_server \<Rightarrow> rest_server" where
  "hub_register k i s =
     (let s1 = (case map_of (sv_conns s) i of None \<Rightarrow> s | Some old \<Rightarrow> close_conn old s)
      in s1\<lparr>sv_conns := AList.update i k (sv_conns s1)\<rparr>)"

definition hub_unregister :: "gostring \<Rightarrow> rest_server \<Rightarrow> rest_server" where
  "hub_unregister i s = s\<lparr>sv_conns := AList.delete i (sv_conns s)\<rparr>"

subsection \<open>A connection\<close>

definition send_capacity :: nat where
  "send_capacity = 256"

text \<open>The loops that move what waits in a queue to the connection: a message that finds the buffer full is dropped, and a
  value that cannot be encoded is sent without data.  The element that a closed queue gives is nil, which is encoded as \<^verbatim>\<open>null\<close>.\<close>

definition push_or_drop :: "ws_message \<Rightarrow> ws_message gochan \<Rightarrow> ws_message gochan" where
  "push_or_drop m ch = (case try_send m ch of Sent ch' \<Rightarrow> ch' | _ \<Rightarrow> ch)"

definition envelope :: "ws_type \<Rightarrow> 'a encoder \<Rightarrow> 'a option \<Rightarrow> ws_message" where
  "envelope ty enc x =
     \<lparr>ws_Type = ty, ws_Data = (case x of None \<Rightarrow> Some ''null'' | Some y \<Rightarrow> enc y)\<rparr>"

partial_function (option) drain_loop ::
  "('a option \<Rightarrow> ws_message) \<Rightarrow> 'a gochan \<Rightarrow> ws_message gochan \<Rightarrow> ('a gochan \<times> ws_message gochan) option" where
  "drain_loop env q ch =
     (case try_recv q of
        Received x q' \<Rightarrow> drain_loop env q' (push_or_drop (env (Some x)) ch)
      | ZeroValue \<Rightarrow> drain_loop env q (push_or_drop (env None) ch)
      | ChanEmpty \<Rightarrow> Some (q, ch))"

definition drain_queue ::
  "('a option \<Rightarrow> ws_message) \<Rightarrow> gostring \<Rightarrow> 'a queues \<Rightarrow> ws_message gochan \<Rightarrow> ('a queues \<times> ws_message gochan) option" where
  "drain_queue env i qs ch =
     (case map_of (qs_map qs) i of
        None \<Rightarrow> Some (qs, ch)
      | Some k \<Rightarrow>
          (case qs_chan qs k of
             None \<Rightarrow> Some (qs, ch)
           | Some q \<Rightarrow> map_option (\<lambda>(q', ch'). (qs\<lparr>qs_chan := (qs_chan qs)(k \<mapsto> q')\<rparr>, ch')) (drain_loop env q ch)))"

definition drainPendingToWS ::
  "task_assignment encoder \<Rightarrow> control_command encoder \<Rightarrow> gostring \<Rightarrow> nat \<Rightarrow> rest_server \<Rightarrow> rest_server option" where
  "drainPendingToWS enct encc i k s =
     (case sv_ws s k of
        None \<Rightarrow> Some s
      | Some c \<Rightarrow>
          (case drain_queue (envelope WSMsgTaskAssign enct) i (sv_taskQueues s) (wc_send c) of
             None \<Rightarrow> None
           | Some (tq, ch) \<Rightarrow>
               (case drain_queue (envelope WSMsgCommand encc) i (sv_commandQueues s) ch of
                  None \<Rightarrow> None
                | Some (cq, ch') \<Rightarrow>
                    Some (s\<lparr>sv_taskQueues := tq, sv_commandQueues := cq,
                            sv_ws := (sv_ws s)(k \<mapsto> c\<lparr>wc_send := ch'\<rparr>)\<rparr>))))"

definition start_writing :: "nat \<Rightarrow> rest_server \<Rightarrow> rest_server" where
  "start_writing k s = s\<lparr>sv_ws := (sv_ws s)(k := map_option (wc_writing_update (\<lambda>_. True)) (sv_ws s k))\<rparr>"

text \<open>The first message of a connection: its type and, when its data can be decoded, the request.\<close>

datatype ws_opening = Dropped | Refused register_response | AckFailed | Opened nat | Stuck | OpenPanic

definition open_conn :: "gostring \<Rightarrow> rest_server \<Rightarrow> nat \<times> rest_server" where
  "open_conn i s =
     (sv_nextConn s,
      hub_register (sv_nextConn s) i
        (s\<lparr>sv_ws := (sv_ws s)(sv_nextConn s \<mapsto>
              \<lparr>wc_slaveID = i, wc_send = make_chan send_capacity, wc_done = False, wc_writing = False\<rparr>),
           sv_nextConn := Suc (sv_nextConn s)\<rparr>))"

definition handleConnection ::
  "task_assignment encoder \<Rightarrow> control_command encoder \<Rightarrow> int \<Rightarrow> (ws_type \<times> register_request option) option \<Rightarrow> bool \<Rightarrow>
    rest_server \<Rightarrow> ws_opening \<times> rest_server" where
  "handleConnection enct encc now first ack_ok s =
     (case first of
        None \<Rightarrow> (Dropped, s)
      | Some (ty, req) \<Rightarrow>
          if ty \<noteq> WSMsgRegister then (Dropped, s)
          else case req of
            None \<Rightarrow> (Dropped, s)
          | Some q \<Rightarrow>
              if rr_SlaveID q = [] then (Dropped, s)
              else
                (case (case sv_registry s of
                         None \<Rightarrow> (Inr (), None)
                       | Some r \<Rightarrow> map_prod id Some (Register now (Some (slave_info_of q)) r)) of
                   (Inl e, r') \<Rightarrow>
                     (if is_panic (Inl e :: reg_error + unit) then OpenPanic else Refused (rejected e),
                      s\<lparr>sv_registry := r'\<rparr>)
                 | (Inr _, r') \<Rightarrow>
                     (let s1 = s\<lparr>sv_registry := r'\<rparr> in
                      if \<not> ack_ok then (AckFailed, s1)
                      else let (k, s2) = open_conn (rr_SlaveID q) s1 in
                        case drainPendingToWS enct encc (rr_SlaveID q) k s2 of
                          None \<Rightarrow> (Stuck, s2)
                        | Some s3 \<Rightarrow> (Opened k, start_writing k s3))))"

text \<open>A message from a slave: its type and, for a heartbeat whose data can be decoded, the request.  The other types change nothing.\<close>

definition handleMessage ::
  "int \<Rightarrow> nat \<Rightarrow> ws_type \<times> heartbeat_request option \<Rightarrow> rest_server \<Rightarrow> rest_server" where
  "handleMessage now k msg s =
     (case (sv_ws s k, msg) of
        (Some c, (ty, Some q)) \<Rightarrow>
          if ty = WSMsgHeartbeat
          then case (sv_registry s, hb_Status q) of
                 (Some r, Some a) \<Rightarrow>
                   s\<lparr>sv_registry := Some (snd (UpdateStatus (wc_slaveID c) (Some (status_of now a)) r))\<rparr>
               | _ \<Rightarrow> s
          else s
      | _ \<Rightarrow> s)"

text \<open>The end of a connection: the loop of reads ends, and the deferred call removes the slave from the hub.\<close>

definition end_conn :: "nat \<Rightarrow> rest_server \<Rightarrow> rest_server" where
  "end_conn k s = (case sv_ws s k of None \<Rightarrow> s | Some c \<Rightarrow> hub_unregister (wc_slaveID c) s)"

text \<open>One turn of the goroutine that writes: it ends after a failed write, or when the connection is closed.  When the connection is
  closed while messages wait, Go chooses; the choice is an argument.\<close>

definition writePump :: "bool \<Rightarrow> bool \<Rightarrow> nat \<Rightarrow> rest_server \<Rightarrow> ws_message option \<times> rest_server" where
  "writePump stop write_ok k s =
     (case sv_ws s k of
        None \<Rightarrow> (None, s)
      | Some c \<Rightarrow>
          if \<not> wc_writing c then (None, s)
          else
            (case (try_recv (wc_send c), wc_done c \<and> stop) of
               (Received m ch, False) \<Rightarrow>
                 (if write_ok then Some m else None,
                  s\<lparr>sv_ws := (sv_ws s)(k \<mapsto> c\<lparr>wc_send := ch, wc_writing := write_ok\<rparr>)\<rparr>)
             | _ \<Rightarrow>
                 (None, if wc_done c then s\<lparr>sv_ws := (sv_ws s)(k \<mapsto> c\<lparr>wc_writing := False\<rparr>)\<rparr> else s)))"

section \<open>Events\<close>

text \<open>What happens to the server, one at a time: requests, connections and their messages, calls of the master, and the health check
  of the master, which marks a slave as offline.\<close>

datatype server_event =
    Ev_Register int "gostring + register_request"
  | Ev_Heartbeat int gostring "gostring + heartbeat_request"
  | Ev_Tasks gostring
  | Ev_Result gostring "gostring + result_request"
  | Ev_Metrics gostring "gostring + metrics_request"
  | Ev_Unregister gostring
  | Ev_Drain gostring
  | Ev_Assign gostring task_assignment
  | Ev_Command gostring control_command
  | Ev_Open int "(ws_type \<times> register_request option) option" bool
  | Ev_Message int nat "ws_type \<times> heartbeat_request option"
  | Ev_Close nat
  | Ev_Write bool bool nat
  | Ev_Offline gostring

datatype server_outcome =
    O_Reply reply
  | O_Sent "send_error + unit"
  | O_Open ws_opening
  | O_Written "ws_message option"
  | O_None

fun server_exec ::
  "task_assignment encoder \<Rightarrow> control_command encoder \<Rightarrow> server_event \<Rightarrow> rest_server \<Rightarrow> server_outcome \<times> rest_server" where
  "server_exec et ec (Ev_Register now q) s = map_prod O_Reply id (registerSlave now q s)"
| "server_exec et ec (Ev_Heartbeat now i q) s = map_prod O_Reply id (slaveHeartbeat now i q s)"
| "server_exec et ec (Ev_Tasks i) s = map_prod O_Reply id (getSlaveTasks i s)"
| "server_exec et ec (Ev_Result i q) s = map_prod O_Reply id (receiveTaskResult i q s)"
| "server_exec et ec (Ev_Metrics i q) s = map_prod O_Reply id (receiveMetricsReport i q s)"
| "server_exec et ec (Ev_Unregister i) s = map_prod O_Reply id (unregisterSlave i s)"
| "server_exec et ec (Ev_Drain i) s = map_prod O_Reply id (drainSlave i s)"
| "server_exec et ec (Ev_Assign i t) s = map_prod O_Sent id (AssignTask et i t s)"
| "server_exec et ec (Ev_Command i c) s = map_prod O_Sent id (SendCommand ec i c s)"
| "server_exec et ec (Ev_Open now first ok) s = map_prod O_Open id (handleConnection et ec now first ok s)"
| "server_exec et ec (Ev_Message now k m) s = (O_None, handleMessage now k m s)"
| "server_exec et ec (Ev_Close k) s = (O_None, end_conn k s)"
| "server_exec et ec (Ev_Write stop ok k) s = map_prod O_Written id (writePump stop ok k s)"
| "server_exec et ec (Ev_Offline i) s = (O_None, s\<lparr>sv_registry := map_option (\<lambda>r. snd (MarkOffline i r)) (sv_registry s)\<rparr>)"

primrec run_events ::
  "task_assignment encoder \<Rightarrow> control_command encoder \<Rightarrow> server_event list \<Rightarrow> rest_server \<Rightarrow> rest_server" where
  "run_events et ec [] s = s"
| "run_events et ec (e # es) s = run_events et ec es (snd (server_exec et ec e s))"

text \<open>Outcomes that a server should not have: a panic, or a handler that does not return.\<close>

fun crashed :: "server_outcome \<Rightarrow> bool" where
  "crashed (O_Reply rp) = (rp = Panicked \<or> rp = Hangs)"
| "crashed (O_Sent res) = (res = Inl SendPanic)"
| "crashed (O_Open w) = (w = Stuck \<or> w = OpenPanic)"
| "crashed _ = False"

section \<open>Invariant\<close>

definition queues_inv :: "'a queues \<Rightarrow> bool" where
  "queues_inv qs \<longleftrightarrow> map_wf (qs_map qs) \<and>
     (\<forall>i q. map_of (qs_map qs) i = Some q \<longrightarrow>
        (\<exists>c. qs_chan qs q = Some c \<and> \<not> gc_shut c \<and> gc_cap c = queue_capacity)) \<and>
     inj_on (map_of (qs_map qs)) (dom (map_of (qs_map qs))) \<and>
     (\<forall>q c. qs_chan qs q = Some c \<longrightarrow> q < qs_next qs \<and> chan_ok c)"

definition conns_inv :: "rest_server \<Rightarrow> bool" where
  "conns_inv s \<longleftrightarrow> map_wf (sv_conns s) \<and>
     (\<forall>i k. map_of (sv_conns s) i = Some k \<longrightarrow> (\<exists>c. sv_ws s k = Some c \<and> wc_slaveID c = i)) \<and>
     (\<forall>k c. sv_ws s k = Some c \<longrightarrow>
        k < sv_nextConn s \<and> \<not> gc_shut (wc_send c) \<and> gc_cap (wc_send c) = send_capacity \<and> chan_ok (wc_send c))"

definition server_inv :: "rest_server \<Rightarrow> bool" where
  "server_inv s \<longleftrightarrow> (\<forall>r. sv_registry s = Some r \<longrightarrow> reg_inv r) \<and>
     queues_inv (sv_taskQueues s) \<and> queues_inv (sv_commandQueues s) \<and> conns_inv s"

end
