(* ===== verification/Slave_Protocol.thy ===== *)
theory Slave_Protocol
  imports Slave_Server
begin

text \<open>
  Properties of the server for the slaves: its invariant, what becomes of tasks and commands, of registrations, and of the states that
  heartbeats report.
\<close>

section \<open>Queues\<close>

lemma queues_invD:
  assumes "queues_inv qs" "map_of (qs_map qs) i = Some q"
  obtains c where "qs_chan qs q = Some c" "\<not> gc_shut c" "gc_cap c = queue_capacity" "chan_ok c"
  using assms unfolding queues_inv_def by metis

lemma queues_inv_none [simp]: "queues_inv no_queues"
  by (simp add: queues_inv_def no_queues_def)

lemma queues_inv_set:
  assumes "queues_inv qs" "qs_chan qs q = Some c" "chan_ok c'" "gc_cap c' = gc_cap c" "gc_shut c' = gc_shut c"
  shows "queues_inv (qs\<lparr>qs_chan := (qs_chan qs)(q \<mapsto> c')\<rparr>)"
proof -
  have "\<exists>x. ((qs_chan qs)(q \<mapsto> c')) p = Some x \<and> \<not> gc_shut x \<and> gc_cap x = queue_capacity"
    if "map_of (qs_map qs) i = Some p" for i p
    by (rule queues_invD [OF assms(1) that]) (use assms(2,4,5) in \<open>cases "p = q"; simp\<close>)
  with assms show ?thesis unfolding queues_inv_def by simp
qed

lemma queue_of_inv:
  assumes "queues_inv qs" "queue_of i qs = (q, qs1)"
  shows "queues_inv qs1" "map_of (qs_map qs1) i = Some q"
proof -
  have "queues_inv qs1 \<and> map_of (qs_map qs1) i = Some q"
  proof (cases "map_of (qs_map qs) i")
    case None
    have new: "map_of (qs_map qs) j \<noteq> Some (qs_next qs)" for j
      using assms(1) unfolding queues_inv_def by (metis less_irrefl)
    have "inj_on (map_of (AList.update i (qs_next qs) (qs_map qs))) (dom (map_of (AList.update i (qs_next qs) (qs_map qs))))"
      using assms(1) new unfolding queues_inv_def update_conv' by (auto simp: inj_on_def dom_def)
    moreover have q: "q = qs_next qs" "qs1 = qs\<lparr>qs_map := AList.update i (qs_next qs) (qs_map qs),
        qs_chan := (qs_chan qs)(qs_next qs \<mapsto> make_chan queue_capacity), qs_next := Suc (qs_next qs)\<rparr>"
      using assms(2) None by (auto simp: queue_of_def)
    moreover have "\<exists>c. qs_chan qs1 k = Some c \<and> \<not> gc_shut c \<and> gc_cap c = queue_capacity"
      if "map_of (qs_map qs1) j = Some k" for j k
      using that new [of j] assms(1) unfolding q(2) queues_inv_def by (auto simp: update_conv' split: if_splits)
    moreover have "k < qs_next qs1 \<and> chan_ok c" if "qs_chan qs1 k = Some c" for k c
      using that assms(1) unfolding q(2) queues_inv_def by (auto simp: less_Suc_eq split: if_splits)
    ultimately show ?thesis using assms(1) by (simp add: queues_inv_def update_conv')
  qed (use assms in \<open>auto simp: queue_of_def\<close>)
  then show "queues_inv qs1" "map_of (qs_map qs1) i = Some q" by auto
qed

lemma send_queue_inv:
  assumes "queues_inv qs" "map_of (qs_map qs) i = Some q"
  shows "queues_inv (snd (send_queue i q x qs))" "fst (send_queue i q x qs) \<noteq> Inl SendPanic"
proof -
  obtain c where c: "qs_chan qs q = Some c" "\<not> gc_shut c" using queues_invD [OF assms] by blast
  then show "queues_inv (snd (send_queue i q x qs))"
    using queues_inv_set [OF assms(1) c(1)] assms(1)
    by (auto simp: send_queue_def split: sent.splits dest: try_send_Sent chan_ok_sent)
  show "fst (send_queue i q x qs) \<noteq> Inl SendPanic"
    using c by (simp add: send_queue_def try_send_def)
qed

lemma enqueue_inv:
  assumes "queues_inv qs"
  shows "queues_inv (snd (enqueue i x qs))" "fst (enqueue i x qs) \<noteq> Inl SendPanic"
proof -
  obtain q qs1 where q: "queue_of i qs = (q, qs1)" by fastforce
  from send_queue_inv [OF queue_of_inv [OF assms q]]
  show "queues_inv (snd (enqueue i x qs))" "fst (enqueue i x qs) \<noteq> Inl SendPanic"
    by (simp_all add: enqueue_def q)
qed

definition items_of :: "gostring \<Rightarrow> 'a queues \<Rightarrow> 'a list" where
  "items_of i qs =
     (case map_of (qs_map qs) i of None \<Rightarrow> [] | Some q \<Rightarrow> (case qs_chan qs q of None \<Rightarrow> [] | Some c \<Rightarrow> gc_items c))"

lemma items_of_le:
  assumes "queues_inv qs"
  shows "length (items_of i qs) \<le> queue_capacity"
proof (cases "map_of (qs_map qs) i")
  case (Some q)
  with queues_invD [OF assms Some] show ?thesis by (metis chan_ok_def items_of_def option.simps(5))
qed (simp add: items_of_def)

lemma pending_result:
  assumes "queues_inv qs"
  obtains qs' where "pending i qs = Some (map Some (items_of i qs), qs')" "queues_inv qs'" "items_of i qs' = []"
    "\<And>j. j \<noteq> i \<Longrightarrow> items_of j qs' = items_of j qs"
proof (cases "map_of (qs_map qs) i")
  case None
  then show ?thesis using that [of qs] assms by (simp add: pending_def items_of_def)
next
  case (Some q)
  then obtain c where c: "qs_chan qs q = Some c" "\<not> gc_shut c" using queues_invD [OF assms] by blast
  let ?qs = "qs\<lparr>qs_chan := (qs_chan qs)(q \<mapsto> c\<lparr>gc_items := []\<rparr>)\<rparr>"
  have "map_of (qs_map qs) j \<noteq> Some q" if "j \<noteq> i" for j
    using assms Some that unfolding queues_inv_def inj_on_def by (metis domI)
  then have "items_of j ?qs = items_of j qs" if "j \<noteq> i" for j
    using that by (auto simp: items_of_def split: option.splits)
  moreover have "queues_inv ?qs" by (rule queues_inv_set [OF assms c(1)]) (simp_all add: chan_ok_def)
  ultimately show ?thesis
    using that [of ?qs] Some c by (simp add: pending_def items_of_def recv_all_open)
qed

lemma cleanup_inv:
  assumes "queues_inv qs"
  shows "queues_inv (cleanup_queue i qs)"
proof (cases "map_of (qs_map qs) i")
  case (Some q)
  then obtain c where c: "qs_chan qs q = Some c" "chan_ok c" using queues_invD [OF assms] by blast
  have other: "map_of (qs_map qs) j \<noteq> Some q" if "j \<noteq> i" for j
    using assms Some that unfolding queues_inv_def inj_on_def by (metis domI)
  have "inj_on (map_of (AList.delete i (qs_map qs))) (dom (map_of (AList.delete i (qs_map qs))))"
    using assms unfolding queues_inv_def delete_conv' inj_on_def by (auto simp: dom_def)
  then show ?thesis
    using assms Some c other unfolding queues_inv_def
    by (auto simp: cleanup_queue_def delete_conv' close_chan_def chan_ok_def)
qed (simp add: cleanup_queue_def assms)

section \<open>Moving what waits to a connection\<close>

lemma push_all_room:
  assumes "\<not> gc_shut ch" "length (gc_items ch) + length xs \<le> gc_cap ch"
  shows "foldl (\<lambda>c x. push_or_drop (f x) c) ch xs = ch\<lparr>gc_items := gc_items ch @ map f xs\<rparr>"
  using assms by (induction xs arbitrary: ch) (auto simp: push_or_drop_def try_send_def)

lemma drain_loop_open:
  assumes "\<not> gc_shut q"
  shows "drain_loop env q ch = Some (q\<lparr>gc_items := []\<rparr>, foldl (\<lambda>c x. push_or_drop (env (Some x)) c) ch (gc_items q))"
  using assms
proof (induction "gc_items q" arbitrary: q ch)
  case Nil
  then have "q\<lparr>gc_items := []\<rparr> = q" by (cases q) simp
  with Nil show ?case by (subst drain_loop.simps) (simp add: try_recv_def Nil(1)[symmetric])
next
  case (Cons x xs)
  then show ?case by (subst drain_loop.simps) (simp add: try_recv_def Cons(2)[symmetric] Cons(1))
qed

lemma drain_loop_returns:
  assumes "drain_loop env q ch = Some r"
  shows "\<not> gc_shut q"
proof (rule drain_loop.raw_induct [where P = "\<lambda>env q ch r. \<not> gc_shut q", OF _ assms])
  fix f env and q :: "'a gochan" and ch r
  assume f: "\<And>env q ch y. f env q ch = Some y \<Longrightarrow> \<not> gc_shut q"
    and "(case try_recv q of
        Received x q' \<Rightarrow> f env q' (push_or_drop (env (Some x)) ch)
      | ZeroValue \<Rightarrow> f env q (push_or_drop (env None) ch)
      | ChanEmpty \<Rightarrow> Some (q, ch)) = Some r"
  then show "\<not> gc_shut q" by (cases "gc_items q") (auto simp: try_recv_def split: if_splits dest: f)
qed

lemma push_keeps:
  assumes "\<not> gc_shut ch" "chan_ok ch"
  shows "\<not> gc_shut (push_or_drop m ch)" "chan_ok (push_or_drop m ch)" "gc_cap (push_or_drop m ch) = gc_cap ch"
  using assms by (simp_all add: push_or_drop_def try_send_def chan_ok_def)

lemma push_all_keeps:
  assumes "\<not> gc_shut ch" "chan_ok ch"
  shows "\<not> gc_shut (foldl (\<lambda>c x. push_or_drop (f x) c) ch xs) \<and> chan_ok (foldl (\<lambda>c x. push_or_drop (f x) c) ch xs) \<and>
    gc_cap (foldl (\<lambda>c x. push_or_drop (f x) c) ch xs) = gc_cap ch"
  using assms by (induction xs arbitrary: ch) (simp_all add: push_keeps)

lemma drain_queue_result:
  assumes "queues_inv qs"
  obtains qs' where
    "drain_queue env i qs ch = Some (qs', foldl (\<lambda>c x. push_or_drop (env (Some x)) c) ch (items_of i qs))"
    "queues_inv qs'" "items_of i qs' = []"
proof (cases "map_of (qs_map qs) i")
  case None
  then show ?thesis using that [of qs] assms by (simp add: drain_queue_def items_of_def)
next
  case (Some q)
  then obtain c where c: "qs_chan qs q = Some c" "\<not> gc_shut c" using queues_invD [OF assms] by blast
  let ?qs = "qs\<lparr>qs_chan := (qs_chan qs)(q \<mapsto> c\<lparr>gc_items := []\<rparr>)\<rparr>"
  have "queues_inv ?qs" by (rule queues_inv_set [OF assms c(1)]) (simp_all add: chan_ok_def)
  then show ?thesis
    using that [of ?qs] Some c by (simp add: drain_queue_def items_of_def drain_loop_open)
qed

section \<open>The invariant of the server\<close>

lemma conns_inv_frame [simp]:
  "conns_inv (s\<lparr>sv_registry := reg\<rparr>) \<longleftrightarrow> conns_inv s"
  "conns_inv (s\<lparr>sv_taskQueues := tq\<rparr>) \<longleftrightarrow> conns_inv s"
  "conns_inv (s\<lparr>sv_commandQueues := cq\<rparr>) \<longleftrightarrow> conns_inv s"
  by (simp_all add: conns_inv_def)

lemma server_inv_frame:
  "server_inv (s\<lparr>sv_registry := reg\<rparr>) \<longleftrightarrow> (\<forall>r. reg = Some r \<longrightarrow> reg_inv r) \<and>
     queues_inv (sv_taskQueues s) \<and> queues_inv (sv_commandQueues s) \<and> conns_inv s"
  "server_inv (s\<lparr>sv_taskQueues := tq\<rparr>) \<longleftrightarrow> (\<forall>r. sv_registry s = Some r \<longrightarrow> reg_inv r) \<and>
     queues_inv tq \<and> queues_inv (sv_commandQueues s) \<and> conns_inv s"
  "server_inv (s\<lparr>sv_commandQueues := cq\<rparr>) \<longleftrightarrow> (\<forall>r. sv_registry s = Some r \<longrightarrow> reg_inv r) \<and>
     queues_inv (sv_taskQueues s) \<and> queues_inv cq \<and> conns_inv s"
  by (simp_all add: server_inv_def)

lemma conn_set:
  assumes "conns_inv s" "sv_ws s k = Some c" "wc_slaveID c' = wc_slaveID c" "\<not> gc_shut (wc_send c')"
    "gc_cap (wc_send c') = send_capacity" "chan_ok (wc_send c')"
  shows "conns_inv (s\<lparr>sv_ws := (sv_ws s)(k \<mapsto> c')\<rparr>)"
proof -
  have "\<exists>x. ((sv_ws s)(k \<mapsto> c')) p = Some x \<and> wc_slaveID x = i" if conn: "map_of (sv_conns s) i = Some p" for i p
  proof -
    obtain x where "sv_ws s p = Some x" "wc_slaveID x = i" using assms(1) conn unfolding conns_inv_def by blast
    then show ?thesis using assms(2,3) by (cases "p = k") simp_all
  qed
  with assms show ?thesis unfolding conns_inv_def by simp
qed

lemma conn_ok:
  assumes "conns_inv s" "sv_ws s k = Some c"
  shows "\<not> gc_shut (wc_send c)" "gc_cap (wc_send c) = send_capacity" "chan_ok (wc_send c)"
  using assms by (auto simp: conns_inv_def)

lemma sendToSlave_inv:
  assumes "server_inv s"
  shows "server_inv (snd (sendToSlave i m s))"
proof -
  have "conns_inv (s\<lparr>sv_ws := (sv_ws s)(k \<mapsto> c\<lparr>wc_send := ch\<rparr>)\<rparr>)"
    if "sv_ws s k = Some c" "try_send m (wc_send c) = Sent ch" for k c ch
    using conn_set [OF _ that(1), of "c\<lparr>wc_send := ch\<rparr>"] conn_ok [OF _ that(1)] try_send_Sent [OF that(2)]
      chan_ok_sent [OF that(2)] assms by (simp add: server_inv_def)
  then show ?thesis using assms
    by (auto simp: sendToSlave_def server_inv_def split: option.splits sent.splits)
qed

lemma registry_no_panic:
  assumes "reg_inv r"
  shows "\<not> is_panic (fst (Register now x r))" "\<not> is_panic (fst (Unregister i r))"
    "\<not> is_panic (fst (UpdateStatus i (Some st) r))" "\<not> is_panic (fst (DrainSlave i r))"
  using assms status_not_nil [of r i]
  by (auto simp: registry_op reg_inv_def Let_def notifyEvent_ok split: option.splits)

lemma inv_registry: "server_inv s \<Longrightarrow> sv_registry s = Some r \<Longrightarrow> reg_inv r"
  by (simp add: server_inv_def)

definition sound :: "server_outcome \<times> rest_server \<Rightarrow> bool" where
  "sound p \<longleftrightarrow> server_inv (snd p) \<and> \<not> crashed (fst p)"

lemma sound_reply [simp]:
  "sound (O_Reply (Reply n b), s) \<longleftrightarrow> server_inv s"
  "sound (O_Reply (invalid_request m), s) \<longleftrightarrow> server_inv s"
  "sound (O_Reply (unparsed m), s) \<longleftrightarrow> server_inv s"
  "sound (O_Reply no_registry, s) \<longleftrightarrow> server_inv s"
  by (simp_all add: sound_def invalid_request_def unparsed_def no_registry_def)

text \<open>A handler that changes the registry and then replies.\<close>

lemma sound_registry:
  assumes "server_inv s" "reg_inv (snd p)" "\<not> is_panic (fst p)"
    and ok: "\<And>r'. reg_inv r' \<Longrightarrow> sound (map_prod O_Reply id (f r'))"
  shows "sound (map_prod O_Reply id
     (case p of
        (Inl e, r') \<Rightarrow> (if is_panic (Inl e :: reg_error + unit) then Panicked else Reply n (g e), s\<lparr>sv_registry := Some r'\<rparr>)
      | (Inr u, r') \<Rightarrow> f r'))"
  using assms(1-3) ok [of "snd p"]
  by (cases p; cases "fst p") (auto simp: sound_def server_inv_frame server_inv_def [of s])

lemma sound_register: "server_inv s \<Longrightarrow> sound (map_prod O_Reply id (registerSlave now q s))"
  unfolding registerSlave_def
  by (auto split: sum.split option.split intro!: sound_registry Register_inv registry_no_panic inv_registry)
    (simp add: server_inv_frame server_inv_def)

lemma sound_unregister: "server_inv s \<Longrightarrow> sound (map_prod O_Reply id (unregisterSlave i s))"
  unfolding unregisterSlave_def
  by (auto split: option.split intro!: sound_registry Unregister_inv registry_no_panic inv_registry)
    (simp_all add: cleanupSlaveQueues_def server_inv_def conns_inv_def cleanup_inv)

lemma sound_drain: "server_inv s \<Longrightarrow> sound (map_prod O_Reply id (drainSlave i s))"
  unfolding drainSlave_def
  by (auto split: option.split intro!: sound_registry DrainSlave_inv registry_no_panic inv_registry)
    (simp add: server_inv_frame server_inv_def)

lemma sound_heartbeat_reply:
  assumes "server_inv s"
  shows "sound (map_prod O_Reply id (heartbeat_reply i now s))"
proof -
  have "queues_inv (sv_commandQueues s)" using assms by (simp add: server_inv_def)
  then obtain qs where "pending i (sv_commandQueues s) = Some (map Some (items_of i (sv_commandQueues s)), qs)" "queues_inv qs"
    by (rule pending_result)
  with assms show ?thesis
    by (simp add: heartbeat_reply_def getPendingCommands_def server_inv_frame server_inv_def)
qed

lemma sound_heartbeat: "server_inv s \<Longrightarrow> sound (map_prod O_Reply id (slaveHeartbeat now i q s))"
  unfolding slaveHeartbeat_def
  by (auto split: sum.split option.split intro!: sound_registry UpdateStatus_inv registry_no_panic inv_registry sound_heartbeat_reply)
    (simp add: server_inv_frame server_inv_def)

lemma sound_tasks:
  assumes "server_inv s"
  shows "sound (map_prod O_Reply id (getSlaveTasks i s))"
proof -
  have "queues_inv (sv_taskQueues s)" using assms by (simp add: server_inv_def)
  then obtain qs where "pending i (sv_taskQueues s) = Some (map Some (items_of i (sv_taskQueues s)), qs)" "queues_inv qs"
    by (rule pending_result)
  with assms show ?thesis
    by (auto simp: getSlaveTasks_def getPendingTasks_def server_inv_frame server_inv_def split: option.split sum.split)
qed

lemma sound_result: "server_inv s \<Longrightarrow> sound (map_prod O_Reply id (receiveTaskResult i q s))"
  "server_inv s \<Longrightarrow> sound (map_prod O_Reply id (receiveMetricsReport i q' s))"
  by (auto simp: receiveTaskResult_def receiveMetricsReport_def split: sum.split)

lemma sound_assign:
  assumes "server_inv s"
  shows "sound (map_prod O_Sent id (AssignTask enc i t s))"
proof -
  have "server_inv (snd (PushTask enc i t s))"
    using assms sendToSlave_inv [OF assms] by (auto simp: PushTask_def split: option.split)
  then have inv: "server_inv (snd (if HasConn i s then PushTask enc i t s else (Inl (NotConnectedWS i), s)))"
    using assms by simp
  then have "queues_inv (sv_taskQueues (snd (if HasConn i s then PushTask enc i t s else (Inl (NotConnectedWS i), s))))"
    by (simp add: server_inv_def)
  from enqueue_inv [OF this, of i t] inv show ?thesis
    unfolding AssignTask_def
    by (auto simp: sound_def server_inv_frame server_inv_def [of "snd _"] Let_def split: prod.split sum.split)
qed

lemma sound_command:
  assumes "server_inv s"
  shows "sound (map_prod O_Sent id (SendCommand enc i c s))"
proof -
  have "server_inv (snd (PushCommand enc i c s))"
    using assms sendToSlave_inv [OF assms] by (auto simp: PushCommand_def split: option.split)
  then have inv: "server_inv (snd (if HasConn i s then PushCommand enc i c s else (Inl (NotConnectedWS i), s)))"
    using assms by simp
  then have "queues_inv (sv_commandQueues (snd (if HasConn i s then PushCommand enc i c s else (Inl (NotConnectedWS i), s))))"
    by (simp add: server_inv_def)
  from enqueue_inv [OF this, of i c] inv show ?thesis
    unfolding SendCommand_def
    by (auto simp: sound_def server_inv_frame server_inv_def [of "snd _"] Let_def split: prod.split sum.split)
qed

subsection \<open>Connections\<close>

lemma close_conn_inv: "conns_inv s \<Longrightarrow> conns_inv (close_conn k s)"
proof (cases "sv_ws s k")
  case None
  then have "close_conn k s = s" by (simp add: close_conn_def fun_upd_idem)
  then show "conns_inv s \<Longrightarrow> ?thesis" by simp
next
  case (Some c)
  then show "conns_inv s \<Longrightarrow> ?thesis"
    using conn_set [OF _ Some, of "c\<lparr>wc_done := True\<rparr>"] conn_ok [OF _ Some] by (simp add: close_conn_def)
qed

lemma hub_register_inv:
  assumes "conns_inv s" "sv_ws s k = Some c" "wc_slaveID c = i"
  shows "conns_inv (hub_register k i s)"
proof -
  define s1 where "s1 = (case map_of (sv_conns s) i of None \<Rightarrow> s | Some old \<Rightarrow> close_conn old s)"
  have "conns_inv s1" using assms(1) close_conn_inv by (simp add: s1_def split: option.split)
  moreover have "\<exists>c'. sv_ws s1 k = Some c' \<and> wc_slaveID c' = i"
    using assms(2,3) by (auto simp: s1_def close_conn_def split: option.split)
  ultimately have "conns_inv (s1\<lparr>sv_conns := AList.update i k (sv_conns s1)\<rparr>)"
    unfolding conns_inv_def by (auto simp: update_conv')
  then show ?thesis by (simp add: hub_register_def s1_def Let_def)
qed

lemma hub_register_fields [simp]:
  "sv_registry (hub_register k i s) = sv_registry s" "sv_taskQueues (hub_register k i s) = sv_taskQueues s"
  "sv_commandQueues (hub_register k i s) = sv_commandQueues s"
  by (simp_all add: hub_register_def close_conn_def split: option.split)

lemma open_conn_inv:
  assumes "server_inv s" "open_conn i s = (k, s')"
  shows "server_inv s'" "k = sv_nextConn s"
    "sv_ws s' k = Some \<lparr>wc_slaveID = i, wc_send = make_chan send_capacity, wc_done = False, wc_writing = False\<rparr>"
proof -
  let ?c = "\<lparr>wc_slaveID = i, wc_send = make_chan send_capacity, wc_done = False, wc_writing = False\<rparr>"
  let ?s = "s\<lparr>sv_ws := (sv_ws s)(sv_nextConn s \<mapsto> ?c), sv_nextConn := Suc (sv_nextConn s)\<rparr>"
  have s': "s' = hub_register k i ?s" and k: "k = sv_nextConn s"
    using assms(2) by (auto simp: open_conn_def)
  have old: "p < sv_nextConn s" if "sv_ws s p = Some c" for p c
    using assms(1) that by (simp add: server_inv_def conns_inv_def)
  have used: "p \<noteq> sv_nextConn s" if "map_of (sv_conns s) j = Some p" for j p
    using assms(1) that old unfolding server_inv_def conns_inv_def by (metis less_irrefl)
  have "conns_inv ?s"
    using assms(1) used unfolding server_inv_def conns_inv_def by (auto simp: less_Suc_eq)
  then have "conns_inv s'" unfolding s' k by (rule hub_register_inv [where c = ?c]) simp_all
  then show "server_inv s'" using assms(1) by (simp add: s' server_inv_def)
  show "k = sv_nextConn s" by (fact k)
  show "sv_ws s' k = Some ?c"
    using used by (auto simp: s' k hub_register_def close_conn_def split: option.split)
qed

definition push_all :: "ws_type \<Rightarrow> 'a encoder \<Rightarrow> 'a list \<Rightarrow> ws_message gochan \<Rightarrow> ws_message gochan" where
  "push_all ty enc xs ch = foldl (\<lambda>c x. push_or_drop (envelope ty enc (Some x)) c) ch xs"

lemma drain_pending:
  assumes "server_inv s" "sv_ws s k = Some c"
  obtains s' where "drainPendingToWS et ec i k s = Some s'" "server_inv s'"
    "sv_ws s' k = Some (c\<lparr>wc_send := push_all WSMsgCommand ec (items_of i (sv_commandQueues s))
                           (push_all WSMsgTaskAssign et (items_of i (sv_taskQueues s)) (wc_send c))\<rparr>)"
    "items_of i (sv_taskQueues s') = []" "items_of i (sv_commandQueues s') = []"
proof -
  have inv: "queues_inv (sv_taskQueues s)" "queues_inv (sv_commandQueues s)" "conns_inv s"
    using assms(1) by (simp_all add: server_inv_def)
  let ?ch = "push_all WSMsgTaskAssign et (items_of i (sv_taskQueues s)) (wc_send c)"
  let ?ch' = "push_all WSMsgCommand ec (items_of i (sv_commandQueues s)) ?ch"
  obtain tq where tq: "drain_queue (envelope WSMsgTaskAssign et) i (sv_taskQueues s) (wc_send c) = Some (tq, ?ch)"
      "queues_inv tq" "items_of i tq = []"
    using drain_queue_result [OF inv(1)] unfolding push_all_def by blast
  obtain cq where cq: "drain_queue (envelope WSMsgCommand ec) i (sv_commandQueues s) ?ch = Some (cq, ?ch')"
      "queues_inv cq" "items_of i cq = []"
    using drain_queue_result [OF inv(2)] unfolding push_all_def by blast
  let ?s = "s\<lparr>sv_taskQueues := tq, sv_commandQueues := cq, sv_ws := (sv_ws s)(k \<mapsto> c\<lparr>wc_send := ?ch'\<rparr>)\<rparr>"
  note ok = conn_ok [OF inv(3) assms(2)]
  have ch: "\<not> gc_shut ?ch" "chan_ok ?ch" "gc_cap ?ch = send_capacity"
    using push_all_keeps [OF ok(1,3)] ok(2) unfolding push_all_def by metis+
  have "\<not> gc_shut ?ch'" "chan_ok ?ch'" "gc_cap ?ch' = send_capacity"
    using push_all_keeps [OF ch(1,2)] ch(3) unfolding push_all_def by metis+
  then have "conns_inv (s\<lparr>sv_ws := (sv_ws s)(k \<mapsto> c\<lparr>wc_send := ?ch'\<rparr>)\<rparr>)"
    using conn_set [OF inv(3) assms(2), of "c\<lparr>wc_send := ?ch'\<rparr>"] by simp
  then have "conns_inv ?s" by (simp add: conns_inv_def)
  then have "server_inv ?s" using assms(1) tq(2) cq(2) by (simp add: server_inv_def)
  moreover have "drainPendingToWS et ec i k s = Some ?s"
    by (simp add: drainPendingToWS_def assms(2) tq(1) cq(1))
  ultimately show ?thesis using that [of ?s] tq(3) cq(3) by simp
qed

lemma start_writing_inv: "server_inv s \<Longrightarrow> server_inv (start_writing k s)"
proof (cases "sv_ws s k")
  case None
  then have "start_writing k s = s" by (simp add: start_writing_def fun_upd_idem)
  then show "server_inv s \<Longrightarrow> ?thesis" by simp
next
  case (Some c)
  then show "server_inv s \<Longrightarrow> ?thesis"
    using conn_set [OF _ Some, of "c\<lparr>wc_writing := True\<rparr>"] conn_ok [OF _ Some]
    by (simp add: start_writing_def server_inv_def)
qed

lemma opened:
  assumes "server_inv s" "open_conn i s = (k, s2)"
  obtains s3 where "drainPendingToWS et ec i k s2 = Some s3" "server_inv s3"
proof -
  note o = open_conn_inv [OF assms]
  show ?thesis by (rule drain_pending [OF o(1) o(3), of et ec i]) (rule that)
qed

lemma sound_open:
  assumes "server_inv s"
  shows "sound (map_prod O_Open id (handleConnection et ec now first ok s))"
proof (cases "\<exists>q. first = Some (WSMsgRegister, Some q) \<and> rr_SlaveID q \<noteq> []")
  case False
  then show ?thesis using assms by (auto simp: handleConnection_def sound_def split: option.split)
next
  case True
  then obtain q where q: "first = Some (WSMsgRegister, Some q)" "rr_SlaveID q \<noteq> []" by blast
  define p where "p = (case sv_registry s of
      None \<Rightarrow> (Inr (), None)
    | Some r \<Rightarrow> map_prod id Some (Register now (Some (slave_info_of q)) r))"
  have p: "server_inv (s\<lparr>sv_registry := snd p\<rparr>)" "\<not> is_panic (fst p)"
    using assms Register_inv [of _ now] registry_no_panic(1) [of _ now]
    by (auto simp: p_def server_inv_frame server_inv_def split: option.split)
  obtain k s2 where k: "open_conn (rr_SlaveID q) (s\<lparr>sv_registry := snd p\<rparr>) = (k, s2)" by fastforce
  obtain s3 where s3: "drainPendingToWS et ec (rr_SlaveID q) k s2 = Some s3" "server_inv s3"
    by (rule opened [OF p(1) k])
  show ?thesis
    unfolding handleConnection_def q(1) option.case prod.case p_def [symmetric]
    using q(2) p k s3 start_writing_inv [OF s3(2)]
    by (cases p; cases "fst p") (auto simp: sound_def Let_def)
qed

lemma message_inv: "server_inv s \<Longrightarrow> server_inv (handleMessage now k m s)"
  using UpdateStatus_inv
  by (auto simp: handleMessage_def server_inv_def split: option.split prod.split)

lemma end_conn_inv: "server_inv s \<Longrightarrow> server_inv (end_conn k s)"
proof -
  assume s: "server_inv s"
  have "conns_inv (hub_unregister i s)" for i
    using s unfolding server_inv_def conns_inv_def hub_unregister_def by (auto simp: delete_conv')
  then show ?thesis using s by (auto simp: end_conn_def hub_unregister_def server_inv_def split: option.split)
qed

lemma write_inv:
  assumes "server_inv s"
  shows "server_inv (snd (writePump stop ok k s))"
proof (cases "sv_ws s k")
  case (Some c)
  have conns: "conns_inv s" using assms by (simp add: server_inv_def)
  note c = conn_ok [OF conns Some]
  have "server_inv (s\<lparr>sv_ws := (sv_ws s)(k \<mapsto> c')\<rparr>)"
    if "wc_slaveID c' = wc_slaveID c" "\<not> gc_shut (wc_send c')" "gc_cap (wc_send c') = send_capacity" "chan_ok (wc_send c')" for c'
    using conn_set [OF conns Some that] assms by (simp add: server_inv_def)
  then show ?thesis
    using assms c by (auto simp: writePump_def Some try_recv_def chan_ok_def split: list.split bool.split)
qed (simp add: writePump_def assms)

lemma offline_inv: "server_inv s \<Longrightarrow> server_inv (s\<lparr>sv_registry := map_option (\<lambda>r. snd (MarkOffline i r)) (sv_registry s)\<rparr>)"
  by (auto simp: server_inv_def MarkOffline_inv)

lemma sound_event: "server_inv s \<Longrightarrow> sound (server_exec et ec e s)"
  by (cases e) (simp_all add: sound_register sound_heartbeat sound_tasks sound_result sound_unregister sound_drain
      sound_assign sound_command sound_open,
      simp_all add: sound_def message_inv end_conn_inv write_inv offline_inv)

lemma run_events_inv: "server_inv s \<Longrightarrow> server_inv (run_events et ec es s)"
proof (induction es arbitrary: s)
  case (Cons e es)
  then show ?case using sound_event [of s et ec e] by (simp add: sound_def)
qed simp

lemma server_inv_new: "(\<And>r. reg = Some r \<Longrightarrow> reg_inv r) \<Longrightarrow> server_inv (NewServer reg)"
  by (simp add: server_inv_def NewServer_def conns_inv_def)

section \<open>Queues of slaves\<close>

lemma enqueue_items:
  assumes "queues_inv qs"
  shows "fst (enqueue i x qs) = (if length (items_of i qs) < queue_capacity then Inr () else Inl (SendTimeout i))"
    and "items_of i (snd (enqueue i x qs)) = (if length (items_of i qs) < queue_capacity then items_of i qs @ [x] else items_of i qs)"
    and "j \<noteq> i \<Longrightarrow> items_of j (snd (enqueue i x qs)) = items_of j qs"
proof -
  obtain q qs1 where q: "queue_of i qs = (q, qs1)" by fastforce
  note inv = queue_of_inv [OF assms q]
  obtain c where c: "qs_chan qs1 q = Some c" "\<not> gc_shut c" "gc_cap c = queue_capacity"
    using queues_invD [OF inv] by blast
  have same: "items_of k qs1 = items_of k qs" for k
  proof (cases "map_of (qs_map qs) i")
    case None
    have "map_of (qs_map qs) k \<noteq> Some (qs_next qs)"
      using assms unfolding queues_inv_def by (metis less_irrefl)
    then show ?thesis using q None
      by (cases "k = i") (auto simp: queue_of_def items_of_def update_conv' split: option.split)
  qed (use q in \<open>auto simp: queue_of_def\<close>)
  have items: "items_of i qs = gc_items c"
    using same [of i] inv(2) c(1) by (simp add: items_of_def)
  show "fst (enqueue i x qs) = (if length (items_of i qs) < queue_capacity then Inr () else Inl (SendTimeout i))"
    using c by (simp add: enqueue_def q send_queue_def try_send_def items)
  show "items_of i (snd (enqueue i x qs)) = (if length (items_of i qs) < queue_capacity then items_of i qs @ [x] else items_of i qs)"
    using c inv(2) by (simp add: enqueue_def q send_queue_def try_send_def items) (simp add: items_of_def)
  show "items_of j (snd (enqueue i x qs)) = items_of j qs" if "j \<noteq> i"
  proof -
    have "map_of (qs_map qs1) j \<noteq> Some q"
      using inv that unfolding queues_inv_def inj_on_def by (metis domI)
    then have "items_of j (snd (enqueue i x qs)) = items_of j qs1"
      using c by (auto simp: enqueue_def q send_queue_def try_send_def items_of_def split: option.split)
    then show ?thesis by (simp add: same)
  qed
qed

definition queue_put :: "gostring \<Rightarrow> 'a \<Rightarrow> 'a queues \<Rightarrow> 'a queues option" where
  "queue_put i x qs = (case enqueue i x qs of (Inr _, qs') \<Rightarrow> Some qs' | (Inl _, _) \<Rightarrow> None)"

definition queue_take :: "gostring \<Rightarrow> 'a queues \<Rightarrow> 'a list \<times> 'a queues" where
  "queue_take i qs = (case pending i qs of None \<Rightarrow> ([], qs) | Some (xs, qs') \<Rightarrow> (map the xs, qs'))"

interpretation slave_queue: bounded_fifo "queue_put i" "queue_take i" "items_of i"
  "\<lambda>qs. queue_capacity - length (items_of i qs)" queues_inv for i
proof unfold_locales
  fix qs :: "'a queues" and x
  assume inv: "queues_inv qs"
  show "\<exists>qs'. queue_put i x qs = Some qs' \<and> queues_inv qs' \<and> items_of i qs' = items_of i qs @ [x] \<and>
      queue_capacity - length (items_of i qs) = Suc (queue_capacity - length (items_of i qs'))"
    if "0 < queue_capacity - length (items_of i qs)"
    using that enqueue_items(1,2) [OF inv, of i x] enqueue_inv(1) [OF inv, of i x]
    by (cases "enqueue i x qs") (auto simp: queue_put_def)
  show "queue_put i x qs = None" if "queue_capacity - length (items_of i qs) = 0"
    using that enqueue_items(1) [OF inv, of i x] by (cases "enqueue i x qs") (auto simp: queue_put_def)
  show "fst (queue_take i qs) = items_of i qs"
    by (rule pending_result [OF inv, of i]) (simp add: queue_take_def comp_def)
  show "queues_inv (snd (queue_take i qs)) \<and> items_of i (snd (queue_take i qs)) = []"
    by (rule pending_result [OF inv, of i]) (simp add: queue_take_def)
qed

section \<open>Registrations\<close>

definition registered :: "gostring \<Rightarrow> rest_server \<Rightarrow> bool" where
  "registered i s \<longleftrightarrow> (\<exists>r. sv_registry s = Some r \<and> map_of (r_slaves r) i \<noteq> None)"

lemma notifyEvent_slaves [simp]:
  "r_slaves (snd (notifyEvent ev r)) = r_slaves r" "r_status (snd (notifyEvent ev r)) = r_status r"
  by (simp_all add: notifyEvent_def split: prod.split)

lemma slaves_kept:
  "r_slaves (snd (UpdateStatus i st r)) = r_slaves r" "r_slaves (snd (DrainSlave i r)) = r_slaves r"
  "r_slaves (snd (MarkOffline i r)) = r_slaves r"
  "map_of (r_slaves r) j \<noteq> None \<Longrightarrow> map_of (r_slaves (snd (Register now x r))) j \<noteq> None"
  "map_of (r_slaves r) j \<noteq> None \<Longrightarrow> j \<noteq> i \<Longrightarrow> map_of (r_slaves (snd (Unregister i r))) j \<noteq> None"
  by (auto simp: registry_op Let_def update_conv' delete_conv' split: option.splits)

lemma registered_set: "registered i (s\<lparr>sv_registry := Some r\<rparr>) \<longleftrightarrow> map_of (r_slaves r) i \<noteq> None"
  by (simp add: registered_def)

lemma registered_frame [simp]:
  "registered i (s\<lparr>sv_taskQueues := tq\<rparr>) = registered i s" "registered i (s\<lparr>sv_commandQueues := cq\<rparr>) = registered i s"
  "registered i (s\<lparr>sv_ws := w\<rparr>) = registered i s" "registered i (s\<lparr>sv_conns := cs\<rparr>) = registered i s"
  "registered i (s\<lparr>sv_nextConn := n\<rparr>) = registered i s"
  by (simp_all add: registered_def)

lemma sendToSlave_registry [simp]: "sv_registry (snd (sendToSlave i m s)) = sv_registry s"
  by (auto simp: sendToSlave_def split: option.split sent.split)

lemma push_registry:
  "sv_registry (snd (PushTask et i t s)) = sv_registry s" "sv_registry (snd (PushCommand ec i c s)) = sv_registry s"
  by (simp_all add: PushTask_def PushCommand_def split: option.split)

lemma assign_registry [simp]:
  "sv_registry (snd (AssignTask et i t s)) = sv_registry s" "sv_registry (snd (SendCommand ec i c s)) = sv_registry s"
  using push_registry(1) [of et i t s] push_registry(2) [of ec i c s]
  by (auto simp: AssignTask_def SendCommand_def Let_def split: prod.split sum.split if_splits)

lemma drainPending_registry: "drainPendingToWS et ec i k s = Some s' \<Longrightarrow> sv_registry s' = sv_registry s"
  by (auto simp: drainPendingToWS_def split: option.splits prod.splits)

lemma open_conn_registry [simp]: "sv_registry (snd (open_conn i s)) = sv_registry s"
  by (simp add: open_conn_def)

lemma connection_registry:
  "sv_registry (snd (handleConnection et ec now first ok s)) = sv_registry s \<or>
   (\<exists>q r. sv_registry s = Some r \<and>
      sv_registry (snd (handleConnection et ec now first ok s)) = Some (snd (Register now (Some (slave_info_of q)) r)))"
proof (cases "\<exists>q. first = Some (WSMsgRegister, Some q) \<and> rr_SlaveID q \<noteq> []")
  case True
  then obtain q where q: "first = Some (WSMsgRegister, Some q)" "rr_SlaveID q \<noteq> []" by blast
  define p where "p = (case sv_registry s of
      None \<Rightarrow> (Inr (), None)
    | Some r \<Rightarrow> map_prod id Some (Register now (Some (slave_info_of q)) r))"
  obtain k s2 where k: "open_conn (rr_SlaveID q) (s\<lparr>sv_registry := snd p\<rparr>) = (k, s2)" by fastforce
  then have "sv_registry s2 = snd p" using open_conn_registry [of "rr_SlaveID q" "s\<lparr>sv_registry := snd p\<rparr>"] by simp
  then have "sv_registry (snd (handleConnection et ec now first ok s)) = snd p"
    unfolding handleConnection_def q(1) option.case prod.case p_def [symmetric]
    using q(2) k drainPending_registry [of et ec "rr_SlaveID q" k s2]
    by (cases p; cases "fst p") (auto simp: Let_def start_writing_def split: option.split)
  then show ?thesis by (auto simp: p_def split: option.splits)
qed (auto simp: handleConnection_def split: option.split)

lemma stays_registered:
  assumes "registered i s" "e \<noteq> Ev_Unregister i"
  shows "registered i (snd (server_exec et ec e s))"
proof -
  obtain r where r: "sv_registry s = Some r" "map_of (r_slaves r) i \<noteq> None"
    using assms(1) by (auto simp: registered_def)
  show ?thesis
  proof (cases e)
    case (Ev_Register now q)
    then show ?thesis using r assms(1) slaves_kept(4) [OF r(2), of now]
      by (auto simp: registerSlave_def registered_set split: sum.split prod.split) (metis snd_conv option.distinct(1))+
  next
    case (Ev_Heartbeat now j q)
    then show ?thesis using r assms(1) slaves_kept(1) [of j _ r]
      by (auto simp: slaveHeartbeat_def heartbeat_reply_def getPendingCommands_def registered_set
          split: sum.split prod.split option.split) (metis snd_conv option.distinct(1))+
  next
    case (Ev_Unregister j)
    obtain res r' where u: "Unregister j r = (res, r')" by fastforce
    have "map_of (r_slaves r') i \<noteq> None"
      using slaves_kept(5) [OF r(2), of j] u assms(2) Ev_Unregister by auto
    then show ?thesis using r(1) assms(1) Ev_Unregister
      by (auto simp: unregisterSlave_def u cleanupSlaveQueues_def registered_set split: sum.split)
  next
    case (Ev_Drain j)
    then show ?thesis using r assms(1) slaves_kept(2) [of j r]
      by (auto simp: drainSlave_def registered_set split: sum.split prod.split)
  next
    case (Ev_Open now first ok)
    then show ?thesis using connection_registry [of et ec now first ok s] r slaves_kept(4) [OF r(2), of now]
      by (auto simp: registered_def)
  next
    case (Ev_Message now k m)
    then show ?thesis using r assms(1) slaves_kept(1) [of _ _ r]
      by (auto simp: handleMessage_def registered_set split: option.split prod.split)
  qed (use r assms(1) slaves_kept(3) in \<open>auto simp: registered_def getSlaveTasks_def getPendingTasks_def receiveTaskResult_def
       receiveMetricsReport_def end_conn_def hub_unregister_def writePump_def
       split: sum.split prod.split option.split received.split bool.split\<close>)
qed

lemma run_registered:
  "registered i s \<Longrightarrow> list_all (\<lambda>e. e \<noteq> Ev_Unregister i) es \<Longrightarrow> registered i (run_events et ec es s)"
  by (induction es arbitrary: s) (auto simp: stays_registered)

section \<open>Properties\<close>


definition sample_request :: "gostring \<Rightarrow> register_request" where
  "sample_request i = \<lparr>rr_SlaveID = i, rr_SlaveType = SlaveTypeWorker, rr_Capabilities = [], rr_Labels = None,
     rr_Address = ''10.0.0.1'', rr_Resources = None\<rparr>"

definition sample_task :: "gostring \<Rightarrow> task_assignment" where
  "sample_task i = \<lparr>ta_TaskID = i, ta_ExecutionID = ''e'', ta_Workflow = None, ta_Segment = None, ta_Options = None\<rparr>"


lemma registered_refused:
  assumes "registered i s" "rr_SlaveID q = i" "i \<noteq> []"
  shows "rr_Address q \<noteq> [] \<Longrightarrow> registerSlave now (Inr q) s = (Reply 500 (B_Register (rejected (AlreadyRegistered i))), s)"
    and "handleConnection et ec now (Some (WSMsgRegister, Some q)) ok s = (Refused (rejected (AlreadyRegistered i)), s)"
proof -
  obtain r where r: "sv_registry s = Some r" "map_of (r_slaves r) i \<noteq> None"
    using assms(1) by (auto simp: registered_def)
  have reg: "Register now (Some (slave_info_of q)) r = (Inl (AlreadyRegistered i), r)"
    using r(2) assms(2,3) by (simp add: Register_def slave_info_of_def)
  have same: "s\<lparr>sv_registry := Some r\<rparr> = s" using r(1) by (cases s) simp
  show "registerSlave now (Inr q) s = (Reply 500 (B_Register (rejected (AlreadyRegistered i))), s)" if "rr_Address q \<noteq> []"
    using r(1) reg same assms(2,3) that by (simp add: registerSlave_def)
  show "handleConnection et ec now (Some (WSMsgRegister, Some q)) ok s = (Refused (rejected (AlreadyRegistered i)), s)"
    using r(1) reg same assms(2,3) by (simp add: handleConnection_def)
qed

text \<open>Once a slave is registered, every further registration under its ID is refused, over HTTP and over WebSocket, whatever
  happens in between, unless it is unregistered by a request.  The end of a connection, lost heartbeats and being
  marked offline do not unregister it.  So a slave that loses its connection cannot come back: all its attempts to reconnect
  are rejected.\<close>

theorem reconnection_refused:
  assumes "registered i s" "list_all (\<lambda>e. e \<noteq> Ev_Unregister i) es" "rr_SlaveID q = i" "i \<noteq> []" "rr_Address q \<noteq> []"
    and "s' = run_events et ec es s"
  shows "registerSlave now (Inr q) s' = (Reply 500 (B_Register (rejected (AlreadyRegistered i))), s') \<and>
    handleConnection et ec now (Some (WSMsgRegister, Some q)) ok s' = (Refused (rejected (AlreadyRegistered i)), s')"
  using registered_refused [of i s' q, OF _ assms(3,4)] run_registered [OF assms(1,2), of et ec] assms(5,6) by simp

lemma reconnection_refused_witness:
  "let s = snd (registerSlave 0 (Inr (sample_request ''w1'')) (NewServer (Some NewInMemorySlaveRegistry)));
       s' = run_events (\<lambda>t. None) (\<lambda>c. None) [Ev_Offline ''w1'', Ev_Close 0] s
   in handleConnection (\<lambda>t. None) (\<lambda>c. None) 9 (Some (WSMsgRegister, Some (sample_request ''w1''))) True s' =
        (Refused (rejected (AlreadyRegistered ''w1'')), s')"
  unfolding Let_def
  by (rule reconnection_refused [where i = "''w1''" and now = 9, THEN conjunct2, OF _ _ _ _ _ refl])
    (simp_all add: registered_def registerSlave_def sample_request_def NewServer_def Register_def slave_info_of_def
      NewInMemorySlaveRegistry_def notifyEvent_def)

lemma assign_items:
  assumes "server_inv s" "\<not> HasConn i s"
  shows "items_of i (sv_taskQueues (snd (AssignTask et j t s))) =
      (if j = i \<and> length (items_of i (sv_taskQueues s)) < queue_capacity then items_of i (sv_taskQueues s) @ [t]
       else items_of i (sv_taskQueues s))"
    and "\<not> HasConn i (snd (AssignTask et j t s))"
proof -
  have push: "sv_taskQueues (snd (PushTask et j t s)) = sv_taskQueues s" "sv_conns (snd (PushTask et j t s)) = sv_conns s"
    by (auto simp: PushTask_def sendToSlave_def split: option.split sent.split)
  have inv: "queues_inv (sv_taskQueues s)" using assms(1) by (simp add: server_inv_def)
  show "items_of i (sv_taskQueues (snd (AssignTask et j t s))) =
      (if j = i \<and> length (items_of i (sv_taskQueues s)) < queue_capacity then items_of i (sv_taskQueues s) @ [t]
       else items_of i (sv_taskQueues s))"
    using enqueue_items(2,3) [OF inv, of i] enqueue_items(3) [OF inv, of i j t] assms(2) push
    by (auto simp: AssignTask_def Let_def split: prod.split sum.split) (metis snd_conv)+
  show "\<not> HasConn i (snd (AssignTask et j t s))"
    using assms(2) push by (auto simp: AssignTask_def HasConn_def Let_def split: prod.split sum.split if_splits)
qed

lemma assigns_items:
  assumes "server_inv s" "\<not> HasConn i s"
    "length (items_of i (sv_taskQueues s)) + length (filter (\<lambda>(j, t). j = i) jts) \<le> queue_capacity"
  shows "items_of i (sv_taskQueues (run_events et ec (map (\<lambda>(j, t). Ev_Assign j t) jts) s)) =
    items_of i (sv_taskQueues s) @ map snd (filter (\<lambda>(j, t). j = i) jts)"
  using assms
proof (induction jts arbitrary: s)
  case (Cons jt jts)
  obtain j t where jt: "jt = (j, t)" by fastforce
  let ?s = "snd (AssignTask et j t s)"
  have inv: "server_inv ?s" using sound_assign [OF Cons.prems(1), of et j t] by (simp add: sound_def)
  note items = assign_items [OF Cons.prems(1,2), of et j t]
  have "items_of i (sv_taskQueues ?s) = items_of i (sv_taskQueues s) @ (if j = i then [t] else [])"
    using items(1) Cons.prems(3) by (auto simp: jt)
  then show ?case using Cons.IH [OF inv items(2)] Cons.prems(3) by (auto simp: jt)
qed simp

text \<open>(C6) The tasks that the master assigns to a slave without a connection are delivered when it polls: exactly once, in the order
  in which they were assigned, and none of another slave, when no more than a hundred wait.\<close>

theorem tasks_delivered_in_order:
  assumes "server_inv s" "registered i s" "\<not> HasConn i s" "items_of i (sv_taskQueues s) = []"
    and "length (filter (\<lambda>(j, t). j = i) jts) \<le> queue_capacity"
    and "s' = run_events et ec (map (\<lambda>(j, t). Ev_Assign j t) jts) s"
  shows "fst (getSlaveTasks i s') = Reply 200 (B_Tasks (map (Some \<circ> snd) (filter (\<lambda>(j, t). j = i) jts))) \<and>
    items_of i (sv_taskQueues (snd (getSlaveTasks i s'))) = []"
proof -
  have inv: "server_inv s'" unfolding assms(6) by (rule run_events_inv [OF assms(1)])
  then have q: "queues_inv (sv_taskQueues s')" by (simp add: server_inv_def)
  have items: "items_of i (sv_taskQueues s') = map snd (filter (\<lambda>(j, t). j = i) jts)"
    using assigns_items [OF assms(1,3), of jts et ec] assms(4-6) by simp
  have "registered i s'"
    unfolding assms(6) by (rule run_registered [OF assms(2)]) (auto simp: list_all_iff)
  then obtain r x where r: "sv_registry s' = Some r" "map_of (r_slaves r) i = Some x" by (auto simp: registered_def)
  then have "i \<noteq> []" using inv_registry [OF inv r(1)] by (auto simp: reg_inv_def store_inv_def)
  then show ?thesis
    using r by (rule_tac pending_result [OF q, of i]) (simp add: getSlaveTasks_def getPendingTasks_def GetSlave_def items)
qed

lemma tasks_delivered_in_order_witness:
  "let s = snd (registerSlave 0 (Inr (sample_request ''w1'')) (NewServer (Some NewInMemorySlaveRegistry)));
       s' = run_events (\<lambda>t. None) (\<lambda>c. None)
              (map (\<lambda>(j, t). Ev_Assign j t) [(''w1'', sample_task ''a''), (''w2'', sample_task ''b''), (''w1'', sample_task ''c'')]) s
   in fst (getSlaveTasks ''w1'' s') =
        Reply 200 (B_Tasks (map (Some \<circ> snd) (filter (\<lambda>(j, t). j = ''w1'')
          [(''w1'', sample_task ''a''), (''w2'', sample_task ''b''), (''w1'', sample_task ''c'')]))) \<and>
      items_of ''w1'' (sv_taskQueues (snd (getSlaveTasks ''w1'' s'))) = []"
  unfolding Let_def
proof (rule tasks_delivered_in_order [OF _ _ _ _ _ refl])
  let ?s = "snd (registerSlave 0 (Inr (sample_request ''w1'')) (NewServer (Some NewInMemorySlaveRegistry)))"
  show "server_inv ?s"
    using sound_register [of "NewServer (Some NewInMemorySlaveRegistry)" 0 "Inr (sample_request ''w1'')"] server_inv_new [of "Some NewInMemorySlaveRegistry"] reg_inv_new
    by (simp add: sound_def)
  show "registered ''w1'' ?s" "\<not> HasConn ''w1'' ?s" "items_of ''w1'' (sv_taskQueues ?s) = []"
    by (simp_all add: registered_def HasConn_def items_of_def registerSlave_def sample_request_def NewServer_def Register_def
        slave_info_of_def NewInMemorySlaveRegistry_def notifyEvent_def no_queues_def)
qed (simp add: queue_capacity_def)

text \<open>(C26) When a slave opens a connection, everything that waited for it in the queues is put into the buffer of the
  connection, the tasks before the commands, each in order, and nothing is dropped: a hundred tasks and a hundred commands
  fit into a new buffer.  The queues are empty afterwards.\<close>

theorem connection_receives_pending:
  assumes "server_inv s" "\<not> registered i s" "rr_SlaveID q = i" "i \<noteq> []"
  shows "\<exists>k s' c. handleConnection et ec now (Some (WSMsgRegister, Some q)) True s = (Opened k, s') \<and>
    map_of (sv_conns s') i = Some k \<and> sv_ws s' k = Some c \<and>
    gc_items (wc_send c) =
      map (\<lambda>t. envelope WSMsgTaskAssign et (Some t)) (items_of i (sv_taskQueues s)) @
      map (\<lambda>x. envelope WSMsgCommand ec (Some x)) (items_of i (sv_commandQueues s)) \<and>
    items_of i (sv_taskQueues s') = [] \<and> items_of i (sv_commandQueues s') = []"
proof -
  define reg where "reg = map_option (\<lambda>r. snd (Register now (Some (slave_info_of q)) r)) (sv_registry s)"
  have reg: "(case sv_registry s of None \<Rightarrow> (Inr (), None)
      | Some r \<Rightarrow> map_prod id Some (Register now (Some (slave_info_of q)) r)) = (Inr (), reg)"
    using assms by (auto simp: reg_def registered_def Register_def slave_info_of_def server_inv_def reg_inv_def
        store_inv_def notifyEvent_ok split: option.split)
  let ?s = "s\<lparr>sv_registry := reg\<rparr>"
  have s: "server_inv ?s" using assms(1) Register_inv by (auto simp: reg_def server_inv_def)
  obtain k s2 where k: "open_conn i ?s = (k, s2)" by fastforce
  note o = open_conn_inv [OF s k]
  have s2: "sv_taskQueues s2 = sv_taskQueues s" "sv_commandQueues s2 = sv_commandQueues s" "map_of (sv_conns s2) i = Some k"
    using k by (auto simp: open_conn_def hub_register_def close_conn_def update_conv' Let_def split: option.split)
  obtain s3 where s3: "drainPendingToWS et ec i k s2 = Some s3"
    "sv_ws s3 k = Some (\<lparr>wc_slaveID = i, wc_send = push_all WSMsgCommand ec (items_of i (sv_commandQueues s))
         (push_all WSMsgTaskAssign et (items_of i (sv_taskQueues s)) (make_chan send_capacity)), wc_done = False, wc_writing = False\<rparr>)"
    "items_of i (sv_taskQueues s3) = []" "items_of i (sv_commandQueues s3) = []"
    by (rule drain_pending [OF o(1,3), of et ec i]) (simp add: s2)
  have "map_of (sv_conns s3) i = Some k"
    using s3(1) s2(3) by (auto simp: drainPendingToWS_def split: option.splits prod.splits)
  moreover have "handleConnection et ec now (Some (WSMsgRegister, Some q)) True s = (Opened k, start_writing k s3)"
    using assms(3,4) reg k s3(1) by (simp add: handleConnection_def Let_def)
  moreover have "length (items_of i (sv_taskQueues s)) \<le> queue_capacity" "length (items_of i (sv_commandQueues s)) \<le> queue_capacity"
    using assms(1) items_of_le by (auto simp: server_inv_def)
  ultimately show ?thesis
    using s3(2-4) by (simp add: start_writing_def push_all_def push_all_room queue_capacity_def send_capacity_def)
qed

lemma connection_receives_pending_witness:
  "\<exists>k s' c. handleConnection (\<lambda>t. Some (ta_TaskID t)) (\<lambda>c. Some (cc_Type c)) 0
      (Some (WSMsgRegister, Some (sample_request ''w1''))) True
      (snd (AssignTask (\<lambda>t. None) ''w1'' (sample_task ''t'') (NewServer None))) = (Opened k, s') \<and>
    map_of (sv_conns s') ''w1'' = Some k \<and> sv_ws s' k = Some c \<and>
    gc_items (wc_send c) =
      map (\<lambda>t. envelope WSMsgTaskAssign (\<lambda>t. Some (ta_TaskID t)) (Some t))
        (items_of ''w1'' (sv_taskQueues (snd (AssignTask (\<lambda>t. None) ''w1'' (sample_task ''t'') (NewServer None))))) @
      map (\<lambda>x. envelope WSMsgCommand (\<lambda>c. Some (cc_Type c)) (Some x))
        (items_of ''w1'' (sv_commandQueues (snd (AssignTask (\<lambda>t. None) ''w1'' (sample_task ''t'') (NewServer None))))) \<and>
    items_of ''w1'' (sv_taskQueues s') = [] \<and> items_of ''w1'' (sv_commandQueues s') = []"
proof (rule connection_receives_pending)
  have new: "server_inv (NewServer None)" by (rule server_inv_new) simp
  show "server_inv (snd (AssignTask (\<lambda>t. None) ''w1'' (sample_task ''t'') (NewServer None)))"
    using sound_assign [OF new, of "\<lambda>t. None" "''w1''"] by (simp add: sound_def)
qed (simp_all add: registered_def NewServer_def sample_request_def)


definition connected_sample :: rest_server where
  "connected_sample = snd (handleConnection (\<lambda>t. None) (\<lambda>c. None) 0 (Some (WSMsgRegister, Some (sample_request ''w1''))) True
     (NewServer (Some NewInMemorySlaveRegistry)))"

lemma connected_sample_inv: "server_inv connected_sample"
  using sound_open [of "NewServer (Some NewInMemorySlaveRegistry)" "\<lambda>t. None" "\<lambda>c. None" 0
      "Some (WSMsgRegister, Some (sample_request ''w1''))" True] server_inv_new [of "Some NewInMemorySlaveRegistry"] reg_inv_new
  by (simp add: sound_def connected_sample_def)

lemma connected_sample_state:
  "registered ''w1'' connected_sample" "\<exists>c. sv_ws connected_sample 0 = Some c \<and> wc_slaveID c = ''w1''"
  by (simp_all add: connected_sample_def registered_def handleConnection_def open_conn_def hub_register_def drainPendingToWS_def
      drain_queue_def start_writing_def sample_request_def NewServer_def Register_def slave_info_of_def
      NewInMemorySlaveRegistry_def notifyEvent_def no_queues_def Let_def)

definition online_info :: api_status where
  "online_info = \<lparr>ai_State = SlaveStateOnline, ai_Load = f64_of_int 0, ai_ActiveTasks = 0, ai_LastSeen = 0, ai_Metrics = None\<rparr>"

definition online_beat :: heartbeat_request where
  "online_beat = \<lparr>hb_SlaveID = ''w1'', hb_Status = Some online_info, hb_Timestamp = 0\<rparr>"


text \<open>(C27) The master takes the queue of a slave and sends to it after it has released the lock.  When a request to unregister the slave runs in between,
  the queue is closed and the send panics.  A new connection of the slave that took its queue at that moment never returns from
  moving the entries: the closed queue keeps giving nil.\<close>

theorem unregister_races:
  assumes "queues_inv qs" "queue_of i qs = (q, qs1)"
  shows "fst (send_queue i q x (cleanup_queue i qs1)) = Inl SendPanic \<and>
    (\<exists>c. qs_chan (cleanup_queue i qs1) q = Some c \<and> drain_loop env c ch = None)"
proof -
  note inv = queue_of_inv [OF assms]
  obtain c where c: "qs_chan qs1 q = Some c" using queues_invD [OF inv] by blast
  then have shut: "qs_chan (cleanup_queue i qs1) q = Some (close_chan c)" by (simp add: cleanup_queue_def inv(2))
  have "drain_loop env (close_chan c) ch = None"
    using drain_loop_returns [of env "close_chan c" ch] by (cases "drain_loop env (close_chan c) ch") (auto simp: close_chan_def)
  then show ?thesis using shut by (simp add: send_queue_def try_send_def close_chan_def)
qed

lemma unregister_races_witness:
  "fst (send_queue ''w1'' 0 (sample_task ''t'') (cleanup_queue ''w1'' (snd (queue_of ''w1'' no_queues)))) = Inl SendPanic \<and>
   (\<exists>c. qs_chan (cleanup_queue ''w1'' (snd (queue_of ''w1'' (no_queues :: task_assignment queues)))) 0 = Some c \<and>
      drain_loop (envelope WSMsgTaskAssign (\<lambda>t. None)) c (make_chan 256) = None)"
  by (rule unregister_races [OF queues_inv_none]) (simp add: queue_of_def no_queues_def)

text \<open>A connection that has been replaced removes its successor from the hub when it ends, because the hub is told the
  slave and not the connection: tasks then go to the queue for polling, though the slave has a connection.\<close>

lemma replaced_connection_evicts:
  assumes "sv_ws s old = Some c" "wc_slaveID c = i" "open_conn i s = (k, s')" "old \<noteq> k"
  shows "HasConn i s'" "\<not> HasConn i (end_conn old s')" "sv_ws (end_conn old s') k = sv_ws s' k"
proof -
  have old: "\<exists>c'. sv_ws s' old = Some c' \<and> wc_slaveID c' = i"
    using assms by (auto simp: open_conn_def hub_register_def close_conn_def split: option.split)
  show "HasConn i s'"
    using assms(3) by (auto simp: open_conn_def hub_register_def HasConn_def update_conv' Let_def)
  show "\<not> HasConn i (end_conn old s')"
    using old by (auto simp: end_conn_def hub_unregister_def HasConn_def delete_conv')
  show "sv_ws (end_conn old s') k = sv_ws s' k"
    by (simp add: end_conn_def hub_unregister_def split: option.split)
qed

end
