(* ===== verification/Slave_Client.thy ===== *)
theory Slave_Client
  imports Slave_Protocol
begin

text \<open>
  The client of a slave for its master (\<^verbatim>\<open>api/rest/client/client.go\<close>, \<^verbatim>\<open>client_ws.go\<close>): connecting, registering, heartbeats, polling,
  the buffers for results and metrics that could not be sent, and the loops that reconnect.  What the network and the master answer to a
  request is an argument; a loop that waits for answers takes them from a list, and is still trying when the list
  ends.  One turn of the loop of a goroutine is a step.
\<close>

section \<open>State\<close>

record client_config =
  kc_MasterURL :: gostring
  kc_SlaveID :: gostring
  kc_SlaveType :: gostring
  kc_Capabilities :: "gostring list"
  kc_Labels :: "(gostring, gostring) gomap option"
  kc_Address :: gostring
  kc_Resources :: "resource_info option"
  kc_HeartbeatInterval :: int
  kc_RequestTimeout :: int
  kc_ReconnectInterval :: int
  kc_MaxReconnectAttempts :: int
  kc_ResultBufferSize :: nat
  kc_MetricsBufferSize :: nat
  kc_TaskPollInterval :: int

definition DefaultClientConfig :: client_config where
  "DefaultClientConfig =
     \<lparr>kc_MasterURL = ''http://localhost:8080'', kc_SlaveID = [], kc_SlaveType = SlaveTypeWorker, kc_Capabilities = [],
      kc_Labels = None, kc_Address = [], kc_Resources = None, kc_HeartbeatInterval = 5000000000,
      kc_RequestTimeout = 30000000000, kc_ReconnectInterval = 5000000000, kc_MaxReconnectAttempts = 0,
      kc_ResultBufferSize = 1000, kc_MetricsBufferSize = 1000, kc_TaskPollInterval = 1000000000\<rparr>"

record buffered_result =
  bf_TaskID :: gostring
  bf_ExecutionID :: gostring
  bf_Status :: gostring
  bf_Result :: "(gostring, goval) gomap"
  bf_Errors :: "error_request list"

record buffered_metrics =
  bm_ExecutionID :: gostring
  bm_Metrics :: "metrics_data option"
  bm_StepMetrics :: "(gostring, step_metrics) gomap"

text \<open>\<open>cl_wsDone\<close> is nil, or says whether the channel is closed; \<open>cl_wsOnce\<close> is set when the connection has been closed.  The cancel functions are nil until the loops are started; \<open>cl_pollLoops\<close> counts the goroutines that poll for tasks.\<close>

record client =
  cl_config :: client_config
  cl_connected :: bool
  cl_registered :: bool
  cl_reconnecting :: bool
  cl_attempt :: int
  cl_heartbeatCancel :: bool
  cl_taskPollCancel :: bool
  cl_pollLoops :: nat
  cl_wsConn :: bool
  cl_wsSend :: "ws_message gochan"
  cl_wsOnce :: bool
  cl_wsDone :: "bool option"
  cl_results :: "buffered_result gochan"
  cl_metrics :: "buffered_metrics gochan"
  cl_bufferedCount :: int
  cl_stopped :: bool

definition NewClient :: "client_config option \<Rightarrow> client" where
  "NewClient config =
     (let cfg = (case config of None \<Rightarrow> DefaultClientConfig | Some c \<Rightarrow> c) in
      \<lparr>cl_config = cfg, cl_connected = False, cl_registered = False, cl_reconnecting = False, cl_attempt = 0,
       cl_heartbeatCancel = False, cl_taskPollCancel = False, cl_pollLoops = 0,
       cl_wsConn = False, cl_wsSend = make_chan 0, cl_wsOnce = False, cl_wsDone = None,
       cl_results = make_chan (kc_ResultBufferSize cfg), cl_metrics = make_chan (kc_MetricsBufferSize cfg),
       cl_bufferedCount = 0, cl_stopped = False\<rparr>)"

section \<open>Requests\<close>

datatype 'b answer = NetError gostring | Answered int 'b

datatype client_error =
    AlreadyConnected
  | ConnectFailed gostring
  | HealthCheckFailed int
  | NotConnected
  | NotRegistered
  | RequestFailed gostring
  | RequestRefused gostring
  | StatusFailed int
  | BadResponse
  | RegistrationRejected gostring
  | NilArgument
  | WSFailed gostring
  | WSBufferFull

definition client_Connect :: "unit answer \<Rightarrow> client \<Rightarrow> (client_error + unit) \<times> client" where
  "client_Connect health c =
     (if cl_connected c then (Inl AlreadyConnected, c)
      else case health of
        NetError e \<Rightarrow> (Inl (ConnectFailed e), c)
      | Answered n _ \<Rightarrow>
          if n \<noteq> 200 then (Inl (HealthCheckFailed n), c) else (Inr (), c\<lparr>cl_connected := True\<rparr>))"

text \<open>The body of an answer, read as an error, which gives its message, and as a response of the kind that is expected.\<close>

type_synonym 'r body = "gostring option \<times> 'r option"

definition refused :: "int \<Rightarrow> 'r body \<Rightarrow> client_error" where
  "refused n b = (case fst b of Some m \<Rightarrow> RequestRefused m | None \<Rightarrow> StatusFailed n)"

definition register_request_of :: "client_config \<Rightarrow> register_request" where
  "register_request_of cfg =
     \<lparr>rr_SlaveID = kc_SlaveID cfg, rr_SlaveType = kc_SlaveType cfg, rr_Capabilities = kc_Capabilities cfg,
      rr_Labels = kc_Labels cfg, rr_Address = kc_Address cfg, rr_Resources = kc_Resources cfg\<rparr>"

definition assigned :: "register_response \<Rightarrow> client_config \<Rightarrow> client_config" where
  "assigned rp cfg =
     (let cfg1 = (if rp_AssignedID rp \<noteq> [] then cfg\<lparr>kc_SlaveID := rp_AssignedID rp\<rparr> else cfg)
      in if rp_HeartbeatInterval rp > 0
         then cfg1\<lparr>kc_HeartbeatInterval := wrap64 (rp_HeartbeatInterval rp * 1000000)\<rparr> else cfg1)"

definition client_Register :: "register_response body answer \<Rightarrow> client \<Rightarrow> (client_error + unit) \<times> client" where
  "client_Register ans c =
     (if \<not> cl_connected c then (Inl NotConnected, c)
      else case ans of
        NetError e \<Rightarrow> (Inl (RequestFailed e), c)
      | Answered n b \<Rightarrow>
          if n \<noteq> 200 \<and> n \<noteq> 201 then (Inl (refused n b), c)
          else case snd b of
            None \<Rightarrow> (Inl BadResponse, c)
          | Some rp \<Rightarrow>
              if \<not> rp_Accepted rp then (Inl (RegistrationRejected (rp_Error rp)), c)
              else (Inr (), c\<lparr>cl_config := assigned rp (cl_config c), cl_registered := True\<rparr>))"

definition heartbeat_request_of :: "int \<Rightarrow> api_status option \<Rightarrow> client \<Rightarrow> heartbeat_request" where
  "heartbeat_request_of now status c =
     \<lparr>hb_SlaveID = kc_SlaveID (cl_config c), hb_Status = status, hb_Timestamp = now\<rparr>"

definition client_sendHeartbeat :: "control_command list body answer \<Rightarrow> client_error + control_command list" where
  "client_sendHeartbeat ans =
     (case ans of
        NetError e \<Rightarrow> Inl (RequestFailed e)
      | Answered n b \<Rightarrow>
          if n \<noteq> 200 then Inl (StatusFailed n)
          else case snd b of None \<Rightarrow> Inl BadResponse | Some cmds \<Rightarrow> Inr cmds)"

definition PollTasks :: "task_assignment list body answer \<Rightarrow> client \<Rightarrow> client_error + task_assignment list" where
  "PollTasks ans c =
     (if \<not> cl_registered c then Inl NotRegistered
      else case ans of
        NetError e \<Rightarrow> Inl (RequestFailed e)
      | Answered n b \<Rightarrow>
          if n \<noteq> 200 then Inl (StatusFailed n)
          else case snd b of None \<Rightarrow> Inl BadResponse | Some ts \<Rightarrow> Inr ts)"

definition StartHeartbeat :: "client \<Rightarrow> (client_error + unit) \<times> client" where
  "StartHeartbeat c =
     (if \<not> cl_registered c then (Inl NotRegistered, c) else (Inr (), c\<lparr>cl_heartbeatCancel := True\<rparr>))"

definition StartTaskPolling :: "client \<Rightarrow> (client_error + unit) \<times> client" where
  "StartTaskPolling c =
     (if \<not> cl_registered c then (Inl NotRegistered, c)
      else (Inr (), c\<lparr>cl_taskPollCancel := True, cl_pollLoops := Suc (cl_pollLoops c)\<rparr>))"

text \<open>Disconnecting stops all loops; whether the request to unregister succeeds does not matter.\<close>

definition client_Disconnect :: "client \<Rightarrow> client" where
  "client_Disconnect c =
     (if cl_stopped c then c
      else c\<lparr>cl_stopped := True, cl_pollLoops := 0, cl_connected := False, cl_registered := False\<rparr>)"

section \<open>Results and metrics\<close>

definition result_request_of :: "buffered_result \<Rightarrow> client \<Rightarrow> result_request" where
  "result_request_of b c =
     \<lparr>tq_TaskID = bf_TaskID b, tq_ExecutionID = bf_ExecutionID b, tq_SlaveID = kc_SlaveID (cl_config c),
      tq_Status = bf_Status b, tq_Result = bf_Result b, tq_Errors = bf_Errors b\<rparr>"

definition send_direct :: "unit body answer \<Rightarrow> client_error + unit" where
  "send_direct ans =
     (case ans of
        NetError e \<Rightarrow> Inl (RequestFailed e)
      | Answered n b \<Rightarrow> if n \<noteq> 200 then Inl (refused n b) else Inr ())"

text \<open>A full buffer loses its oldest entry.\<close>

definition push_oldest_out :: "'a \<Rightarrow> 'a gochan \<Rightarrow> 'a gochan" where
  "push_oldest_out x ch =
     (case try_recv ch of
        Received y ch1 \<Rightarrow> (case try_send x ch1 of Sent ch2 \<Rightarrow> ch2 | _ \<Rightarrow> ch1)
      | _ \<Rightarrow> ch)"

definition bufferResult :: "buffered_result \<Rightarrow> client \<Rightarrow> client" where
  "bufferResult b c =
     (case try_send b (cl_results c) of
        Sent ch \<Rightarrow> c\<lparr>cl_results := ch, cl_bufferedCount := wrap64 (cl_bufferedCount c + 1)\<rparr>
      | _ \<Rightarrow> c\<lparr>cl_results := push_oldest_out b (cl_results c)\<rparr>)"

definition bufferMetrics :: "buffered_metrics \<Rightarrow> client \<Rightarrow> client" where
  "bufferMetrics b c =
     (case try_send b (cl_metrics c) of
        Sent ch \<Rightarrow> c\<lparr>cl_metrics := ch\<rparr>
      | _ \<Rightarrow> c\<lparr>cl_metrics := push_oldest_out b (cl_metrics c)\<rparr>)"

definition SendTaskResult :: "buffered_result option \<Rightarrow> unit body answer \<Rightarrow> client \<Rightarrow> (client_error + unit) \<times> client" where
  "SendTaskResult result ans c =
     (case result of
        None \<Rightarrow> (Inl NilArgument, c)
      | Some b \<Rightarrow>
          if cl_connected c \<and> cl_registered c
          then (case send_direct ans of
                  Inl e \<Rightarrow> (Inl e, bufferResult b c)
                | Inr _ \<Rightarrow> (Inr (), c))
          else (Inr (), bufferResult b c))"

definition SendMetrics ::
  "gostring \<Rightarrow> metrics_data option \<Rightarrow> (gostring, step_metrics) gomap \<Rightarrow> unit body answer \<Rightarrow> client \<Rightarrow> (client_error + unit) \<times> client" where
  "SendMetrics executionID metrics steps ans c =
     (case metrics of
        None \<Rightarrow> (Inl NilArgument, c)
      | Some _ \<Rightarrow>
          let b = \<lparr>bm_ExecutionID = executionID, bm_Metrics = metrics, bm_StepMetrics = steps\<rparr> in
          if cl_connected c \<and> cl_registered c
          then (case send_direct ans of
                  Inl e \<Rightarrow> (Inl e, bufferMetrics b c)
                | Inr _ \<Rightarrow> (Inr (), c))
          else (Inr (), bufferMetrics b c))"

text \<open>One turn of the goroutine that sends what is buffered; it waits when the buffer is empty.\<close>

definition sendBufferedResults :: "unit body answer \<Rightarrow> client \<Rightarrow> client" where
  "sendBufferedResults ans c =
     (if cl_stopped c then c
      else case try_recv (cl_results c) of
        Received b ch \<Rightarrow>
          let c1 = c\<lparr>cl_results := ch\<rparr> in
          if cl_connected c \<and> cl_registered c
          then (case send_direct ans of
                  Inl e \<Rightarrow> bufferResult b c1
                | Inr _ \<Rightarrow> c1\<lparr>cl_bufferedCount := wrap64 (cl_bufferedCount c - 1)\<rparr>)
          else bufferResult b c1
      | _ \<Rightarrow> c)"

definition sendBufferedMetrics :: "unit body answer \<Rightarrow> client \<Rightarrow> client" where
  "sendBufferedMetrics ans c =
     (if cl_stopped c then c
      else case try_recv (cl_metrics c) of
        Received b ch \<Rightarrow>
          let c1 = c\<lparr>cl_metrics := ch\<rparr> in
          if cl_connected c \<and> cl_registered c
          then (case send_direct ans of Inl e \<Rightarrow> bufferMetrics b c1 | Inr _ \<Rightarrow> c1)
          else bufferMetrics b c1
      | _ \<Rightarrow> c)"

definition GetBufferedCount :: "client \<Rightarrow> int" where
  "GetBufferedCount c = cl_bufferedCount c"

section \<open>Reconnecting\<close>

text \<open>The first component says whether the loop that reconnects is started.\<close>

definition handleDisconnect :: "client \<Rightarrow> bool \<times> client" where
  "handleDisconnect c =
     (if \<not> cl_connected c then (False, c)
      else (\<not> cl_reconnecting c, c\<lparr>cl_connected := False, cl_registered := False\<rparr>))"

text \<open>One tick of the loop of heartbeats: the commands to handle, or that the loop ends.\<close>

definition heartbeatLoop :: "control_command list body answer \<Rightarrow> client \<Rightarrow> (bool + control_command list) \<times> client" where
  "heartbeatLoop ans c =
     (case client_sendHeartbeat ans of
        Inl e \<Rightarrow> (let (start, c') = handleDisconnect c in (Inl start, c'))
      | Inr cmds \<Rightarrow> (Inr cmds, c))"

definition restartLoops :: "client \<Rightarrow> (client_error + unit) \<times> client" where
  "restartLoops c =
     (case (if cl_heartbeatCancel c then StartHeartbeat c else (Inr (), c)) of
        (Inl e, c1) \<Rightarrow> (Inl e, c1)
      | (Inr _, c1) \<Rightarrow> if cl_taskPollCancel c1 then StartTaskPolling c1 else (Inr (), c1))"

datatype reconnect_end = RL_Already | RL_Stopped | RL_GaveUp | RL_Reconnected | RL_Trying

definition max_backoff :: int where
  "max_backoff = 60000000000"

definition next_backoff :: "int \<Rightarrow> int" where
  "next_backoff b = (let d = wrap64 (b * 2) in if d > max_backoff then max_backoff else d)"

definition count_attempt :: "client \<Rightarrow> client" where
  "count_attempt c = c\<lparr>cl_attempt := (cl_attempt c + 1 + 2 ^ 31) mod 2 ^ 32 - 2 ^ 31\<rparr>"

definition gives_up :: "client \<Rightarrow> bool" where
  "gives_up c \<longleftrightarrow> kc_MaxReconnectAttempts (cl_config c) > 0 \<and> cl_attempt c > kc_MaxReconnectAttempts (cl_config c)"

text \<open>The loop with the answers to its attempts.  The last component lists the waits before the attempts.\<close>

fun reconnect_loop ::
  "(unit answer \<times> register_response body answer) list \<Rightarrow> int \<Rightarrow> client \<Rightarrow> reconnect_end \<times> client \<times> int list" where
  "reconnect_loop answers backoff c =
     (if cl_stopped c then (RL_Stopped, c, [])
      else let c1 = count_attempt c in
        if gives_up c1 then (RL_GaveUp, c1, [])
        else case answers of
          [] \<Rightarrow> (RL_Trying, c1, [])
        | (health, reg) # rest \<Rightarrow>
            (case client_Connect health c1 of
               (Inl _, c2) \<Rightarrow>
                 (case reconnect_loop rest (next_backoff backoff) c2 of (r, c', ws) \<Rightarrow> (r, c', backoff # ws))
             | (Inr _, c2) \<Rightarrow>
                 (case client_Register reg c2 of
                    (Inl _, c3) \<Rightarrow>
                      (case reconnect_loop rest backoff (c3\<lparr>cl_connected := False\<rparr>) of (r, c', ws) \<Rightarrow> (r, c', backoff # ws))
                  | (Inr _, c3) \<Rightarrow>
                      (case restartLoops c3 of
                         (Inl _, c4) \<Rightarrow>
                           (case reconnect_loop rest backoff (c4\<lparr>cl_connected := False, cl_registered := False\<rparr>) of
                              (r, c', ws) \<Rightarrow> (r, c', backoff # ws))
                       | (Inr _, c4) \<Rightarrow> (RL_Reconnected, c4\<lparr>cl_attempt := 0\<rparr>, [backoff])))))"

declare reconnect_loop.simps [simp del]

definition reconnectLoop ::
  "(unit answer \<times> register_response body answer) list \<Rightarrow> client \<Rightarrow> reconnect_end \<times> client \<times> int list" where
  "reconnectLoop answers c =
     (if cl_reconnecting c then (RL_Already, c, [])
      else case reconnect_loop answers (kc_ReconnectInterval (cl_config c)) (c\<lparr>cl_reconnecting := True\<rparr>) of
        (RL_Trying, c', ws) \<Rightarrow> (RL_Trying, c', ws)
      | (r, c', ws) \<Rightarrow> (r, c'\<lparr>cl_reconnecting := False\<rparr>, ws))"

section \<open>WebSocket\<close>

text \<open>What happens when a connection is opened: dialling, writing the registration, reading the acknowledgement, its type, its data.\<close>

record ws_dial =
  wd_dialled :: bool
  wd_written :: bool
  wd_ack :: "(ws_type \<times> register_response option) option"

definition ConnectWS :: "ws_dial \<Rightarrow> client \<Rightarrow> (client_error + unit) \<times> client" where
  "ConnectWS d c =
     (if cl_connected c then (Inl AlreadyConnected, c)
      else if \<not> wd_dialled d then (Inl (WSFailed ''WebSocket dial failed''), c)
      else if \<not> wd_written d then (Inl (WSFailed ''send register message failed''), c)
      else case wd_ack d of
        None \<Rightarrow> (Inl (WSFailed ''read register ack failed''), c)
      | Some (ty, rp) \<Rightarrow>
          if ty \<noteq> WSMsgRegisterAck then (Inl (WSFailed (''unexpected ack type: '' @ ty)), c)
          else case rp of
            None \<Rightarrow> (Inl (WSFailed ''parse register ack failed''), c)
          | Some r \<Rightarrow>
              if \<not> rp_Accepted r then (Inl (RegistrationRejected (rp_Error r)), c)
              else
                let cfg = cl_config c in
                (Inr (), c\<lparr>cl_config := (if rp_AssignedID r \<noteq> [] then cfg\<lparr>kc_SlaveID := rp_AssignedID r\<rparr> else cfg),
                           cl_wsConn := True, cl_wsSend := make_chan 256, cl_wsDone := Some False, cl_connected := True, cl_registered := True\<rparr>))"

text \<open>Closing a channel twice panics, which is \<open>None\<close>.\<close>

definition DisconnectWS :: "client \<Rightarrow> client option" where
  "DisconnectWS c =
     (if cl_wsOnce c then Some c
      else if cl_wsDone c = Some True then None
      else Some (c\<lparr>cl_wsOnce := True, cl_wsDone := map_option (\<lambda>_. True) (cl_wsDone c),
                   cl_connected := False, cl_registered := False\<rparr>))"

definition IsWebSocket :: "client \<Rightarrow> bool" where
  "IsWebSocket c \<longleftrightarrow> cl_wsConn c \<and> cl_connected c"

definition wsSendMsg :: "ws_type \<Rightarrow> 'a encoder \<Rightarrow> 'a option \<Rightarrow> client \<Rightarrow> (client_error + unit) \<times> client" where
  "wsSendMsg ty enc payload c =
     (case (case payload of None \<Rightarrow> Some None | Some p \<Rightarrow> map_option Some (enc p)) of
        None \<Rightarrow> (Inl (WSFailed ''marshal''), c)
      | Some d \<Rightarrow>
          (case try_send \<lparr>ws_Type = ty, ws_Data = d\<rparr> (cl_wsSend c) of
             Sent ch \<Rightarrow> (Inr (), c\<lparr>cl_wsSend := ch\<rparr>)
           | _ \<Rightarrow> (Inl WSBufferFull, c)))"

definition WSSendTaskResult :: "result_request encoder \<Rightarrow> buffered_result \<Rightarrow> client \<Rightarrow> (client_error + unit) \<times> client" where
  "WSSendTaskResult enc b c = wsSendMsg WSMsgTaskResult enc (Some (result_request_of b c)) c"

definition WSSendMetrics ::
  "metrics_request encoder \<Rightarrow> int \<Rightarrow> gostring \<Rightarrow> metrics_data option \<Rightarrow> (gostring, step_metrics) gomap \<Rightarrow> client \<Rightarrow>
    (client_error + unit) \<times> client" where
  "WSSendMetrics enc now executionID metrics steps c =
     wsSendMsg WSMsgMetrics enc (Some \<lparr>mq_SlaveID = kc_SlaveID (cl_config c), mq_ExecutionID = executionID, mq_Timestamp = now,
        mq_Metrics = metrics, mq_StepMetrics = steps\<rparr>) c"

text \<open>The heartbeat over WebSocket says that the slave is online, whatever it does.\<close>

definition ws_heartbeat :: "int \<Rightarrow> client \<Rightarrow> heartbeat_request" where
  "ws_heartbeat now c =
     heartbeat_request_of now
       (Some \<lparr>ai_State = SlaveStateOnline, ai_Load = f64_of_int 0, ai_ActiveTasks = 0, ai_LastSeen = now, ai_Metrics = None\<rparr>) c"

definition wsHeartbeatPump :: "heartbeat_request encoder \<Rightarrow> int \<Rightarrow> client \<Rightarrow> client" where
  "wsHeartbeatPump enc now c =
     (if cl_wsDone c = Some True then c else snd (wsSendMsg WSMsgHeartbeat enc (Some (ws_heartbeat now c)) c))"

definition handleWSDisconnect :: "client \<Rightarrow> (bool \<times> client) option" where
  "handleWSDisconnect c = map_option (\<lambda>c'. (\<not> cl_reconnecting c', c')) (DisconnectWS c)"

fun ws_reconnect_loop :: "ws_dial list \<Rightarrow> int \<Rightarrow> client \<Rightarrow> reconnect_end \<times> client \<times> int list" where
  "ws_reconnect_loop dials backoff c =
     (if cl_stopped c then (RL_Stopped, c, [])
      else let c1 = count_attempt c in
        if gives_up c1 then (RL_GaveUp, c1, [])
        else case dials of
          [] \<Rightarrow> (RL_Trying, c1, [])
        | d # rest \<Rightarrow>
            (case ConnectWS d c1 of
               (Inl _, c2) \<Rightarrow>
                 (case ws_reconnect_loop rest (next_backoff backoff) c2 of (r, c', ws) \<Rightarrow> (r, c', backoff # ws))
             | (Inr _, c2) \<Rightarrow> (RL_Reconnected, c2\<lparr>cl_attempt := 0\<rparr>, [backoff])))"

declare ws_reconnect_loop.simps [simp del]

definition wsReconnectLoop :: "ws_dial list \<Rightarrow> client \<Rightarrow> reconnect_end \<times> client \<times> int list" where
  "wsReconnectLoop dials c =
     (if cl_reconnecting c then (RL_Already, c, [])
      else case ws_reconnect_loop dials (kc_ReconnectInterval (cl_config c)) (c\<lparr>cl_reconnecting := True, cl_wsOnce := False\<rparr>) of
        (RL_Trying, c', ws) \<Rightarrow> (RL_Trying, c', ws)
      | (r, c', ws) \<Rightarrow> (r, c'\<lparr>cl_reconnecting := False\<rparr>, ws))"

definition toWebSocketURL :: "gostring \<Rightarrow> gostring" where
  "toWebSocketURL raw =
     (if has_prefix raw ''https://'' then ''wss://'' @ drop 8 raw
      else if has_prefix raw ''http://'' then ''ws://'' @ drop 7 raw
      else ''ws://'' @ raw)"

definition IsRetryableError :: "int \<Rightarrow> bool" where
  "IsRetryableError code \<longleftrightarrow> code \<in> set [503, 504, 502, 429, 408]"

section \<open>Lemmas\<close>

lemma client_Connect_fields:
  "cl_config (snd (client_Connect h c)) = cl_config c" "cl_stopped (snd (client_Connect h c)) = cl_stopped c"
  "fst (client_Connect h c) = Inl e \<Longrightarrow> snd (client_Connect h c) = c"
  by (auto simp: client_Connect_def split: answer.splits if_splits)

lemma client_Register_failed: "fst (client_Register a c) = Inl e \<Longrightarrow> snd (client_Register a c) = c"
  by (auto simp: client_Register_def split: answer.splits option.splits if_splits)

lemma count_attempt_fields [simp]:
  "cl_config (count_attempt c) = cl_config c" "cl_stopped (count_attempt c) = cl_stopped c"
  "cl_connected (count_attempt c) = cl_connected c" "cl_registered (count_attempt c) = cl_registered c"
  by (simp_all add: count_attempt_def)

lemma unlimited [simp]: "kc_MaxReconnectAttempts (cl_config c) \<le> 0 \<Longrightarrow> \<not> gives_up c"
  by (simp add: gives_up_def)

lemma next_backoff_min:
  assumes "0 < b" "b \<le> max_backoff"
  shows "next_backoff b = min (b * 2) max_backoff" "0 < next_backoff b" "next_backoff b \<le> max_backoff"
proof -
  have "wrap64 (b * 2) = b * 2" by (rule wrap64_id) (use assms in \<open>simp_all add: max_backoff_def in_int64_def int64_min_def int64_max_def\<close>)
  then show "next_backoff b = min (b * 2) max_backoff" "0 < next_backoff b" "next_backoff b \<le> max_backoff"
    using assms by (auto simp: next_backoff_def max_backoff_def min_def Let_def)
qed

lemma backoff_powers:
  assumes "0 < b" "b \<le> max_backoff"
  shows "min (next_backoff b * 2 ^ k) max_backoff = min (b * 2 ^ Suc k) max_backoff"
proof (cases "b * 2 \<le> max_backoff")
  case False
  have "max_backoff * 1 \<le> max_backoff * 2 ^ k" "(b * 2) * 1 \<le> (b * 2) * 2 ^ k"
    using assms(1) by (intro mult_left_mono; simp add: max_backoff_def)+
  with False show ?thesis by (simp add: next_backoff_min [OF assms] min_def algebra_simps)
qed (simp add: next_backoff_min [OF assms] min_def algebra_simps)

section \<open>Properties\<close>

lemma http_waits:
  assumes "\<not> cl_stopped c" "\<not> cl_connected c" "kc_MaxReconnectAttempts (cl_config c) \<le> 0" "0 < b" "b \<le> max_backoff"
    and "list_all (\<lambda>(h, r). fst (client_Connect h (NewClient None)) \<noteq> Inr ()) answers"
  shows "fst (reconnect_loop answers b c) = RL_Trying \<and>
    snd (snd (reconnect_loop answers b c)) = map (\<lambda>k. min (b * 2 ^ k) max_backoff) [0..<length answers]"
  using assms
proof (induction answers arbitrary: b c)
  case Nil
  then show ?case by (subst (1 2) reconnect_loop.simps) (simp add: Let_def)
next
  case (Cons a answers)
  obtain h r where a: "a = (h, r)" by fastforce
  obtain e where e: "client_Connect h (count_attempt c) = (Inl e, count_attempt c)"
    using Cons.prems(2,6) by (auto simp: a client_Connect_def NewClient_def split: answer.splits if_splits)
  note IH = Cons.IH [of "count_attempt c" "next_backoff b"]
  have waits: "map (\<lambda>k. min (b * 2 ^ k) max_backoff) [0..<Suc (length answers)] =
      b # map (\<lambda>k. min (next_backoff b * 2 ^ k) max_backoff) [0..<length answers]"
    using Cons.prems(4,5) by (simp add: backoff_powers map_upt_Suc del: upt_Suc)
  show ?case
    using IH Cons.prems next_backoff_min(2,3) [OF Cons.prems(4,5)]
    by (subst (1 2) reconnect_loop.simps) (auto simp: Let_def a e waits simp del: upt_Suc split: prod.split)
qed

lemma ws_waits:
  assumes "\<not> cl_stopped c" "\<not> cl_connected c" "kc_MaxReconnectAttempts (cl_config c) \<le> 0" "0 < b" "b \<le> max_backoff"
    and "list_all (\<lambda>d. \<not> wd_dialled d) dials"
  shows "fst (ws_reconnect_loop dials b c) = RL_Trying \<and>
    snd (snd (ws_reconnect_loop dials b c)) = map (\<lambda>k. min (b * 2 ^ k) max_backoff) [0..<length dials]"
  using assms
proof (induction dials arbitrary: b c)
  case Nil
  then show ?case by (subst (1 2) ws_reconnect_loop.simps) (simp add: Let_def)
next
  case (Cons d dials)
  have e: "ConnectWS d (count_attempt c) = (Inl (WSFailed ''WebSocket dial failed''), count_attempt c)"
    using Cons.prems(2,6) by (simp add: ConnectWS_def)
  note IH = Cons.IH [of "count_attempt c" "next_backoff b"]
  have waits: "map (\<lambda>k. min (b * 2 ^ k) max_backoff) [0..<Suc (length dials)] =
      b # map (\<lambda>k. min (next_backoff b * 2 ^ k) max_backoff) [0..<length dials]"
    using Cons.prems(4,5) by (simp add: backoff_powers map_upt_Suc del: upt_Suc)
  show ?case
    using IH Cons.prems next_backoff_min(2,3) [OF Cons.prems(4,5)]
    by (subst (1 2) ws_reconnect_loop.simps) (auto simp: Let_def e waits simp del: upt_Suc split: prod.split)
qed

text \<open>While the master cannot be reached, a client waits between its attempts to reconnect, over HTTP and over WebSocket, for
  times that double from the configured interval up to a minute, and goes on forever when the number of attempts is not limited.\<close>

theorem reconnect_backoff:
  assumes "\<not> cl_stopped c" "\<not> cl_connected c" "\<not> cl_reconnecting c" "kc_MaxReconnectAttempts (cl_config c) \<le> 0"
    and "b = kc_ReconnectInterval (cl_config c)" "0 < b" "b \<le> max_backoff"
    and "length answers = n" "list_all (\<lambda>(h, r). fst (client_Connect h (NewClient None)) \<noteq> Inr ()) answers"
    and "length dials = n" "list_all (\<lambda>d. \<not> wd_dialled d) dials"
  shows "(\<exists>c1 c2. reconnectLoop answers c = (RL_Trying, c1, map (\<lambda>k. min (b * 2 ^ k) max_backoff) [0..<n]) \<and>
     wsReconnectLoop dials c = (RL_Trying, c2, map (\<lambda>k. min (b * 2 ^ k) max_backoff) [0..<n]))"
proof -
  let ?c = "c\<lparr>cl_reconnecting := True\<rparr>" and ?w = "c\<lparr>cl_reconnecting := True, cl_wsOnce := False\<rparr>"
  have "fst (reconnect_loop answers b ?c) = RL_Trying \<and>
      snd (snd (reconnect_loop answers b ?c)) = map (\<lambda>k. min (b * 2 ^ k) max_backoff) [0..<length answers]"
    by (rule http_waits) (use assms in simp_all)
  moreover have "fst (ws_reconnect_loop dials b ?w) = RL_Trying \<and>
      snd (snd (ws_reconnect_loop dials b ?w)) = map (\<lambda>k. min (b * 2 ^ k) max_backoff) [0..<length dials]"
    by (rule ws_waits) (use assms in simp_all)
  ultimately show ?thesis
    using assms(3,5,8,10) by (auto simp: reconnectLoop_def wsReconnectLoop_def split: prod.split)
qed

lemma reconnect_backoff_witness:
  "\<exists>c1 c2. reconnectLoop (replicate 5 (NetError ''refused'', NetError ''refused'')) (NewClient None) =
      (RL_Trying, c1, map (\<lambda>k. min (5000000000 * 2 ^ k) max_backoff) [0..<5]) \<and>
    wsReconnectLoop (replicate 5 \<lparr>wd_dialled = False, wd_written = False, wd_ack = None\<rparr>) (NewClient None) =
      (RL_Trying, c2, map (\<lambda>k. min (5000000000 * 2 ^ k) max_backoff) [0..<5])"
  by (rule reconnect_backoff)
    (simp_all add: NewClient_def DefaultClientConfig_def client_Connect_def max_backoff_def numeral_eq_Suc)

section \<open>Against the server\<close>

text \<open>What a client gets for a reply of the server, and when it opens a connection.\<close>

fun register_answer :: "reply \<Rightarrow> register_response body answer" where
  "register_answer (Reply n (B_Register rp)) = Answered n (Some [], Some rp)"
| "register_answer (Reply n (B_Error e m)) =
     Answered n (Some m, Some \<lparr>rp_Accepted = False, rp_AssignedID = [], rp_Error = e, rp_HeartbeatInterval = 0,
                                rp_MasterID = [], rp_Version = []\<rparr>)"
| "register_answer (Reply n _) = Answered n (Some [], None)"
| "register_answer Panicked = Answered 500 (None, None)"
| "register_answer Hangs = NetError ''timeout''"

fun dial_of :: "gostring \<Rightarrow> ws_opening \<Rightarrow> ws_dial" where
  "dial_of i (Refused rp) = \<lparr>wd_dialled = True, wd_written = True, wd_ack = Some (WSMsgRegisterAck, Some rp)\<rparr>"
| "dial_of i (Opened k) =
     \<lparr>wd_dialled = True, wd_written = True, wd_ack = Some (WSMsgRegisterAck, Some (accepted i 30000))\<rparr>"
| "dial_of i Stuck =
     \<lparr>wd_dialled = True, wd_written = True, wd_ack = Some (WSMsgRegisterAck, Some (accepted i 30000))\<rparr>"
| "dial_of i _ = \<lparr>wd_dialled = True, wd_written = True, wd_ack = None\<rparr>"

lemma refused_register:
  "client_Register (register_answer (Reply 500 (B_Register rp))) c = (Inl (if cl_connected c then RequestRefused [] else NotConnected), c)"
  by (simp add: client_Register_def refused_def)

lemma refused_dial:
  "\<not> rp_Accepted rp \<Longrightarrow> \<not> cl_connected c \<Longrightarrow> ConnectWS (dial_of i (Refused rp)) c = (Inl (RegistrationRejected (rp_Error rp)), c)"
  by (simp add: ConnectWS_def)

lemma http_never:
  assumes "\<not> cl_stopped c" "\<not> cl_connected c" "\<not> cl_registered c" "kc_MaxReconnectAttempts (cl_config c) \<le> 0"
  shows "case reconnect_loop (map (\<lambda>h. (h, register_answer (Reply 500 (B_Register (rejected e))))) healths) b c of
    (r, c', ws) \<Rightarrow> r = RL_Trying \<and> \<not> cl_connected c' \<and> \<not> cl_registered c'"
  using assms
proof (induction healths arbitrary: b c)
  case Nil
  then show ?case by (subst reconnect_loop.simps) (simp add: Let_def)
next
  case (Cons h healths)
  obtain res c2 where c2: "client_Connect h (count_attempt c) = (res, c2)" by fastforce
  have c2': "cl_stopped c2 = cl_stopped c" "cl_config c2 = cl_config c" "cl_registered c2 = cl_registered c"
      "res = Inl x \<Longrightarrow> c2 = count_attempt c" for x
    using c2 by (auto simp: client_Connect_def split: answer.splits if_splits)
  show ?case
    using Cons.IH [of "c2\<lparr>cl_connected := False\<rparr>" b] Cons.IH [of "count_attempt c" "next_backoff b"] Cons.prems c2'
    by (subst reconnect_loop.simps)
      (cases res; auto simp: Let_def c2 refused_register simp del: register_answer.simps split: prod.splits)
qed

lemma ws_never:
  assumes "\<not> cl_stopped c" "\<not> cl_connected c" "\<not> cl_registered c" "kc_MaxReconnectAttempts (cl_config c) \<le> 0"
  shows "case ws_reconnect_loop (replicate n (dial_of i (Refused (rejected e)))) b c of
    (r, c', ws) \<Rightarrow> r = RL_Trying \<and> \<not> cl_connected c' \<and> \<not> cl_registered c'"
  using assms
proof (induction n arbitrary: b c)
  case 0
  then show ?case by (subst ws_reconnect_loop.simps) (simp add: Let_def)
next
  case (Suc n)
  have d: "ConnectWS (dial_of i (Refused (rejected e))) (count_attempt c) =
      (Inl (RegistrationRejected (rp_Error (rejected e))), count_attempt c)"
    using Suc.prems by (intro refused_dial) (simp_all add: rejected_def)
  show ?case
    using Suc.IH [of "count_attempt c" "next_backoff b"] Suc.prems
    by (subst ws_reconnect_loop.simps) (auto simp: Let_def d simp del: dial_of.simps split: prod.splits)
qed

text \<open>(C4) A slave that has lost its connection never gets it back while the server runs: every attempt to reconnect, over HTTP or
  WebSocket, is made at some later state of the server, and no such state accepts the slave, because it is still registered.
  The loop goes on forever, and the client stays disconnected.  Only the slave itself asks to be unregistered, when it
  disconnects on purpose.\<close>

theorem slave_never_reconnects:
  assumes "registered i s" "i = kc_SlaveID (cl_config c)" "i \<noteq> []" "kc_Address (cl_config c) \<noteq> []"
    and "\<not> cl_stopped c" "\<not> cl_connected c" "\<not> cl_registered c" "\<not> cl_reconnecting c" "kc_MaxReconnectAttempts (cl_config c) \<le> 0"
    and "req = register_request_of (cl_config c)"
    and "list_all (\<lambda>(h, now, es). list_all (\<lambda>e. e \<noteq> Ev_Unregister i) es) attempts"
    and "answers = map (\<lambda>(h, now, es). (h, register_answer (fst (registerSlave now (Inr req) (run_events et ec es s))))) attempts"
    and "dials = map (\<lambda>(h, now, es). dial_of i
      (fst (handleConnection et ec now (Some (WSMsgRegister, Some req)) True (run_events et ec es s)))) attempts"
  shows "(\<exists>c' ws. reconnectLoop answers c = (RL_Trying, c', ws) \<and> \<not> cl_connected c' \<and> \<not> cl_registered c') \<and>
    (\<exists>c' ws. wsReconnectLoop dials c = (RL_Trying, c', ws) \<and> \<not> cl_connected c' \<and> \<not> cl_registered c')"
proof -
  let ?rp = "rejected (AlreadyRegistered i)"
  have req: "rr_SlaveID req = i" "rr_Address req \<noteq> []"
    using assms(2,4,10) by (simp_all add: register_request_of_def)
  have later: "registered i (run_events et ec es s)" if "(h, now, es) \<in> set attempts" for h now es
    using run_registered [OF assms(1)] assms(11) that by (auto simp: list_all_iff)
  have "answers = map (\<lambda>h. (h, register_answer (Reply 500 (B_Register ?rp)))) (map fst attempts)"
    unfolding assms(12) map_map
    by (rule map_cong [OF refl]) (auto simp: registered_refused(1) [OF later req(1) assms(3) req(2)] simp del: register_answer.simps)
  moreover have "dials = map (\<lambda>_. dial_of i (Refused ?rp)) attempts"
    unfolding assms(13)
    by (rule map_cong [OF refl]) (auto simp: registered_refused(2) [OF later req(1) assms(3)] simp del: dial_of.simps)
  ultimately show ?thesis
    using http_never [of "c\<lparr>cl_reconnecting := True\<rparr>" "AlreadyRegistered i" "map fst attempts" "kc_ReconnectInterval (cl_config c)"]
      ws_never [of "c\<lparr>cl_reconnecting := True, cl_wsOnce := False\<rparr>" "length attempts" i "AlreadyRegistered i" "kc_ReconnectInterval (cl_config c)"]
      assms(5-9)
    by (auto simp: reconnectLoop_def wsReconnectLoop_def map_replicate_const simp del: register_answer.simps dial_of.simps split: prod.splits)
qed

definition sample_client :: client where
  "sample_client = NewClient (Some (DefaultClientConfig\<lparr>kc_SlaveID := ''w1'', kc_Address := ''10.0.0.1''\<rparr>))"

lemma slave_never_reconnects_witness:
  "let s = snd (registerSlave 0 (Inr (sample_request ''w1'')) (NewServer (Some NewInMemorySlaveRegistry)));
       attempts = [(Answered 200 (), 3, [Ev_Offline ''w1'']), (Answered 200 (), 9, [Ev_Offline ''w1'', Ev_Close 0])];
       req = register_request_of (cl_config sample_client);
       et = (\<lambda>t. None); ec = (\<lambda>c. None)
   in (\<exists>c' ws. reconnectLoop (map (\<lambda>(h, now, es). (h, register_answer (fst (registerSlave now (Inr req) (run_events et ec es s)))))
          attempts) sample_client = (RL_Trying, c', ws) \<and> \<not> cl_connected c' \<and> \<not> cl_registered c') \<and>
      (\<exists>c' ws. wsReconnectLoop (map (\<lambda>(h, now, es). dial_of ''w1''
          (fst (handleConnection et ec now (Some (WSMsgRegister, Some req)) True (run_events et ec es s)))) attempts) sample_client =
          (RL_Trying, c', ws) \<and> \<not> cl_connected c' \<and> \<not> cl_registered c')"
  unfolding Let_def
  by (rule slave_never_reconnects [OF _ _ _ _ _ _ _ _ _ refl _ refl refl])
    (simp_all add: registered_def registerSlave_def sample_request_def NewServer_def Register_def slave_info_of_def
      NewInMemorySlaveRegistry_def notifyEvent_def sample_client_def NewClient_def DefaultClientConfig_def)

section \<open>Delivery of results\<close>

text \<open>Tasks hand in results, the goroutine takes its turns, and the connection comes and goes.\<close>

datatype delivery_event =
    D_Send buffered_result "unit body answer"
  | D_Turn "unit body answer"
  | D_Link bool bool

fun delivery_client :: "delivery_event \<Rightarrow> client \<Rightarrow> client" where
  "delivery_client (D_Send b ans) c = snd (SendTaskResult (Some b) ans c)"
| "delivery_client (D_Turn ans) c = sendBufferedResults ans c"
| "delivery_client (D_Link con reg) c = c\<lparr>cl_connected := con, cl_registered := reg\<rparr>"

text \<open>The results that the master acknowledges in a step, and the ones that a full buffer loses.\<close>

definition online :: "unit body answer \<Rightarrow> client \<Rightarrow> bool" where
  "online ans c \<longleftrightarrow> cl_connected c \<and> cl_registered c \<and> send_direct ans = Inr ()"

fun acknowledged :: "delivery_event \<Rightarrow> client \<Rightarrow> buffered_result list" where
  "acknowledged (D_Send b ans) c = (if online ans c then [b] else [])"
| "acknowledged (D_Turn ans) c = (if online ans c \<and> \<not> cl_stopped c then take 1 (gc_items (cl_results c)) else [])"
| "acknowledged (D_Link con reg) c = []"

definition pushed_out :: "buffered_result \<Rightarrow> client \<Rightarrow> buffered_result list" where
  "pushed_out b c =
     (if length (gc_items (cl_results c)) < gc_cap (cl_results c) then [] else take 1 (gc_items (cl_results c) @ [b]))"

fun lost_result :: "delivery_event \<Rightarrow> client \<Rightarrow> buffered_result list" where
  "lost_result (D_Send b ans) c = (if online ans c then [] else pushed_out b c)"
| "lost_result _ c = []"

fun handed_in :: "delivery_event \<Rightarrow> buffered_result list" where
  "handed_in (D_Send b ans) = [b]"
| "handed_in _ = []"

primrec delivery_run :: "delivery_event list \<Rightarrow> client \<Rightarrow> client \<times> buffered_result list \<times> buffered_result list" where
  "delivery_run [] c = (c, [], [])"
| "delivery_run (e # es) c =
     (case delivery_run es (delivery_client e c) of
        (c', acks, losses) \<Rightarrow> (c', acknowledged e c @ acks, lost_result e c @ losses))"

abbreviation buffered :: "client \<Rightarrow> buffered_result list" where
  "buffered c \<equiv> gc_items (cl_results c)"

lemma bufferResult_items:
  assumes "\<not> gc_shut (cl_results c)" "chan_ok (cl_results c)"
  shows "mset (pushed_out b c) + mset (buffered (bufferResult b c)) = mset (buffered c) + {#b#}"
    and "gc_shut (cl_results (bufferResult b c)) = False" "chan_ok (cl_results (bufferResult b c))"
    and "gc_cap (cl_results (bufferResult b c)) = gc_cap (cl_results c)"
  using assms
  by (auto simp: pushed_out_def bufferResult_def try_send_def push_oldest_out_def try_recv_def chan_ok_def split: list.split)

lemma delivery_step:
  assumes "\<not> gc_shut (cl_results c)" "chan_ok (cl_results c)"
    and c'_def: "c' = delivery_client e c"
  shows "mset (acknowledged e c) + mset (lost_result e c) + mset (buffered c') = mset (buffered c) + mset (handed_in e)"
    and "\<not> gc_shut (cl_results c')" "chan_ok (cl_results c')" "gc_cap (cl_results c') = gc_cap (cl_results c)"
proof -
  have "mset (acknowledged e c) + mset (lost_result e c) + mset (buffered c') = mset (buffered c) + mset (handed_in e) \<and>
    \<not> gc_shut (cl_results c') \<and> chan_ok (cl_results c') \<and> gc_cap (cl_results c') = gc_cap (cl_results c)"
  proof (cases e)
    case (D_Send b ans)
    then show ?thesis
      using bufferResult_items [OF assms(1,2), of b] assms(1,2)
      by (auto simp: c'_def SendTaskResult_def online_def split: sum.splits)
  next
    case (D_Turn ans)
    show ?thesis
    proof (cases "buffered c")
      case Nil
      then show ?thesis using assms(1,2) D_Turn by (simp add: c'_def sendBufferedResults_def try_recv_def)
    next
      case (Cons b bs)
      let ?c = "c\<lparr>cl_results := (cl_results c)\<lparr>gc_items := bs\<rparr>\<rparr>"
      have room: "length bs < gc_cap (cl_results c)" using assms(2) Cons by (simp add: chan_ok_def)
      have ok: "\<not> gc_shut (cl_results ?c)" "chan_ok (cl_results ?c)" using assms(1) room by (simp_all add: chan_ok_def)
      show ?thesis
        using bufferResult_items [OF ok, of b] assms(1,2) ok room Cons D_Turn
        by (auto simp: pushed_out_def c'_def sendBufferedResults_def try_recv_def Let_def online_def split: sum.splits)
    qed
  qed (use assms in \<open>simp_all add: c'_def\<close>)
  then show "mset (acknowledged e c) + mset (lost_result e c) + mset (buffered c') = mset (buffered c) + mset (handed_in e)"
    "\<not> gc_shut (cl_results c')" "chan_ok (cl_results c')" "gc_cap (cl_results c') = gc_cap (cl_results c)" by auto
qed

lemma delivery_conserved:
  assumes "\<not> gc_shut (cl_results c)" "chan_ok (cl_results c)" "delivery_run es c = (c', acks, losses)"
  shows "mset acks + mset losses + mset (buffered c') = mset (buffered c) + mset (concat (map handed_in es)) \<and>
    (length (buffered c) + length (concat (map handed_in es)) \<le> gc_cap (cl_results c) \<longrightarrow> losses = [])"
  using assms
proof (induction es arbitrary: c acks losses)
  case (Cons e es)
  note step = delivery_step [OF Cons.prems(1,2) refl, of e]
  obtain acks' losses' where run: "delivery_run es (delivery_client e c) = (c', acks', losses')"
      "acks = acknowledged e c @ acks'" "losses = lost_result e c @ losses'"
    using Cons.prems(3) by (auto split: prod.splits)
  note IH = Cons.IH [OF step(2,3) run(1)]
  have "length (acknowledged e c) + length (lost_result e c) + length (buffered (delivery_client e c)) =
      length (buffered c) + length (handed_in e)"
    using arg_cong [OF step(1), of size] by simp
  moreover have "lost_result e c = []" if "length (buffered c) + length (handed_in e) \<le> gc_cap (cl_results c)"
    using that by (cases e) (auto simp: pushed_out_def)
  ultimately have "losses = []" if "length (buffered c) + length (concat (map handed_in (e # es))) \<le> gc_cap (cl_results c)"
    using that IH step(4) run(3) by simp
  moreover have "mset acks + mset losses + mset (buffered c') =
      mset (acknowledged e c) + mset (lost_result e c) + (mset acks' + mset losses' + mset (buffered c'))"
    by (simp add: run(2,3))
  then have "mset acks + mset losses + mset (buffered c') =
      (mset (acknowledged e c) + mset (lost_result e c) + mset (buffered (delivery_client e c))) + mset (concat (map handed_in es))"
    using IH by (simp add: add.assoc)
  ultimately show ?case using step(1) by (simp add: add.assoc)
qed simp


definition sample_result :: "gostring \<Rightarrow> buffered_result" where
  "sample_result i = \<lparr>bf_TaskID = i, bf_ExecutionID = ''e'', bf_Status = ''completed'', bf_Result = [], bf_Errors = []\<rparr>"

definition sample_events :: "delivery_event list" where
  "sample_events = [D_Send (sample_result ''t1'') (NetError ''refused''), D_Link True True,
     D_Turn (NetError ''refused''), D_Turn (Answered 200 (None, None))]"


text \<open>The number of buffered results that the client reports grows with every failed attempt, though the buffer holds as many as before.\<close>

lemma buffered_count_drifts:
  assumes "\<not> gc_shut (cl_results c)" "chan_ok (cl_results c)" "buffered c \<noteq> []" "\<not> cl_stopped c" "\<not> online ans c"
  shows "length (buffered (sendBufferedResults ans c)) = length (buffered c) \<and>
    GetBufferedCount (sendBufferedResults ans c) = wrap64 (GetBufferedCount c + 1)"
proof -
  obtain b bs where "buffered c = b # bs" using assms(3) by (cases "buffered c") auto
  moreover from this have "length bs < gc_cap (cl_results c)" using assms(2) by (simp add: chan_ok_def)
  ultimately show ?thesis
    using assms by (auto simp: sendBufferedResults_def try_recv_def bufferResult_def try_send_def online_def Let_def
        GetBufferedCount_def split: sum.splits)
qed

text \<open>After a reconnection over HTTP, one more goroutine polls for tasks than before, because nothing has stopped the old one.\<close>

lemma reconnection_adds_loop:
  assumes "cl_registered c" "cl_taskPollCancel c"
  shows "cl_pollLoops (snd (restartLoops c)) = Suc (cl_pollLoops c)"
  using assms by (simp add: restartLoops_def StartHeartbeat_def StartTaskPolling_def)

end
