(* ===== verification/Slave_Node.thy ===== *)
theory Slave_Node
  imports Slave_Client Master
begin

text \<open>
  A slave node (\<^verbatim>\<open>internal/slave/slave.go\<close>): its configuration and state, connecting over WebSocket with the fall-back to HTTP, the tasks it
  runs, and the status it reports.  The fields of the state are atomic values of their own, so that a task is a sequence
  of steps between which other tasks run.  What the network answers and what the engine reports are arguments.
  Times are nanoseconds since the Unix epoch.
\<close>

section \<open>State\<close>

record slave_config =
  sc_ID :: gostring
  sc_Type :: slave_type
  sc_Address :: gostring
  sc_MasterAddress :: gostring
  sc_Capabilities :: "gostring list"
  sc_Labels :: "(gostring, gostring) gomap option"
  sc_HeartbeatInterval :: int
  sc_HeartbeatTimeout :: int
  sc_MaxVUs :: int
  sc_CPUCores :: int
  sc_MemoryMB :: int

definition DefaultSlaveConfig :: slave_config where
  "DefaultSlaveConfig =
     \<lparr>sc_ID = [], sc_Type = SlaveTypeWorker, sc_Address = [], sc_MasterAddress = [], sc_Capabilities = [], sc_Labels = None,
      sc_HeartbeatInterval = 5000000000, sc_HeartbeatTimeout = 10000000000, sc_MaxVUs = 100, sc_CPUCores = 4,
      sc_MemoryMB = 4096\<rparr>"

text \<open>\<open>wk_executors\<close> are the types of the registered executors, unless the registry is nil; \<open>wk_engine\<close> says that the task engine has been made.\<close>

record worker =
  wk_config :: slave_config
  wk_executors :: "gostring list option"
  wk_client :: "client option"
  wk_state :: slave_state
  wk_connected :: bool
  wk_masterAddr :: gostring
  wk_activeTasks :: int
  wk_currentLoad :: float64
  wk_lastHeartbeat :: int
  wk_heartbeatCancel :: bool
  wk_engine :: bool
  wk_stopped :: bool

definition zero_time :: int where
  "zero_time = - 62135596800000000000"

definition NewWorkerSlave :: "slave_config option \<Rightarrow> gostring list option \<Rightarrow> worker" where
  "NewWorkerSlave config executors =
     \<lparr>wk_config = (case config of None \<Rightarrow> DefaultSlaveConfig | Some c \<Rightarrow> c), wk_executors = executors, wk_client = None,
      wk_state = SlaveStateOffline, wk_connected = False, wk_masterAddr = [], wk_activeTasks = 0,
      wk_currentLoad = f64_of_int 0, wk_lastHeartbeat = zero_time, wk_heartbeatCancel = False, wk_engine = False,
      wk_stopped = False\<rparr>"

definition slave_Start :: "worker \<Rightarrow> worker" where
  "slave_Start w = w\<lparr>wk_engine := True, wk_state := SlaveStateOnline\<rparr>"

definition slave_Stop :: "worker \<Rightarrow> worker" where
  "slave_Stop w =
     (if wk_stopped w then w
      else w\<lparr>wk_state := SlaveStateOffline, wk_connected := False, wk_stopped := True\<rparr>)"

section \<open>Connecting\<close>

datatype slave_error =
    AlreadyConnectedToMaster
  | ConnectMasterFailed client_error
  | RegisterFailed client_error
  | HeartbeatFailed client_error
  | SlavePanic

definition client_config_of :: "gostring \<Rightarrow> slave_config \<Rightarrow> client_config" where
  "client_config_of addr cfg =
     \<lparr>kc_MasterURL = addr, kc_SlaveID = sc_ID cfg, kc_SlaveType = sc_Type cfg, kc_Capabilities = sc_Capabilities cfg,
      kc_Labels = sc_Labels cfg, kc_Address = sc_Address cfg,
      kc_Resources = Some \<lparr>CPUCores = sc_CPUCores cfg, MemoryMB = sc_MemoryMB cfg, MaxVUs = sc_MaxVUs cfg, CurrentLoad = f64_of_int 0\<rparr>,
      kc_HeartbeatInterval = sc_HeartbeatInterval cfg, kc_RequestTimeout = sc_HeartbeatTimeout cfg,
      kc_ReconnectInterval = 5000000000, kc_MaxReconnectAttempts = 0, kc_ResultBufferSize = 1000,
      kc_MetricsBufferSize = 1000, kc_TaskPollInterval = 1000000000\<rparr>"

definition connectHTTPFallback ::
  "unit answer \<Rightarrow> register_response body answer \<Rightarrow> client \<Rightarrow> worker \<Rightarrow> (slave_error + unit) \<times> worker" where
  "connectHTTPFallback health reg c w =
     (case client_Connect health c of
        (Inl e, c1) \<Rightarrow> (Inl (ConnectMasterFailed e), w\<lparr>wk_client := Some c1\<rparr>)
      | (Inr _, c1) \<Rightarrow>
          (case client_Register reg c1 of
             (Inl e, c2) \<Rightarrow> (Inl (RegisterFailed e), w\<lparr>wk_client := Some (client_Disconnect c2)\<rparr>)
           | (Inr _, c2) \<Rightarrow>
               (case StartHeartbeat c2 of
                  (Inl e, c3) \<Rightarrow> (Inl (HeartbeatFailed e), w\<lparr>wk_client := Some (client_Disconnect c3), wk_heartbeatCancel := True\<rparr>)
                | (Inr _, c3) \<Rightarrow>
                    (Inr (), w\<lparr>wk_client := Some (snd (StartTaskPolling c3)), wk_heartbeatCancel := True,
                               wk_connected := True, wk_state := SlaveStateOnline\<rparr>))))"

definition slave_Connect ::
  "gostring \<Rightarrow> ws_dial \<Rightarrow> unit answer \<Rightarrow> register_response body answer \<Rightarrow> worker \<Rightarrow> (slave_error + unit) \<times> worker" where
  "slave_Connect addr dial health reg w =
     (if wk_connected w then (Inl AlreadyConnectedToMaster, w)
      else
        let w1 = w\<lparr>wk_masterAddr := addr\<rparr>;
            c = NewClient (Some (client_config_of addr (wk_config w)))
        in case ConnectWS dial c of
             (Inl _, c1) \<Rightarrow> connectHTTPFallback health reg c1 w1
           | (Inr _, c1) \<Rightarrow> (Inr (), w1\<lparr>wk_client := Some c1, wk_connected := True, wk_state := SlaveStateOnline\<rparr>))"

definition slave_Disconnect :: "worker \<Rightarrow> (slave_error + unit) \<times> worker" where
  "slave_Disconnect w =
     (if \<not> wk_connected w then (Inr (), w)
      else
        case (case wk_client w of
                None \<Rightarrow> Some None
              | Some c \<Rightarrow> if IsWebSocket c then map_option Some (DisconnectWS c) else Some (Some (client_Disconnect c))) of
          None \<Rightarrow> (Inl SlavePanic, w)
        | Some c' \<Rightarrow>
            (Inr (), w\<lparr>wk_client := c', wk_connected := False, wk_masterAddr := [], wk_state := SlaveStateOffline\<rparr>))"

text \<open>The callbacks of the client.\<close>

definition on_disconnect :: "worker \<Rightarrow> worker" where
  "on_disconnect w = w\<lparr>wk_connected := False\<rparr>"

definition on_reconnect :: "worker \<Rightarrow> worker" where
  "on_reconnect w = w\<lparr>wk_connected := True\<rparr>"

section \<open>Tasks\<close>

text \<open>The task that an assignment stands for, and the message with its result; options of an assignment are not used.\<close>

record slave_task =
  sk_ID :: gostring
  sk_ExecutionID :: gostring
  sk_Workflow :: "workflow option"
  sk_Segment :: execution_segment

definition internal_task :: "task_assignment \<Rightarrow> slave_task" where
  "internal_task t =
     \<lparr>sk_ID = ta_TaskID t, sk_ExecutionID = ta_ExecutionID t, sk_Workflow = ta_Workflow t,
      sk_Segment = (case ta_Segment t of
                      None \<Rightarrow> \<lparr>seg_Start = f64_of_int 0, seg_End = f64_of_int 0\<rparr>
                    | Some g \<Rightarrow> g)\<rparr>"

definition error_request_of :: "(exec_message \<Rightarrow> gostring) \<Rightarrow> execution_error \<Rightarrow> error_request" where
  "error_request_of text e =
     \<lparr>er_Code = xe_Code e, er_Message = text (xe_Message e), er_StepID = xe_StepID e, er_Timestamp = xe_Timestamp e div 1000000\<rparr>"

definition buffered_of :: "(exec_message \<Rightarrow> gostring) \<Rightarrow> task_result \<Rightarrow> buffered_result" where
  "buffered_of text r =
     \<lparr>bf_TaskID = tr_TaskID r, bf_ExecutionID = tr_ExecutionID r, bf_Status = tr_Status r, bf_Result = [],
      bf_Errors = map (error_request_of text) (tr_Errors r)\<rparr>"

text \<open>Handing in the result: over WebSocket an error is only printed, over HTTP it is returned.\<close>

definition hand_in ::
  "result_request encoder \<Rightarrow> unit body answer \<Rightarrow> buffered_result \<Rightarrow> client \<Rightarrow> (client_error + unit) \<times> client" where
  "hand_in enc ans b c =
     (if IsWebSocket c then (Inr (), snd (WSSendTaskResult enc b c)) else SendTaskResult (Some b) ans c)"

text \<open>Where a task is between its start and its end.  Reading the number of tasks and storing the state are steps of their own; the number is decreased
  last, by the deferred call.\<close>

datatype task_pc = T_Added | T_ToBusy | T_Running | T_Finished | T_ToOnline | T_Checked

record node =
  nd_worker :: worker
  nd_tasks :: "task_pc list"
  nd_done :: nat

definition add_task :: "worker \<Rightarrow> worker" where
  "add_task w = w\<lparr>wk_activeTasks := wrap32 (wk_activeTasks w + 1)\<rparr>"

definition remove_task :: "worker \<Rightarrow> worker" where
  "remove_task w = w\<lparr>wk_activeTasks := wrap32 (wk_activeTasks w - 1)\<rparr>"

definition after_add :: "worker \<Rightarrow> task_pc" where
  "after_add w = (if wk_activeTasks w > 0 then T_ToBusy else T_Running)"

definition after_run :: "worker \<Rightarrow> task_pc" where
  "after_run w = (if wk_activeTasks w = 0 then T_ToOnline else T_Checked)"

text \<open>The steps of \<^verbatim>\<open>ExecuteTask\<close> for a task that is not nil, on a slave that has been started; fewer than \<open>2 ^ 31\<close> tasks run at a time.\<close>

inductive task_step :: "node \<Rightarrow> node \<Rightarrow> bool" where
  ts_add: "Suc (length (nd_tasks n)) < 2 ^ 31 \<Longrightarrow>
     task_step n (n\<lparr>nd_worker := add_task (nd_worker n), nd_tasks := nd_tasks n @ [T_Added]\<rparr>)"
| ts_load: "nd_tasks n = xs @ T_Added # ys \<Longrightarrow> task_step n (n\<lparr>nd_tasks := xs @ after_add (nd_worker n) # ys\<rparr>)"
| ts_busy: "nd_tasks n = xs @ T_ToBusy # ys \<Longrightarrow>
     task_step n (n\<lparr>nd_worker := (nd_worker n)\<lparr>wk_state := SlaveStateBusy\<rparr>, nd_tasks := xs @ T_Running # ys\<rparr>)"
| ts_run: "nd_tasks n = xs @ T_Running # ys \<Longrightarrow> task_step n (n\<lparr>nd_tasks := xs @ T_Finished # ys\<rparr>)"
| ts_check: "nd_tasks n = xs @ T_Finished # ys \<Longrightarrow> task_step n (n\<lparr>nd_tasks := xs @ after_run (nd_worker n) # ys\<rparr>)"
| ts_online: "nd_tasks n = xs @ T_ToOnline # ys \<Longrightarrow>
     task_step n (n\<lparr>nd_worker := (nd_worker n)\<lparr>wk_state := SlaveStateOnline\<rparr>, nd_tasks := xs @ T_Checked # ys\<rparr>)"
| ts_done: "nd_tasks n = xs @ T_Checked # ys \<Longrightarrow>
     task_step n (n\<lparr>nd_worker := remove_task (nd_worker n), nd_tasks := xs @ ys, nd_done := Suc (nd_done n)\<rparr>)"

inductive_cases task_stepE: "task_step n n'"

inductive task_reach :: "worker \<Rightarrow> node \<Rightarrow> bool" for w where
  tr_start: "task_reach w \<lparr>nd_worker = w, nd_tasks = [], nd_done = 0\<rparr>"
| tr_step: "task_reach w n \<Longrightarrow> task_step n n' \<Longrightarrow> task_reach w n'"

section \<open>Status\<close>

text \<open>The metrics of the engine are an argument; without an engine they are zero.\<close>

definition getMetrics :: "slave_metrics \<Rightarrow> worker \<Rightarrow> slave_metrics" where
  "getMetrics em w =
     (if wk_engine w then em
      else \<lparr>CPUUsage = f64_of_int 0, MemoryUsage = f64_of_int 0, sm_ActiveVUs = 0, Throughput = f64_of_int 0\<rparr>)"

definition GetStatus :: "slave_metrics \<Rightarrow> worker \<Rightarrow> slave_status" where
  "GetStatus em w =
     \<lparr>st_State = wk_state w, st_Load = wk_currentLoad w, st_ActiveTasks = wk_activeTasks w, st_LastSeen = wk_lastHeartbeat w,
      st_Metrics = Some (getMetrics em w)\<rparr>"

definition getCapabilities :: "worker \<Rightarrow> gostring list" where
  "getCapabilities w =
     sc_Capabilities (wk_config w) @
     (case wk_executors w of None \<Rightarrow> [] | Some types \<Rightarrow> map (\<lambda>t. t @ ''_executor'') types)"

definition GetInfo :: "worker \<Rightarrow> slave_info" where
  "GetInfo w =
     (let cfg = wk_config w in
      \<lparr>s_ID = sc_ID cfg, s_Type = sc_Type cfg, s_Address = sc_Address cfg, s_Capabilities = getCapabilities w,
       s_Labels = sc_Labels cfg,
       s_Resources = Some \<lparr>CPUCores = sc_CPUCores cfg, MemoryMB = sc_MemoryMB cfg, MaxVUs = sc_MaxVUs cfg,
                           CurrentLoad = wk_currentLoad w\<rparr>\<rparr>)"

definition updateLoad :: "worker \<Rightarrow> worker" where
  "updateLoad w =
     (if sc_MaxVUs (wk_config w) > 0
      then w\<lparr>wk_currentLoad := f64_mul (f64_div (f64_of_int (wk_activeTasks w)) (f64_of_int (sc_MaxVUs (wk_config w)))) (f64_of_int 100)\<rparr>
      else w)"

definition slave_sendHeartbeat :: "int \<Rightarrow> worker \<Rightarrow> worker" where
  "slave_sendHeartbeat now w = updateLoad (w\<lparr>wk_lastHeartbeat := now\<rparr>)"

text \<open>The status that the heartbeats over HTTP carry.\<close>

definition status_info :: "slave_status \<Rightarrow> api_status" where
  "status_info st =
     \<lparr>ai_State = st_State st, ai_Load = st_Load st, ai_ActiveTasks = st_ActiveTasks st, ai_LastSeen = st_LastSeen st div 1000000,
      ai_Metrics = st_Metrics st\<rparr>"

definition slave_heartbeat :: "int \<Rightarrow> slave_metrics \<Rightarrow> client \<Rightarrow> worker \<Rightarrow> heartbeat_request" where
  "slave_heartbeat now em c w = heartbeat_request_of now (Some (status_info (GetStatus em w))) c"

section \<open>Lemmas\<close>

lemma wrap32_of_length: "k < 2 ^ 31 \<Longrightarrow> wrap32 (int k) = int k"
  by (rule wrap32_small) simp_all

text \<open>The number of active tasks is right, and the state is busy from the moment at which the first task has stored it.\<close>

definition node_inv :: "node \<Rightarrow> bool" where
  "node_inv n \<longleftrightarrow> length (nd_tasks n) < 2 ^ 31 \<and> wk_activeTasks (nd_worker n) = int (length (nd_tasks n)) \<and>
     T_ToOnline \<notin> set (nd_tasks n) \<and>
     ((nd_done n > 0 \<or> set (nd_tasks n) \<inter> {T_Running, T_Finished, T_Checked} \<noteq> {}) \<longrightarrow>
        wk_state (nd_worker n) = SlaveStateBusy)"

lemma node_inv_active:
  assumes "node_inv n" "nd_tasks n = xs @ pc # ys"
  shows "after_add (nd_worker n) = T_ToBusy" "after_run (nd_worker n) = T_Checked"
  using assms by (simp_all add: node_inv_def after_add_def after_run_def)

lemma task_step_inv:
  assumes "task_step n n'" "node_inv n"
  shows "node_inv n'"
  using assms(1)
proof cases
  case ts_add
  then show ?thesis
    using assms(2) wrap32_of_length [of "Suc (length (nd_tasks n))"] by (auto simp: node_inv_def add_task_def add.commute)
next
  case (ts_load xs ys)
  then show ?thesis using assms(2) node_inv_active [OF assms(2) ts_load(2)] by (auto simp: node_inv_def)
next
  case (ts_check xs ys)
  then show ?thesis using assms(2) node_inv_active [OF assms(2) ts_check(2)] by (auto simp: node_inv_def)
next
  case (ts_done xs ys)
  have "wk_activeTasks (remove_task (nd_worker n)) = int (length (xs @ ys))"
    using assms(2) ts_done wrap32_of_length [of "length (xs @ ys)"] by (simp add: node_inv_def remove_task_def)
  then show ?thesis using assms(2) ts_done by (auto simp: node_inv_def remove_task_def)
qed (use assms(2) in \<open>auto simp: node_inv_def\<close>)

lemma task_reach_inv:
  assumes "task_reach w n" "wk_activeTasks w = 0"
  shows "node_inv n"
  using assms(1)
proof induction
  case tr_start
  then show ?case by (simp add: node_inv_def assms(2))
qed (rule task_step_inv)

section \<open>Properties\<close>

text \<open>(C24) A slave counts its tasks correctly, however they overlap, but it does not become online again after them: the check for the last
  task reads the number of active tasks before the deferred call has taken the task itself off, so that it never finds zero.  From the end
  of its first task on, the slave is busy, also when no task runs.\<close>

theorem slave_stays_busy:
  assumes "task_reach w n" "wk_activeTasks w = 0"
  shows "wk_activeTasks (nd_worker n) = int (length (nd_tasks n)) \<and> T_ToOnline \<notin> set (nd_tasks n) \<and>
    (nd_done n > 0 \<longrightarrow> wk_state (nd_worker n) = SlaveStateBusy)"
  using task_reach_inv [OF assms] by (simp add: node_inv_def)

definition sample_worker :: worker where
  "sample_worker = slave_Start (NewWorkerSlave (Some (DefaultSlaveConfig\<lparr>sc_ID := ''w1'', sc_Address := ''10.0.0.1''\<rparr>)) None)"

definition one_task_done :: node where
  "one_task_done = \<lparr>nd_worker = sample_worker\<lparr>wk_state := SlaveStateBusy\<rparr>, nd_tasks = [], nd_done = 1\<rparr>"

lemma one_task_done_reach: "task_reach sample_worker one_task_done"
proof -
  let ?n = "\<lambda>ts. \<lparr>nd_worker = (add_task sample_worker)\<lparr>wk_state := SlaveStateBusy\<rparr>, nd_tasks = ts, nd_done = 0\<rparr>"
  have zero: "wk_activeTasks sample_worker = 0" by (simp add: sample_worker_def slave_Start_def NewWorkerSlave_def)
  have "task_reach sample_worker \<lparr>nd_worker = add_task sample_worker, nd_tasks = [T_Added], nd_done = 0\<rparr>"
    using tr_step [OF tr_start ts_add, of sample_worker] by simp
  then have "task_reach sample_worker \<lparr>nd_worker = add_task sample_worker, nd_tasks = [T_ToBusy], nd_done = 0\<rparr>"
    using ts_load [of "\<lparr>nd_worker = add_task sample_worker, nd_tasks = [T_Added], nd_done = 0\<rparr>" "[]" "[]"] tr_step
    by (fastforce simp: add_task_def after_add_def zero wrap32_def)
  then have "task_reach sample_worker (?n [T_Running])"
    using ts_busy [of "\<lparr>nd_worker = add_task sample_worker, nd_tasks = [T_ToBusy], nd_done = 0\<rparr>" "[]" "[]"] tr_step
    by fastforce
  then have "task_reach sample_worker (?n [T_Finished])"
    using ts_run [of "?n [T_Running]" "[]" "[]"] tr_step by fastforce
  then have "task_reach sample_worker (?n [T_Checked])"
    using ts_check [of "?n [T_Finished]" "[]" "[]"] tr_step
    by (fastforce simp: after_run_def add_task_def zero wrap32_def)
  then have "task_reach sample_worker
      (?n [T_Checked]\<lparr>nd_worker := remove_task (nd_worker (?n [T_Checked])), nd_tasks := [], nd_done := Suc 0\<rparr>)"
    using ts_done [of "?n [T_Checked]" "[]" "[]"] tr_step by fastforce
  also have "?n [T_Checked]\<lparr>nd_worker := remove_task (nd_worker (?n [T_Checked])), nd_tasks := [], nd_done := Suc 0\<rparr> = one_task_done"
    by (simp add: one_task_done_def remove_task_def add_task_def sample_worker_def slave_Start_def NewWorkerSlave_def wrap32_def)
  finally show ?thesis .
qed

lemma slave_stays_busy_witness:
  "wk_activeTasks (nd_worker one_task_done) = int (length (nd_tasks one_task_done)) \<and>
   wk_state (nd_worker one_task_done) = SlaveStateBusy"
  using slave_stays_busy [OF one_task_done_reach] by (simp add: one_task_done_def sample_worker_def slave_Start_def NewWorkerSlave_def)

text \<open>What the heartbeat of a slave does to its entry in the registry, and to the lists of slaves by state.\<close>

lemma heartbeat_stores_state:
  assumes "server_inv s" "registered i s" "hb_Status q = Some a" "reorders ord"
  obtains r xs where "sv_registry (snd (slaveHeartbeat now i (Inr q) s)) = Some r" "mem_stat r i = Some (status_of now a)"
    "GetOnlineSlaves ord r = Inr xs" "i \<in> s_ID ` set xs \<longleftrightarrow> ai_State a = SlaveStateOnline"
proof -
  obtain r x where r: "sv_registry s = Some r" "map_of (r_slaves r) i = Some x" using assms(2) by (auto simp: registered_def)
  have inv: "reg_inv r" by (rule inv_registry [OF assms(1) r(1)])
  have i: "i \<noteq> []" using inv r(2) by (auto simp: reg_inv_def store_inv_def)
  have here: "map_of (r_slaves r) i \<noteq> None" using r(2) by simp
  note up = UpdateStatus_store [OF inv here, of "status_of now a"]
  define r' where "r' = snd (UpdateStatus i (Some (status_of now a)) r)"
  have reg: "sv_registry (snd (slaveHeartbeat now i (Inr q) s)) = Some r'"
    using i r assms(3) up(1)
    by (auto simp: slaveHeartbeat_def GetSlave_def heartbeat_reply_def getPendingCommands_def r'_def
        split: prod.split sum.split option.split)
  have stat: "mem_stat r' i = Some (status_of now a)" using up(3) by (simp add: r'_def mem_stat_def update_conv')
  have inv': "store_inv r'" using UpdateStatus_inv [OF inv] by (simp add: r'_def reg_inv_def)
  obtain xs where xs: "ListSlaves ord r' (Some online_filter) = Inr xs" by (simp add: ListSlaves_def)
  have acc: "accepts (Some online_filter) y (status_of now a) \<longleftrightarrow> ai_State a = SlaveStateOnline" for y
    by (auto simp: accepts_def filter_spec_def online_filter_def no_filter_def status_of_def)
  have "i \<in> s_ID ` set xs \<longleftrightarrow> ai_State a = SlaveStateOnline"
  proof
    assume "i \<in> s_ID ` set xs"
    then obtain y j st where "y \<in> set xs" "s_ID y = i" "map_of (r_slaves r') j = Some y" "mem_stat r' j = Some st"
        "accepts (Some online_filter) y st"
      using listed_iff [OF inv' assms(4) xs] by blast
    moreover from this have "j = i" using inv' by (simp add: store_inv_def)
    ultimately show "ai_State a = SlaveStateOnline" using stat acc by simp
  next
    assume "ai_State a = SlaveStateOnline"
    then have "x \<in> set xs" using listed_iff [OF inv' assms(4) xs, of x] stat acc up(2) r(2) by (auto simp: r'_def)
    moreover have "s_ID x = i" using inv r(2) by (auto simp: reg_inv_def store_inv_def)
    ultimately show "i \<in> s_ID ` set xs" by blast
  qed
  with that [of r' xs] reg stat xs show ?thesis by (simp add: GetOnlineSlaves_def online_filter_def no_filter_def)
qed

text \<open>(C3) Slave, server and registry together: once a slave that uses HTTP has finished a task, each of its heartbeats makes the master
  take it for busy, and it is not among the online slaves that the scheduler selects from, although it has nothing to do.\<close>

theorem finished_slave_unused:
  assumes "task_reach w n" "wk_activeTasks w = 0" "nd_done n > 0"
    and "server_inv s" "registered i s" "reorders ord"
    and "s' = snd (slaveHeartbeat now i (Inr (slave_heartbeat now em c (nd_worker n))) s)"
  shows "\<exists>r st xs. sv_registry s' = Some r \<and> mem_stat r i = Some st \<and> st_State st = SlaveStateBusy \<and>
    GetOnlineSlaves ord r = Inr xs \<and> i \<notin> s_ID ` set xs"
proof -
  let ?q = "slave_heartbeat now em c (nd_worker n)" and ?a = "status_info (GetStatus em (nd_worker n))"
  have busy: "ai_State ?a = SlaveStateBusy"
    using task_reach_inv [OF assms(1,2)] assms(3) by (simp add: node_inv_def status_info_def GetStatus_def)
  have q: "hb_Status ?q = Some ?a" by (simp add: slave_heartbeat_def heartbeat_request_of_def)
  have ne: "SlaveStateBusy \<noteq> SlaveStateOnline" by (simp add: slave_state_defs)
  show ?thesis
    by (rule heartbeat_stores_state [OF assms(4,5) q assms(6), of now])
      (use busy ne in \<open>auto simp: assms(7) status_of_def\<close>)
qed

lemma finished_slave_unused_witness:
  "let s = snd (registerSlave 0 (Inr (sample_request ''w1'')) (NewServer (Some NewInMemorySlaveRegistry)));
       em = \<lparr>CPUUsage = f64_of_int 0, MemoryUsage = f64_of_int 0, sm_ActiveVUs = 0, Throughput = f64_of_int 0\<rparr>;
       s' = snd (slaveHeartbeat 5 ''w1'' (Inr (slave_heartbeat 5 em sample_client (nd_worker one_task_done))) s)
   in \<exists>r st xs. sv_registry s' = Some r \<and> mem_stat r ''w1'' = Some st \<and> st_State st = SlaveStateBusy \<and>
        GetOnlineSlaves (\<lambda>xs. xs) r = Inr xs \<and> ''w1'' \<notin> s_ID ` set xs"
proof -
  let ?s = "snd (registerSlave 0 (Inr (sample_request ''w1'')) (NewServer (Some NewInMemorySlaveRegistry)))"
  have s: "server_inv ?s"
    using sound_register [of "NewServer (Some NewInMemorySlaveRegistry)" 0 "Inr (sample_request ''w1'')"]
      server_inv_new [of "Some NewInMemorySlaveRegistry"] reg_inv_new by (simp add: sound_def)
  have reg: "registered ''w1'' ?s"
    by (simp add: registered_def registerSlave_def sample_request_def NewServer_def Register_def
        slave_info_of_def NewInMemorySlaveRegistry_def notifyEvent_def)
  show ?thesis
    unfolding Let_def
    by (rule finished_slave_unused [OF one_task_done_reach _ _ s reg reorders_id refl])
      (simp_all add: one_task_done_def sample_worker_def slave_Start_def NewWorkerSlave_def)
qed

section \<open>Connecting and disconnecting\<close>

lemma fallback_result:
  assumes "\<not> cl_connected c" "\<not> cl_registered c" "\<not> cl_stopped c" "connectHTTPFallback health reg c w = (res, w1)"
  shows "(res = Inr () \<and> (\<exists>c'. wk_client w1 = Some c' \<and> cl_connected c' \<and> cl_registered c' \<and> \<not> cl_stopped c' \<and>
        cl_wsConn c' = cl_wsConn c) \<and> wk_connected w1 \<and> wk_state w1 = SlaveStateOnline \<and> wk_masterAddr w1 = wk_masterAddr w) \<or>
    (res \<noteq> Inr () \<and> (\<exists>c'. wk_client w1 = Some c' \<and> \<not> cl_registered c') \<and> wk_connected w1 = wk_connected w \<and> wk_state w1 = wk_state w)"
proof (cases "client_Connect health c")
  case (Pair r1 c1)
  have c1: "cl_registered c1 = cl_registered c" "cl_stopped c1 = cl_stopped c" "cl_wsConn c1 = cl_wsConn c" "r1 = Inr u \<Longrightarrow> cl_connected c1" for u
    using Pair by (auto simp: client_Connect_def split: answer.splits if_splits)
  show ?thesis
  proof (cases r1)
    case (Inl e)
    then show ?thesis using assms c1 Pair by (auto simp: connectHTTPFallback_def)
  next
    case (Inr u)
    obtain r2 c2 where r2: "client_Register reg c1 = (r2, c2)" by fastforce
    have c2: "cl_stopped c2 = cl_stopped c" "cl_wsConn c2 = cl_wsConn c" "cl_connected c2"
        "cl_registered c2 \<longleftrightarrow> r2 = Inr ()"
      using r2 c1 assms(2) Inr by (auto simp: client_Register_def split: answer.splits option.splits if_splits)
    show ?thesis
      using assms c2 Pair Inr r2
      by (cases r2) (auto simp: connectHTTPFallback_def StartHeartbeat_def StartTaskPolling_def client_Disconnect_def)
  qed
qed

text \<open>Connecting is all or nothing: it succeeds exactly when the registration over WebSocket is acknowledged, or else the master answers the
  health check and accepts the registration over HTTP.  Then the slave and its client are both connected and
  the slave is online; otherwise the slave is not connected, its state is as before, and its client is not registered.  A slave that disconnects afterwards is
  offline, and neither it nor its client is connected.\<close>

theorem connect_disconnect:
  assumes "\<not> wk_connected w" "slave_Connect addr dial health reg w = (res, w1)" "slave_Disconnect w1 = (res2, w2)"
  shows "\<exists>c. wk_client w1 = Some c \<and> (res = Inr () \<longleftrightarrow> wk_connected w1) \<and>
    (res = Inr () \<longrightarrow> cl_connected c \<and> cl_registered c \<and> wk_state w1 = SlaveStateOnline \<and> wk_masterAddr w1 = addr \<and>
       res2 = Inr () \<and> \<not> wk_connected w2 \<and> wk_state w2 = SlaveStateOffline \<and> wk_masterAddr w2 = [] \<and>
       (\<exists>c2. wk_client w2 = Some c2 \<and> \<not> cl_connected c2 \<and> \<not> cl_registered c2)) \<and>
    (res \<noteq> Inr () \<longrightarrow> wk_state w1 = wk_state w \<and> \<not> cl_registered c)"
proof -
  let ?c = "NewClient (Some (client_config_of addr (wk_config w)))"
  have c: "\<not> cl_connected ?c" "\<not> cl_registered ?c" "\<not> cl_stopped ?c" "\<not> cl_wsConn ?c" "\<not> cl_wsOnce ?c"
    by (simp_all add: NewClient_def Let_def)
  show ?thesis
  proof (cases "fst (ConnectWS dial ?c)")
    case (Inr u)
    then obtain c1 where c1: "ConnectWS dial ?c = (Inr u, c1)" by (cases "ConnectWS dial ?c") auto
    then have "cl_connected c1" "cl_registered c1" "cl_wsConn c1" "cl_wsDone c1 = Some False" "\<not> cl_wsOnce c1"
      using c(5) by (auto simp: ConnectWS_def Let_def split: option.splits if_splits)
    then show ?thesis
      using assms c1 by (auto simp: slave_Connect_def slave_Disconnect_def IsWebSocket_def DisconnectWS_def split: if_splits)
  next
    case (Inl e)
    then have ws: "ConnectWS dial ?c = (Inl e, ?c)"
      by (auto simp: ConnectWS_def Let_def split: option.splits if_splits)
    then have w1: "connectHTTPFallback health reg ?c (w\<lparr>wk_masterAddr := addr\<rparr>) = (res, w1)"
      using assms(1,2) by (simp add: slave_Connect_def)
    from fallback_result [OF c(1-3) w1] show ?thesis
    proof (elim disjE conjE exE)
      fix c' assume "res = Inr ()" "wk_client w1 = Some c'" "cl_connected c'" "cl_registered c'" "\<not> cl_stopped c'"
        "cl_wsConn c' = cl_wsConn ?c" "wk_connected w1" "wk_state w1 = SlaveStateOnline"
        "wk_masterAddr w1 = wk_masterAddr (w\<lparr>wk_masterAddr := addr\<rparr>)"
      then show ?thesis
        using assms(3) c(4) by (auto simp: slave_Disconnect_def client_Disconnect_def IsWebSocket_def)
    qed (use assms(1) in auto)
  qed
qed

lemma connect_disconnect_witness:
  "\<exists>c. wk_client (snd (slave_Connect ''http://m'' \<lparr>wd_dialled = False, wd_written = False, wd_ack = None\<rparr> (Answered 200 ())
        (Answered 201 (None, Some (accepted ''w1'' 5000))) sample_worker)) = Some c \<and> cl_connected c \<and> cl_registered c"
  using connect_disconnect [of sample_worker "''http://m''" "\<lparr>wd_dialled = False, wd_written = False, wd_ack = None\<rparr>" "Answered 200 ()"
      "Answered 201 (None, Some (accepted ''w1'' 5000))", OF _ surjective_pairing surjective_pairing]
  by (auto simp: sample_worker_def slave_Start_def NewWorkerSlave_def slave_Connect_def ConnectWS_def NewClient_def connectHTTPFallback_def
      client_Connect_def client_Register_def accepted_def StartHeartbeat_def Let_def)

end
