(* ===== verification/Variable_Resolver.thy ===== *)
theory Variable_Resolver
  imports Go_Value
begin

text \<open>
  References to variables in the strings of a configuration (\<^verbatim>\<open>internal/executor/variable_resolver.go\<close>).  The regular expression
  \<^verbatim>\<open>\$\{([^}]+)\}\<close> is matched from the left: a match begins with a dollar and a brace and ends with the next closing brace, and
  there is at least one character between them.
\<close>

section \<open>Resolving\<close>

definition ref_at :: "gostring \<Rightarrow> (gostring \<times> gostring) option" where
  "ref_at s =
     (case s of
        c # d # t \<Rightarrow>
          if c = CHR ''$'' \<and> d = CHR ''{''
          then (case str_cut ''}'' t of
                  Some (path, rest) \<Rightarrow> if path = [] then None else Some (path, rest)
                | None \<Rightarrow> None)
          else None
      | _ \<Rightarrow> None)"

lemma ref_at_shorter: "ref_at s = Some (path, rest) \<Longrightarrow> length rest < length s"
  by (auto simp: ref_at_def split: list.splits option.splits if_splits dest!: str_cut_Some)

function replace_refs :: "(gostring \<Rightarrow> gostring) \<Rightarrow> gostring \<Rightarrow> gostring" where
  "replace_refs f s =
     (case ref_at s of
        Some (path, rest) \<Rightarrow> f path @ replace_refs f rest
      | None \<Rightarrow> (case s of [] \<Rightarrow> [] | c # t \<Rightarrow> c # replace_refs f t))"
  by pat_completeness auto
termination by (relation "measure (\<lambda>(f, s). length s)") (auto dest: ref_at_shorter)

function find_refs :: "gostring \<Rightarrow> gostring list" where
  "find_refs s =
     (case ref_at s of
        Some (path, rest) \<Rightarrow> path # find_refs rest
      | None \<Rightarrow> (case s of [] \<Rightarrow> [] | c # t \<Rightarrow> find_refs t))"
  by pat_completeness auto
termination by (relation "measure length") (auto dest: ref_at_shorter)

declare replace_refs.simps [simp del] find_refs.simps [simp del]

text \<open>An absent key of a map and a value that is not a map give nil.\<close>

fun walk_path :: "goval \<Rightarrow> gostring list \<Rightarrow> goval" where
  "walk_path v [] = v"
| "walk_path (VMap m) (p # ps) = walk_path (case map_of m p of None \<Rightarrow> VNil | Some x \<Rightarrow> x) ps"
| "walk_path _ (p # ps) = VNil"

definition resolveVariablePath :: "gostring \<Rightarrow> (gostring, goval) gomap \<Rightarrow> goval" where
  "resolveVariablePath path ctx =
     (case map_of ctx path of
        Some v \<Rightarrow> v
      | None \<Rightarrow>
          let parts = split_on (CHR ''.'') path in
          if length parts \<le> 1 then VNil
          else case map_of ctx (hd parts) of
                 None \<Rightarrow> VNil
               | Some v \<Rightarrow> walk_path v (tl parts))"

definition ref_text :: "(gostring, goval) gomap \<Rightarrow> gostring \<Rightarrow> gostring" where
  "ref_text ctx path =
     (case resolveVariablePath path ctx of
        VNil \<Rightarrow> ''${'' @ path @ ''}''
      | VString s \<Rightarrow> s
      | v \<Rightarrow> sprint_v v)"

definition HasVariables :: "gostring \<Rightarrow> bool" where
  "HasVariables s \<longleftrightarrow> s \<noteq> [] \<and> str_contains s ''${''"

definition ResolveString :: "gostring \<Rightarrow> (gostring, goval) gomap \<Rightarrow> gostring" where
  "ResolveString s ctx =
     (if s = [] \<or> ctx = [] then s
      else if \<not> str_contains s ''${'' then s
      else replace_refs (ref_text ctx) s)"

definition ResolveMap :: "(gostring, gostring) gomap \<Rightarrow> (gostring, goval) gomap \<Rightarrow> (gostring, gostring) gomap" where
  "ResolveMap m ctx = (if m = [] then m else map (\<lambda>(k, v). (k, ResolveString v ctx)) m)"

definition ExtractVariables :: "gostring \<Rightarrow> gostring list" where
  "ExtractVariables s = (if s = [] \<or> \<not> str_contains s ''${'' then [] else find_refs s)"

section \<open>Templates\<close>

text \<open>A string as text and references, and what it should become.\<close>

datatype piece = Lit gostring | Ref gostring

fun piece_text :: "piece \<Rightarrow> gostring" where
  "piece_text (Lit t) = t"
| "piece_text (Ref p) = ''${'' @ p @ ''}''"

fun piece_ok :: "piece \<Rightarrow> bool" where
  "piece_ok (Lit t) = (CHR ''$'' \<notin> set t)"
| "piece_ok (Ref p) = (p \<noteq> [] \<and> CHR ''}'' \<notin> set p)"

fun render :: "(gostring \<Rightarrow> gostring) \<Rightarrow> piece \<Rightarrow> gostring" where
  "render f (Lit t) = t"
| "render f (Ref p) = f p"

definition print_template :: "piece list \<Rightarrow> gostring" where
  "print_template ps = concat (map piece_text ps)"

lemma ref_at_ref: "piece_ok (Ref p) \<Longrightarrow> ref_at (''${'' @ p @ ''}'' @ rest) = Some (p, rest)"
  using str_cut_first [of "CHR ''}''" p "[]" rest] by (simp add: ref_at_def)

lemma ref_at_other: "CHR ''$'' \<noteq> c \<Longrightarrow> ref_at (c # s) = None"
  by (auto simp: ref_at_def split: list.split)

lemma replace_refs_text: "CHR ''$'' \<notin> set t \<Longrightarrow> replace_refs f (t @ s) = t @ replace_refs f s"
  by (induction t) (simp_all add: replace_refs.simps [of f "_ # _"] ref_at_other)

lemma find_refs_text: "CHR ''$'' \<notin> set t \<Longrightarrow> find_refs (t @ s) = find_refs s"
  by (induction t) (simp_all add: find_refs.simps [of "_ # _"] ref_at_other)

lemma replace_refs_Nil [simp]: "replace_refs f [] = []" "find_refs [] = []"
  by (simp_all add: replace_refs.simps find_refs.simps ref_at_def)

lemma replace_refs_ref:
  assumes "piece_ok (Ref p)"
  shows "replace_refs f (''${'' @ p @ ''}'' @ s) = f p @ replace_refs f s" "find_refs (''${'' @ p @ ''}'' @ s) = p # find_refs s"
  using ref_at_ref [OF assms, of s] by (simp_all add: replace_refs.simps [of f "CHR ''$'' # _"] find_refs.simps [of "CHR ''$'' # _"])

lemma replace_template:
  assumes "list_all piece_ok ps"
  shows "replace_refs f (print_template ps) = concat (map (render f) ps)"
    and "find_refs (print_template ps) = concat (map (\<lambda>p. case p of Ref x \<Rightarrow> [x] | Lit _ \<Rightarrow> []) ps)"
  using assms
proof (induction ps)
  case (Cons p ps)
  case 1 with Cons show ?case
    using replace_refs_ref(1) [of _ f "print_template ps"] by (cases p) (simp_all add: print_template_def replace_refs_text)
  case 2 with Cons show ?case
    using replace_refs_ref(2) [of _ "print_template ps"] by (cases p) (simp_all add: print_template_def find_refs_text)
qed (simp_all add: print_template_def)

lemma no_refs:
  assumes "list_all piece_ok ps" "\<not> str_contains (print_template ps) ''${''"
  shows "p \<in> set ps \<Longrightarrow> \<exists>t. p = Lit t"
proof (cases p)
  case (Ref x)
  assume "p \<in> set ps"
  then obtain as bs where "ps = as @ p # bs" by (meson split_list)
  then have "print_template ps = print_template as @ ''${'' @ (x @ ''}'' @ print_template bs)"
    by (simp add: print_template_def Ref)
  then show ?thesis using assms(2) str_contains_iff by metis
qed simp



end
