(* ===== verification/Go_Duration.thy ===== *)
theory Go_Duration
  imports Go_Float
begin

text \<open>\<^verbatim>\<open>time.ParseDuration\<close>: a signed sequence of decimal numbers, each with a unit.  Sums are 64 bits wide without a sign, with the checks for overflow of the
  library.\<close>

definition duration_units :: "(gostring \<times> int) list" where
  "duration_units =
     [(''ns'', 1), (''us'', 1000), ([char_of (0xC2 :: nat), char_of (0xB5 :: nat), CHR ''s''], 1000),
      ([char_of (0xCE :: nat), char_of (0xBC :: nat), CHR ''s''], 1000), (''ms'', 1000000), (''s'', 1000000000),
      (''m'', 60000000000), (''h'', 3600000000000)]"

text \<open>The digits after the point, their scale, and digits that no longer count.\<close>

fun leading_fraction :: "gostring \<Rightarrow> int \<Rightarrow> float64 \<Rightarrow> bool \<Rightarrow> int \<times> float64" where
  "leading_fraction [] x sc over = (x, sc)"
| "leading_fraction (c # s) x sc over =
     (if over then (x, sc)
      else if x > (2 ^ 63 - 1) div 10 then leading_fraction s x sc True
      else let y = x * 10 + digit_val c in
        if y > 2 ^ 63 then leading_fraction s x sc True
        else leading_fraction s y (f64_mul sc (f64_of_int 10)) False)"

definition unit_char :: "byte \<Rightarrow> bool" where
  "unit_char c \<longleftrightarrow> c \<noteq> CHR ''.'' \<and> \<not> is_digit c"

text \<open>One number with its unit: its value, and the rest.\<close>

definition duration_part :: "gostring \<Rightarrow> (int \<times> gostring) option" where
  "duration_part s =
     (let ds = takeWhile is_digit s; s1 = dropWhile is_digit s; v = digits_val ds;
          point = (s1 \<noteq> [] \<and> hd s1 = CHR ''.'');
          fs = (if point then takeWhile is_digit (tl s1) else []);
          s2 = (if point then dropWhile is_digit (tl s1) else s1);
          (f, sc) = leading_fraction fs 0 (f64_of_int 1) False;
          u = takeWhile unit_char s2
      in if ds = [] \<and> \<not> point then None
         else if v > 2 ^ 63 then None
         else if ds = [] \<and> fs = [] then None
         else if u = [] then None
         else case map_of duration_units u of
                None \<Rightarrow> None
              | Some unit \<Rightarrow>
                  if v > 2 ^ 63 div unit then None
                  else let v' = v * unit + (if f > 0 then f64_to_int (f64_mul (f64_of_int f) (f64_div (f64_of_int unit) sc)) else 0)
                       in if v' > 2 ^ 63 then None else Some (v', dropWhile unit_char s2))"

lemma duration_part_shorter:
  assumes "duration_part s = Some (v, rest)"
  shows "length rest < length s"
proof -
  define s1 where "s1 = dropWhile is_digit s"
  define s2 where "s2 = (if s1 \<noteq> [] \<and> hd s1 = CHR ''.'' then dropWhile is_digit (tl s1) else s1)"
  have "takeWhile unit_char s2 \<noteq> []" "rest = dropWhile unit_char s2"
    using assms by (auto simp: duration_part_def Let_def s2_def s1_def split: if_splits prod.splits option.splits)
  then have "length rest < length s2"
    by (cases s2) (auto simp: less_Suc_eq_le length_dropWhile_le split: if_splits)
  also have "length s2 \<le> length s1"
    unfolding s2_def using length_dropWhile_le [of is_digit "tl s1"] by (cases s1) (auto simp: le_SucI)
  also have "\<dots> \<le> length s" unfolding s1_def by (rule length_dropWhile_le)
  finally show ?thesis .
qed

function duration_sum :: "gostring \<Rightarrow> int \<Rightarrow> int option" where
  "duration_sum s d =
     (if s = [] then Some d
      else case duration_part s of
        None \<Rightarrow> None
      | Some (v, rest) \<Rightarrow> let d' = (d + v) mod 2 ^ 64 in if d' > 2 ^ 63 then None else duration_sum rest d')"
  by pat_completeness auto
termination by (relation "measure (\<lambda>(s, d). length s)") (auto dest: duration_part_shorter)

declare duration_sum.simps [simp del]

definition ParseDuration :: "gostring \<Rightarrow> int option" where
  "ParseDuration orig =
     (let neg = (orig \<noteq> [] \<and> hd orig = CHR ''-'');
          s = (if orig \<noteq> [] \<and> (hd orig = CHR ''-'' \<or> hd orig = CHR ''+'') then tl orig else orig)
      in if s = ''0'' then Some 0
         else if s = [] then None
         else case duration_sum s 0 of
                None \<Rightarrow> None
              | Some d \<Rightarrow> if neg then Some (- d) else if d > 2 ^ 63 - 1 then None else Some d)"

text \<open>A whole number of seconds.\<close>

lemma ParseDuration_seconds:
  assumes "0 \<le> n" "n \<le> 9223372036"
  shows "ParseDuration (show_dec n @ ''s'') = Some (n * 1000000000)"
proof -
  have digits: "list_all is_digit (show_dec n)" by (rule show_dec_digits [OF assms(1)])
  have s: "\<not> is_digit (CHR ''s'')" by (simp add: is_digit_def less_eq_char_def)
  have split: "takeWhile is_digit (show_dec n @ ''s'') = show_dec n" "dropWhile is_digit (show_dec n @ ''s'') = ''s''"
    using digits s by (auto simp: list_all_iff takeWhile_append2 dropWhile_append2)
  have "duration_part (show_dec n @ ''s'') = Some (n * 1000000000, [])"
    using assms show_dec_nonempty [of n]
    by (simp add: duration_part_def split digits_val_show_dec unit_char_def s duration_units_def)
  then have "duration_sum (show_dec n @ ''s'') 0 = Some (n * 1000000000)"
    using assms by (subst duration_sum.simps) (simp add: duration_sum.simps [of "[]"])
  moreover obtain c cs where c: "show_dec n = c # cs" "is_digit c"
    using show_dec_Cons_digit [OF assms(1)] by blast
  moreover have "c \<noteq> CHR ''-''" "c \<noteq> CHR ''+''" using c(2) digit_not_sign by blast+
  ultimately show ?thesis using assms by (simp add: ParseDuration_def)
qed

end
