(* ===== verification/Layers.thy ===== *)
theory Layers
  imports Prelude
begin

text \<open>
  Settings in layers: the locale \<open>layered\<close> states what putting one layer over another promises, and gives what follows for any number of
  layers.  Its first instance is the copying of one map into another; the configurations of the program are the others.
\<close>

section \<open>Layers\<close>

locale layered =
  fixes over :: "'c \<Rightarrow> 'c \<Rightarrow> 'c"
    and setting :: "'c \<Rightarrow> 'k \<Rightarrow> 'v option"
    and valid :: "'c \<Rightarrow> bool"
  assumes valid_over: "valid c \<Longrightarrow> valid d \<Longrightarrow> valid (over c d)"
    and setting_over: "valid c \<Longrightarrow> valid d \<Longrightarrow>
      setting (over c d) k = (case setting d k of Some v \<Rightarrow> Some v | None \<Rightarrow> setting c k)"
begin

lemma over_assoc:
  "valid a \<Longrightarrow> valid b \<Longrightarrow> valid c \<Longrightarrow> setting (over (over a b) c) = setting (over a (over b c))"
  by (auto simp: fun_eq_iff setting_over valid_over split: option.splits)

lemma over_same: "valid c \<Longrightarrow> setting (over c c) = setting c"
  by (auto simp: fun_eq_iff setting_over split: option.splits)

lemma valid_layers: "valid c \<Longrightarrow> list_all valid ds \<Longrightarrow> valid (foldl over c ds)"
  by (induction ds arbitrary: c) (auto simp: valid_over)

lemma setting_layers:
  assumes "valid c" "list_all valid ds"
  shows "setting (foldl over c ds) k =
    (case find (\<lambda>v. v \<noteq> None) (map (\<lambda>d. setting d k) (rev ds)) of Some v \<Rightarrow> v | None \<Rightarrow> setting c k)"
  using assms
proof (induction ds rule: rev_induct)
  case (snoc d ds)
  then have "valid (foldl over c ds)" using valid_layers by simp
  with snoc show ?case by (auto simp: setting_over split: option.splits)
qed simp

end

text \<open>Copying one map into another, in the order in which the runtime visits it.\<close>

definition copy_into :: "('k, 'v) gomap \<Rightarrow> ('k, 'v) gomap \<Rightarrow> ('k, 'v) gomap" where
  "copy_into dst src = foldl (\<lambda>m kv. AList.update (fst kv) (snd kv) m) dst src"

lemma map_wf_copy_into [simp]: "map_wf dst \<Longrightarrow> map_wf (copy_into dst src)"
  unfolding copy_into_def by (induction src arbitrary: dst) auto

lemma map_of_copy_into:
  "map_wf src \<Longrightarrow> map_of (copy_into dst src) k = (case map_of src k of Some v \<Rightarrow> Some v | None \<Rightarrow> map_of dst k)"
  unfolding copy_into_def
proof (induction src arbitrary: dst)
  case (Cons kv src)
  then have "map_wf src" "fst kv \<notin> fst ` set src" by (auto simp: map_wf_def map_keys_def)
  then have "map_of src (fst kv) = None" by (simp add: map_of_None_keys)
  with \<open>map_wf src\<close> show ?case using Cons.IH by (cases kv) (auto simp: update_conv' split: option.splits)
qed simp

interpretation entries: layered copy_into map_of map_wf
  by unfold_locales (simp_all add: map_of_copy_into)

end
