(* ===== verification/Http_Config.thy ===== *)
theory Http_Config
  imports Variable_Resolver Go_Duration Exec_Context Layers
begin

text \<open>
  The configuration of HTTP steps (\<^verbatim>\<open>internal/executor/http_config.go\<close>, \<^verbatim>\<open>http_base_executor.go\<close> and the types of
  \<^verbatim>\<open>http_executor.go\<close>): settings in layers, the addresses of requests, and the preparation of a step.  A pointer to a setting is an
  option; the maps of the program's executors are made by \<^verbatim>\<open>DefaultHTTPGlobalConfig\<close> and are never nil.  Durations are nanoseconds.
  The JSON encoder is an argument of the definitions that call it.  Methods are ASCII.
\<close>

section \<open>Settings\<close>

record ssl_config =
  ssl_Verify :: "bool option"
  ssl_CertPath :: gostring
  ssl_KeyPath :: gostring
  ssl_CAPath :: gostring

record redirect_config =
  rd_Follow :: "bool option"
  rd_MaxRedirects :: "int option"

record timeout_config =
  to_Connect :: int
  to_Read :: int
  to_Write :: int
  to_Request :: int

record http_global =
  gc_BaseURL :: gostring
  gc_Headers :: "(gostring, gostring) gomap"
  gc_Domains :: "(gostring, gostring) gomap"
  gc_SSL :: ssl_config
  gc_Redirect :: redirect_config
  gc_Timeout :: timeout_config

definition DefaultHTTPGlobalConfig :: http_global where
  "DefaultHTTPGlobalConfig =
     \<lparr>gc_BaseURL = [], gc_Headers = [], gc_Domains = [],
      gc_SSL = \<lparr>ssl_Verify = Some True, ssl_CertPath = [], ssl_KeyPath = [], ssl_CAPath = []\<rparr>,
      gc_Redirect = \<lparr>rd_Follow = Some True, rd_MaxRedirects = Some 10\<rparr>,
      gc_Timeout = \<lparr>to_Connect = 10 * Second, to_Read = 30 * Second, to_Write = 30 * Second, to_Request = 60 * Second\<rparr>\<rparr>"

text \<open>A value of the second layer counts when it is set: a pointer that is not nil, a text that is not empty, a duration above zero.\<close>

definition or_ptr :: "'a option \<Rightarrow> 'a option \<Rightarrow> 'a option" where
  "or_ptr a b = (if b \<noteq> None then b else a)"

definition or_text :: "gostring \<Rightarrow> gostring \<Rightarrow> gostring" where
  "or_text a b = (if b \<noteq> [] then b else a)"

definition or_time :: "int \<Rightarrow> int \<Rightarrow> int" where
  "or_time a b = (if b > 0 then b else a)"

definition Merge :: "http_global \<Rightarrow> http_global option \<Rightarrow> http_global" where
  "Merge c other =
     (case other of
        None \<Rightarrow> c
      | Some d \<Rightarrow>
          \<lparr>gc_BaseURL = or_text (gc_BaseURL c) (gc_BaseURL d),
           gc_Headers = copy_into (copy_into [] (gc_Headers c)) (gc_Headers d),
           gc_Domains = copy_into (copy_into [] (gc_Domains c)) (gc_Domains d),
           gc_SSL =
             \<lparr>ssl_Verify = or_ptr (ssl_Verify (gc_SSL c)) (ssl_Verify (gc_SSL d)),
              ssl_CertPath = or_text (ssl_CertPath (gc_SSL c)) (ssl_CertPath (gc_SSL d)),
              ssl_KeyPath = or_text (ssl_KeyPath (gc_SSL c)) (ssl_KeyPath (gc_SSL d)),
              ssl_CAPath = or_text (ssl_CAPath (gc_SSL c)) (ssl_CAPath (gc_SSL d))\<rparr>,
           gc_Redirect =
             \<lparr>rd_Follow = or_ptr (rd_Follow (gc_Redirect c)) (rd_Follow (gc_Redirect d)),
              rd_MaxRedirects = or_ptr (rd_MaxRedirects (gc_Redirect c)) (rd_MaxRedirects (gc_Redirect d))\<rparr>,
           gc_Timeout =
             \<lparr>to_Connect = or_time (to_Connect (gc_Timeout c)) (to_Connect (gc_Timeout d)),
              to_Read = or_time (to_Read (gc_Timeout c)) (to_Read (gc_Timeout d)),
              to_Write = or_time (to_Write (gc_Timeout c)) (to_Write (gc_Timeout d)),
              to_Request = or_time (to_Request (gc_Timeout c)) (to_Request (gc_Timeout d))\<rparr>\<rparr>)"

definition GetVerify :: "ssl_config \<Rightarrow> bool" where
  "GetVerify c = (case ssl_Verify c of None \<Rightarrow> True | Some b \<Rightarrow> b)"

definition GetFollow :: "redirect_config \<Rightarrow> bool" where
  "GetFollow c = (case rd_Follow c of None \<Rightarrow> True | Some b \<Rightarrow> b)"

definition GetMaxRedirects :: "redirect_config \<Rightarrow> int" where
  "GetMaxRedirects c = (case rd_MaxRedirects c of None \<Rightarrow> 10 | Some n \<Rightarrow> n)"

text \<open>What the check of a redirect decides after a number of requests.\<close>

datatype redirect_verdict = Proceed | ErrUseLastResponse | StoppedAfter int

definition BuildCheckRedirect :: "http_global \<Rightarrow> nat \<Rightarrow> redirect_verdict" where
  "BuildCheckRedirect c via =
     (if \<not> GetFollow (gc_Redirect c) then ErrUseLastResponse
      else if int via \<ge> GetMaxRedirects (gc_Redirect c) then StoppedAfter (GetMaxRedirects (gc_Redirect c))
      else Proceed)"

section \<open>Addresses\<close>

primrec contains :: "gostring \<Rightarrow> byte \<Rightarrow> bool" where
  "contains [] c = False"
| "contains (b # s) c = (if b = c then True else contains s c)"

function trimRight :: "gostring \<Rightarrow> gostring \<Rightarrow> gostring" where
  "trimRight s cutset = (if s \<noteq> [] \<and> contains cutset (last s) then trimRight (butlast s) cutset else s)"
  by pat_completeness auto
termination by (relation "measure (\<lambda>(s, c). length s)") auto

declare trimRight.simps [simp del]

definition ResolveURL :: "http_global \<Rightarrow> gostring \<Rightarrow> gostring \<Rightarrow> gostring" where
  "ResolveURL c url domain =
     (if url \<noteq> [] \<and> (hd url = CHR ''h'' \<or> hd url = CHR ''H'') \<and>
         length url > 7 \<and> (take 7 url = ''http://'' \<or> take 8 url = ''https://'')
      then url
      else let baseURL = (if domain \<noteq> [] then (case map_of (gc_Domains c) domain of Some u \<Rightarrow> u | None \<Rightarrow> gc_BaseURL c)
                          else gc_BaseURL c) in
        if baseURL = [] then url
        else trimRight baseURL ''/'' @ (if url = [] \<or> hd url \<noteq> CHR ''/'' then ''/'' @ url else url))"

definition resolveURLWithBase :: "gostring \<Rightarrow> gostring \<Rightarrow> gostring" where
  "resolveURLWithBase url baseURL =
     (if url \<noteq> [] \<and> (hd url = CHR ''h'' \<or> hd url = CHR ''H'') \<and>
         length url > 7 \<and> (take 7 url = ''http://'' \<or> take 8 url = ''https://'')
      then url
      else if baseURL = [] then url
      else trimRight baseURL ''/'' @ (if url = [] \<or> hd url \<noteq> CHR ''/'' then ''/'' @ url else url))"

section \<open>Reading configurations\<close>

text \<open>Type assertions on the entry of a map: a text, a truth value, an \<^verbatim>\<open>int\<close>, a map, and a duration in text form.\<close>

definition get_str :: "(gostring, goval) gomap \<Rightarrow> gostring \<Rightarrow> gostring option" where
  "get_str m k = (case map_of m k of Some (VString s) \<Rightarrow> Some s | _ \<Rightarrow> None)"

definition get_bool :: "(gostring, goval) gomap \<Rightarrow> gostring \<Rightarrow> bool option" where
  "get_bool m k = (case map_of m k of Some (VBool b) \<Rightarrow> Some b | _ \<Rightarrow> None)"

definition get_int :: "(gostring, goval) gomap \<Rightarrow> gostring \<Rightarrow> int option" where
  "get_int m k = (case map_of m k of Some (VInt K_int i) \<Rightarrow> Some i | _ \<Rightarrow> None)"

definition get_map :: "(gostring, goval) gomap \<Rightarrow> gostring \<Rightarrow> (gostring, goval) gomap option" where
  "get_map m k = (case map_of m k of Some (VMap x) \<Rightarrow> Some x | _ \<Rightarrow> None)"

definition get_duration :: "(gostring, goval) gomap \<Rightarrow> gostring \<Rightarrow> int option" where
  "get_duration m k = (case get_str m k of Some s \<Rightarrow> ParseDuration s | None \<Rightarrow> None)"

definition or_else :: "'a option \<Rightarrow> 'a \<Rightarrow> 'a" where
  "or_else x d = (case x of Some v \<Rightarrow> v | None \<Rightarrow> d)"

text \<open>The texts among the entries of a map.\<close>

definition string_entries :: "(gostring, goval) gomap \<Rightarrow> (gostring, gostring) gomap" where
  "string_entries m = List.map_filter (\<lambda>(k, v). case v of VString s \<Rightarrow> Some (k, s) | _ \<Rightarrow> None) m"

fun pair_item :: "goval \<Rightarrow> (gostring, gostring) gomap \<Rightarrow> (gostring, gostring) gomap" where
  "pair_item (VMap m) result =
     (if get_bool m ''enabled'' = Some False then result
      else let key = or_else (get_str m ''key'') []; value = or_else (get_str m ''value'') [] in
        if key \<noteq> [] then AList.update key value result else result)"
| "pair_item _ result = result"

fun ParseKeyValueConfig :: "goval \<Rightarrow> (gostring, gostring) gomap" where
  "ParseKeyValueConfig (VMap data) = copy_into [] (string_entries data)"
| "ParseKeyValueConfig (VSlice data) = foldl (\<lambda>m item. pair_item item m) [] data"
| "ParseKeyValueConfig _ = []"

record body_config =
  bc_Type :: gostring
  bc_Raw :: gostring
  bc_FormData :: "(gostring, gostring) gomap"
  bc_URLEncoded :: "(gostring, gostring) gomap"

fun ParseBodyConfig :: "(goval \<Rightarrow> gostring option) \<Rightarrow> goval \<Rightarrow> body_config option" where
  "ParseBodyConfig jsonMarshal (VString s) =
     (if s = [] then None else Some \<lparr>bc_Type = ''raw'', bc_Raw = s, bc_FormData = [], bc_URLEncoded = []\<rparr>)"
| "ParseBodyConfig jsonMarshal (VMap m) =
     (let t = or_else (get_str m ''type'') [] in
      if t = ''none'' then None
      else if t = [] \<and> map_of m ''raw'' = None \<and> map_of m ''formData'' = None \<and> map_of m ''urlencoded'' = None
      then (case jsonMarshal (VMap m) of
              None \<Rightarrow> None
            | Some js \<Rightarrow> Some \<lparr>bc_Type = ''json'', bc_Raw = js, bc_FormData = [], bc_URLEncoded = []\<rparr>)
      else Some
        \<lparr>bc_Type = (if t = [] then ''json'' else t),
         bc_Raw = or_else (get_str m ''raw'') [],
         bc_FormData = (case map_of m ''formData'' of Some v \<Rightarrow> ParseKeyValueConfig v | None \<Rightarrow> []),
         bc_URLEncoded = (case map_of m ''urlencoded'' of Some v \<Rightarrow> ParseKeyValueConfig v | None \<Rightarrow> [])\<rparr>)"
| "ParseBodyConfig jsonMarshal _ = None"

record http_config =
  hc_Method :: gostring
  hc_URL :: gostring
  hc_Domain :: gostring
  hc_DomainBaseURL :: gostring
  hc_DomainHeaders :: "(gostring, gostring) gomap"
  hc_Headers :: "(gostring, gostring) gomap"
  hc_Body :: goval
  hc_BodyConfig :: "body_config option"
  hc_Params :: "(gostring, gostring) gomap"
  hc_SSL :: "ssl_config option"
  hc_Redirect :: "redirect_config option"
  hc_Timeout :: "timeout_config option"

definition read_ssl :: "(gostring, goval) gomap \<Rightarrow> ssl_config \<Rightarrow> ssl_config" where
  "read_ssl m c =
     \<lparr>ssl_Verify = (case get_bool m ''verify'' of Some b \<Rightarrow> Some b | None \<Rightarrow> ssl_Verify c),
      ssl_CertPath = or_else (get_str m ''cert'') (ssl_CertPath c),
      ssl_KeyPath = or_else (get_str m ''key'') (ssl_KeyPath c),
      ssl_CAPath = or_else (get_str m ''ca'') (ssl_CAPath c)\<rparr>"

definition read_redirect :: "(gostring, goval) gomap \<Rightarrow> redirect_config \<Rightarrow> redirect_config" where
  "read_redirect m c =
     \<lparr>rd_Follow = (case get_bool m ''follow'' of Some b \<Rightarrow> Some b | None \<Rightarrow> rd_Follow c),
      rd_MaxRedirects = (case get_int m ''max_redirects'' of Some n \<Rightarrow> Some n | None \<Rightarrow> rd_MaxRedirects c)\<rparr>"

definition read_timeout :: "(gostring, goval) gomap \<Rightarrow> timeout_config \<Rightarrow> timeout_config" where
  "read_timeout m c =
     \<lparr>to_Connect = or_else (get_duration m ''connect'') (to_Connect c),
      to_Read = or_else (get_duration m ''read'') (to_Read c),
      to_Write = or_else (get_duration m ''write'') (to_Write c),
      to_Request = or_else (get_duration m ''request'') (to_Request c)\<rparr>"

definition no_ssl :: ssl_config where
  "no_ssl = \<lparr>ssl_Verify = None, ssl_CertPath = [], ssl_KeyPath = [], ssl_CAPath = []\<rparr>"

definition no_redirect :: redirect_config where
  "no_redirect = \<lparr>rd_Follow = None, rd_MaxRedirects = None\<rparr>"

definition no_timeout :: timeout_config where
  "no_timeout = \<lparr>to_Connect = 0, to_Read = 0, to_Write = 0, to_Request = 0\<rparr>"

definition ParseGlobalConfig :: "(gostring, goval) gomap \<Rightarrow> http_global \<Rightarrow> http_global" where
  "ParseGlobalConfig config g =
     \<lparr>gc_BaseURL = or_else (get_str config ''base_url'') (gc_BaseURL g),
      gc_Headers = (case get_map config ''headers'' of Some m \<Rightarrow> copy_into (gc_Headers g) (string_entries m) | None \<Rightarrow> gc_Headers g),
      gc_Domains = (case get_map config ''domains'' of Some m \<Rightarrow> copy_into (gc_Domains g) (string_entries m) | None \<Rightarrow> gc_Domains g),
      gc_SSL = (case get_map config ''ssl'' of Some m \<Rightarrow> read_ssl m (gc_SSL g) | None \<Rightarrow> gc_SSL g),
      gc_Redirect = (case get_map config ''redirect'' of Some m \<Rightarrow> read_redirect m (gc_Redirect g) | None \<Rightarrow> gc_Redirect g),
      gc_Timeout = (case get_map config ''timeout'' of Some m \<Rightarrow> read_timeout m (gc_Timeout g) | None \<Rightarrow> gc_Timeout g)\<rparr>"

definition txt_empty_url :: gostring where
  "txt_empty_url = ''HTTP '' @ utf8 [0xE8, 0xAF, 0xB7, 0xE6, 0xB1, 0x82, 0xE5, 0x9C, 0xB0, 0xE5, 0x9D, 0x80, 0xE4, 0xB8,
     0x8D, 0xE8, 0x83, 0xBD, 0xE4, 0xB8, 0xBA, 0xE7, 0xA9, 0xBA]"

definition txt_needs_url :: gostring where
  "txt_needs_url = ''HTTP '' @ utf8 [0xE6, 0xAD, 0xA5, 0xE9, 0xAA, 0xA4, 0xE9, 0x9C, 0x80, 0xE8, 0xA6, 0x81] @ '' '' @
     utf8 [0x27] @ ''url'' @ utf8 [0x27] @ '' '' @ utf8 [0xE9, 0x85, 0x8D, 0xE7, 0xBD, 0xAE]"

text \<open>The address of a step: an error when neither an address nor a domain is given.\<close>

definition parse_url :: "(gostring, goval) gomap \<Rightarrow> gostring \<Rightarrow> go_error + gostring" where
  "parse_url config domain =
     (case get_str config ''url'' of
        Some u \<Rightarrow>
          let url = trim_space u in
          if url = [] \<and> domain = [] then Inl (NewConfigError txt_empty_url None) else Inr url
      | None \<Rightarrow> if domain = [] then Inl (NewConfigError txt_needs_url None) else Inr [])"

text \<open>The headers of a domain come as a map of any values or as a map of texts; both give their texts.  A map of texts is here a map
  all of whose values are texts.  Nothing sets \<^verbatim>\<open>Body\<close>.\<close>

definition ParseConfig :: "(goval \<Rightarrow> gostring option) \<Rightarrow> (gostring, goval) gomap \<Rightarrow> go_error + http_config" where
  "ParseConfig jsonMarshal config =
     (let domain = or_else (get_str config ''domain'') [] in
      case parse_url config domain of
        Inl err \<Rightarrow> Inl err
      | Inr url \<Rightarrow> Inr
          \<lparr>hc_Method = (case get_str config ''method'' of Some m \<Rightarrow> str_upper m | None \<Rightarrow> ''GET''),
           hc_URL = url, hc_Domain = domain,
           hc_DomainBaseURL = or_else (get_str config ''domain_base_url'') [],
           hc_DomainHeaders = (case get_map config ''domain_headers'' of Some m \<Rightarrow> copy_into [] (string_entries m) | None \<Rightarrow> []),
           hc_Headers = (case map_of config ''headers'' of Some v \<Rightarrow> ParseKeyValueConfig v | None \<Rightarrow> []),
           hc_Body = VNil,
           hc_BodyConfig = (case map_of config ''body'' of Some v \<Rightarrow> ParseBodyConfig jsonMarshal v | None \<Rightarrow> None),
           hc_Params = (case map_of config ''params'' of Some v \<Rightarrow> ParseKeyValueConfig v | None \<Rightarrow> []),
           hc_SSL = map_option (\<lambda>m. read_ssl m no_ssl) (get_map config ''ssl''),
           hc_Redirect = map_option (\<lambda>m. read_redirect m no_redirect) (get_map config ''redirect''),
           hc_Timeout = map_option (\<lambda>m. read_timeout m no_timeout) (get_map config ''timeout'')\<rparr>)"

section \<open>Preparing a step\<close>

definition MergeStepConfig :: "http_global \<Rightarrow> http_config \<Rightarrow> http_global" where
  "MergeStepConfig g config =
     Merge g (Some
       \<lparr>gc_BaseURL = [], gc_Headers = [], gc_Domains = [],
        gc_SSL = or_else (hc_SSL config) no_ssl,
        gc_Redirect = or_else (hc_Redirect config) no_redirect,
        gc_Timeout = or_else (hc_Timeout config) no_timeout\<rparr>)"

definition resolve_values :: "(gostring, goval) gomap \<Rightarrow> (gostring, gostring) gomap \<Rightarrow> (gostring, gostring) gomap" where
  "resolve_values ec m = map (\<lambda>(k, v). (k, ResolveString v ec)) m"

definition ResolveVariables :: "http_config \<Rightarrow> exec_ctx option \<Rightarrow> http_config" where
  "ResolveVariables config execCtx =
     (case execCtx of
        None \<Rightarrow> config
      | Some c \<Rightarrow>
          let ec = ToEvaluationContext c in
          config\<lparr>hc_URL := ResolveString (hc_URL config) ec,
                 hc_Headers := resolve_values ec (hc_Headers config),
                 hc_Params := resolve_values ec (hc_Params config),
                 hc_BodyConfig := map_option (\<lambda>b. b\<lparr>
                   bc_Raw := (if bc_Raw b \<noteq> [] then ResolveString (bc_Raw b) ec else bc_Raw b),
                   bc_FormData := resolve_values ec (bc_FormData b),
                   bc_URLEncoded := resolve_values ec (bc_URLEncoded b)\<rparr>) (hc_BodyConfig config)\<rparr>)"

definition step_URL :: "http_global \<Rightarrow> http_config \<Rightarrow> gostring" where
  "step_URL g config =
     (if hc_DomainBaseURL config \<noteq> [] then resolveURLWithBase (hc_URL config) (hc_DomainBaseURL config)
      else ResolveURL g (hc_URL config) (hc_Domain config))"

definition add_missing :: "('k, 'v) gomap \<Rightarrow> ('k, 'v) gomap \<Rightarrow> ('k, 'v) gomap" where
  "add_missing dst src = foldl (\<lambda>m kv. if map_of m (fst kv) = None then AList.update (fst kv) (snd kv) m else m) dst src"

definition MergeDomainHeaders :: "http_config \<Rightarrow> http_config" where
  "MergeDomainHeaders config = config\<lparr>hc_Headers := add_missing (hc_Headers config) (hc_DomainHeaders config)\<rparr>"

definition ResolveTimeout :: "step \<Rightarrow> http_global \<Rightarrow> int \<Rightarrow> int" where
  "ResolveTimeout st merged defaultTimeout =
     (let timeout = sp_Timeout st in
      if timeout \<le> 0 then
        let timeout = to_Request (gc_Timeout merged) in
        if timeout \<le> 0 then defaultTimeout else timeout
      else timeout)"

definition PrepareConfig ::
    "(goval \<Rightarrow> gostring option) \<Rightarrow> http_global \<Rightarrow> step \<Rightarrow> exec_ctx option \<Rightarrow> go_error + http_config \<times> http_global" where
  "PrepareConfig jsonMarshal g st execCtx =
     (case ParseConfig jsonMarshal (sp_Config st) of
        Inl err \<Rightarrow> Inl err
      | Inr config \<Rightarrow>
          let merged = MergeStepConfig g config;
              config = ResolveVariables config execCtx;
              config = config\<lparr>hc_URL := step_URL g config\<rparr>
          in Inr (MergeDomainHeaders config, merged))"

section \<open>Precedence\<close>

text \<open>The settings of a layer by name; what is not set has no value.\<close>

datatype setting =
    S_BaseURL | S_Header gostring | S_Domain gostring | S_Verify | S_Cert | S_Key | S_CA | S_Follow | S_MaxRedirects
  | S_Connect | S_Read | S_Write | S_Request

definition text_setting :: "gostring \<Rightarrow> goval option" where
  "text_setting s = (if s = [] then None else Some (VString s))"

definition time_setting :: "int \<Rightarrow> goval option" where
  "time_setting t = (if t > 0 then Some (VInt K_int64 t) else None)"

fun setting_of :: "http_global \<Rightarrow> setting \<Rightarrow> goval option" where
  "setting_of g S_BaseURL = text_setting (gc_BaseURL g)"
| "setting_of g (S_Header h) = map_option VString (map_of (gc_Headers g) h)"
| "setting_of g (S_Domain d) = map_option VString (map_of (gc_Domains g) d)"
| "setting_of g S_Verify = map_option VBool (ssl_Verify (gc_SSL g))"
| "setting_of g S_Cert = text_setting (ssl_CertPath (gc_SSL g))"
| "setting_of g S_Key = text_setting (ssl_KeyPath (gc_SSL g))"
| "setting_of g S_CA = text_setting (ssl_CAPath (gc_SSL g))"
| "setting_of g S_Follow = map_option VBool (rd_Follow (gc_Redirect g))"
| "setting_of g S_MaxRedirects = map_option (VInt K_int) (rd_MaxRedirects (gc_Redirect g))"
| "setting_of g S_Connect = time_setting (to_Connect (gc_Timeout g))"
| "setting_of g S_Read = time_setting (to_Read (gc_Timeout g))"
| "setting_of g S_Write = time_setting (to_Write (gc_Timeout g))"
| "setting_of g S_Request = time_setting (to_Request (gc_Timeout g))"

definition global_wf :: "http_global \<Rightarrow> bool" where
  "global_wf g \<longleftrightarrow> map_wf (gc_Headers g) \<and> map_wf (gc_Domains g)"

lemmas setting_defs = or_ptr_def or_text_def or_time_def text_setting_def time_setting_def

lemma copies: "map_wf a \<Longrightarrow> map_wf b \<Longrightarrow>
    map_of (copy_into (copy_into [] a) b) k = (case map_of b k of Some v \<Rightarrow> Some v | None \<Rightarrow> map_of a k)"
  by (simp add: map_of_copy_into split: option.splits)

lemma setting_of_Merge:
  assumes "global_wf c" "global_wf d"
  shows "setting_of (Merge c (Some d)) s = (case setting_of d s of Some v \<Rightarrow> Some v | None \<Rightarrow> setting_of c s)"
  using assms by (cases s) (auto simp: Merge_def setting_defs global_wf_def copies split: option.splits)

interpretation globals: layered "\<lambda>c d. Merge c (Some d)" setting_of global_wf
  by unfold_locales (simp_all add: setting_of_Merge, simp add: Merge_def global_wf_def)

text \<open>Layers of settings: after any number of merges every setting has the value of the last layer that sets it, and the value of the
  first layer when none does; headers and domains are merged entry by entry.\<close>

theorem settings_precedence:
  assumes "global_wf g" "list_all global_wf ds"
  shows "setting_of (foldl (\<lambda>c d. Merge c (Some d)) g ds) s =
    (case find (\<lambda>v. v \<noteq> None) (map (\<lambda>d. setting_of d s) (rev ds)) of Some v \<Rightarrow> v | None \<Rightarrow> setting_of g s)"
  using assms by (rule globals.setting_layers)

lemma settings_precedence_witness:
  "setting_of (foldl (\<lambda>c d. Merge c (Some d)) DefaultHTTPGlobalConfig
      [DefaultHTTPGlobalConfig\<lparr>gc_Headers := [(''A'', ''1'')]\<rparr>, DefaultHTTPGlobalConfig\<lparr>gc_Headers := [(''A'', ''2'')]\<rparr>, DefaultHTTPGlobalConfig])
    (S_Header ''A'') = Some (VString ''2'')"
proof -
  have "global_wf DefaultHTTPGlobalConfig"
      "list_all global_wf [DefaultHTTPGlobalConfig\<lparr>gc_Headers := [(''A'', ''1'')]\<rparr>, DefaultHTTPGlobalConfig\<lparr>gc_Headers := [(''A'', ''2'')]\<rparr>,
        DefaultHTTPGlobalConfig]"
    by (simp_all add: global_wf_def DefaultHTTPGlobalConfig_def map_wf_def map_keys_def)
  from settings_precedence [OF this, of "S_Header ''A''"] show ?thesis by (simp add: DefaultHTTPGlobalConfig_def)
qed

section \<open>Addresses of requests\<close>

text \<open>An absolute address, and an address without its slashes at the end.\<close>

definition absolute :: "gostring \<Rightarrow> bool" where
  "absolute url \<longleftrightarrow> length url > 7 \<and> (has_prefix url ''http://'' \<or> has_prefix url ''https://'')"

lemma has_prefix_take: "has_prefix s p \<longleftrightarrow> take (length p) s = p"
proof
  assume "take (length p) s = p"
  then have "s = p @ drop (length p) s" by (metis append_take_drop_id)
  then show "has_prefix s p" by (auto simp: has_prefix_iff)
qed (auto simp: has_prefix_iff)

lemma absolute_iff:
  "(url \<noteq> [] \<and> (hd url = CHR ''h'' \<or> hd url = CHR ''H'') \<and> length url > 7 \<and> (take 7 url = ''http://'' \<or> take 8 url = ''https://''))
     \<longleftrightarrow> absolute url"
  by (cases url) (auto simp: absolute_def has_prefix_take eval_nat_numeral)

lemma trimRight_slash:
  obtains n where "s = trimRight s ''/'' @ replicate n (CHR ''/'')" "trimRight s ''/'' = [] \<or> last (trimRight s ''/'') \<noteq> CHR ''/''"
proof (induction s arbitrary: thesis rule: rev_induct)
  case Nil then show ?case by (simp add: trimRight.simps)
next
  case (snoc c s)
  show ?case
  proof (cases "c = CHR ''/''")
    case True
    obtain n where n: "s = trimRight s ''/'' @ replicate n (CHR ''/'')" "trimRight s ''/'' = [] \<or> last (trimRight s ''/'') \<noteq> CHR ''/''"
      using snoc.IH by blast
    have "trimRight (s @ [c]) ''/'' = trimRight s ''/''" by (subst trimRight.simps) (simp add: True)
    moreover have "s @ [c] = trimRight s ''/'' @ replicate (Suc n) (CHR ''/'')"
      using n(1) True by (metis append_assoc replicate_Suc replicate_append_same append_Cons append_Nil)
    ultimately show ?thesis using n(2) snoc.prems by metis
  next
    case False
    then have "trimRight (s @ [c]) ''/'' = s @ [c]" by (subst trimRight.simps) simp
    then show ?thesis using snoc.prems [of 0] False by simp
  qed
qed

lemma absolute_append: "absolute a \<Longrightarrow> absolute (a @ b)"
  by (auto simp: absolute_def has_prefix_iff)

lemma ResolveURL_absolute: "absolute url \<Longrightarrow> ResolveURL c url domain = url"
  unfolding ResolveURL_def absolute_iff by simp

lemma resolveURLWithBase_ResolveURL: "resolveURLWithBase url base = ResolveURL (DefaultHTTPGlobalConfig\<lparr>gc_BaseURL := base\<rparr>) url []"
  by (simp add: resolveURLWithBase_def ResolveURL_def Let_def)

text \<open>The base of a step: that of its domain, when it is given with the step; else that of the domain in the configuration; else
  the common one.\<close>

definition step_base :: "http_global \<Rightarrow> http_config \<Rightarrow> gostring" where
  "step_base g config =
     (if hc_DomainBaseURL config \<noteq> [] then hc_DomainBaseURL config
      else if hc_Domain config \<noteq> [] then or_else (map_of (gc_Domains g) (hc_Domain config)) (gc_BaseURL g) else gc_BaseURL g)"

lemma step_URL_base:
  "step_URL g config =
     (if absolute (hc_URL config) \<or> step_base g config = [] then hc_URL config
      else trimRight (step_base g config) ''/'' @
        (if hc_URL config = [] \<or> hd (hc_URL config) \<noteq> CHR ''/'' then ''/'' @ hc_URL config else hc_URL config))"
  unfolding step_URL_def resolveURLWithBase_def ResolveURL_def absolute_iff step_base_def Let_def or_else_def
  by (auto split: option.splits)



section \<open>Prepared steps\<close>

lemma map_wf_pair_item: "map_wf m \<Longrightarrow> map_wf (pair_item item m)"
  by (cases item) (auto simp: Let_def)

lemma map_wf_ParseKeyValueConfig [simp]: "map_wf (ParseKeyValueConfig v)"
proof (cases v)
  case (VSlice data)
  have "map_wf m \<Longrightarrow> map_wf (foldl (\<lambda>m item. pair_item item m) m data)" for m
    by (induction data arbitrary: m) (simp_all add: map_wf_pair_item)
  then show ?thesis by (simp add: VSlice)
qed simp_all

lemma map_of_resolve_values: "map_of (resolve_values ec m) k = map_option (\<lambda>v. ResolveString v ec) (map_of m k)"
  unfolding resolve_values_def by (induction m) auto

lemma map_of_add_missing:
  "map_wf src \<Longrightarrow> map_of (add_missing dst src) k = (case map_of dst k of Some v \<Rightarrow> Some v | None \<Rightarrow> map_of src k)"
  unfolding add_missing_def
proof (induction src arbitrary: dst)
  case (Cons kv src)
  then have "map_wf src" "fst kv \<notin> fst ` set src" by (auto simp: map_wf_def map_keys_def)
  then have "map_of src (fst kv) = None" by (simp add: map_of_None_keys)
  with \<open>map_wf src\<close> show ?case using Cons.IH by (cases kv) (auto simp: update_conv' split: option.splits)
qed (simp split: option.splits)

lemma map_wf_add_missing: "map_wf dst \<Longrightarrow> map_wf (add_missing dst src)"
  unfolding add_missing_def by (induction src arbitrary: dst) auto

interpretation missing: layered "\<lambda>dom own. add_missing own dom" map_of map_wf
  by unfold_locales (simp_all add: map_of_add_missing map_wf_add_missing)


text \<open>How long a request may take: the timeout of the step, else the one in its configuration, else the one of the executor, else the
  default, each when it is above zero.\<close>

theorem timeout_precedence:
  assumes "PrepareConfig jm g st ctx = Inr (config, merged)"
  shows "ResolveTimeout st merged defaultTimeout =
    or_else (find (\<lambda>t. t > 0)
      [sp_Timeout st,
       (case get_map (sp_Config st) ''timeout'' of Some m \<Rightarrow> or_else (get_duration m ''request'') 0 | None \<Rightarrow> 0),
       to_Request (gc_Timeout g)]) defaultTimeout"
proof -
  obtain parsed where "ParseConfig jm (sp_Config st) = Inr parsed" "merged = MergeStepConfig g parsed"
    using assms by (auto simp: PrepareConfig_def Let_def split: sum.splits)
  moreover from this(1) have "hc_Timeout parsed = map_option (\<lambda>m. read_timeout m no_timeout) (get_map (sp_Config st) ''timeout'')"
    by (auto simp: ParseConfig_def Let_def split: sum.splits)
  ultimately have "to_Request (gc_Timeout merged) = or_time (to_Request (gc_Timeout g))
      (case get_map (sp_Config st) ''timeout'' of Some m \<Rightarrow> or_else (get_duration m ''request'') 0 | None \<Rightarrow> 0)"
    by (simp add: MergeStepConfig_def Merge_def or_else_def read_timeout_def no_timeout_def split: option.splits)
  then show ?thesis by (simp add: ResolveTimeout_def or_time_def or_else_def)
qed

lemma timeout_precedence_witness:
  fixes st :: step
  defines "st \<equiv> Step ''s'' [] ''http'' False [(''url'', VString ''/x''), (''timeout'', VMap [(''request'', VString ''2s'')])] None None [] [] None [] [] [] 0"
  shows "\<exists>config merged. PrepareConfig (\<lambda>_. None) DefaultHTTPGlobalConfig st None = Inr (config, merged) \<and>
    ResolveTimeout st merged (30 * Second) = 2 * Second"
proof -
  have "get_duration [(''request'', VString ''2s'')] ''request'' = Some (2 * Second)" by code_simp
  moreover have "trim_space ''/x'' = ''/x''" by code_simp
  ultimately show ?thesis
    using timeout_precedence [of "\<lambda>_. None" DefaultHTTPGlobalConfig st None _ _ "30 * Second"]
    by (simp add: st_def PrepareConfig_def ParseConfig_def Let_def parse_url_def get_str_def get_map_def or_else_def Second_def)
qed

end
