(* ===== verification/Http_Request.thy ===== *)
theory Http_Request
  imports Http_Config
begin

text \<open>
  The requests that the HTTP executors build from a prepared step (\<^verbatim>\<open>createRequest\<close>, \<^verbatim>\<open>prepareBody\<close> and \<^verbatim>\<open>extractBodyString\<close> of
  \<^verbatim>\<open>internal/executor/http_executor.go\<close>, \<^verbatim>\<open>setRequestBody\<close> and \<^verbatim>\<open>encodeKeyValues\<close> of \<^verbatim>\<open>fasthttp_executor.go\<close>), on models of
  \<^verbatim>\<open>url.QueryEscape\<close> and of the headers of \<^verbatim>\<open>net/http\<close>.  Whether the library accepts a method and an address is an argument.  What a
  server reads from a query is given by a model of \<^verbatim>\<open>url.ParseQuery\<close>.
\<close>

section \<open>Queries\<close>

definition unreserved :: "byte \<Rightarrow> bool" where
  "unreserved c \<longleftrightarrow> (CHR ''a'' \<le> c \<and> c \<le> CHR ''z'') \<or> (CHR ''A'' \<le> c \<and> c \<le> CHR ''Z'') \<or> is_digit c \<or> c \<in> set ''-_.~''"

definition hex_digit :: "nat \<Rightarrow> byte" where
  "hex_digit n = ''0123456789ABCDEF'' ! n"

definition escape_byte :: "byte \<Rightarrow> gostring" where
  "escape_byte c =
     (if unreserved c then [c]
      else if c = CHR '' '' then ''+''
      else [CHR ''%'', hex_digit (of_char c div 16), hex_digit (of_char c mod 16)])"

definition QueryEscape :: "gostring \<Rightarrow> gostring" where
  "QueryEscape s = concat (map escape_byte s)"

definition key_value :: "gostring \<times> gostring \<Rightarrow> gostring" where
  "key_value kv = QueryEscape (fst kv) @ ''='' @ QueryEscape (snd kv)"

definition encodeKeyValues :: "(gostring, gostring) gomap \<Rightarrow> gostring" where
  "encodeKeyValues kv = join_with ''&'' (map key_value kv)"

definition request_URL :: "gostring \<Rightarrow> (gostring, gostring) gomap \<Rightarrow> gostring" where
  "request_URL url params =
     (if params \<noteq> []
      then url @ (if str_contains url ''?'' then ''&'' else ''?'') @ join_with ''&'' (map key_value params)
      else url)"

subsection \<open>Reading a query\<close>

definition hex_nibble :: "byte \<Rightarrow> nat option" where
  "hex_nibble c =
     (if is_digit c then Some (of_char c - 48)
      else if CHR ''a'' \<le> c \<and> c \<le> CHR ''f'' then Some (of_char c - 87)
      else if CHR ''A'' \<le> c \<and> c \<le> CHR ''F'' then Some (of_char c - 55)
      else None)"

fun QueryUnescape :: "gostring \<Rightarrow> gostring option" where
  "QueryUnescape [] = Some []"
| "QueryUnescape (c # s) =
     (if c = CHR ''%'' then
        (case s of
           a # b # t \<Rightarrow>
             (case (hex_nibble a, hex_nibble b) of
                (Some x, Some y) \<Rightarrow> map_option (\<lambda>r. char_of (16 * x + y) # r) (QueryUnescape t)
              | _ \<Rightarrow> None)
         | _ \<Rightarrow> None)
      else map_option (\<lambda>r. (if c = CHR ''+'' then CHR '' '' else c) # r) (QueryUnescape s))"

definition read_pair :: "gostring \<Rightarrow> (gostring \<times> gostring) option" where
  "read_pair p =
     (let (k, v) = (case str_cut ''='' p of Some kv \<Rightarrow> kv | None \<Rightarrow> (p, []))
      in case (QueryUnescape k, QueryUnescape v) of (Some k', Some v') \<Rightarrow> Some (k', v') | _ \<Rightarrow> None)"

text \<open>The pairs of a query; a piece that cannot be read, and one with a semicolon, is an error.\<close>

definition ParseQuery :: "gostring \<Rightarrow> (gostring \<times> gostring) list option" where
  "ParseQuery q =
     those (map (\<lambda>p. if CHR '';'' \<in> set p then None else read_pair p) (filter (\<lambda>p. p \<noteq> []) (split_on (CHR ''&'') q)))"

text \<open>The query of an address without a fragment.\<close>

definition query_of :: "gostring \<Rightarrow> gostring" where
  "query_of url = (case str_cut ''?'' url of Some (_, q) \<Rightarrow> q | None \<Rightarrow> [])"

section \<open>Bodies\<close>

text \<open>The content of a body and its type; no content gives no type.\<close>

definition body_content :: "body_config \<Rightarrow> gostring \<times> gostring" where
  "body_content b =
     (if bc_Type b = ''form-data''
      then (if bc_FormData b \<noteq> [] then (encodeKeyValues (bc_FormData b), ''multipart/form-data'') else ([], []))
      else if bc_Type b = ''x-www-form-urlencoded''
      then (if bc_URLEncoded b \<noteq> [] then (encodeKeyValues (bc_URLEncoded b), ''application/x-www-form-urlencoded'') else ([], []))
      else if bc_Type b = ''json'' then (bc_Raw b, ''application/json'')
      else if bc_Type b = ''xml'' then (bc_Raw b, ''application/xml'')
      else if bc_Type b = ''text'' then (bc_Raw b, ''text/plain'')
      else if bc_Type b = ''graphql'' then (bc_Raw b, ''application/json'')
      else (bc_Raw b, ''application/json''))"

definition prepareBody :: "body_config \<Rightarrow> gostring option \<times> gostring" where
  "prepareBody b = (let (content, contentType) = body_content b in if content = [] then (None, []) else (Some content, contentType))"

text \<open>The FastHTTP executor: the body it sets, and the content type it sets when the request has none.\<close>

definition setRequestBody :: "bool \<Rightarrow> body_config \<Rightarrow> gostring option \<times> gostring option" where
  "setRequestBody has_type b =
     (let (content, contentType) = body_content b in
      if content \<noteq> [] then (Some content, if \<not> has_type then Some contentType else None) else (None, None))"

definition extractBodyString :: "(goval \<Rightarrow> gostring option) \<Rightarrow> http_config \<Rightarrow> gostring" where
  "extractBodyString jsonMarshal config =
     (case hc_Body config of
        VNil \<Rightarrow> []
      | VString s \<Rightarrow> s
      | b \<Rightarrow> (case jsonMarshal b of Some js \<Rightarrow> js | None \<Rightarrow> []))"

section \<open>Requests\<close>

text \<open>Keys of headers are put into canonical form: capitals at the start and after a hyphen, when every byte is one of a token.\<close>

definition token_byte :: "byte \<Rightarrow> bool" where
  "token_byte c \<longleftrightarrow> (CHR ''a'' \<le> c \<and> c \<le> CHR ''z'') \<or> (CHR ''A'' \<le> c \<and> c \<le> CHR ''Z'') \<or> is_digit c \<or>
     c \<in> set [CHR ''!'', CHR ''#'', CHR ''$'', CHR ''%'', CHR ''&'', CHR 0x27, CHR ''*'', CHR ''+'', CHR ''-'', CHR ''.'', CHR 0x5E,
       CHR ''_'', CHR 0x60, CHR ''|'', CHR ''~'']"

fun canonical_bytes :: "bool \<Rightarrow> gostring \<Rightarrow> gostring" where
  "canonical_bytes upper [] = []"
| "canonical_bytes upper (c # s) = (if upper then to_upper c else to_lower c) # canonical_bytes (c = CHR ''-'') s"

definition CanonicalHeaderKey :: "gostring \<Rightarrow> gostring" where
  "CanonicalHeaderKey k = (if list_all token_byte k then canonical_bytes True k else k)"

definition Header_Set :: "gostring \<Rightarrow> gostring \<Rightarrow> (gostring, gostring) gomap \<Rightarrow> (gostring, gostring) gomap" where
  "Header_Set k v h = AList.update (CanonicalHeaderKey k) v h"

definition Header_Get :: "(gostring, gostring) gomap \<Rightarrow> gostring \<Rightarrow> gostring" where
  "Header_Get h k = or_else (map_of h (CanonicalHeaderKey k)) []"

record http_request =
  rq_Method :: gostring
  rq_URL :: gostring
  rq_Header :: "(gostring, gostring) gomap"
  rq_Body :: "gostring option"

definition txt_create_request :: gostring where
  "txt_create_request = utf8 [0xE5, 0x88, 0x9B, 0xE5, 0xBB, 0xBA] @ '' HTTP '' @ utf8 [0xE8, 0xAF, 0xB7, 0xE6, 0xB1,
     0x82, 0xE5, 0xA4, 0xB1, 0xE8, 0xB4, 0xA5]"

text \<open>The argument is the error of \<^verbatim>\<open>http.NewRequestWithContext\<close> on a method and an address, if any; an empty method is GET.\<close>

definition createRequest :: "(gostring \<Rightarrow> gostring \<Rightarrow> go_error option) \<Rightarrow> http_config \<Rightarrow> http_global \<Rightarrow> go_error + http_request" where
  "createRequest newRequest config merged =
     (let requestURL = request_URL (hc_URL config) (hc_Params config);
          (body, contentType) = (case hc_BodyConfig config of Some b \<Rightarrow> prepareBody b | None \<Rightarrow> (None, []))
      in case newRequest (hc_Method config) requestURL of
           Some err \<Rightarrow> Inl (NewConfigError txt_create_request (Some err))
         | None \<Rightarrow>
             let h1 = foldl (\<lambda>h kv. Header_Set (fst kv) (snd kv) h) [] (gc_Headers merged);
                 h2 = foldl (\<lambda>h kv. Header_Set (fst kv) (snd kv) h) h1 (hc_Headers config);
                 h3 = (if contentType \<noteq> [] \<and> Header_Get h2 ''Content-Type'' = [] then Header_Set ''Content-Type'' contentType h2 else h2)
             in Inr \<lparr>rq_Method = (if hc_Method config = [] then ''GET'' else hc_Method config), rq_URL = requestURL,
                     rq_Header = h3, rq_Body = body\<rparr>)"

section \<open>Queries are read back\<close>

lemma hex_nibble_hex_digit: "n < 16 \<Longrightarrow> hex_nibble (hex_digit n) = Some n"
proof -
  have "\<forall>n \<in> set [0..<16]. hex_nibble (hex_digit n) = Some n" by code_simp
  then show "n < 16 \<Longrightarrow> hex_nibble (hex_digit n) = Some n" by simp
qed

lemma not_unreserved: "\<not> unreserved (CHR ''%'')" "\<not> unreserved (CHR ''+'')" "\<not> unreserved (CHR ''&'')" "\<not> unreserved (CHR ''='')"
    "\<not> unreserved (CHR '';'')"
  by code_simp+

lemma hex_digit_plain: "n < 16 \<Longrightarrow> hex_digit n \<notin> set ''&=;''"
proof -
  have "\<forall>n \<in> set [0..<16]. hex_digit n \<notin> set ''&=;''" by code_simp
  then show "n < 16 \<Longrightarrow> hex_digit n \<notin> set ''&=;''" by simp
qed

lemma of_char_below [simp]: "(of_char c :: nat) div 16 < 16"
proof -
  have "(of_char c :: nat) < 256" by (rule nat_of_char_less_256)
  then show ?thesis by (simp add: div_less_iff_less_mult)
qed

lemma QueryUnescape_byte: "QueryUnescape (escape_byte c @ s) = map_option (Cons c) (QueryUnescape s)"
proof (cases "unreserved c")
  case True
  with not_unreserved have "c \<noteq> CHR ''%''" "c \<noteq> CHR ''+''" by auto
  with True show ?thesis by (simp add: escape_byte_def)
next
  case False
  have "char_of (16 * (of_char c div 16) + of_char c mod 16 :: nat) = c" by (simp only: mult_div_mod_eq char_of_char)
  with False show ?thesis by (cases "c = CHR '' ''") (simp_all add: escape_byte_def hex_nibble_hex_digit)
qed

lemma QueryUnescape_QueryEscape: "QueryUnescape (QueryEscape s) = Some s"
  by (induction s) (simp_all add: QueryEscape_def QueryUnescape_byte)

lemma QueryEscape_plain: "c \<in> set ''&=;'' \<Longrightarrow> c \<notin> set (QueryEscape s)"
proof (induction s)
  case (Cons b s)
  have "c \<notin> set (escape_byte b)"
    using Cons.prems not_unreserved hex_digit_plain [of "of_char b div 16"] hex_digit_plain [of "of_char b mod 16"]
    by (auto simp: escape_byte_def)
  with Cons show ?case by (simp add: QueryEscape_def)
qed (simp add: QueryEscape_def)

lemma read_pair_key_value: "read_pair (key_value kv) = Some kv"
  using str_cut_first [of "CHR ''=''" "QueryEscape (fst kv)" "[]" "QueryEscape (snd kv)"] QueryEscape_plain [of "CHR ''=''" "fst kv"]
  by (simp add: read_pair_def key_value_def QueryUnescape_QueryEscape)

lemma key_value_plain: "CHR ''&'' \<notin> set (key_value kv)" "CHR '';'' \<notin> set (key_value kv)" "key_value kv \<noteq> []"
  using QueryEscape_plain [of "CHR ''&''"] QueryEscape_plain [of "CHR '';''"] by (auto simp: key_value_def)

lemma split_on_append_sep: "split_on sep (a @ sep # b) = split_on sep a @ split_on sep b"
  by (induction a) (auto split: list.splits)

lemma those_append: "those (xs @ ys) = (case (those xs, those ys) of (Some a, Some b) \<Rightarrow> Some (a @ b) | _ \<Rightarrow> None)"
  by (induction xs) (auto split: option.splits)

lemma ParseQuery_append:
  "ParseQuery (a @ CHR ''&'' # b) = (case (ParseQuery a, ParseQuery b) of (Some x, Some y) \<Rightarrow> Some (x @ y) | _ \<Rightarrow> None)"
  by (simp add: ParseQuery_def split_on_append_sep those_append)

lemma those_pairs: "those (map (\<lambda>p. if CHR '';'' \<in> set p then None else read_pair p) (map key_value kv)) = Some kv"
  by (induction kv) (simp_all add: key_value_plain read_pair_key_value)

lemma ParseQuery_pairs: "ParseQuery (join_with ''&'' (map key_value kv)) = Some kv"
proof (cases "kv = []")
  case False
  have "split_on (CHR ''&'') (join_with ''&'' (map key_value kv)) = map key_value kv"
    using False by (intro split_on_join) (auto simp: key_value_plain)
  moreover have "filter (\<lambda>p. p \<noteq> []) (map key_value kv) = map key_value kv"
    by (simp add: key_value_plain filter_empty_conv)
  ultimately show ?thesis by (simp add: ParseQuery_def those_pairs del: map_map)
qed (simp add: ParseQuery_def)

lemma query_of_append:
  "query_of (url @ (if str_contains url ''?'' then ''&'' else ''?'') @ q) = (if str_contains url ''?'' then query_of url @ ''&'' @ q else q)"
proof (cases "str_cut ''?'' url")
  case None
  then have "CHR ''?'' \<notin> set url" using str_contains_iff [of url "''?''"] by (auto simp: str_contains_def dest!: split_list)
  with None show ?thesis using str_cut_first [of "CHR ''?''" url "[]" q] by (simp add: str_contains_def query_of_def)
next
  case (Some ab)
  have "str_cut ''?'' (url @ r) = Some (fst ab, snd ab @ r)" for r
    using Some by (induction url arbitrary: ab) (auto split: if_splits)
  with Some show ?thesis by (cases ab) (simp add: str_contains_def query_of_def)
qed

text \<open>(C28) Parameters reach the server: for an address without a fragment, and whatever bytes keys and values have, a server that reads the query
  of the address of the request finds the parameters that the address already had, and then exactly the parameters of the step, in the order in which they were
  written.  A form body encoded this way is read back as its pairs.\<close>

theorem query_roundtrip:
  assumes "ParseQuery (query_of url) = Some own"
  shows "ParseQuery (query_of (request_URL url params)) = Some (own @ params) \<and> ParseQuery (encodeKeyValues params) = Some params"
proof (cases "str_contains url ''?''")
  case True
  then show ?thesis using assms ParseQuery_append [of "query_of url" "join_with ''&'' (map key_value params)"]
      query_of_append [of url "join_with ''&'' (map key_value params)"]
    by (simp add: request_URL_def ParseQuery_pairs encodeKeyValues_def)
next
  case False
  then have "query_of url = []" by (simp add: str_contains_def query_of_def split: option.split)
  then have "own = []" using assms by (simp add: ParseQuery_def)
  with False assms show ?thesis
    using query_of_append [of url "join_with ''&'' (map key_value params)"]
    by (simp add: request_URL_def ParseQuery_pairs encodeKeyValues_def)
qed

lemma query_roundtrip_witness:
  "request_URL ''/s?p=1'' [(''q'', ''a&b c''), (''x'', ''%'')] = ''/s?p=1&q=a%26b+c&x=%25'' \<and>
   ParseQuery (query_of (request_URL ''/s?p=1'' [(''q'', ''a&b c''), (''x'', ''%'')])) = Some [(''p'', ''1''), (''q'', ''a&b c''), (''x'', ''%'')]"
proof -
  have "request_URL ''/s?p=1'' [(''q'', ''a&b c''), (''x'', ''%'')] = ''/s?p=1&q=a%26b+c&x=%25''" by code_simp
  moreover have "ParseQuery (query_of ''/s?p=1'') = Some [(''p'', ''1'')]" by code_simp
  ultimately show ?thesis
    using query_roundtrip [of "''/s?p=1''" "[(''p'', ''1'')]" "[(''q'', ''a&b c''), (''x'', ''%'')]"] by simp
qed

section \<open>Headers and bodies of requests\<close>

definition canon_headers :: "(gostring, gostring) gomap \<Rightarrow> (gostring, gostring) gomap" where
  "canon_headers hs = map (\<lambda>kv. (CanonicalHeaderKey (fst kv), snd kv)) hs"

lemma set_headers: "foldl (\<lambda>h kv. Header_Set (fst kv) (snd kv) h) h hs = copy_into h (canon_headers hs)"
  unfolding copy_into_def canon_headers_def by (induction hs arbitrary: h) (simp_all add: Header_Set_def)

lemma content_type_canonical: "CanonicalHeaderKey ''Content-Type'' = ''Content-Type''"
  by code_simp

text \<open>The type that a request declares for its body when no header does.\<close>

definition default_type :: "http_config \<Rightarrow> gostring" where
  "default_type config = (case hc_BodyConfig config of Some b \<Rightarrow> snd (prepareBody b) | None \<Rightarrow> [])"

lemma createRequest_parts:
  assumes "createRequest newRequest config merged = Inr rq"
  defines "h \<equiv> copy_into (copy_into [] (canon_headers (gc_Headers merged))) (canon_headers (hc_Headers config))"
  shows "rq_Header rq = (if default_type config \<noteq> [] \<and> or_else (map_of h ''Content-Type'') [] = []
      then AList.update ''Content-Type'' (default_type config) h else h)"
    and "rq_Body rq = (case hc_BodyConfig config of Some b \<Rightarrow> fst (prepareBody b) | None \<Rightarrow> None)"
    and "rq_URL rq = request_URL (hc_URL config) (hc_Params config)"
proof -
  obtain body ct where bc: "(case hc_BodyConfig config of Some b \<Rightarrow> prepareBody b | None \<Rightarrow> (None, [])) = (body, ct)" by fastforce
  then have ct: "default_type config = ct" "body = (case hc_BodyConfig config of Some b \<Rightarrow> fst (prepareBody b) | None \<Rightarrow> None)"
    by (auto simp: default_type_def split: option.splits)
  have "rq = \<lparr>rq_Method = (if hc_Method config = [] then ''GET'' else hc_Method config), rq_URL = request_URL (hc_URL config) (hc_Params config),
      rq_Header = (if ct \<noteq> [] \<and> or_else (map_of h ''Content-Type'') [] = [] then AList.update ''Content-Type'' ct h else h), rq_Body = body\<rparr>"
    using assms(1) unfolding createRequest_def Let_def bc prod.case set_headers h_def [symmetric]
    by (auto simp: Header_Get_def Header_Set_def content_type_canonical split: option.splits cong: if_cong)
  then show "rq_Header rq = (if default_type config \<noteq> [] \<and> or_else (map_of h ''Content-Type'') [] = []
        then AList.update ''Content-Type'' (default_type config) h else h)"
      "rq_Body rq = (case hc_BodyConfig config of Some b \<Rightarrow> fst (prepareBody b) | None \<Rightarrow> None)"
      "rq_URL rq = request_URL (hc_URL config) (hc_Params config)"
    by (simp_all add: ct(1) ct(2) [symmetric])
qed

text \<open>The headers of a request: when no two keys of the step's headers are the same up to case, and none of the executor's, a header has
  the value of the step, else of the executor; and a body has the type of its kind when neither gives a type.\<close>

theorem request_headers:
  assumes "createRequest newRequest config merged = Inr rq"
    and "map_wf (canon_headers (hc_Headers config))" "map_wf (canon_headers (gc_Headers merged))"
  defines "given k \<equiv> (case map_of (canon_headers (hc_Headers config)) k of
      Some v \<Rightarrow> Some v | None \<Rightarrow> map_of (canon_headers (gc_Headers merged)) k)"
  shows "map_of (rq_Header rq) k =
    (if k = ''Content-Type'' \<and> or_else (given k) [] = [] \<and> default_type config \<noteq> [] then Some (default_type config) else given k)"
proof -
  have "map_of (copy_into (copy_into [] (canon_headers (gc_Headers merged))) (canon_headers (hc_Headers config))) x = given x" for x
    unfolding given_def by (rule copies [OF assms(3,2)])
  then show ?thesis by (simp add: createRequest_parts(1) [OF assms(1)] update_conv')
qed

lemma request_headers_witness:
  fixes config :: http_config
  defines "config \<equiv> \<lparr>hc_Method = ''POST'', hc_URL = ''http://h/x'', hc_Domain = [], hc_DomainBaseURL = [], hc_DomainHeaders = [],
      hc_Headers = [(''x-a'', ''1'')], hc_Body = VNil,
      hc_BodyConfig = Some \<lparr>bc_Type = ''xml'', bc_Raw = ''<a/>'', bc_FormData = [], bc_URLEncoded = []\<rparr>, hc_Params = [],
      hc_SSL = None, hc_Redirect = None, hc_Timeout = None\<rparr>"
  shows "\<exists>rq. createRequest (\<lambda>_ _. None) config (DefaultHTTPGlobalConfig\<lparr>gc_Headers := [(''X-A'', ''0'')]\<rparr>) = Inr rq \<and>
    map_of (rq_Header rq) ''X-A'' = Some ''1'' \<and> map_of (rq_Header rq) ''Content-Type'' = Some ''application/xml''"
proof -
  let ?g = "DefaultHTTPGlobalConfig\<lparr>gc_Headers := [(''X-A'', ''0'')]\<rparr>"
  obtain rq where rq: "createRequest (\<lambda>_ _. None) config ?g = Inr rq"
    by (simp add: createRequest_def Let_def case_prod_unfold)
  have c: "canon_headers (hc_Headers config) = [(''X-A'', ''1'')]" "canon_headers [(''X-A'', ''0'')] = [(''X-A'', ''0'')]"
    unfolding config_def by code_simp+
  have "default_type config = ''application/xml''" unfolding config_def by code_simp
  then show ?thesis using rq request_headers [OF rq, of "''X-A''"] request_headers [OF rq, of "''Content-Type''"]
    by (simp add: c map_wf_def map_keys_def or_else_def)
qed

text \<open>Keys that differ in case only: which value is sent depends on the order in which the runtime visits the map.  So a header of a domain
  can replace the step's own.\<close>

lemma header_case_conflict:
  fixes config :: http_config
  defines "config \<equiv> \<lparr>hc_Method = ''GET'', hc_URL = ''http://h/x'', hc_Domain = [], hc_DomainBaseURL = [],
      hc_DomainHeaders = [(''X-Token'', ''domain'')], hc_Headers = [(''x-token'', ''step'')], hc_Body = VNil,
      hc_BodyConfig = None, hc_Params = [], hc_SSL = None, hc_Redirect = None, hc_Timeout = None\<rparr>"
  shows "\<exists>rq rq'. mset (hc_Headers (MergeDomainHeaders config)) = mset (rev (hc_Headers (MergeDomainHeaders config))) \<and>
    createRequest (\<lambda>_ _. None) (MergeDomainHeaders config) DefaultHTTPGlobalConfig = Inr rq \<and> Header_Get (rq_Header rq) ''x-token'' = ''domain'' \<and>
    createRequest (\<lambda>_ _. None) (MergeDomainHeaders config\<lparr>hc_Headers := rev (hc_Headers (MergeDomainHeaders config))\<rparr>)
      DefaultHTTPGlobalConfig = Inr rq' \<and> Header_Get (rq_Header rq') ''x-token'' = ''step''"
proof -
  have m: "hc_Headers (MergeDomainHeaders config) = [(''x-token'', ''step''), (''X-Token'', ''domain'')]"
    unfolding config_def by code_simp
  have k: "CanonicalHeaderKey ''x-token'' = ''X-Token''" "CanonicalHeaderKey ''X-Token'' = ''X-Token''" by code_simp+
  have d: "gc_Headers DefaultHTTPGlobalConfig = []" by (simp add: DefaultHTTPGlobalConfig_def)
  show ?thesis
    by (simp add: createRequest_def Let_def case_prod_unfold m d Header_Set_def Header_Get_def k or_else_def)
qed

text \<open>The two executors send the same body with the same type; a form is sent as pairs that a server reads back; but a form declared as
  multipart form data is encoded as a query, without the boundary that the type requires.\<close>

theorem request_body:
  "(case setRequestBody False b of (c, t) \<Rightarrow> prepareBody b = (c, or_else t [])) \<and>
   (bc_Type b = ''x-www-form-urlencoded'' \<and> bc_URLEncoded b \<noteq> [] \<longrightarrow>
     (\<exists>c. prepareBody b = (Some c, ''application/x-www-form-urlencoded'') \<and> ParseQuery c = Some (bc_URLEncoded b))) \<and>
   (bc_Type b = ''form-data'' \<and> bc_FormData b \<noteq> [] \<longrightarrow>
     (\<exists>c. prepareBody b = (Some c, ''multipart/form-data'') \<and> ParseQuery c = Some (bc_FormData b)))"
proof -
  have "encodeKeyValues kv \<noteq> []" if "kv \<noteq> []" for kv :: "(gostring, gostring) gomap"
    using that key_value_plain(3) by (cases kv rule: list.exhaust; cases "tl kv") (auto simp: encodeKeyValues_def)
  then show ?thesis
    by (auto simp: setRequestBody_def prepareBody_def body_content_def Let_def case_prod_unfold or_else_def encodeKeyValues_def ParseQuery_pairs)
qed

lemma request_body_witness:
  "\<exists>c. prepareBody \<lparr>bc_Type = ''form-data'', bc_Raw = [], bc_FormData = [(''a'', ''1 2'')], bc_URLEncoded = []\<rparr> = (Some c, ''multipart/form-data'') \<and>
     ParseQuery c = Some [(''a'', ''1 2'')]"
  using request_body [of "\<lparr>bc_Type = ''form-data'', bc_Raw = [], bc_FormData = [(''a'', ''1 2'')], bc_URLEncoded = []\<rparr>"] by simp

text \<open>The standard executor reports the text of \<^verbatim>\<open>Body\<close>, which nothing sets, as the body of a request: whatever is sent, the body it shows
  is empty and it counts no byte as sent.\<close>

lemma std_reports_no_body:
  assumes "PrepareConfig jm g st ctx = Inr (config, merged)"
  shows "extractBodyString jm config = []"
proof -
  have "hc_Body parsed = VNil" if "ParseConfig jm (sp_Config st) = Inr parsed" for parsed
    using that by (auto simp: ParseConfig_def Let_def split: sum.splits)
  then have "hc_Body config = VNil"
    using assms by (auto simp: PrepareConfig_def Let_def ResolveVariables_def MergeDomainHeaders_def split: sum.splits option.splits)
  then show ?thesis by (simp add: extractBodyString_def)
qed

text \<open>A limit of redirects in a configuration that was decoded from JSON is a float and is ignored.\<close>

lemma json_redirect_limit_ignored:
  "map_of m ''max_redirects'' = Some (VFloat64 x) \<Longrightarrow> rd_MaxRedirects (read_redirect m c) = rd_MaxRedirects c"
  by (simp add: read_redirect_def get_int_def)

end
