(* ===== verification/Workflow_Parser.thy ===== *)
theory Workflow_Parser
  imports Variable_Resolver Executor_Errors Workflow_Types
begin

text \<open>
  Workflow definitions in text form (\<^verbatim>\<open>internal/parser\<close>): the checks that a decoded workflow passes (\<^verbatim>\<open>yaml_parser.go\<close>) and the
  resolution of references to the environment, to secrets and to variables (\<^verbatim>\<open>variable_resolver.go\<close>, \<^verbatim>\<open>yaml_parser.go\<close>).  The YAML
  decoder, a library, is an argument of \<open>parser_Parse\<close>.
\<close>

section \<open>Errors\<close>

datatype parser_error =
    ParseError int int gostring gostring
  | ValidationError gostring gostring
  | VariableResolutionError gostring gostring

definition txt_at_line :: gostring where
  "txt_at_line = utf8 [0xE8, 0xA7, 0xA3, 0xE6, 0x9E, 0x90, 0xE9, 0x94, 0x99, 0xE8, 0xAF, 0xAF, 0xEF, 0xBC, 0x8C, 0xE4,
     0xBD, 0x8D, 0xE4, 0xBA, 0x8E, 0xE7, 0xAC, 0xAC] @ '' ''"

definition txt_line_column :: gostring where
  "txt_line_column = '' '' @ utf8 [0xE8, 0xA1, 0x8C, 0xE7, 0xAC, 0xAC] @ '' ''"

definition txt_column :: gostring where
  "txt_column = '' '' @ utf8 [0xE5, 0x88, 0x97] @ '': ''"

definition txt_line :: gostring where
  "txt_line = '' '' @ utf8 [0xE8, 0xA1, 0x8C] @ '': ''"

definition txt_parse_error :: gostring where
  "txt_parse_error = utf8 [0xE8, 0xA7, 0xA3, 0xE6, 0x9E, 0x90, 0xE9, 0x94, 0x99, 0xE8, 0xAF, 0xAF] @ '': ''"

definition txt_field :: gostring where
  "txt_field = utf8 [0xE5, 0xAD, 0x97, 0xE6, 0xAE, 0xB5] @ '' ''"

definition txt_invalid :: gostring where
  "txt_invalid = '' '' @ utf8 [0xE9, 0xAA, 0x8C, 0xE8, 0xAF, 0x81, 0xE9, 0x94, 0x99, 0xE8, 0xAF, 0xAF] @ '': ''"

definition txt_validation :: gostring where
  "txt_validation = utf8 [0xE9, 0xAA, 0x8C, 0xE8, 0xAF, 0x81, 0xE9, 0x94, 0x99, 0xE8, 0xAF, 0xAF] @ '': ''"

definition txt_resolve :: gostring where
  "txt_resolve = utf8 [0xE8, 0xA7, 0xA3, 0xE6, 0x9E, 0x90, 0xE5, 0x8F, 0x98, 0xE9, 0x87, 0x8F] @ '' ''"

definition txt_failed :: gostring where
  "txt_failed = '' '' @ utf8 [0xE5, 0xA4, 0xB1, 0xE8, 0xB4, 0xA5] @ '': ''"

fun parser_error_text :: "parser_error \<Rightarrow> gostring" where
  "parser_error_text (ParseError line column message cause) =
     (if line > 0 \<and> column > 0 then txt_at_line @ show_int line @ txt_line_column @ show_int column @ txt_column @ message
      else if line > 0 then txt_at_line @ show_int line @ txt_line @ message
      else txt_parse_error @ message)"
| "parser_error_text (ValidationError field message) =
     (if field \<noteq> [] then txt_field @ quoted field @ txt_invalid @ message else txt_validation @ message)"
| "parser_error_text (VariableResolutionError ref message) = txt_resolve @ quoted ref @ txt_failed @ message"

section \<open>Validation\<close>

definition indexed :: "gostring \<Rightarrow> nat \<Rightarrow> gostring" where
  "indexed path i = path @ ''['' @ show_int (int i) @ '']''"

definition hook_types :: "gostring list" where
  "hook_types = [''script'', ''http'']"

definition validateHook :: "hook \<Rightarrow> gostring \<Rightarrow> parser_error option" where
  "validateHook h path =
     (if hk_Type h = [] then Some (ValidationError (path @ ''.type'') ''hook type is required'')
      else if hk_Type h \<notin> set hook_types
      then Some (ValidationError (path @ ''.type'') (''invalid hook type: '' @ hk_Type h))
      else None)"

definition check_hook :: "hook option \<Rightarrow> gostring \<Rightarrow> parser_error option" where
  "check_hook h path = (case h of None \<Rightarrow> None | Some x \<Rightarrow> validateHook x path)"

definition step_types :: "gostring list" where
  "step_types = [''http'', ''script'', ''grpc'', ''condition'', ''loop'']"

definition check_branch :: "branch \<Rightarrow> gostring \<Rightarrow> parser_error option" where
  "check_branch br path =
     (if br_Kind br \<noteq> ConditionTypeIf \<and> br_Kind br \<noteq> ConditionTypeElseIf \<and> br_Kind br \<noteq> ConditionTypeElse \<and> br_Kind br \<noteq> []
      then Some (ValidationError (path @ ''.kind'') (''invalid condition branch kind: '' @ br_Kind br))
      else if (br_Kind br = ConditionTypeIf \<or> br_Kind br = ConditionTypeElseIf \<or> br_Kind br = []) \<and> br_Expression br = []
      then Some (ValidationError (path @ ''.expression'') ''condition branch expression is required for if/else_if'')
      else None)"

lemma branch_steps_smaller: "size_list size (br_Steps br) < size br"
  by (cases br) simp

text \<open>The set of identifiers seen so far is a list; it grows through all nested steps.\<close>

function validateStep :: "step \<Rightarrow> gostring list \<Rightarrow> gostring \<Rightarrow> parser_error + gostring list"
  and validate_steps :: "step list \<Rightarrow> nat \<Rightarrow> gostring list \<Rightarrow> gostring \<Rightarrow> parser_error + gostring list"
  and validate_branches :: "branch list \<Rightarrow> nat \<Rightarrow> gostring list \<Rightarrow> gostring \<Rightarrow> parser_error + gostring list"
where
  "validateStep (Step ident name ty dis cfg pre post prep postp lp children branches onerr tmo) ids path =
     (if ident = [] then Inl (ValidationError (path @ ''.id'') ''step ID is required'')
      else if ident \<in> set ids then Inl (ValidationError (path @ ''.id'') (''duplicate step ID: '' @ ident))
      else if name = [] then Inl (ValidationError (path @ ''.name'') ''step name is required'')
      else if ty = [] then Inl (ValidationError (path @ ''.type'') ''step type is required'')
      else if ty \<notin> set step_types then Inl (ValidationError (path @ ''.type'') (''invalid step type: '' @ ty))
      else case validate_steps children 0 (ident # ids) (path @ ''.children'') of
        Inl e \<Rightarrow> Inl e
      | Inr ids1 \<Rightarrow>
          (case (if ty = ''condition'' \<and> branches \<noteq> [] then validate_branches branches 0 ids1 (path @ ''.branches'') else Inr ids1) of
             Inl e \<Rightarrow> Inl e
           | Inr ids2 \<Rightarrow>
               (case check_hook pre (path @ ''.pre_hook'') of
                  Some e \<Rightarrow> Inl e
                | None \<Rightarrow>
                    (case check_hook post (path @ ''.post_hook'') of Some e \<Rightarrow> Inl e | None \<Rightarrow> Inr ids2))))"
| "validate_steps [] i ids path = Inr ids"
| "validate_steps (s # ss) i ids path =
     (case validateStep s ids (indexed path i) of Inl e \<Rightarrow> Inl e | Inr ids1 \<Rightarrow> validate_steps ss (Suc i) ids1 path)"
| "validate_branches [] i ids path = Inr ids"
| "validate_branches (br # brs) i ids path =
     (case check_branch br (indexed path i) of
        Some e \<Rightarrow> Inl e
      | None \<Rightarrow>
          (case validate_steps (br_Steps br) 0 ids (indexed path i @ ''.steps'') of
             Inl e \<Rightarrow> Inl e
           | Inr ids1 \<Rightarrow> validate_branches brs (Suc i) ids1 path))"
  by pat_completeness auto

termination
  by (relation "measure (\<lambda>x. case x of Inl (s, _) \<Rightarrow> size s | Inr (Inl (ss, _)) \<Rightarrow> size_list size ss
        | Inr (Inr (brs, _)) \<Rightarrow> size_list size brs)")
     (auto simp: less_Suc_eq_le trans_le_add1 less_imp_le [OF branch_steps_smaller] intro: le_SucI)

definition validate :: "workflow \<Rightarrow> parser_error option" where
  "validate w =
     (if wf_ID w = [] then Some (ValidationError ''id'' ''workflow ID is required'')
      else if wf_Name w = [] then Some (ValidationError ''name'' ''workflow name is required'')
      else if wf_Steps w = [] then Some (ValidationError ''steps'' ''workflow must have at least one step'')
      else case validate_steps (wf_Steps w) 0 [] ''steps'' of
        Inl e \<Rightarrow> Some e
      | Inr _ \<Rightarrow>
          (case check_hook (wf_PreHook w) ''pre_hook'' of
             Some e \<Rightarrow> Some e
           | None \<Rightarrow> check_hook (wf_PostHook w) ''post_hook''))"

text \<open>What a workflow that passes looks like: the steps that the checks reach, and what each of them must have.\<close>

fun checked_steps :: "step \<Rightarrow> step list"
  and checked_branch :: "branch \<Rightarrow> step list"
where
  "checked_steps (Step ident name ty dis cfg pre post prep postp lp children branches onerr tmo) =
     Step ident name ty dis cfg pre post prep postp lp children branches onerr tmo # concat (map checked_steps children) @
     (if ty = ''condition'' then concat (map checked_branch branches) else [])"
| "checked_branch (Branch ident name k e ss) = concat (map checked_steps ss)"

definition hook_ok :: "hook option \<Rightarrow> bool" where
  "hook_ok h \<longleftrightarrow> (case h of None \<Rightarrow> True | Some x \<Rightarrow> hk_Type x \<in> set hook_types)"

definition branch_ok :: "branch \<Rightarrow> bool" where
  "branch_ok br \<longleftrightarrow> br_Kind br = ConditionTypeElse \<or>
     br_Kind br \<in> {ConditionTypeIf, ConditionTypeElseIf, []} \<and> br_Expression br \<noteq> []"

definition step_ok :: "step \<Rightarrow> bool" where
  "step_ok s \<longleftrightarrow> sp_ID s \<noteq> [] \<and> sp_Name s \<noteq> [] \<and> sp_Type s \<in> set step_types \<and> hook_ok (sp_PreHook s) \<and> hook_ok (sp_PostHook s) \<and>
     (sp_Type s = ''condition'' \<longrightarrow> list_all branch_ok (sp_Branches s))"

definition accepts_steps :: "gostring list \<Rightarrow> step list \<Rightarrow> bool" where
  "accepts_steps ids ss \<longleftrightarrow> list_all step_ok ss \<and> distinct (map sp_ID ss) \<and> set (map sp_ID ss) \<inter> set ids = {}"

definition seen :: "gostring list \<Rightarrow> step list \<Rightarrow> gostring list" where
  "seen ids ss = rev (map sp_ID ss) @ ids"

lemma accepts_steps_simps [simp]:
  "accepts_steps ids []" "accepts_steps ids (a @ b) \<longleftrightarrow> accepts_steps ids a \<and> accepts_steps (seen ids a) b"
  "accepts_steps ids (s # ss) \<longleftrightarrow> step_ok s \<and> sp_ID s \<notin> set ids \<and> accepts_steps (sp_ID s # ids) ss"
  by (auto simp: accepts_steps_def seen_def)

lemma seen_simps [simp]: "seen ids [] = ids" "seen ids (a @ b) = seen (seen ids a) b" "seen ids (s # ss) = seen (sp_ID s # ids) ss"
  by (simp_all add: seen_def)

lemma check_hook_None [simp]: "check_hook h path = None \<longleftrightarrow> hook_ok h"
  by (auto simp: check_hook_def validateHook_def hook_ok_def hook_types_def split: option.split)

lemma check_branch_None [simp]: "check_branch br path = None \<longleftrightarrow> branch_ok br"
  by (auto simp: check_branch_def branch_ok_def condition_type_defs)

lemma case_sum_Inr: "(case x of Inl e \<Rightarrow> Inl e | Inr y \<Rightarrow> f y) = Inr r \<longleftrightarrow> (\<exists>y. x = Inr y \<and> f y = Inr r)"
  by (cases x) auto

lemma case_option_Inr: "(case x of Some e \<Rightarrow> Inl e | None \<Rightarrow> y) = Inr r \<longleftrightarrow> x = None \<and> y = Inr r"
  by (cases x) auto

lemma case_None_None: "(case x of Some e \<Rightarrow> Some e | None \<Rightarrow> y) = None \<longleftrightarrow> x = None \<and> y = None"
  by (cases x) auto

lemma case_sum_None: "(case x of Inl e \<Rightarrow> Some e | Inr _ \<Rightarrow> y) = None \<longleftrightarrow> (\<exists>r. x = Inr r) \<and> y = None"
  by (cases x) auto

lemma checked_branch_steps: "checked_branch br = concat (map checked_steps (br_Steps br))"
  by (cases br) simp

lemma validateStep_inner:
  assumes "\<not> (ident = [] \<or> ident \<in> set ids \<or> name = [] \<or> ty = [] \<or> ty \<notin> set step_types)"
  shows "validateStep (Step ident name ty dis cfg pre post prep postp lp children branches onerr tmo) ids path = Inr r \<longleftrightarrow>
    (\<exists>q q'. validate_steps children 0 (ident # ids) (path @ ''.children'') = Inr q \<and>
      (if ty = ''condition'' \<and> branches \<noteq> [] then validate_branches branches 0 q (path @ ''.branches'') else Inr q) = Inr q' \<and>
      hook_ok pre \<and> hook_ok post \<and> q' = r)"
  using assms by (simp add: case_sum_Inr case_option_Inr)

lemma validate_accepts_all:
  "validateStep s ids path = Inr r \<longleftrightarrow> accepts_steps ids (checked_steps s) \<and> r = seen ids (checked_steps s)"
  "validate_steps ss i ids path = Inr r \<longleftrightarrow> accepts_steps ids (concat (map checked_steps ss)) \<and> r = seen ids (concat (map checked_steps ss))"
  "validate_branches brs i ids path = Inr r \<longleftrightarrow> list_all branch_ok brs \<and> accepts_steps ids (concat (map checked_branch brs)) \<and>
     r = seen ids (concat (map checked_branch brs))"
proof (induction s ids path and ss i ids path and brs i ids path arbitrary: r and r and r
    rule: validateStep_validate_steps_validate_branches.induct)
  case (1 ident name ty dis cfg pre post prep postp lp children branches onerr tmo ids path)
  show ?case
  proof (cases "ident = [] \<or> ident \<in> set ids \<or> name = [] \<or> ty = [] \<or> ty \<notin> set step_types")
    case True then show ?thesis by (auto simp: step_ok_def step_types_def)
  next
    case False
    let ?st = "Step ident name ty dis cfg pre post prep postp lp children branches onerr tmo"
    let ?cs = "concat (map checked_steps children)"
    let ?bs = "if ty = ''condition'' then concat (map checked_branch branches) else []"
    let ?br = "\<lambda>q. if ty = ''condition'' \<and> branches \<noteq> [] then validate_branches branches 0 q (path @ ''.branches'') else Inr q"
    have ok: "step_ok ?st \<longleftrightarrow> hook_ok pre \<and> hook_ok post \<and> (ty = ''condition'' \<longrightarrow> list_all branch_ok branches)"
      using False by (simp add: step_ok_def)
    have ch: "validate_steps children 0 (ident # ids) (path @ ''.children'') = Inr q \<longleftrightarrow>
        accepts_steps (ident # ids) ?cs \<and> q = seen (ident # ids) ?cs" for q
      using 1(1) False by blast
    have br: "?br q = Inr q' \<longleftrightarrow> (ty = ''condition'' \<longrightarrow> list_all branch_ok branches) \<and> accepts_steps q ?bs \<and> q' = seen q ?bs"
      if "validate_steps children 0 (ident # ids) (path @ ''.children'') = Inr q" for q q'
      using 1(2) [OF _ _ _ _ _ that] False by (cases "ty = ''condition''"; cases branches) auto
    have "validateStep ?st ids path = Inr r \<longleftrightarrow>
        (\<exists>q q'. validate_steps children 0 (ident # ids) (path @ ''.children'') = Inr q \<and> ?br q = Inr q' \<and> hook_ok pre \<and> hook_ok post \<and> q' = r)"
      using False by (rule validateStep_inner)
    also have "\<dots> \<longleftrightarrow> (\<exists>q. (accepts_steps (ident # ids) ?cs \<and> q = seen (ident # ids) ?cs) \<and>
          (ty = ''condition'' \<longrightarrow> list_all branch_ok branches) \<and> accepts_steps q ?bs \<and> r = seen q ?bs \<and> hook_ok pre \<and> hook_ok post)"
      using ch br by blast
    also have "\<dots> \<longleftrightarrow> accepts_steps ids (checked_steps ?st) \<and> r = seen ids (checked_steps ?st)"
      using False ok by auto
    finally show ?thesis .
  qed
next
  case (3 s ss i ids path)
  show ?case
  proof (cases "validateStep s ids (indexed path i)")
    case (Inl e) then show ?thesis using 3(1) [of "seen ids (checked_steps s)"] by simp
  next
    case (Inr q) then show ?thesis using 3(1) [of q] 3(2) [OF Inr, of r] by simp
  qed
next
  case (5 br brs i ids path)
  show ?case
  proof (cases "check_branch br (indexed path i) = None")
    case True
    then have ok: "branch_ok br" by simp
    show ?thesis
    proof (cases "validate_steps (br_Steps br) 0 ids (indexed path i @ ''.steps'')")
      case (Inl e) then show ?thesis using 5(1) [OF True, of "seen ids (checked_branch br)"]
        by (simp add: checked_branch_steps ok True del: check_branch_None)
    next
      case (Inr q) then show ?thesis using 5(1) [OF True, of q] 5(2) [OF True Inr, of r]
        by (simp add: checked_branch_steps ok True del: check_branch_None)
    qed
  next
    case False
    then obtain e where "check_branch br (indexed path i) = Some e" by blast
    moreover have "\<not> branch_ok br" using False by simp
    ultimately show ?thesis by simp
  qed
qed auto

text \<open>(C13) Exactly the well-formed workflows are accepted: a workflow passes the checks when and only when it has an identifier, a name and a
  step, its hooks are of a known type, and all steps that the checks reach - the steps, their children, and the steps in the branches of
  conditions - have identifiers that are pairwise different, a name, a known type, hooks of a known type, and branches whose kind is
  known and that have an expression unless they are \<^verbatim>\<open>else\<close>.\<close>

theorem validate_exact:
  "validate w = None \<longleftrightarrow>
     wf_ID w \<noteq> [] \<and> wf_Name w \<noteq> [] \<and> wf_Steps w \<noteq> [] \<and> hook_ok (wf_PreHook w) \<and> hook_ok (wf_PostHook w) \<and>
     list_all step_ok (concat (map checked_steps (wf_Steps w))) \<and> distinct (map sp_ID (concat (map checked_steps (wf_Steps w))))"
proof -
  have "(\<exists>r. validate_steps (wf_Steps w) 0 [] ''steps'' = Inr r) \<longleftrightarrow> accepts_steps [] (concat (map checked_steps (wf_Steps w)))"
    by (simp add: validate_accepts_all)
  then show ?thesis
    unfolding validate_def by (auto simp: case_sum_None case_None_None accepts_steps_def)
qed

text \<open>The body of a loop is not looked at: whatever steps it holds, the outcome is the same.\<close>

lemma loop_body_unchecked:
  "validateStep (Step ident name ty dis cfg pre post prep postp lp children branches onerr tmo) ids path =
   validateStep (Step ident name ty dis cfg pre post prep postp lp' children branches onerr tmo) ids path"
  by simp

section \<open>References\<close>

record resolver =
  vr_Secrets :: "(gostring, gostring) gomap"
  vr_Variables :: "(gostring, goval) gomap"

definition NewDefaultVariableResolver :: resolver where
  "NewDefaultVariableResolver = \<lparr>vr_Secrets = [], vr_Variables = []\<rparr>"

definition found :: "gostring \<Rightarrow> gostring \<Rightarrow> goval option \<Rightarrow> parser_error + goval" where
  "found ref message x = (case x of Some v \<Rightarrow> Inr v | None \<Rightarrow> Inl (VariableResolutionError ref message))"

definition Resolve :: "(gostring \<Rightarrow> gostring option) \<Rightarrow> resolver \<Rightarrow> gostring \<Rightarrow> parser_error + goval" where
  "Resolve env r ref =
     (case str_cut '':'' ref of
        Some (p, key) \<Rightarrow>
          let prefix = str_lower p in
          if prefix = ''env''
          then found ref (''environment variable '' @ quoted key @ '' not found'') (map_option VString (env key))
          else if prefix = ''secret''
          then found ref (''secret '' @ quoted key @ '' not found'') (map_option VString (map_of (vr_Secrets r) key))
          else if prefix = ''var''
          then found ref (''variable '' @ quoted key @ '' not found'') (map_of (vr_Variables r) key)
          else Inl (VariableResolutionError ref (''unknown variable prefix '' @ quoted prefix))
      | None \<Rightarrow> found ref (''variable '' @ quoted ref @ '' not found'') (map_of (vr_Variables r) ref))"

text \<open>The replacement function remembers the last error and keeps the text of a reference that fails.\<close>

function subst_refs :: "(gostring \<Rightarrow> parser_error + goval) \<Rightarrow> gostring \<Rightarrow> parser_error option \<Rightarrow> gostring \<times> parser_error option" where
  "subst_refs f s lastErr =
     (case ref_at s of
        Some (ref, rest) \<Rightarrow>
          (case f ref of
             Inl err \<Rightarrow> (let (t, e) = subst_refs f rest (Some err) in (''${'' @ ref @ ''}'' @ t, e))
           | Inr v \<Rightarrow> (let (t, e) = subst_refs f rest lastErr in (sprint_v v @ t, e)))
      | None \<Rightarrow>
          (case s of [] \<Rightarrow> ([], lastErr) | c # u \<Rightarrow> (let (t, e) = subst_refs f u lastErr in (c # t, e))))"
  by pat_completeness auto
termination by (relation "measure (\<lambda>(f, s, e). length s)") (auto dest: ref_at_shorter)

declare subst_refs.simps [simp del]

definition resolver_ResolveString :: "(gostring \<Rightarrow> gostring option) \<Rightarrow> resolver \<Rightarrow> gostring \<Rightarrow> parser_error + gostring" where
  "resolver_ResolveString env r s =
     (let (result, lastErr) = subst_refs (Resolve env r) s None in case lastErr of Some e \<Rightarrow> Inl e | None \<Rightarrow> Inr result)"

definition HasVariableReferences :: "gostring \<Rightarrow> bool" where
  "HasVariableReferences s \<longleftrightarrow> find_refs s \<noteq> []"

definition ExtractVariableReferences :: "gostring \<Rightarrow> gostring list" where
  "ExtractVariableReferences s = find_refs s"

text \<open>References in the values of configurations; the strings within maps and slices are resolved, keys are not.\<close>

function resolve_value :: "(gostring \<Rightarrow> parser_error + gostring) \<Rightarrow> goval \<Rightarrow> parser_error + goval"
  and resolveMapVariables :: "(gostring \<Rightarrow> parser_error + gostring) \<Rightarrow> (gostring, goval) gomap \<Rightarrow> parser_error + (gostring, goval) gomap"
  and resolve_items :: "(gostring \<Rightarrow> parser_error + gostring) \<Rightarrow> goval list \<Rightarrow> parser_error + goval list"
where
  "resolve_value f (VString s) =
     (if HasVariableReferences s then (case f s of Inl e \<Rightarrow> Inl e | Inr t \<Rightarrow> Inr (VString t)) else Inr (VString s))"
| "resolve_value f (VMap m) = (case resolveMapVariables f m of Inl e \<Rightarrow> Inl e | Inr m' \<Rightarrow> Inr (VMap m'))"
| "resolve_value f (VSlice xs) = (case resolve_items f xs of Inl e \<Rightarrow> Inl e | Inr ys \<Rightarrow> Inr (VSlice ys))"
| "resolve_value f VNil = Inr VNil"
| "resolve_value f (VBool b) = Inr (VBool b)"
| "resolve_value f (VInt k i) = Inr (VInt k i)"
| "resolve_value f (VFloat32 x) = Inr (VFloat32 x)"
| "resolve_value f (VFloat64 x) = Inr (VFloat64 x)"
| "resolve_value f (VStruct n fs) = Inr (VStruct n fs)"
| "resolveMapVariables f [] = Inr []"
| "resolveMapVariables f ((k, v) # m) =
     (case resolve_value f v of
        Inl e \<Rightarrow> Inl e
      | Inr v' \<Rightarrow> (case resolveMapVariables f m of Inl e \<Rightarrow> Inl e | Inr m' \<Rightarrow> Inr ((k, v') # m')))"
| "resolve_items f [] = Inr []"
| "resolve_items f (v # xs) =
     (case resolve_value f v of
        Inl e \<Rightarrow> Inl e
      | Inr v' \<Rightarrow> (case resolve_items f xs of Inl e \<Rightarrow> Inl e | Inr ys \<Rightarrow> Inr (v' # ys)))"
  by pat_completeness auto
termination
  by (relation "measure (\<lambda>x. case x of Inl (f, v) \<Rightarrow> size v | Inr (Inl (f, m)) \<Rightarrow> size_list (size_prod (\<lambda>_. 0) size) m
        | Inr (Inr (f, xs)) \<Rightarrow> size_list size xs)") auto

definition resolve_hook :: "(gostring \<Rightarrow> parser_error + gostring) \<Rightarrow> hook option \<Rightarrow> parser_error + hook option" where
  "resolve_hook f h =
     (case h of
        None \<Rightarrow> Inr None
      | Some x \<Rightarrow> (case resolveMapVariables f (hk_Config x) of Inl e \<Rightarrow> Inl e | Inr m \<Rightarrow> Inr (Some (x\<lparr>hk_Config := m\<rparr>))))"

function resolveStepVariables :: "(gostring \<Rightarrow> parser_error + gostring) \<Rightarrow> step \<Rightarrow> parser_error + step"
  and resolve_steps :: "(gostring \<Rightarrow> parser_error + gostring) \<Rightarrow> step list \<Rightarrow> parser_error + step list"
  and resolve_branches :: "(gostring \<Rightarrow> parser_error + gostring) \<Rightarrow> branch list \<Rightarrow> parser_error + branch list"
where
  "resolveStepVariables f (Step ident name ty dis cfg pre post prep postp lp children branches onerr tmo) =
     (case resolveMapVariables f cfg of
        Inl e \<Rightarrow> Inl e
      | Inr cfg' \<Rightarrow>
     (case resolve_steps f children of
        Inl e \<Rightarrow> Inl e
      | Inr children' \<Rightarrow>
     (case resolve_branches f branches of
        Inl e \<Rightarrow> Inl e
      | Inr branches' \<Rightarrow>
     (case resolve_hook f pre of
        Inl e \<Rightarrow> Inl e
      | Inr pre' \<Rightarrow>
     (case resolve_hook f post of
        Inl e \<Rightarrow> Inl e
      | Inr post' \<Rightarrow> Inr (Step ident name ty dis cfg' pre' post' prep postp lp children' branches' onerr tmo))))))"
| "resolve_steps f [] = Inr []"
| "resolve_steps f (s # ss) =
     (case resolveStepVariables f s of
        Inl e \<Rightarrow> Inl e
      | Inr s' \<Rightarrow> (case resolve_steps f ss of Inl e \<Rightarrow> Inl e | Inr ss' \<Rightarrow> Inr (s' # ss')))"
| "resolve_branches f [] = Inr []"
| "resolve_branches f (Branch ident name k e ss # brs) =
     (case resolve_steps f ss of
        Inl err \<Rightarrow> Inl err
      | Inr ss' \<Rightarrow> (case resolve_branches f brs of Inl err \<Rightarrow> Inl err | Inr brs' \<Rightarrow> Inr (Branch ident name k e ss' # brs')))"
  by pat_completeness auto
termination
  by (relation "measure (\<lambda>x. case x of Inl (f, s) \<Rightarrow> size s | Inr (Inl (f, ss)) \<Rightarrow> size_list size ss
        | Inr (Inr (f, brs)) \<Rightarrow> size_list size brs)") auto

text \<open>A workflow is resolved with its own variables when it has any.\<close>

definition with_variables :: "(gostring, goval) gomap \<Rightarrow> resolver \<Rightarrow> resolver" where
  "with_variables vs r = (if vs \<noteq> [] then r\<lparr>vr_Variables := vs\<rparr> else r)"

definition parser_ResolveVariables :: "(gostring \<Rightarrow> gostring option) \<Rightarrow> resolver \<Rightarrow> workflow \<Rightarrow> (parser_error + workflow) \<times> resolver" where
  "parser_ResolveVariables env r w =
     (let r' = with_variables (wf_Variables w) r
      in (case resolve_steps (resolver_ResolveString env r') (wf_Steps w) of Inl e \<Rightarrow> Inl e | Inr ss \<Rightarrow> Inr (w\<lparr>wf_Steps := ss\<rparr>), r'))"

section \<open>Parsing\<close>

text \<open>The number after the first occurrence of a word, as \<^verbatim>\<open>fmt.Sscanf\<close> reads it: spaces, a sign, digits; 0 when there is none or when it
  does not fit.\<close>

definition scan_position :: "gostring \<Rightarrow> gostring \<Rightarrow> int" where
  "scan_position word errStr =
     (case str_cut word errStr of
        None \<Rightarrow> 0
      | Some (_, rest) \<Rightarrow>
          let s = trim_prefixes (filter (\<lambda>p. p \<noteq> [CHR 0x0A]) go_spaces) rest;
              neg = (s \<noteq> [] \<and> hd s = CHR ''-'');
              ds = takeWhile is_digit (if s \<noteq> [] \<and> (hd s = CHR ''-'' \<or> hd s = CHR ''+'') then tl s else s);
              v = (if neg then - digits_val ds else digits_val ds)
          in if ds \<noteq> [] \<and> in_int64 v then v else 0)"

definition extractLineColumn :: "gostring \<Rightarrow> int \<times> int" where
  "extractLineColumn errStr = (scan_position ''line '' errStr, scan_position ''column '' errStr)"

text \<open>The first byte is put into upper case on its own; a byte that is not ASCII is no letter then and becomes the replacement character.\<close>

definition cleanYAMLErrorMessage :: "gostring \<Rightarrow> gostring" where
  "cleanYAMLErrorMessage errStr =
     (let s = (if has_prefix errStr ''yaml: '' then drop 6 errStr else errStr)
      in case s of [] \<Rightarrow> [] | c # t \<Rightarrow> (if (of_char c :: nat) < 128 then [to_upper c] else utf8 [0xEF, 0xBF, 0xBD]) @ t)"

text \<open>The decoder gives a workflow or the text of an error.\<close>

definition parser_Parse ::
    "(gostring \<Rightarrow> gostring + workflow) \<Rightarrow> resolver \<Rightarrow> gostring \<Rightarrow> (parser_error + workflow) \<times> resolver" where
  "parser_Parse decode r data =
     (case decode data of
        Inl errStr \<Rightarrow>
          (let (line, column) = extractLineColumn errStr
           in (Inl (ParseError line column (cleanYAMLErrorMessage errStr) errStr), r))
      | Inr w \<Rightarrow>
          (let r' = with_variables (wf_Variables w) r
           in (case validate w of Some e \<Rightarrow> Inl e | None \<Rightarrow> Inr w, r')))"

section \<open>References are resolved\<close>

definition ref_value :: "(gostring \<Rightarrow> parser_error + goval) \<Rightarrow> gostring \<Rightarrow> gostring" where
  "ref_value f ref = (case f ref of Inr v \<Rightarrow> sprint_v v | Inl _ \<Rightarrow> ''${'' @ ref @ ''}'')"

definition ref_errors :: "(gostring \<Rightarrow> parser_error + goval) \<Rightarrow> gostring list \<Rightarrow> parser_error list" where
  "ref_errors f refs = List.map_filter (\<lambda>ref. case f ref of Inl e \<Rightarrow> Some e | Inr _ \<Rightarrow> None) refs"

definition last_error :: "parser_error option \<Rightarrow> parser_error list \<Rightarrow> parser_error option" where
  "last_error e es = (if es = [] then e else Some (last es))"

lemma subst_refs_replace: "subst_refs f s e = (replace_refs (ref_value f) s, last_error e (ref_errors f (find_refs s)))"
proof (induction f s e rule: subst_refs.induct)
  case (1 f s e)
  show ?case
  proof (cases "ref_at s")
    case None
    then show ?thesis using 1(1) [OF None]
      by (subst subst_refs.simps, subst replace_refs.simps, subst find_refs.simps)
         (auto simp: ref_errors_def last_error_def map_filter_simps split: list.split)
  next
    case (Some x)
    obtain ref rest where x: "ref_at s = Some (ref, rest)" using Some by (cases x) auto
    show ?thesis
    proof (cases "f ref")
      case (Inl err)
      then show ?thesis using 1(2) [OF x refl Inl]
        by (subst subst_refs.simps, subst replace_refs.simps, subst find_refs.simps)
           (simp add: x ref_value_def [of f ref] ref_errors_def last_error_def map_filter_simps)
    next
      case (Inr v)
      then show ?thesis using 1(3) [OF x refl Inr]
        by (subst subst_refs.simps, subst replace_refs.simps, subst find_refs.simps)
           (simp add: x ref_value_def [of f ref] ref_errors_def last_error_def map_filter_simps)
    qed
  qed
qed

text \<open>Resolving the references of a string either replaces every one of them by the text of its value, or fails with the error of the
  last reference that has none.\<close>

theorem resolve_references:
  assumes "list_all piece_ok ps"
  defines "refs \<equiv> concat (map (\<lambda>p. case p of Ref x \<Rightarrow> [x] | Lit _ \<Rightarrow> []) ps)"
  shows "resolver_ResolveString env r (print_template ps) =
    (if ref_errors (Resolve env r) refs = [] then Inr (concat (map (render (ref_value (Resolve env r))) ps))
     else Inl (last (ref_errors (Resolve env r) refs)))"
  unfolding resolver_ResolveString_def subst_refs_replace replace_template [OF assms(1)] refs_def
  by (simp add: last_error_def)

lemma resolve_references_witness:
  "resolver_ResolveString (\<lambda>k. if k = ''HOST'' then Some ''h'' else None) \<lparr>vr_Secrets = [(''K'', ''s'')], vr_Variables = [(''n'', VInt K_int 3)]\<rparr>
     ''${env:HOST}/${secret:K}?n=${n}'' = Inr ''h/s?n=3''"
proof -
  have "show_int 3 = ''3''" by code_simp
  then show ?thesis
  using resolve_references [of "[Ref ''env:HOST'', Lit ''/'', Ref ''secret:K'', Lit ''?n='', Ref ''n'']"
      "\<lambda>k. if k = ''HOST'' then Some ''h'' else None" "\<lparr>vr_Secrets = [(''K'', ''s'')], vr_Variables = [(''n'', VInt K_int 3)]\<rparr>"]
  by (simp add: print_template_def ref_errors_def map_filter_simps Resolve_def str_lower_def to_lower_def less_eq_char_def found_def ref_value_def)
qed

text \<open>A loop keeps its body unresolved.\<close>

lemma loop_body_unresolved: "resolveStepVariables f s = Inr s' \<Longrightarrow> sp_Loop s' = sp_Loop s \<and> sp_ID s' = sp_ID s"
  by (cases s) (auto split: sum.splits)

end
