(* ===== verification/Engine_Config.thy ===== *)
theory Engine_Config
  imports Go_Duration Executor_Errors Layers
begin

text \<open>
  The configuration of the engine's processes (\<^verbatim>\<open>internal/config/config.go\<close>, \<^verbatim>\<open>validation.go\<close>): defaults, a file, the environment and
  the command line, each over the one before, and the checks on the result.  The code walks the structs by reflection; here the
  structs are a table of their fields, with the names and the tags of the environment.  Reading files, the YAML decoder, the environment, the
  table of the ports of services and the parser of IP addresses are arguments.  Names are compared without regard to ASCII case.
\<close>

section \<open>Data\<close>

record server_conf =
  sv_Address :: gostring
  sv_ReadTimeout :: int
  sv_WriteTimeout :: int
  sv_EnableCORS :: bool
  sv_EnableSwagger :: bool

record master_conf =
  ms_HeartbeatInterval :: int
  ms_HeartbeatTimeout :: int
  ms_TaskQueueSize :: int
  ms_MaxSlaves :: int

record slave_conf =
  sl_Type :: gostring
  sl_Capabilities :: "gostring list"
  sl_Labels :: "(gostring, gostring) gomap"
  sl_MaxVUs :: int
  sl_MasterAddr :: gostring

record logging_conf =
  lg_Level :: gostring
  lg_Format :: gostring
  lg_Output :: gostring

record engine_config =
  cf_Server :: server_conf
  cf_Master :: master_conf
  cf_Slave :: slave_conf
  cf_Logging :: logging_conf

definition DefaultEngineConfig :: engine_config where
  "DefaultEngineConfig =
     \<lparr>cf_Server = \<lparr>sv_Address = '':8080'', sv_ReadTimeout = 30 * Second, sv_WriteTimeout = 30 * Second,
        sv_EnableCORS = False, sv_EnableSwagger = False\<rparr>,
      cf_Master = \<lparr>ms_HeartbeatInterval = 5 * Second, ms_HeartbeatTimeout = 15 * Second, ms_TaskQueueSize = 1000, ms_MaxSlaves = 100\<rparr>,
      cf_Slave = \<lparr>sl_Type = ''worker'', sl_Capabilities = [''http_executor'', ''script_executor''], sl_Labels = [], sl_MaxVUs = 100,
        sl_MasterAddr = ''http://localhost:8080''\<rparr>,
      cf_Logging = \<lparr>lg_Level = ''info'', lg_Format = ''json'', lg_Output = ''stdout''\<rparr>\<rparr>"

section \<open>Fields\<close>

datatype cfg_field =
    F_Address | F_ReadTimeout | F_WriteTimeout | F_EnableCORS | F_EnableSwagger
  | F_HeartbeatInterval | F_HeartbeatTimeout | F_TaskQueueSize | F_MaxSlaves
  | F_Type | F_Capabilities | F_Labels | F_MaxVUs | F_MasterAddr
  | F_Level | F_Format | F_Output

datatype cfg_value =
    CV_String gostring | CV_Duration int | CV_Int int | CV_Bool bool | CV_List "gostring list" | CV_Map "(gostring, gostring) gomap"

datatype cfg_kind = CK_String | CK_Duration | CK_Int | CK_Bool | CK_List | CK_Map

text \<open>The structs: a section with its fields, each with its name and its tag for the environment.\<close>

definition config_struct :: "(gostring \<times> (gostring \<times> gostring \<times> cfg_field) list) list" where
  "config_struct =
     [(''Server'',
       [(''Address'', ''WE_SERVER_ADDRESS'', F_Address), (''ReadTimeout'', ''WE_SERVER_READ_TIMEOUT'', F_ReadTimeout),
        (''WriteTimeout'', ''WE_SERVER_WRITE_TIMEOUT'', F_WriteTimeout), (''EnableCORS'', ''WE_SERVER_ENABLE_CORS'', F_EnableCORS),
        (''EnableSwagger'', ''WE_SERVER_ENABLE_SWAGGER'', F_EnableSwagger)]),
      (''Master'',
       [(''HeartbeatInterval'', ''WE_MASTER_HEARTBEAT_INTERVAL'', F_HeartbeatInterval),
        (''HeartbeatTimeout'', ''WE_MASTER_HEARTBEAT_TIMEOUT'', F_HeartbeatTimeout),
        (''TaskQueueSize'', ''WE_MASTER_TASK_QUEUE_SIZE'', F_TaskQueueSize), (''MaxSlaves'', ''WE_MASTER_MAX_SLAVES'', F_MaxSlaves)]),
      (''Slave'',
       [(''Type'', ''WE_SLAVE_TYPE'', F_Type), (''Capabilities'', ''WE_SLAVE_CAPABILITIES'', F_Capabilities), (''Labels'', [], F_Labels),
        (''MaxVUs'', ''WE_SLAVE_MAX_VUS'', F_MaxVUs), (''MasterAddr'', ''WE_SLAVE_MASTER_ADDR'', F_MasterAddr)]),
      (''Logging'',
       [(''Level'', ''WE_LOG_LEVEL'', F_Level), (''Format'', ''WE_LOG_FORMAT'', F_Format), (''Output'', ''WE_LOG_OUTPUT'', F_Output)])]"

fun field_kind :: "cfg_field \<Rightarrow> cfg_kind" where
  "field_kind F_ReadTimeout = CK_Duration"
| "field_kind F_WriteTimeout = CK_Duration"
| "field_kind F_HeartbeatInterval = CK_Duration"
| "field_kind F_HeartbeatTimeout = CK_Duration"
| "field_kind F_TaskQueueSize = CK_Int"
| "field_kind F_MaxSlaves = CK_Int"
| "field_kind F_MaxVUs = CK_Int"
| "field_kind F_EnableCORS = CK_Bool"
| "field_kind F_EnableSwagger = CK_Bool"
| "field_kind F_Capabilities = CK_List"
| "field_kind F_Labels = CK_Map"
| "field_kind _ = CK_String"

fun get_field :: "engine_config \<Rightarrow> cfg_field \<Rightarrow> cfg_value" where
  "get_field c F_Address = CV_String (sv_Address (cf_Server c))"
| "get_field c F_ReadTimeout = CV_Duration (sv_ReadTimeout (cf_Server c))"
| "get_field c F_WriteTimeout = CV_Duration (sv_WriteTimeout (cf_Server c))"
| "get_field c F_EnableCORS = CV_Bool (sv_EnableCORS (cf_Server c))"
| "get_field c F_EnableSwagger = CV_Bool (sv_EnableSwagger (cf_Server c))"
| "get_field c F_HeartbeatInterval = CV_Duration (ms_HeartbeatInterval (cf_Master c))"
| "get_field c F_HeartbeatTimeout = CV_Duration (ms_HeartbeatTimeout (cf_Master c))"
| "get_field c F_TaskQueueSize = CV_Int (ms_TaskQueueSize (cf_Master c))"
| "get_field c F_MaxSlaves = CV_Int (ms_MaxSlaves (cf_Master c))"
| "get_field c F_Type = CV_String (sl_Type (cf_Slave c))"
| "get_field c F_Capabilities = CV_List (sl_Capabilities (cf_Slave c))"
| "get_field c F_Labels = CV_Map (sl_Labels (cf_Slave c))"
| "get_field c F_MaxVUs = CV_Int (sl_MaxVUs (cf_Slave c))"
| "get_field c F_MasterAddr = CV_String (sl_MasterAddr (cf_Slave c))"
| "get_field c F_Level = CV_String (lg_Level (cf_Logging c))"
| "get_field c F_Format = CV_String (lg_Format (cf_Logging c))"
| "get_field c F_Output = CV_String (lg_Output (cf_Logging c))"

abbreviation upd_server :: "(server_conf \<Rightarrow> server_conf) \<Rightarrow> engine_config \<Rightarrow> engine_config" where
  "upd_server f c \<equiv> c\<lparr>cf_Server := f (cf_Server c)\<rparr>"
abbreviation upd_master :: "(master_conf \<Rightarrow> master_conf) \<Rightarrow> engine_config \<Rightarrow> engine_config" where
  "upd_master f c \<equiv> c\<lparr>cf_Master := f (cf_Master c)\<rparr>"
abbreviation upd_slave :: "(slave_conf \<Rightarrow> slave_conf) \<Rightarrow> engine_config \<Rightarrow> engine_config" where
  "upd_slave f c \<equiv> c\<lparr>cf_Slave := f (cf_Slave c)\<rparr>"
abbreviation upd_logging :: "(logging_conf \<Rightarrow> logging_conf) \<Rightarrow> engine_config \<Rightarrow> engine_config" where
  "upd_logging f c \<equiv> c\<lparr>cf_Logging := f (cf_Logging c)\<rparr>"

primrec put_field :: "cfg_field \<Rightarrow> cfg_value \<Rightarrow> engine_config \<Rightarrow> engine_config" where
  "put_field F_Address v c = (case v of CV_String x \<Rightarrow> upd_server (sv_Address_update (\<lambda>_. x)) c | _ \<Rightarrow> c)"
| "put_field F_ReadTimeout v c = (case v of CV_Duration x \<Rightarrow> upd_server (sv_ReadTimeout_update (\<lambda>_. x)) c | _ \<Rightarrow> c)"
| "put_field F_WriteTimeout v c = (case v of CV_Duration x \<Rightarrow> upd_server (sv_WriteTimeout_update (\<lambda>_. x)) c | _ \<Rightarrow> c)"
| "put_field F_EnableCORS v c = (case v of CV_Bool x \<Rightarrow> upd_server (sv_EnableCORS_update (\<lambda>_. x)) c | _ \<Rightarrow> c)"
| "put_field F_EnableSwagger v c = (case v of CV_Bool x \<Rightarrow> upd_server (sv_EnableSwagger_update (\<lambda>_. x)) c | _ \<Rightarrow> c)"
| "put_field F_HeartbeatInterval v c = (case v of CV_Duration x \<Rightarrow> upd_master (ms_HeartbeatInterval_update (\<lambda>_. x)) c | _ \<Rightarrow> c)"
| "put_field F_HeartbeatTimeout v c = (case v of CV_Duration x \<Rightarrow> upd_master (ms_HeartbeatTimeout_update (\<lambda>_. x)) c | _ \<Rightarrow> c)"
| "put_field F_TaskQueueSize v c = (case v of CV_Int x \<Rightarrow> upd_master (ms_TaskQueueSize_update (\<lambda>_. x)) c | _ \<Rightarrow> c)"
| "put_field F_MaxSlaves v c = (case v of CV_Int x \<Rightarrow> upd_master (ms_MaxSlaves_update (\<lambda>_. x)) c | _ \<Rightarrow> c)"
| "put_field F_Type v c = (case v of CV_String x \<Rightarrow> upd_slave (sl_Type_update (\<lambda>_. x)) c | _ \<Rightarrow> c)"
| "put_field F_Capabilities v c = (case v of CV_List x \<Rightarrow> upd_slave (sl_Capabilities_update (\<lambda>_. x)) c | _ \<Rightarrow> c)"
| "put_field F_Labels v c = (case v of CV_Map x \<Rightarrow> upd_slave (sl_Labels_update (\<lambda>_. x)) c | _ \<Rightarrow> c)"
| "put_field F_MaxVUs v c = (case v of CV_Int x \<Rightarrow> upd_slave (sl_MaxVUs_update (\<lambda>_. x)) c | _ \<Rightarrow> c)"
| "put_field F_MasterAddr v c = (case v of CV_String x \<Rightarrow> upd_slave (sl_MasterAddr_update (\<lambda>_. x)) c | _ \<Rightarrow> c)"
| "put_field F_Level v c = (case v of CV_String x \<Rightarrow> upd_logging (lg_Level_update (\<lambda>_. x)) c | _ \<Rightarrow> c)"
| "put_field F_Format v c = (case v of CV_String x \<Rightarrow> upd_logging (lg_Format_update (\<lambda>_. x)) c | _ \<Rightarrow> c)"
| "put_field F_Output v c = (case v of CV_String x \<Rightarrow> upd_logging (lg_Output_update (\<lambda>_. x)) c | _ \<Rightarrow> c)"

section \<open>Loading\<close>

datatype config_error =
    InvalidDuration gostring | InvalidInteger gostring | InvalidBool gostring | UnsupportedStruct
  | UnknownPath gostring | NotAStruct gostring
  | EnvFailed gostring gostring config_error | ValueFailed gostring config_error
  | FromFile config_error | FromEnv config_error | FromCmd config_error
  | ReadFailed gostring | DecodeFailed gostring

definition ParseBool :: "gostring \<Rightarrow> bool option" where
  "ParseBool s =
     (if s \<in> set [''1'', ''t'', ''T'', ''true'', ''TRUE'', ''True''] then Some True
      else if s \<in> set [''0'', ''f'', ''F'', ''false'', ''FALSE'', ''False''] then Some False
      else None)"

definition read_label :: "(gostring, gostring) gomap \<Rightarrow> gostring \<Rightarrow> (gostring, gostring) gomap" where
  "read_label m pair = (case str_cut ''='' (trim_space pair) of Some (k, v) \<Rightarrow> AList.update (trim_space k) (trim_space v) m | None \<Rightarrow> m)"

definition parse_field :: "cfg_kind \<Rightarrow> gostring \<Rightarrow> config_error + cfg_value" where
  "parse_field k value =
     (case k of
        CK_String \<Rightarrow> Inr (CV_String value)
      | CK_Duration \<Rightarrow> (case ParseDuration value of Some d \<Rightarrow> Inr (CV_Duration d) | None \<Rightarrow> Inl (InvalidDuration value))
      | CK_Int \<Rightarrow> (case parse_int value of Some i \<Rightarrow> Inr (CV_Int i) | None \<Rightarrow> Inl (InvalidInteger value))
      | CK_Bool \<Rightarrow> (case ParseBool value of Some b \<Rightarrow> Inr (CV_Bool b) | None \<Rightarrow> Inl (InvalidBool value))
      | CK_List \<Rightarrow> Inr (CV_List (map trim_space (split_on (CHR '','') value)))
      | CK_Map \<Rightarrow> Inr (CV_Map (foldl read_label [] (split_on (CHR '','') value))))"

definition setFieldValue :: "cfg_field \<Rightarrow> gostring \<Rightarrow> engine_config \<Rightarrow> config_error + engine_config" where
  "setFieldValue f value cfg = (case parse_field (field_kind f) value of Inl e \<Rightarrow> Inl e | Inr v \<Rightarrow> Inr (put_field f v cfg))"

fun env_fields :: "(gostring \<Rightarrow> gostring) \<Rightarrow> (gostring \<times> gostring \<times> cfg_field) list \<Rightarrow> engine_config \<Rightarrow> config_error + engine_config" where
  "env_fields env [] cfg = Inr cfg"
| "env_fields env ((name, tag, f) # fs) cfg =
     (if tag = [] \<or> env tag = [] then env_fields env fs cfg
      else case setFieldValue f (env tag) cfg of
        Inl e \<Rightarrow> Inl (EnvFailed tag name e)
      | Inr cfg' \<Rightarrow> env_fields env fs cfg')"

fun env_sections ::
    "(gostring \<Rightarrow> gostring) \<Rightarrow> (gostring \<times> (gostring \<times> gostring \<times> cfg_field) list) list \<Rightarrow> engine_config \<Rightarrow> config_error + engine_config" where
  "env_sections env [] cfg = Inr cfg"
| "env_sections env ((name, fs) # ss) cfg =
     (case env_fields env fs cfg of Inl e \<Rightarrow> Inl e | Inr cfg' \<Rightarrow> env_sections env ss cfg')"

definition applyEnvOverrides :: "(gostring \<Rightarrow> gostring) \<Rightarrow> engine_config \<Rightarrow> config_error + engine_config" where
  "applyEnvOverrides env cfg = env_sections env config_struct cfg"

text \<open>A name matches a part of a path as it is or without the underscores of the part; the field is found when exactly one matches.\<close>

definition EqualFold :: "gostring \<Rightarrow> gostring \<Rightarrow> bool" where
  "EqualFold a b \<longleftrightarrow> str_lower a = str_lower b"

definition FieldByName :: "gostring \<Rightarrow> (gostring \<times> 'a) list \<Rightarrow> 'a option" where
  "FieldByName part fs =
     (case filter (\<lambda>nf. EqualFold (fst nf) (filter (\<lambda>c. c \<noteq> CHR ''_'') part) \<or> EqualFold (fst nf) part) fs of
        [nf] \<Rightarrow> Some (snd nf)
      | _ \<Rightarrow> None)"

definition setConfigValue :: "gostring \<Rightarrow> gostring \<Rightarrow> engine_config \<Rightarrow> config_error + engine_config" where
  "setConfigValue path value cfg =
     (let parts = split_on (CHR ''.'') path in
      case FieldByName (hd parts) config_struct of
        None \<Rightarrow> Inl (UnknownPath path)
      | Some fs \<Rightarrow>
          (case tl parts of
             [] \<Rightarrow> Inl UnsupportedStruct
           | p # rest \<Rightarrow>
               (case FieldByName p fs of
                  None \<Rightarrow> Inl (UnknownPath path)
                | Some (tag, f) \<Rightarrow> if rest = [] then setFieldValue f value cfg else Inl (NotAStruct p))))"

fun applyCmdOverrides :: "(gostring, gostring) gomap \<Rightarrow> engine_config \<Rightarrow> config_error + engine_config" where
  "applyCmdOverrides [] cfg = Inr cfg"
| "applyCmdOverrides ((key, value) # args) cfg =
     (case setConfigValue key value cfg of
        Inl e \<Rightarrow> Inl (ValueFailed key e)
      | Inr cfg' \<Rightarrow> applyCmdOverrides args cfg')"

record loader =
  ld_configPath :: gostring
  ld_envPrefix :: gostring
  ld_cmdArgs :: "(gostring, gostring) gomap"

definition NewLoader :: loader where
  "NewLoader = \<lparr>ld_configPath = [], ld_envPrefix = ''WE_'', ld_cmdArgs = []\<rparr>"

datatype file_result = NotExist | ReadError gostring | Contents gostring

definition loadFromFile ::
    "(gostring \<Rightarrow> file_result) \<Rightarrow> (gostring \<Rightarrow> engine_config \<Rightarrow> gostring + engine_config) \<Rightarrow> gostring \<Rightarrow> engine_config \<Rightarrow> config_error + engine_config" where
  "loadFromFile readFile unmarshal path cfg =
     (case readFile path of
        NotExist \<Rightarrow> Inr cfg
      | ReadError e \<Rightarrow> Inl (ReadFailed e)
      | Contents data \<Rightarrow> (case unmarshal data cfg of Inl e \<Rightarrow> Inl (DecodeFailed e) | Inr cfg' \<Rightarrow> Inr cfg'))"

definition Load ::
    "(gostring \<Rightarrow> file_result) \<Rightarrow> (gostring \<Rightarrow> engine_config \<Rightarrow> gostring + engine_config) \<Rightarrow> (gostring \<Rightarrow> gostring) \<Rightarrow> loader \<Rightarrow> config_error + engine_config" where
  "Load readFile unmarshal env l =
     (case (if ld_configPath l \<noteq> [] then loadFromFile readFile unmarshal (ld_configPath l) DefaultEngineConfig else Inr DefaultEngineConfig) of
        Inl e \<Rightarrow> Inl (FromFile e)
      | Inr cfg1 \<Rightarrow>
          (case applyEnvOverrides env cfg1 of
             Inl e \<Rightarrow> Inl (FromEnv e)
           | Inr cfg2 \<Rightarrow>
               (case applyCmdOverrides (ld_cmdArgs l) cfg2 of Inl e \<Rightarrow> Inl (FromCmd e) | Inr cfg3 \<Rightarrow> Inr cfg3)))"

section \<open>Checks\<close>

type_synonym validation_errors = "(gostring \<times> gostring) list"

definition check :: "bool \<Rightarrow> gostring \<Rightarrow> gostring \<Rightarrow> validation_errors" where
  "check bad field message = (if bad then [(field, message)] else [])"

definition isAlphanumeric :: "byte \<Rightarrow> bool" where
  "isAlphanumeric c \<longleftrightarrow> (c \<ge> CHR ''a'' \<and> c \<le> CHR ''z'') \<or> (c \<ge> CHR ''A'' \<and> c \<le> CHR ''Z'') \<or> (c \<ge> CHR ''0'' \<and> c \<le> CHR ''9'')"

text \<open>The code points of a text; a byte that begins no encoding is the replacement character.\<close>

definition in_range :: "nat \<Rightarrow> nat \<Rightarrow> byte \<Rightarrow> bool" where
  "in_range a b c \<longleftrightarrow> a \<le> of_char c \<and> of_char c \<le> b"

definition decode_rune :: "gostring \<Rightarrow> nat \<times> nat" where
  "decode_rune s =
     (case s of
        [] \<Rightarrow> (0xFFFD, 0)
      | c0 # t \<Rightarrow>
          let b0 = (of_char c0 :: nat); ok = (\<lambda>i lo hi. i < length t \<and> in_range lo hi (t ! i)); low = (\<lambda>i. of_char (t ! i) mod 64 :: nat) in
          if b0 < 0x80 then (b0, 1)
          else if 0xC2 \<le> b0 \<and> b0 \<le> 0xDF \<and> ok 0 0x80 0xBF then (b0 mod 32 * 64 + low 0, 2)
          else if 0xE0 \<le> b0 \<and> b0 \<le> 0xEF \<and> ok 0 (if b0 = 0xE0 then 0xA0 else 0x80) (if b0 = 0xED then 0x9F else 0xBF) \<and> ok 1 0x80 0xBF
          then (b0 mod 16 * 4096 + low 0 * 64 + low 1, 3)
          else if 0xF0 \<le> b0 \<and> b0 \<le> 0xF4 \<and> ok 0 (if b0 = 0xF0 then 0x90 else 0x80) (if b0 = 0xF4 then 0x8F else 0xBF) \<and>
            ok 1 0x80 0xBF \<and> ok 2 0x80 0xBF
          then (b0 mod 8 * 262144 + low 0 * 4096 + low 1 * 64 + low 2, 4)
          else (0xFFFD, 1))"

function runes :: "gostring \<Rightarrow> nat list" where
  "runes s = (if s = [] then [] else fst (decode_rune s) # runes (drop (max 1 (snd (decode_rune s))) s))"
  by pat_completeness auto
termination by (relation "measure length") auto

declare runes.simps [simp del]

definition valid_label :: "gostring \<Rightarrow> bool" where
  "valid_label label \<longleftrightarrow>
     label \<noteq> [] \<and> length label \<le> 63 \<and> isAlphanumeric (hd label) \<and> isAlphanumeric (last label) \<and>
     list_all (\<lambda>c. isAlphanumeric (char_of (c mod 256)) \<or> c = 45) (runes label)"

definition isValidHostname :: "gostring \<Rightarrow> bool" where
  "isValidHostname hostname \<longleftrightarrow>
     \<not> (length hostname = 0 \<or> length hostname > 253) \<and> list_all valid_label (split_on (CHR ''.'') hostname)"

text \<open>\<^verbatim>\<open>net.SplitHostPort\<close>.  The last colon separates the port.\<close>

definition split_last :: "byte \<Rightarrow> gostring \<Rightarrow> (gostring \<times> gostring) option" where
  "split_last c s = (case str_cut [c] (rev s) of None \<Rightarrow> None | Some (b, a) \<Rightarrow> Some (rev a, rev b))"

definition SplitHostPort :: "gostring \<Rightarrow> (gostring \<times> gostring) option" where
  "SplitHostPort hostport =
     (case split_last (CHR '':'') hostport of
        None \<Rightarrow> None
      | Some (before, port) \<Rightarrow>
          if hostport \<noteq> [] \<and> hd hostport = CHR ''['' then
            (case str_cut '']'' hostport of
               None \<Rightarrow> None
             | Some (h, rest) \<Rightarrow>
                 if h @ '']'' = before \<and> CHR ''['' \<notin> set (tl hostport) \<and> CHR '']'' \<notin> set rest then Some (tl h, port) else None)
          else if CHR '':'' \<in> set before \<or> CHR ''['' \<in> set hostport \<or> CHR '']'' \<in> set hostport then None
          else Some (before, port))"

definition isValidAddress :: "(gostring \<Rightarrow> bool) \<Rightarrow> (gostring \<Rightarrow> bool) \<Rightarrow> gostring \<Rightarrow> bool" where
  "isValidAddress lookupPort parseIP addr =
     (if addr = [] then False
      else if has_prefix addr '':'' then (let port = tl addr in if port = [] then False else lookupPort port)
      else case SplitHostPort addr of
        None \<Rightarrow> False
      | Some (host, port) \<Rightarrow>
          if port = [] then False
          else if \<not> lookupPort port then False
          else if host \<noteq> [] \<and> \<not> parseIP host \<and> \<not> isValidHostname host then False
          else True)"

definition validateServerConfig :: "(gostring \<Rightarrow> bool) \<Rightarrow> server_conf \<Rightarrow> validation_errors" where
  "validateServerConfig valid c =
     (if sv_Address c = [] then [(''server.address'', ''address is required'')]
      else check (\<not> valid (sv_Address c)) ''server.address'' ''invalid address format, expected host:port or :port'') @
     check (sv_ReadTimeout c < 0) ''server.read_timeout'' ''read timeout must be non-negative'' @
     check (sv_WriteTimeout c < 0) ''server.write_timeout'' ''write timeout must be non-negative'' @
     check (sv_ReadTimeout c > 0 \<and> sv_ReadTimeout c < Second) ''server.read_timeout'' ''read timeout should be at least 1 second'' @
     check (sv_WriteTimeout c > 0 \<and> sv_WriteTimeout c < Second) ''server.write_timeout'' ''write timeout should be at least 1 second''"

definition validateMasterConfig :: "master_conf \<Rightarrow> validation_errors" where
  "validateMasterConfig c =
     check (ms_HeartbeatInterval c \<le> 0) ''master.heartbeat_interval'' ''heartbeat interval must be positive'' @
     check (ms_HeartbeatTimeout c \<le> 0) ''master.heartbeat_timeout'' ''heartbeat timeout must be positive'' @
     check (ms_HeartbeatTimeout c > 0 \<and> ms_HeartbeatInterval c > 0 \<and> ms_HeartbeatTimeout c \<le> ms_HeartbeatInterval c)
       ''master.heartbeat_timeout'' ''heartbeat timeout should be greater than heartbeat interval'' @
     check (ms_TaskQueueSize c < 0) ''master.task_queue_size'' ''task queue size must be non-negative'' @
     check (ms_MaxSlaves c < 0) ''master.max_slaves'' ''max slaves must be non-negative''"

definition validateSlaveConfig :: "(gostring \<Rightarrow> bool) \<Rightarrow> slave_conf \<Rightarrow> validation_errors" where
  "validateSlaveConfig valid c =
     (if sl_Type c = [] then [(''slave.type'', ''slave type is required'')]
      else check (sl_Type c \<notin> set [''worker'', ''gateway'', ''aggregator'']) ''slave.type''
        (''invalid slave type '' @ quoted (sl_Type c) @ '', must be one of: worker, gateway, aggregator'')) @
     check (sl_MaxVUs c < 0) ''slave.max_vus'' ''max VUs must be non-negative'' @
     check (sl_MasterAddr c \<noteq> [] \<and> \<not> valid (sl_MasterAddr c)) ''slave.master_addr'' ''invalid master address format, expected host:port'' @
     check (sl_Type c = ''worker'' \<and> sl_Capabilities c = []) ''slave.capabilities'' ''worker slaves must have at least one capability''"

definition validateLoggingConfig :: "logging_conf \<Rightarrow> validation_errors" where
  "validateLoggingConfig c =
     (if lg_Level c = [] then [(''logging.level'', ''log level is required'')]
      else check (str_lower (lg_Level c) \<notin> set [''debug'', ''info'', ''warn'', ''error'', ''fatal'']) ''logging.level''
        (''invalid log level '' @ quoted (lg_Level c) @ '', must be one of: debug, info, warn, error, fatal'')) @
     (if lg_Format c = [] then [(''logging.format'', ''log format is required'')]
      else check (str_lower (lg_Format c) \<notin> set [''json'', ''text'']) ''logging.format''
        (''invalid log format '' @ quoted (lg_Format c) @ '', must be one of: json, text''))"

definition Validate :: "(gostring \<Rightarrow> bool) \<Rightarrow> (gostring \<Rightarrow> bool) \<Rightarrow> engine_config \<Rightarrow> validation_errors option" where
  "Validate lookupPort parseIP cfg =
     (let valid = isValidAddress lookupPort parseIP;
          errors = validateServerConfig valid (cf_Server cfg) @ validateMasterConfig (cf_Master cfg) @
            validateSlaveConfig valid (cf_Slave cfg) @ validateLoggingConfig (cf_Logging cfg)
      in if errors \<noteq> [] then Some errors else None)"

section \<open>Precedence\<close>

fun value_kind :: "cfg_value \<Rightarrow> cfg_kind" where
  "value_kind (CV_String _) = CK_String"
| "value_kind (CV_Duration _) = CK_Duration"
| "value_kind (CV_Int _) = CK_Int"
| "value_kind (CV_Bool _) = CK_Bool"
| "value_kind (CV_List _) = CK_List"
| "value_kind (CV_Map _) = CK_Map"

lemma parse_field_kind: "parse_field k s = Inr v \<Longrightarrow> value_kind v = k"
  by (auto simp: parse_field_def split: cfg_kind.splits option.splits)

lemma get_put_same: "value_kind v = field_kind f \<Longrightarrow> get_field (put_field f v c) f = v"
  by (cases f; cases v) simp_all

lemma get_put_other: "g \<noteq> f \<Longrightarrow> get_field (put_field f v c) g = get_field c g"
  by (cases f; cases g) (simp_all split: cfg_value.split)

lemma setFieldValue_get:
  assumes "setFieldValue f s c = Inr c'"
  shows "Inr (get_field c' g) = (if g = f then parse_field (field_kind g) s else Inr (get_field c g))"
  using assms parse_field_kind [of "field_kind f" s] by (auto simp: setFieldValue_def get_put_same get_put_other split: sum.splits)

text \<open>The text that the environment, or the command line, gives to a field.\<close>

definition env_text :: "(gostring \<Rightarrow> gostring) \<Rightarrow> (gostring \<times> gostring \<times> cfg_field) list \<Rightarrow> cfg_field \<Rightarrow> gostring option" where
  "env_text env fs g =
     map_option (\<lambda>(name, tag, f). env tag) (find (\<lambda>(name, tag, f). f = g \<and> tag \<noteq> [] \<and> env tag \<noteq> []) fs)"

definition all_fields :: "(gostring \<times> gostring \<times> cfg_field) list" where
  "all_fields = concat (map snd config_struct)"

definition target :: "gostring \<Rightarrow> cfg_field option" where
  "target path =
     (case split_on (CHR ''.'') path of
        [p, q] \<Rightarrow> (case FieldByName p config_struct of Some fs \<Rightarrow> map_option snd (FieldByName q fs) | None \<Rightarrow> None)
      | _ \<Rightarrow> None)"

definition cmd_text :: "(gostring, gostring) gomap \<Rightarrow> cfg_field \<Rightarrow> gostring option" where
  "cmd_text args g = map_option snd (find (\<lambda>kv. target (fst kv) = Some g) args)"

lemma env_text_absent: "g \<notin> snd ` snd ` set fs \<Longrightarrow> env_text env fs g = None"
  by (force simp: env_text_def find_None_iff)

lemma env_fields_get:
  assumes "env_fields env fs c = Inr c'" "distinct (map (\<lambda>x. snd (snd x)) fs)"
  shows "Inr (get_field c' g) =
    (case env_text env fs g of Some s \<Rightarrow> parse_field (field_kind g) s | None \<Rightarrow> Inr (get_field c g))"
  using assms
proof (induction env fs c rule: env_fields.induct)
  case (2 env name tag f fs c)
  show ?case
  proof (cases "tag = [] \<or> env tag = []")
    case True
    then show ?thesis using 2(1) 2(3,4) by (auto simp: env_text_def)
  next
    case False
    then obtain c1 where c1: "setFieldValue f (env tag) c = Inr c1" "env_fields env fs c1 = Inr c'"
      using 2(3) by (auto split: sum.splits)
    have ih: "Inr (get_field c' g) =
        (case env_text env fs g of Some s \<Rightarrow> parse_field (field_kind g) s | None \<Rightarrow> Inr (get_field c1 g))"
      using 2(2) [OF False c1(1,2)] 2(4) by simp
    have "env_text env fs f = None" using 2(4) by (intro env_text_absent) force
    with False show ?thesis unfolding ih using setFieldValue_get [OF c1(1), of g]
      by (cases "g = f") (auto simp: env_text_def split: option.split)
  qed
qed (simp add: env_text_def)

lemma env_fields_append: "env_fields env (as @ bs) c = (case env_fields env as c of Inl e \<Rightarrow> Inl e | Inr c' \<Rightarrow> env_fields env bs c')"
  by (induction env as c rule: env_fields.induct) (auto split: sum.splits)

lemma env_sections_fields: "env_sections env ss c = env_fields env (concat (map snd ss)) c"
  by (induction env ss c rule: env_sections.induct) (auto simp: env_fields_append split: sum.splits)

lemma all_fields_distinct: "distinct (map (\<lambda>x. snd (snd x)) all_fields)"
  by (simp add: all_fields_def config_struct_def)

lemma setConfigValue_target: "setConfigValue path s c = Inr c' \<Longrightarrow> \<exists>f. target path = Some f \<and> setFieldValue f s c = Inr c'"
proof (cases "split_on (CHR ''.'') path")
  case (Cons p rest)
  then show "setConfigValue path s c = Inr c' \<Longrightarrow> \<exists>f. target path = Some f \<and> setFieldValue f s c = Inr c'"
    by (auto simp: setConfigValue_def target_def split: option.splits list.splits if_splits)
qed simp

lemma applyCmdOverrides_get:
  assumes "applyCmdOverrides args c = Inr c'" "distinct (map (\<lambda>kv. target (fst kv)) args)"
  shows "Inr (get_field c' g) = (case cmd_text args g of Some s \<Rightarrow> parse_field (field_kind g) s | None \<Rightarrow> Inr (get_field c g))"
  using assms
proof (induction args c rule: applyCmdOverrides.induct)
  case (2 key s args c)
  then obtain c1 where c1: "setConfigValue key s c = Inr c1" "applyCmdOverrides args c1 = Inr c'"
    by (auto split: sum.splits)
  obtain f where f: "target key = Some f" "setFieldValue f s c = Inr c1" using setConfigValue_target [OF c1(1)] by blast
  have ih: "Inr (get_field c' g) = (case cmd_text args g of Some s \<Rightarrow> parse_field (field_kind g) s | None \<Rightarrow> Inr (get_field c1 g))"
    using 2(1) [OF c1] 2(3) by simp
  have "cmd_text args f = None" using 2(3) f(1) by (force simp: cmd_text_def find_None_iff)
  then show ?case unfolding ih using setFieldValue_get [OF f(2), of g] f(1) by (cases "g = f") (auto simp: cmd_text_def split: option.split)
qed (simp add: cmd_text_def)

text \<open>(C19) Where a value comes from: after loading, every field has the value that the command line names for it, else the one of its variable
  in the environment, else the one of the file, else the default; given that no two arguments of the command line name the same field.\<close>

theorem load_precedence:
  assumes "Load readFile unmarshal env l = Inr cfg" "distinct (map (\<lambda>kv. target (fst kv)) (ld_cmdArgs l))"
  shows "\<exists>base. (if ld_configPath l = [] then base = DefaultEngineConfig
      else loadFromFile readFile unmarshal (ld_configPath l) DefaultEngineConfig = Inr base) \<and>
    (\<forall>g. Inr (get_field cfg g) =
      (case cmd_text (ld_cmdArgs l) g of
         Some s \<Rightarrow> parse_field (field_kind g) s
       | None \<Rightarrow> (case env_text env all_fields g of Some s \<Rightarrow> parse_field (field_kind g) s | None \<Rightarrow> Inr (get_field base g))))"
proof -
  obtain base mid where b: "(if ld_configPath l \<noteq> [] then loadFromFile readFile unmarshal (ld_configPath l) DefaultEngineConfig else Inr DefaultEngineConfig) = Inr base"
      and m: "applyEnvOverrides env base = Inr mid" and c: "applyCmdOverrides (ld_cmdArgs l) mid = Inr cfg"
    using assms(1) by (auto simp: Load_def split: sum.splits)
  have "env_fields env all_fields base = Inr mid"
    using m by (simp add: applyEnvOverrides_def env_sections_fields all_fields_def)
  note env = env_fields_get [OF this all_fields_distinct]
  have "Inr (get_field cfg g) = (case cmd_text (ld_cmdArgs l) g of Some s \<Rightarrow> parse_field (field_kind g) s | None \<Rightarrow>
      (case env_text env all_fields g of Some s \<Rightarrow> parse_field (field_kind g) s | None \<Rightarrow> Inr (get_field base g)))" for g
    using applyCmdOverrides_get [OF c assms(2), of g] env [of g] by (simp split: option.split)
  with b show ?thesis by (intro exI [of _ base]) (auto split: if_splits)
qed

lemma load_precedence_witness:
  defines "env \<equiv> \<lambda>k. if k = ''WE_SLAVE_MAX_VUS'' then ''7'' else if k = ''WE_LOG_LEVEL'' then ''debug'' else []"
    and "l \<equiv> NewLoader\<lparr>ld_cmdArgs := [(''slave.max_vus'', ''9'')]\<rparr>"
  shows "\<exists>cfg. Load (\<lambda>_. NotExist) (\<lambda>_ _. Inl []) env l = Inr cfg \<and> get_field cfg F_MaxVUs = CV_Int 9 \<and>
    get_field cfg F_Level = CV_String ''debug'' \<and> get_field cfg F_Format = CV_String ''json''"
proof -
  have "case Load (\<lambda>_. NotExist) (\<lambda>_ _. Inl []) env l of Inr _ \<Rightarrow> True | Inl _ \<Rightarrow> False" unfolding env_def l_def by code_simp
  then obtain cfg where cfg: "Load (\<lambda>_. NotExist) (\<lambda>_ _. Inl []) env l = Inr cfg" by (auto split: sum.splits)
  have d: "distinct (map (\<lambda>kv. target (fst kv)) (ld_cmdArgs l))" by (simp add: l_def NewLoader_def)
  have p: "ld_configPath l = []" by (simp add: l_def NewLoader_def)
  have t: "cmd_text (ld_cmdArgs l) F_MaxVUs = Some ''9''" "cmd_text (ld_cmdArgs l) F_Level = None" "cmd_text (ld_cmdArgs l) F_Format = None"
      "env_text env all_fields F_Level = Some ''debug''" "env_text env all_fields F_Format = None" "parse_int ''9'' = Some 9"
    unfolding env_def l_def by code_simp+
  have "Inr (get_field cfg g) = (case cmd_text (ld_cmdArgs l) g of Some s \<Rightarrow> parse_field (field_kind g) s
      | None \<Rightarrow> (case env_text env all_fields g of Some s \<Rightarrow> parse_field (field_kind g) s | None \<Rightarrow> Inr (get_field DefaultEngineConfig g)))" for g
    using load_precedence [OF cfg d] unfolding p by simp
  from this [of F_MaxVUs] this [of F_Level] this [of F_Format] cfg show ?thesis
    by (simp add: t parse_field_def DefaultEngineConfig_def)
qed

lemma default_master_address: "\<not> isValidAddress lookupPort parseIP ''http://localhost:8080''"
proof -
  have "SplitHostPort ''http://localhost:8080'' = None" by code_simp
  then show ?thesis by (simp add: isValidAddress_def)
qed



text \<open>The check of a host looks at the low byte of a code point only: the letter of code 0x141 passes as the letter of code 0x41.\<close>

lemma hostname_low_byte: "isValidHostname (''a'' @ utf8 [0xC5, 0x81] @ ''b'')" "runes (''a'' @ utf8 [0xC5, 0x81] @ ''b'') = [97, 0x141, 98]"
  by code_simp+

end
