(* ===== verification/Spec2Isabelle.thy ===== *)
theory Spec2Isabelle
  imports Expr_Evaluator Master Loop_Properties Task_Engine Vu_Control Metrics_Report Sample_Logs Slave_Node Http_Request Workflow_Parser Engine_Config
begin

text \<open>
  Verification of the workflow engine of the yqhp server (\<^verbatim>\<open>src/workflow-engine\<close>), which runs workflows of steps,
  for testing and for load generation, on one machine or on a master with slaves.

  \<^bold>\<open>The program.\<close>  A client submits a workflow to the master.  The master keeps the registry of the
  slaves, selects slaves, divides the work into segments of the unit interval, sends one task to each
  slave, collects and merges their results and keeps the state of every execution.  A slave runs its task
  with the task engine: a number of virtual users, each of which runs iterations of the workflow.  An iteration
  runs the steps in order between hooks; a step is run by the executor that is registered for its type.
  The loop and condition executors run nested steps through the same registry and decide by
  expressions over the variables and results of the execution context.  Metrics of the slaves are aggregated
  and compared with thresholds.

  \<^bold>\<open>Theories.\<close>  In the order of the imports:

  \<^item> \<open>Prelude\<close>, \<open>Go_Float\<close>, \<open>Go_Value\<close>, \<open>Go_Order\<close>, \<open>Go_Time\<close>: what the code uses of Go and its standard library.  Strings are lists of
    bytes; integers are 64 bits wide with the wrap-around written out; \<^verbatim>\<open>float64\<close> is IEEE binary64 with rounding to
    even; a map is an association list with distinct keys whose order is the order in which \<^verbatim>\<open>range\<close> visits it, so that a
    theorem about all lists is one about all orders; values of type \<^verbatim>\<open>any\<close> are a datatype.
  \<^item> \<open>Expr_Lexer\<close>, \<open>Expr_Parser\<close>, \<open>Expr_Evaluator\<close> (\<^verbatim>\<open>internal/expression\<close>): tokens, the recursive-descent parser, the
    evaluator with its cache of parsed expressions.  Each function of the code is one definition; errors are the values of a datatype.
  \<^item> \<open>Workflow_Types\<close> (\<^verbatim>\<open>pkg/types\<close>): workflows, steps, options, plans, results.
  \<^item> \<open>Registry_Interface\<close>, \<open>Slave_Registry\<close> (\<^verbatim>\<open>internal/master/registry.go\<close>): the interface of the registry with its laws as a
    locale, and the registry in memory with its watchers, which interprets it.
  \<^item> \<open>Scheduler\<close> (\<^verbatim>\<open>scheduler.go\<close>), \<open>Aggregator\<close> (\<^verbatim>\<open>aggregator.go\<close>): selection of slaves, segments, rescheduling; merging of
    metrics, thresholds.
  \<^item> \<open>Execution\<close>, \<open>Master\<close> (\<^verbatim>\<open>master.go\<close>): the state of an execution and the collection of results; the master as a transition
    system of the calls of clients interleaved with the goroutines of the executions and of the health check.
  \<^item> \<open>Executor_Errors\<close>, \<open>Exec_Context\<close>, \<open>Executor_Registry\<close> (\<^verbatim>\<open>internal/executor/errors.go\<close>, \<^verbatim>\<open>executor.go\<close>, \<^verbatim>\<open>base.go\<close>,
    \<^verbatim>\<open>registry.go\<close>): errors, step results, the execution context with its cached evaluation context, the registry of executors,
    nested steps.  The locale \<open>context_relation\<close> states what a relation between contexts must satisfy so that
    everything the engine does keeps it.
  \<^item> \<open>Loop_Executor\<close>, \<open>Condition_Executor\<close>, \<open>Hook_Runner\<close> (\<^verbatim>\<open>loop_executor.go\<close>, \<^verbatim>\<open>condition_executor.go\<close>, \<^verbatim>\<open>internal/hook\<close>), \<open>Step_Runner\<close>,
    \<open>Loop_Properties\<close>: the control structures, the default registry in which they find each other, and their properties.
  \<^item> \<open>Task_Engine\<close>, \<open>Vu_Pool\<close>, \<open>Shared_Iterations\<close> (\<^verbatim>\<open>internal/slave/task_engine.go\<close>, \<^verbatim>\<open>vu_pool.go\<close>): the share of a slave, the steps and
    iterations of a virtual user, the pool of virtual users, and the mode with shared iterations as a step relation between
    goroutines and channels.
  \<^item> \<open>Vu_Control\<close> (\<^verbatim>\<open>task_engine.go\<close>): the controllers that hold the number of virtual users at a
    target and ramp it between the targets of stages.
  \<^item> \<open>Metrics_Sink\<close>, \<open>Metrics_Collector\<close>, \<open>Metrics_Report\<close>, \<open>Sample_Logs\<close> (\<^verbatim>\<open>pkg/metrics\<close>, \<^verbatim>\<open>internal/slave/metrics_collector.go\<close>,
    \<^verbatim>\<open>internal/metrics/engine\<close>, \<^verbatim>\<open>internal/output/summary\<close>, \<^verbatim>\<open>sample_log_collector.go\<close>): sinks of samples, the metrics a slave collects, the samples it emits
    with the report the summary builds of them, and the bounded buffer of sampled requests.
  \<^item> \<open>Go_Chan\<close>, \<open>Slave_Server\<close>, \<open>Slave_Protocol\<close> (\<^verbatim>\<open>api/rest/handlers.go\<close>, \<^verbatim>\<open>slave_ws.go\<close>): buffered channels with the
    locale \<open>bounded_fifo\<close>, the handlers for slaves with their queues and the hub of WebSocket connections, and their properties.
  \<^item> \<open>Slave_Client\<close> (\<^verbatim>\<open>api/rest/client\<close>), \<open>Slave_Node\<close> (\<^verbatim>\<open>internal/slave/slave.go\<close>): the client of a slave with its buffers and the loops
    that reconnect, run against the server; the slave, its tasks and its status, run against server and registry.
  \<^item> \<open>Variable_Resolver\<close>, \<open>Go_Duration\<close>, \<open>Layers\<close>, \<open>Http_Config\<close>, \<open>Http_Request\<close> (\<^verbatim>\<open>internal/executor/variable_resolver.go\<close>, \<^verbatim>\<open>http_config.go\<close>,
    \<^verbatim>\<open>http_base_executor.go\<close>, \<^verbatim>\<open>http_executor.go\<close>, \<^verbatim>\<open>fasthttp_executor.go\<close>): references to variables, \<^verbatim>\<open>time.ParseDuration\<close>, the locale \<open>layered\<close> for settings in
    layers, the preparation of HTTP steps, and the requests that are built from them.
  \<^item> \<open>Workflow_Parser\<close> (\<^verbatim>\<open>internal/parser\<close>), \<open>Engine_Config\<close> (\<^verbatim>\<open>internal/config\<close>): the validation and the references of workflow
    files; the configuration of the processes with its sources and its checks.

  \<^bold>\<open>State and operations.\<close>  A struct is a record with the fields of the code; a method is a function that returns the
  changed record.  A method that holds a mutex for its body is one step.  Goroutines are step relations:
  \<open>reg_reachable\<close> for the registry and its watchers, \<open>master_reachable\<close> for the master, \<open>shared_step\<close> for virtual users, \<open>task_step\<close> for
  the tasks of a slave; the server for slaves is run by lists of events.  Readings of the clock, the
  orders in which maps are visited, IDs that are drawn at random, the order in which goroutines end and the moments at which contexts are cancelled are arguments.

  \<^bold>\<open>What is shown.\<close>
  The registry never panics or sends on a closed channel, its invariant holds under every interleaving, and
  a watcher sees the events that an abstract log prescribes.  Selections return online slaves only, and exactly the
  ones asked for; segments partition the unit interval up to rounding, and shares of work lose
  nothing.  Aggregation and the collection of results add up.  The master keeps its invariant in every
  interleaving, ended executions stay as they are, and every execution can end.
  Parsing and evaluation never fail in ways that the parser rules out, comparison agrees with integer comparison in the range
  where the conversion is exact, and the caches are invisible.  Steps have a definite outcome however they are
  nested; loops run the iterations they should; a condition takes its first true branch; callbacks
  are balanced through whole iterations, whatever fails.  A virtual user ends and counts its
  iterations; virtual users are exclusive; sharing iterations ends when few of them fail, and hangs otherwise.
  The controllers keep their invariant under every sequence of ticks; a tick starts as many users as are missing but stops
  one user at most; targets of a ramp lie between its ends.  Statistics of samples are ordered; what
  a slave collects counts every result once and has the form that aggregation asks for, so that the two compose; the
  report counts every failed request twice.  The buffer of sampled requests keeps failures before successes.
  The server for slaves keeps its invariant and never crashes, when its handlers run one after the other, and an
  interleaving of two of them is shown in which one panics.  Tasks reach their slave once and in order, over polling and over a new
  connection; results of tasks are neither lost nor sent twice while the buffer holds them; waits between attempts to reconnect double up to a
  minute.  Composed, slave, client, server and registry do not do what they are for: a slave that has lost its connection never
  gets it back, a slave that has finished a task is not scheduled again, and draining a slave ends with its next heartbeat.
  Workflow files pass the checks exactly when they are well formed, loop bodies apart, which are not looked at.  Settings have
  the value of the last layer that sets them; the configuration of a process takes the command line before the environment, the
  file and the defaults, and its defaults do not pass its own checks.  Resolving a string replaces exactly its references.  An HTTP step is prepared with
  its own headers before those of its domain, its address is put behind its base with one slash, and a server reads from the query exactly
  the parameters of the step.

  \<^bold>\<open>Fuel and bounds.\<close>  The parser is given fuel from the length of its input, which is shown to be enough.  The
  registry of executors is built to a depth, and every depth from the size of the step on gives the same
  result.  A while loop has its maximum of iterations as fuel, as in the code.  The loop of a virtual user has fuel, which is enough
  from its maximum of iterations, or the checks until the schedule ends, on; without both it need not return.  The loops that reconnect take
  the answers of the network from a list; that a loop never ends is that it is still trying after every list.

  \<^bold>\<open>Not modelled.\<close>  The executors of the leaves (databases, message queues, scripts, AI, and the sending of HTTP requests) are parameters: they call
  drivers and interpreters that are not part of the sources; so are the JSON encoder, the YAML decoder and the parser of IP addresses where they are called.  The arrival-rate modes of execution are goroutines that are driven by timers.
  The histogram of response times is a parameter, since the package is not part of the sources.  The REST and WebSocket interfaces for clients, the
  command line, the outputs and reporters are input and output.  The applications beside the engine (\<^verbatim>\<open>src/gulu\<close>, \<^verbatim>\<open>src/admin\<close>, \<^verbatim>\<open>src/common\<close>) are
  handlers around a database.  Logging has no effect on the state that is modelled.
\<close>

end
